(* ===== verification/Prelude.thy ===== *)
theory Prelude
  imports Complex_Main "HOL-Library.Word"
begin

text \<open>
  Shared vocabulary of the development: Python exceptions as values, the result
  type of fallible code, little-endian byte encodings (the part of
  \<^verbatim>\<open>struct\<close> and \<^verbatim>\<open>numpy.frombuffer\<close> the programs use), binary64 bit patterns,
  Python float comparison including NaN, and list facts the components share.
\<close>

unbundle bit_operations_syntax

named_theorems res_simps \<open>case rules of the result type\<close>
named_theorems enc_simps \<open>encode and decode round trips\<close>
named_theorems pf_simps \<open>Python float comparison\<close>

section \<open>Exceptions and results\<close>

text \<open>
  The exception classes the modelled code raises or lets escape. Message texts
  are not modelled, except that \<^verbatim>\<open>SystemExit\<close> carries its exit status.
\<close>

datatype pyexc =
    ValueError | RuntimeError | AssertionError | FileNotFoundError | FileExistsError
  | StructError | IndexError | KeyError | TypeError | AttributeError | ZeroDivisionError
  | MemoryError | StopRun | TimeoutExpired | CalledProcessError | ConnectionError | RpcError
  | ImportError | OverflowError | StopIteration | TimeoutError | NotImplementedError | SystemExit int

type_synonym 'a res = "pyexc + 'a"

abbreviation Raise :: "pyexc \<Rightarrow> 'a res" where
  "Raise \<equiv> Inl"

abbreviation Ret :: "'a \<Rightarrow> 'a res" where
  "Ret \<equiv> Inr"

fun rbind :: "'a res \<Rightarrow> ('a \<Rightarrow> 'b res) \<Rightarrow> 'b res" where
  "rbind (Inl e) f = Inl e"
| "rbind (Inr x) f = f x"

fun is_ret :: "'a res \<Rightarrow> bool" where
  "is_ret (Inl e) = False"
| "is_ret (Inr x) = True"

definition py_assert :: "bool \<Rightarrow> unit res" where
  "py_assert b = (if b then Ret () else Raise AssertionError)"

fun rmap :: "('a \<Rightarrow> 'b res) \<Rightarrow> 'a list \<Rightarrow> 'b list res" where
  "rmap f [] = Ret []"
| "rmap f (x # xs) = rbind (f x) (\<lambda>y. rbind (rmap f xs) (\<lambda>ys. Ret (y # ys)))"

lemma rbind_Ret_iff [res_simps]:
  "rbind m f = Inr y \<longleftrightarrow> (\<exists>x. m = Inr x \<and> f x = Inr y)"
  by (cases m) auto

lemma rbind_Raise_iff [res_simps]:
  "rbind m f = Inl e \<longleftrightarrow> m = Inl e \<or> (\<exists>x. m = Inr x \<and> f x = Inl e)"
  by (cases m) auto

lemma rbind_assoc: "rbind (rbind m f) g = rbind m (\<lambda>x. rbind (f x) g)"
  by (cases m) auto

lemma rbind_cong: "(\<And>x. m = Inr x \<Longrightarrow> f x = g x) \<Longrightarrow> rbind m f = rbind m g"
  by (cases m) auto

lemma is_ret_iff [res_simps]: "is_ret m \<longleftrightarrow> (\<exists>x. m = Inr x)"
  by (cases m) auto

lemma py_assert_Ret_iff [res_simps, simp]: "py_assert b = Inr u \<longleftrightarrow> b"
  by (simp add: py_assert_def)

lemma py_assert_True [simp]: "py_assert True = Inr ()"
  by (simp add: py_assert_def)

lemma rmap_Ret: "(\<And>x. x \<in> set xs \<Longrightarrow> f x = Ret (g x)) \<Longrightarrow> rmap f xs = Ret (map g xs)"
  by (induction xs) auto

lemma rmap_Ret_iff [res_simps]:
  "rmap f xs = Inr ys \<longleftrightarrow> list_all2 (\<lambda>x y. f x = Inr y) xs ys"
  by (induction xs arbitrary: ys) (auto simp: res_simps list_all2_Cons1)

section \<open>Lists\<close>

text \<open>\<open>chunks k xs\<close> cuts \<open>xs\<close> into consecutive pieces of \<open>k\<close> elements, the last one
  possibly shorter.\<close>

function chunks :: "nat \<Rightarrow> 'a list \<Rightarrow> 'a list list" where
  "chunks k xs = (if k = 0 \<or> xs = [] then [] else take k xs # chunks k (drop k xs))"
  by auto
termination
  by (relation "measure (\<lambda>(k, xs). length xs)") auto

declare chunks.simps [simp del]

lemma chunks_Nil [simp]: "chunks k [] = []"
  by (simp add: chunks.simps)

lemma chunks_append:
  "0 < k \<Longrightarrow> length c = k \<Longrightarrow> chunks k (c @ xs) = c # chunks k xs"
  by (subst chunks.simps) auto

lemma chunks_concat:
  "0 < k \<Longrightarrow> (\<And>c. c \<in> set cs \<Longrightarrow> length c = k) \<Longrightarrow> chunks k (concat cs) = cs"
  by (induction cs) (auto simp: chunks_append)

lemma concat_chunks [simp]: "0 < k \<Longrightarrow> concat (chunks k xs) = xs"
proof (induction k xs rule: chunks.induct)
  case (1 k xs)
  then show ?case by (subst chunks.simps) auto
qed

lemma length_concat_const:
  "(\<And>c. c \<in> set cs \<Longrightarrow> length c = k) \<Longrightarrow> length (concat cs) = length cs * k"
  by (induction cs) auto

lemma chunks_step: "0 < k \<Longrightarrow> xs \<noteq> [] \<Longrightarrow> chunks k xs = take k xs # chunks k (drop k xs)"
  by (simp add: chunks.simps [of k xs])

lemma length_chunks_mult:
  "0 < k \<Longrightarrow> length xs = n * k \<Longrightarrow>
     length (chunks k xs) = n \<and> (\<forall>c \<in> set (chunks k xs). length c = k)"
proof (induction n arbitrary: xs)
  case 0
  then show ?case by simp
next
  case (Suc n)
  then have "xs \<noteq> []" by auto
  from Suc.prems(2) have l: "length (drop k xs) = n * k" "length (take k xs) = k" by auto
  have "length (chunks k (drop k xs)) = n \<and> (\<forall>c \<in> set (chunks k (drop k xs)). length c = k)"
    by (rule Suc.IH [OF Suc.prems(1) l(1)])
  then show ?case
    unfolding chunks_step [OF Suc.prems(1) \<open>xs \<noteq> []\<close>] using l(2) by simp
qed

lemma nth_concat_const:
  "(\<And>c. c \<in> set cs \<Longrightarrow> length c = n) \<Longrightarrow> k < length cs \<Longrightarrow> j < n \<Longrightarrow> concat cs ! (n * k + j) = cs ! k ! j"
proof (induction cs arbitrary: k)
  case (Cons c cs)
  then have "length c = n" by simp
  with Cons show ?case by (cases k) (simp_all add: nth_append algebra_simps)
qed simp

definition dot :: "'a::comm_semiring_0 list \<Rightarrow> 'a list \<Rightarrow> 'a" where
  "dot xs ys = sum_list (map2 (*) xs ys)"

lemma dot_Nil [simp]: "dot [] ys = 0" "dot xs [] = 0"
  by (simp_all add: dot_def)

lemma dot_Cons [simp]: "dot (x # xs) (y # ys) = x * y + dot xs ys"
  by (simp add: dot_def)

lemma dot_sum:
  "length xs = length ys \<Longrightarrow> dot xs ys = (\<Sum>i<length xs. xs ! i * ys ! i)"
  by (simp add: dot_def sum_list_sum_nth atLeast0LessThan)

lemma dot_append:
  "length xs = length ys \<Longrightarrow> dot (xs @ xs') (ys @ ys') = dot xs ys + dot xs' ys'"
  by (simp add: dot_def)

lemma dot_replicate_0 [simp]: "dot (replicate n 0) ys = 0"
proof (induction n arbitrary: ys)
  case (Suc n)
  then show ?case by (cases ys) simp_all
qed simp

lemma dot_commute: "dot xs ys = dot ys xs"
  by (induction xs ys rule: list_induct2') (simp_all add: mult.commute)

text \<open>\<^verbatim>\<open>str(n)\<close> of a natural number.\<close>

fun py_str :: "nat \<Rightarrow> string" where
  "py_str n = (if n < 10 then [char_of (48 + n)] else py_str (n div 10) @ [char_of (48 + n mod 10)])"

declare py_str.simps [simp del]

section \<open>Little-endian encodings\<close>

type_synonym byte = "8 word"
type_synonym f64 = "64 word"
type_synonym u32 = "32 word"

fun le_bytes :: "nat \<Rightarrow> nat \<Rightarrow> byte list" where
  "le_bytes 0 n = []"
| "le_bytes (Suc k) n = word_of_nat n # le_bytes k (n div 256)"

fun le_nat :: "byte list \<Rightarrow> nat" where
  "le_nat [] = 0"
| "le_nat (b # bs) = unat b + 256 * le_nat bs"

lemma length_le_bytes [simp]: "length (le_bytes k n) = k"
  by (induction k arbitrary: n) auto

lemma le_nat_le_bytes [enc_simps]: "le_nat (le_bytes k n) = n mod 256 ^ k"
proof (induction k arbitrary: n)
  case (Suc k)
  have "unat (word_of_nat n :: byte) = n mod 256"
    by (simp add: unat_of_nat)
  with Suc show ?case by (simp add: mod_mult2_eq)
qed simp

lemma le_nat_bound: "le_nat bs < 256 ^ length bs"
proof (induction bs)
  case (Cons b bs)
  have "unat b < 256"
    using unsigned_less [of b, where ?'a = nat] by simp
  moreover have "256 * (le_nat bs + 1) \<le> 256 * 256 ^ length bs"
    using Cons.IH by (intro mult_le_mono2) simp
  ultimately show ?case by simp
qed simp

lemma byte_256 [simp]: "(256 :: byte) = 0"
  by simp

lemma le_bytes_le_nat [enc_simps]: "le_bytes (length bs) (le_nat bs) = bs"
proof (induction bs)
  case (Cons b bs)
  have "unat b < 256"
    using unsigned_less [of b, where ?'a = nat] by simp
  with Cons show ?case by simp
qed simp

definition pack_u32 :: "u32 \<Rightarrow> byte list" where
  "pack_u32 w = le_bytes 4 (unat w)"

definition pack_f64 :: "f64 \<Rightarrow> byte list" where
  "pack_f64 w = le_bytes 8 (unat w)"

text \<open>\<^verbatim>\<open>struct.unpack('<I', bs)\<close> and \<^verbatim>\<open>struct.unpack('<d', bs)\<close>: the buffer must have
  exactly the size of the format.\<close>

definition unpack_u32 :: "byte list \<Rightarrow> u32 res" where
  "unpack_u32 bs = (if length bs = 4 then Ret (word_of_nat (le_nat bs)) else Raise StructError)"

definition unpack_f64 :: "byte list \<Rightarrow> f64 res" where
  "unpack_f64 bs = (if length bs = 8 then Ret (word_of_nat (le_nat bs)) else Raise StructError)"

text \<open>\<^verbatim>\<open>struct.unpack_from(fmt, raw, off)\<close>: the buffer must hold the format's size at the
  offset.\<close>

definition unpack_u32_from :: "byte list \<Rightarrow> nat \<Rightarrow> u32 res" where
  "unpack_u32_from raw off =
     (if off + 4 \<le> length raw then unpack_u32 (take 4 (drop off raw)) else Raise StructError)"

definition unpack_f64_from :: "byte list \<Rightarrow> nat \<Rightarrow> f64 res" where
  "unpack_f64_from raw off =
     (if off + 8 \<le> length raw then unpack_f64 (take 8 (drop off raw)) else Raise StructError)"

definition unpack_f64s_from :: "nat \<Rightarrow> byte list \<Rightarrow> nat \<Rightarrow> f64 list res" where
  "unpack_f64s_from k raw off =
     (if off + 8 * k \<le> length raw then rmap unpack_f64 (chunks 8 (take (8 * k) (drop off raw)))
      else Raise StructError)"

text \<open>\<^verbatim>\<open>np.frombuffer(bs, dtype='<f8')\<close>: the length must be a multiple of 8; an
  empty buffer gives an empty array.\<close>

definition frombuffer_f64 :: "byte list \<Rightarrow> f64 list res" where
  "frombuffer_f64 bs =
     (if length bs mod 8 = 0 then rmap unpack_f64 (chunks 8 bs) else Raise ValueError)"

lemma length_pack [simp]: "length (pack_u32 w) = 4" "length (pack_f64 x) = 8"
  by (simp_all add: pack_u32_def pack_f64_def)

lemma unpack_u32_pack [enc_simps, simp]: "unpack_u32 (pack_u32 w) = Ret w"
proof -
  have "unat w < 256 ^ 4"
    using unsigned_less [of w, where ?'a = nat] by simp
  then show ?thesis by (simp add: unpack_u32_def pack_u32_def le_nat_le_bytes)
qed

lemma unpack_f64_pack [enc_simps, simp]: "unpack_f64 (pack_f64 w) = Ret w"
proof -
  have "unat w < 256 ^ 8"
    using unsigned_less [of w, where ?'a = nat] by simp
  then show ?thesis by (simp add: unpack_f64_def pack_f64_def le_nat_le_bytes)
qed

lemma rmap_unpack_pack [enc_simps]: "rmap unpack_f64 (map pack_f64 ws) = Ret ws"
  by (induction ws) auto

lemma chunks_pack [enc_simps]: "chunks 8 (concat (map pack_f64 ws)) = map pack_f64 ws"
  by (rule chunks_concat) auto

lemma length_concat_pack [simp]: "length (concat (map pack_f64 ws)) = 8 * length ws"
  by (induction ws) auto

lemma unpack_u32_Ret_iff [enc_simps]: "unpack_u32 bs = Inr w \<longleftrightarrow> bs = pack_u32 w"
proof
  assume r: "unpack_u32 bs = Inr w"
  then have l: "length bs = 4" and w: "w = word_of_nat (le_nat bs)"
    by (auto simp: unpack_u32_def split: if_splits)
  have "le_nat bs < 2 ^ 32" using le_nat_bound [of bs] l by simp
  then show "bs = pack_u32 w"
    using le_bytes_le_nat [of bs] l w by (simp add: pack_u32_def unat_of_nat take_bit_nat_eq_self)
qed simp

lemma unpack_f64_Ret_iff [enc_simps]: "unpack_f64 bs = Inr w \<longleftrightarrow> bs = pack_f64 w"
proof
  assume r: "unpack_f64 bs = Inr w"
  then have l: "length bs = 8" and w: "w = word_of_nat (le_nat bs)"
    by (auto simp: unpack_f64_def split: if_splits)
  have "le_nat bs < 2 ^ 64" using le_nat_bound [of bs] l by simp
  then show "bs = pack_f64 w"
    using le_bytes_le_nat [of bs] l w by (simp add: pack_f64_def unat_of_nat take_bit_nat_eq_self)
qed simp

lemma rmap_unpack_Ret_iff [enc_simps]: "rmap unpack_f64 cs = Inr ws \<longleftrightarrow> cs = map pack_f64 ws"
proof -
  have "list_all2 (\<lambda>c w. c = pack_f64 w) cs ws \<longleftrightarrow> cs = map pack_f64 ws"
    by (induction cs arbitrary: ws) (auto simp: list_all2_Cons1 Cons_eq_map_conv)
  then show ?thesis by (simp add: rmap_Ret_iff unpack_f64_Ret_iff)
qed

lemma chunks_pack_iff: "chunks 8 bs = map pack_f64 ws \<longleftrightarrow> bs = concat (map pack_f64 ws)"
  by (metis concat_chunks chunks_pack zero_less_numeral)

lemma frombuffer_Ret_iff [enc_simps]: "frombuffer_f64 bs = Inr ws \<longleftrightarrow> bs = concat (map pack_f64 ws)"
  by (auto simp: frombuffer_f64_def rmap_unpack_Ret_iff chunks_pack_iff)

lemma unpack_f64s_from_Ret_iff [enc_simps]:
  "unpack_f64s_from k raw off = Inr ws \<longleftrightarrow>
     off + 8 * k \<le> length raw \<and> take (8 * k) (drop off raw) = concat (map pack_f64 ws)"
  by (auto simp: unpack_f64s_from_def rmap_unpack_Ret_iff chunks_pack_iff)

lemma unpack_u32_total: "length bs = 4 \<Longrightarrow> \<exists>w. unpack_u32 bs = Inr w"
  by (simp add: unpack_u32_def)

lemma frombuffer_pack [enc_simps, simp]: "frombuffer_f64 (concat (map pack_f64 ws)) = Ret ws"
  by (simp add: frombuffer_Ret_iff)

lemma rmap_unpack_chunks:
  "length bs = n * 8 \<Longrightarrow>
     rmap unpack_f64 (chunks 8 bs) = Ret (map (\<lambda>c. word_of_nat (le_nat c)) (chunks 8 bs))"
  using length_chunks_mult [of 8 bs n] by (intro rmap_Ret) (simp add: unpack_f64_def)

lemma rmap_unpack_chunks_total:
  "length bs = n * 8 \<Longrightarrow> \<exists>ws. length ws = n \<and> rmap unpack_f64 (chunks 8 bs) = Inr ws"
  using length_chunks_mult [of 8 bs n] rmap_unpack_chunks [of bs n] by simp

lemma unpack_f64s_from_total:
  "off + 8 * k \<le> length raw \<Longrightarrow> \<exists>ws. length ws = k \<and> unpack_f64s_from k raw off = Inr ws"
  using rmap_unpack_chunks_total [of "take (8 * k) (drop off raw)" k]
  by (simp add: unpack_f64s_from_def)

section \<open>Arrays and files\<close>

text \<open>A numpy array: its shape and its elements in C order.\<close>

record 'a ndarray =
  shape :: "nat list"
  elems :: "'a list"

definition ndarray_wf :: "'a ndarray \<Rightarrow> bool" where
  "ndarray_wf a \<longleftrightarrow> length (elems a) = prod_list (shape a)"

definition vec :: "'a list \<Rightarrow> 'a ndarray" where
  "vec xs = \<lparr>shape = [length xs], elems = xs\<rparr>"

lemma vec_simps [simp]: "shape (vec xs) = [length xs]" "elems (vec xs) = xs" "ndarray_wf (vec xs)"
  by (simp_all add: vec_def ndarray_wf_def)

text \<open>The files a program sees: contents by path, as bytes.\<close>

type_synonym path = string
type_synonym fs = "path \<rightharpoonup> byte list"

definition read_bytes :: "fs \<Rightarrow> path \<Rightarrow> byte list res" where
  "read_bytes fs p = (case fs p of None \<Rightarrow> Raise FileNotFoundError | Some raw \<Rightarrow> Ret raw)"

section \<open>Binary64 bit patterns\<close>

text \<open>A binary64 value is finite unless its eleven exponent bits are all ones.\<close>

definition f64_isfinite :: "f64 \<Rightarrow> bool" where
  "f64_isfinite w \<longleftrightarrow> take_bit 11 (drop_bit 52 w) \<noteq> 2047"

text \<open>The real number a finite bit pattern denotes.\<close>

definition f64_real :: "f64 \<Rightarrow> real" where
  "f64_real w =
     (let s = (if bit w 63 then - 1 else 1);
          e = unat (take_bit 11 (drop_bit 52 w));
          m = unat (take_bit 52 w)
      in s * (if e = 0 then real m * 2 powi (- 1074) else real (2 ^ 52 + m) * 2 powi (int e - 1075)))"

text \<open>Float equality on bit patterns: NaN differs from everything, the two zeros are equal.\<close>

definition f64_is_nan :: "f64 \<Rightarrow> bool" where
  "f64_is_nan w \<longleftrightarrow> \<not> f64_isfinite w \<and> take_bit 52 w \<noteq> 0"

definition f64_eq :: "f64 \<Rightarrow> f64 \<Rightarrow> bool" where
  "f64_eq v w \<longleftrightarrow> (v = w \<and> \<not> f64_is_nan v) \<or> (take_bit 63 v = 0 \<and> take_bit 63 w = 0)"

section \<open>Python floats\<close>

text \<open>
  Python floats with the two infinities and NaN. Arithmetic of finite values is
  exact (rounding and overflow are idealised away); comparisons are Python's, so every
  comparison with NaN is false.
\<close>

datatype pyfloat = NaN | PInf | NInf | Fin real

fun pf_lt :: "pyfloat \<Rightarrow> pyfloat \<Rightarrow> bool" where
  "pf_lt (Fin x) (Fin y) = (x < y)"
| "pf_lt (Fin x) PInf = True"
| "pf_lt NInf (Fin y) = True"
| "pf_lt NInf PInf = True"
| "pf_lt _ _ = False"

definition pf_le :: "pyfloat \<Rightarrow> pyfloat \<Rightarrow> bool" where
  "pf_le x y \<longleftrightarrow> x \<noteq> NaN \<and> y \<noteq> NaN \<and> (x = y \<or> pf_lt x y)"

abbreviation pf_ge :: "pyfloat \<Rightarrow> pyfloat \<Rightarrow> bool" where
  "pf_ge x y \<equiv> pf_le y x"

abbreviation pf_gt :: "pyfloat \<Rightarrow> pyfloat \<Rightarrow> bool" where
  "pf_gt x y \<equiv> pf_lt y x"

fun pf_neg :: "pyfloat \<Rightarrow> pyfloat" where
  "pf_neg NaN = NaN"
| "pf_neg PInf = NInf"
| "pf_neg NInf = PInf"
| "pf_neg (Fin x) = Fin (- x)"

fun pf_abs :: "pyfloat \<Rightarrow> pyfloat" where
  "pf_abs NaN = NaN"
| "pf_abs PInf = PInf"
| "pf_abs NInf = PInf"
| "pf_abs (Fin x) = Fin \<bar>x\<bar>"

fun pf_add :: "pyfloat \<Rightarrow> pyfloat \<Rightarrow> pyfloat" where
  "pf_add NaN y = NaN"
| "pf_add x NaN = NaN"
| "pf_add (Fin x) (Fin y) = Fin (x + y)"
| "pf_add (Fin x) y = y"
| "pf_add x (Fin y) = x"
| "pf_add x y = (if x = y then x else NaN)"

definition pf_sub :: "pyfloat \<Rightarrow> pyfloat \<Rightarrow> pyfloat" where
  "pf_sub x y = pf_add x (pf_neg y)"

fun pf_mul :: "pyfloat \<Rightarrow> pyfloat \<Rightarrow> pyfloat" where
  "pf_mul NaN y = NaN"
| "pf_mul x NaN = NaN"
| "pf_mul (Fin x) (Fin y) = Fin (x * y)"
| "pf_mul (Fin x) y = (if x = 0 then NaN else if 0 < x then y else pf_neg y)"
| "pf_mul x (Fin y) = (if y = 0 then NaN else if 0 < y then x else pf_neg x)"
| "pf_mul x y = (if x = y then PInf else NInf)"

text \<open>\<^verbatim>\<open>np.max\<close>: propagates NaN, and refuses an empty array.\<close>

definition pf_max :: "pyfloat \<Rightarrow> pyfloat \<Rightarrow> pyfloat" where
  "pf_max x y = (if x = NaN \<or> y = NaN then NaN else if pf_lt x y then y else x)"

fun np_max :: "pyfloat list \<Rightarrow> pyfloat res" where
  "np_max [] = Raise ValueError"
| "np_max (x # xs) = Ret (fold pf_max xs x)"

lemma pf_lt_NaN [simp]: "\<not> pf_lt NaN y" "\<not> pf_lt x NaN"
  by (cases x; cases y; simp)+

lemma pf_le_NaN [simp]: "\<not> pf_le NaN y" "\<not> pf_le x NaN"
  by (simp_all add: pf_le_def)

lemma pf_le_Fin [simp]: "pf_le (Fin x) (Fin y) \<longleftrightarrow> x \<le> y"
  by (auto simp: pf_le_def)

lemma pf_sub_Fin [simp]: "pf_sub (Fin x) (Fin y) = Fin (x - y)"
  by (simp add: pf_sub_def)

lemma pf_lt_iff_not_ge: "x \<noteq> NaN \<Longrightarrow> y \<noteq> NaN \<Longrightarrow> pf_lt x y \<longleftrightarrow> \<not> pf_le y x"
  by (cases x; cases y) (auto simp: pf_le_def)

lemma pf_max_lt_iff: "pf_lt (pf_max x y) t \<longleftrightarrow> pf_lt x t \<and> pf_lt y t"
  by (cases x; cases y; cases t) (auto simp: pf_max_def)

lemma fold_pf_max_lt_iff:
  "pf_lt (fold pf_max xs x) t \<longleftrightarrow> pf_lt x t \<and> (\<forall>y \<in> set xs. pf_lt y t)"
  by (induction xs arbitrary: x) (auto simp: pf_max_lt_iff)

lemma np_max_lt_iff [pf_simps]:
  "np_max xs = Inr m \<Longrightarrow> pf_lt m t \<longleftrightarrow> (\<forall>y \<in> set xs. pf_lt y t)"
  by (cases xs) (auto simp: fold_pf_max_lt_iff)

lemma pf_max_NaN [simp]: "pf_max NaN y = NaN" "pf_max x NaN = NaN"
  by (simp_all add: pf_max_def)

lemma pf_max_eq_NaN_iff: "pf_max x y = NaN \<longleftrightarrow> x = NaN \<or> y = NaN"
  by (simp add: pf_max_def)

lemma fold_pf_max_NaN_iff: "fold pf_max xs x = NaN \<longleftrightarrow> x = NaN \<or> NaN \<in> set xs"
  by (induction xs arbitrary: x) (auto simp: pf_max_eq_NaN_iff)

lemma np_max_NaN_iff [pf_simps]: "np_max xs = Inr NaN \<longleftrightarrow> NaN \<in> set xs"
  by (cases xs) (auto simp: fold_pf_max_NaN_iff)

lemma np_max_Ret_iff [pf_simps]: "(\<exists>m. np_max xs = Inr m) \<longleftrightarrow> xs \<noteq> []"
  by (cases xs) auto

end
