(* ===== verification/Negacyclic.thy ===== *)
theory Negacyclic
  imports Prelude
begin

text \<open>
  Coefficient-native packing (CNP) on plaintext integers, from \<^verbatim>\<open>scripts/cnp_gate.py\<close>: the exact
  negacyclic product by Kronecker substitution, the shift-and-add reference at 64-bit width, and the
  layout trials that compare the two and read lane outputs. \<open>nega\<close> is the product in
  \<open>\<int>[X]/(X\<^sup>N + 1)\<close>; both routines are proved to compute it, and its coefficient \<open>256 k + 255\<close> against
  reversed weights is lane \<open>k\<close>'s dot product.
\<close>

section \<open>Definitions from the source\<close>

text \<open>numpy's \<^verbatim>\<open>int64\<close> wraps around.\<close>

definition i64 :: "int \<Rightarrow> int" where
  "i64 x = signed_take_bit 63 x"

text \<open>The exact product: entries are written as 8-byte little-endian limbs, the two big integers are
  multiplied, and the product is read back limb by limb.\<close>

definition limb_bytes :: "int list \<Rightarrow> byte list" where
  "limb_bytes xs = concat (map (\<lambda>x. le_bytes 8 (nat x)) xs)"

definition negacyclic_mul_exact :: "int list \<Rightarrow> int list \<Rightarrow> nat \<Rightarrow> (int list \<times> int list) res" where
  "negacyclic_mul_exact a b N =
     (if \<not> length b \<le> 256 then Raise AssertionError
      else if a = [] then Raise ValueError
      else if \<not> (\<forall>x \<in> set a. x < 2 ^ 25) then Raise AssertionError
      else if b = [] then Raise ValueError
      else if \<not> ((\<forall>x \<in> set b. x < 2 ^ 25) \<and> (\<forall>x \<in> set a. 0 \<le> x) \<and> (\<forall>x \<in> set b. 0 \<le> x)) then Raise AssertionError
      else
        let A = le_nat (limb_bytes a);
            B = le_nat (limb_bytes b);
            C = A * B;
            nbytes = 8 * (length a + length b);
            c = map (\<lambda>l. int (le_nat l)) (chunks 8 (le_bytes nbytes C));
            lo = take N c;
            hi = drop N c;
            folded = map2 (-) (take (length hi) lo) hi @ drop (length hi) lo
        in Ret (folded, hi))"

text \<open>The reference: \<^verbatim>\<open>out[d:] += a[:N-d]*bd\<close> and \<^verbatim>\<open>out[:d] -= a[N-d:]*bd\<close> for each entry of
  \<open>b\<close>. Callers pass arrays with \<open>length a = N\<close> and \<open>length b \<le> N\<close>, for which the slices line up.\<close>

definition nega_step :: "int list \<Rightarrow> nat \<Rightarrow> nat \<Rightarrow> int \<Rightarrow> int list \<Rightarrow> int list" where
  "nega_step a N d bd out =
     map (\<lambda>i. if d \<le> i then i64 (out ! i + i64 (a ! (i - d) * bd))
              else i64 (out ! i - i64 (a ! (N - d + i) * bd))) [0..<N]"

definition naive_negacyclic :: "int list \<Rightarrow> int list \<Rightarrow> nat \<Rightarrow> int list" where
  "naive_negacyclic a b N =
     fold (\<lambda>(d, bd) out. nega_step a N d bd out) (enumerate 0 b) (replicate N 0)"

text \<open>One trial and the trial loop. The random draws \<open>(x, w)\<close> are arguments; the wrap-target assertion
  before the loop is over the fixed index sets. The result records the parameters.\<close>

record layout_res =
  lr_N :: nat
  lr_L :: nat
  lr_trials :: nat
  lr_pass :: bool
  lr_wrap_target_range :: "nat \<times> nat"

definition out_idx :: "nat \<Rightarrow> nat list" where
  "out_idx L = map (\<lambda>k. k * 256 + 255) [0..<L]"

definition layout_trial :: "nat \<Rightarrow> nat \<Rightarrow> int list \<times> int list \<Rightarrow> unit res" where
  "layout_trial N L = (\<lambda>(x, w).
     let wrev = rev w in
     rbind (negacyclic_mul_exact x wrev N) (\<lambda>(folded, hi).
     let ref = naive_negacyclic x wrev N in
     rbind (py_assert (\<forall>i \<in> set [0..<N]. folded ! i = ref ! i)) (\<lambda>_.
     rbind (py_assert (\<forall>k \<in> set [0..<L]. folded ! (256 * k + 255) = (\<Sum>j\<leftarrow>[0..<256]. x ! (256 * k + j) * w ! j))) (\<lambda>_.
     rbind (py_assert (hi ! 255 = 0 \<and> length hi = 256)) (\<lambda>_.
     py_assert (\<exists>m \<in> set [0..<255]. hi ! m \<noteq> 0))))))"

definition layout_trials :: "nat \<Rightarrow> nat \<Rightarrow> (int list \<times> int list) list \<Rightarrow> layout_res res" where
  "layout_trials N L draws =
     rbind (py_assert (set [0..<255] \<inter> set (out_idx L) = {})) (\<lambda>_.
     rbind (rmap (layout_trial N L) draws) (\<lambda>_.
     Ret \<lparr>lr_N = N, lr_L = L, lr_trials = length draws, lr_pass = True, lr_wrap_target_range = (0, 254)\<rparr>))"

section \<open>The negacyclic product\<close>

definition nega :: "'a::comm_ring_1 list \<Rightarrow> 'a list \<Rightarrow> nat \<Rightarrow> nat \<Rightarrow> 'a" where
  "nega a b N i = (\<Sum>d<length b. if d \<le> i then a ! (i - d) * b ! d else - (a ! (N - d + i) * b ! d))"

text \<open>The full product before folding.\<close>

definition conv :: "'a::comm_semiring_1 list \<Rightarrow> 'a list \<Rightarrow> nat \<Rightarrow> 'a" where
  "conv a b k = (\<Sum>d<length b. if d \<le> k \<and> k - d < length a then a ! (k - d) * b ! d else 0)"

lemma conv_fold:
  assumes "length a = N" and "length b \<le> N" and "i < N"
  shows "conv a b i - conv a b (N + i) = nega a b N i"
proof -
  have "conv a b i - conv a b (N + i) =
     (\<Sum>d<length b. (if d \<le> i \<and> i - d < length a then a ! (i - d) * b ! d else 0)
       - (if d \<le> N + i \<and> N + i - d < length a then a ! (N + i - d) * b ! d else 0))"
    by (simp add: conv_def sum_subtractf)
  also have "\<dots> = nega a b N i"
    unfolding nega_def
  proof (rule sum.cong [OF refl])
    fix d assume "d \<in> {..<length b}"
    then have "d < N" using assms(2) by simp
    then show "(if d \<le> i \<and> i - d < length a then a ! (i - d) * b ! d else 0)
       - (if d \<le> N + i \<and> N + i - d < length a then a ! (N + i - d) * b ! d else 0) =
       (if d \<le> i then a ! (i - d) * b ! d else - (a ! (N - d + i) * b ! d))"
      using assms by auto
  qed
  finally show ?thesis .
qed

text \<open>Lane \<open>k\<close>'s output: with the weights reversed, coefficient \<open>256 k + 255\<close> collects exactly
  \<open>x\<^bsub>256k+j\<^esub> w\<^sub>j\<close>; no term wraps around onto it.\<close>

lemma nega_lane:
  assumes "length w = 256" and "256 * k + 255 < N"
  shows "nega x (rev w) N (256 * k + 255) = (\<Sum>j<256. x ! (256 * k + j) * w ! j)"
proof -
  have "nega x (rev w) N (256 * k + 255) = (\<Sum>d<256. x ! (256 * k + (255 - d)) * w ! (255 - d))"
    using assms by (auto simp: nega_def rev_nth intro!: sum.cong)
  also have "\<dots> = (\<Sum>j<256. x ! (256 * k + j) * w ! j)"
    using sum.nat_diff_reindex [of "\<lambda>j. x ! (256 * k + j) * w ! j" 256] by simp
  finally show ?thesis .
qed

section \<open>The shift-and-add reference computes it without overflow\<close>

lemma i64_id: "- (2 ^ 63) \<le> x \<Longrightarrow> x < 2 ^ 63 \<Longrightarrow> i64 x = x"
  unfolding i64_def by (rule signed_take_bit_int_eq_self) simp_all

definition bounded :: "int \<Rightarrow> int list \<Rightarrow> bool" where
  "bounded B xs \<longleftrightarrow> (\<forall>x \<in> set xs. 0 \<le> x \<and> x < B)"

lemma bounded_nth: "bounded B xs \<Longrightarrow> i < length xs \<Longrightarrow> 0 \<le> xs ! i \<and> xs ! i < B"
  by (simp add: bounded_def)

lemma bounded_mult:
  "0 \<le> x \<and> x < (2::int) ^ 25 \<Longrightarrow> 0 \<le> y \<and> y < 2 ^ 25 \<Longrightarrow> 0 \<le> x * y \<and> x * y < 2 ^ 50"
  using mult_strict_mono' [of x "2 ^ 25" y "2 ^ 25"] by simp

text \<open>Partial sums after \<open>n\<close> of the entries of \<open>b\<close>.\<close>

lemma nega_abs_bound:
  assumes "bounded (2 ^ 25) a" "bounded (2 ^ 25) b" "length a = N" "length b \<le> N" "i < N"
  shows "\<bar>nega a b N i\<bar> \<le> int (length b) * 2 ^ 50"
proof -
  have "\<bar>nega a b N i\<bar> \<le> (\<Sum>d<length b. 2 ^ 50)"
    unfolding nega_def
  proof (intro order_trans [OF sum_abs] sum_mono)
    fix d assume "d \<in> {..<length b}"
    then have d: "d < length b" by simp
    have "0 \<le> a ! (i - d) * b ! d \<and> a ! (i - d) * b ! d < 2 ^ 50"
      by (intro bounded_mult bounded_nth assms d) (use assms in simp)
    moreover have "0 \<le> a ! (N - d + i) * b ! d \<and> a ! (N - d + i) * b ! d < 2 ^ 50" if "\<not> d \<le> i"
      by (intro bounded_mult bounded_nth assms d) (use assms that d in simp)
    ultimately show "\<bar>if d \<le> i then a ! (i - d) * b ! d else - (a ! (N - d + i) * b ! d)\<bar> \<le> 2 ^ 50"
      by auto
  qed
  then show ?thesis by simp
qed

lemma nega_snoc:
  "nega a (b @ [y]) N i = nega a b N i +
     (if length b \<le> i then a ! (i - length b) * y else - (a ! (N - length b + i) * y))"
  by (auto simp: nega_def nth_append intro!: sum.cong)

lemma naive_snoc:
  "naive_negacyclic a (b @ [y]) N = nega_step a N (length b) y (naive_negacyclic a b N)"
  by (simp add: naive_negacyclic_def enumerate_append_eq)

lemma naive_negacyclic_correct:
  assumes "bounded (2 ^ 25) a" "bounded (2 ^ 25) b" "length a = N" "length b \<le> N" "length b \<le> 256"
  shows "naive_negacyclic a b N = map (nega a b N) [0..<N]"
  using assms
proof (induction b rule: rev_induct)
  case Nil
  then show ?case by (simp add: naive_negacyclic_def nega_def map_replicate_const)
next
  case (snoc y b)
  let ?d = "length b"
  have b: "bounded (2 ^ 25) b" "0 \<le> y" "y < 2 ^ 25" using snoc.prems by (auto simp: bounded_def)
  have IH: "naive_negacyclic a b N = map (nega a b N) [0..<N]"
    using snoc.IH snoc.prems b(1) by simp
  have "nega_step a N ?d y (map (nega a b N) [0..<N]) ! i = nega a (b @ [y]) N i" if i: "i < N" for i
  proof -
    have "\<bar>nega a b N i\<bar> \<le> int ?d * 2 ^ 50"
      using nega_abs_bound [OF snoc.prems(1) b(1) snoc.prems(3) _ i] snoc.prems by simp
    moreover have "int ?d * 2 ^ 50 \<le> 255 * 2 ^ 50" using snoc.prems by simp
    ultimately have n: "\<bar>nega a b N i\<bar> \<le> 255 * 2 ^ 50" by (rule order_trans)
    have p: "0 \<le> a ! j * y \<and> a ! j * y < 2 ^ 50" if "j < N" for j
      using bounded_nth [OF snoc.prems(1), of j] snoc.prems(3) that b by (intro bounded_mult) auto
    have w: "i64 (a ! j * y) = a ! j * y" if "j < N" for j
      using p [OF that] by (intro i64_id) auto
    show ?thesis
    proof (cases "?d \<le> i")
      case True
      then have "i64 (nega a b N i + a ! (i - ?d) * y) = nega a b N i + a ! (i - ?d) * y"
        using n p [OF less_imp_diff_less [OF i], of ?d] by (intro i64_id) auto
      then show ?thesis using True i by (simp add: nega_step_def nega_snoc w)
    next
      case False
      then have j: "N - ?d + i < N" using snoc.prems by simp
      then have "i64 (nega a b N i - a ! (N - ?d + i) * y) = nega a b N i - a ! (N - ?d + i) * y"
        using n p [OF j] by (intro i64_id) auto
      then show ?thesis using False i j by (simp add: nega_step_def nega_snoc w)
    qed
  qed
  then show ?case
    unfolding naive_snoc IH by (intro nth_equalityI) (simp_all add: nega_step_def)
qed

section \<open>Kronecker substitution computes it\<close>

lemma le_nat_append: "le_nat (xs @ ys) = le_nat xs + 256 ^ length xs * le_nat ys"
  by (induction xs) (simp_all add: algebra_simps)

lemma le_nat_concat:
  "(\<And>c. c \<in> set cs \<Longrightarrow> length c = k) \<Longrightarrow> le_nat (concat cs) = (\<Sum>i<length cs. le_nat (cs ! i) * (256 ^ k) ^ i)"
proof (induction cs)
  case (Cons c cs)
  then show ?case
    by (simp add: le_nat_append sum.lessThan_Suc_shift sum_distrib_left algebra_simps del: sum.lessThan_Suc)
qed simp

lemma bounded_limb: "bounded (2 ^ 25) xs \<Longrightarrow> i < length xs \<Longrightarrow> nat (xs ! i) mod 2 ^ 64 = nat (xs ! i)"
  using bounded_nth [of "2 ^ 25" xs i] by (intro mod_less) (simp add: nat_less_iff)

lemma limb_base: "(256 :: nat) ^ 8 = 2 ^ 64"
  by simp

lemma le_nat_limbs:
  assumes "bounded (2 ^ 25) xs"
  shows "le_nat (limb_bytes xs) = (\<Sum>i<length xs. nat (xs ! i) * (2 ^ 64) ^ i)"
proof -
  let ?cs = "map (\<lambda>x. le_bytes 8 (nat x)) xs"
  have "le_nat (limb_bytes xs) = (\<Sum>i<length ?cs. le_nat (?cs ! i) * (256 ^ 8) ^ i)"
    unfolding limb_bytes_def by (rule le_nat_concat) auto
  also have "\<dots> = (\<Sum>i<length xs. nat (xs ! i) * (2 ^ 64) ^ i)"
  proof (rule sum.cong)
    fix i assume "i \<in> {..<length xs}"
    then have "i < length xs" by simp
    then have "le_nat (?cs ! i) = nat (xs ! i)"
      using bounded_limb [OF assms, of i] by (simp only: nth_map le_nat_le_bytes limb_base)
    then show "le_nat (?cs ! i) * (256 ^ 8) ^ i = nat (xs ! i) * (2 ^ 64) ^ i"
      by (simp only: limb_base)
  qed simp
  finally show ?thesis .
qed

text \<open>Product of two sums of digits, by coefficient.\<close>

lemma digits_product:
  fixes a b :: "'a::comm_semiring_1 list"
  shows "(\<Sum>i<length a. a ! i * B ^ i) * (\<Sum>d<length b. b ! d * B ^ d) = (\<Sum>k<length a + length b. conv a b k * B ^ k)"
proof -
  have "(\<Sum>k<length a + length b. conv a b k * B ^ k) =
      (\<Sum>d<length b. \<Sum>k<length a + length b. if d \<le> k \<and> k - d < length a then a ! (k - d) * b ! d * B ^ k else 0)"
    unfolding conv_def sum_distrib_right by (subst sum.swap) (auto intro!: sum.cong)
  also have "\<dots> = (\<Sum>d<length b. \<Sum>i<length a. a ! i * B ^ i * (b ! d * B ^ d))"
  proof (rule sum.cong [OF refl])
    fix d assume "d \<in> {..<length b}"
    then have d: "d < length b" by simp
    have "(\<Sum>k<length a + length b. if d \<le> k \<and> k - d < length a then a ! (k - d) * b ! d * B ^ k else 0)
        = (\<Sum>k\<in>{d..<length a + d}. a ! (k - d) * b ! d * B ^ k)"
      using d by (intro sum.mono_neutral_cong_right) auto
    also have "\<dots> = (\<Sum>i<length a. a ! i * b ! d * B ^ (i + d))"
      using sum.shift_bounds_nat_ivl [of "\<lambda>k. a ! (k - d) * b ! d * B ^ k" 0 d "length a"]
      by (simp add: atLeast0LessThan)
    finally show "(\<Sum>k<length a + length b. if d \<le> k \<and> k - d < length a then a ! (k - d) * b ! d * B ^ k else 0)
        = (\<Sum>i<length a. a ! i * B ^ i * (b ! d * B ^ d))"
      by (simp add: power_add ac_simps)
  qed
  also have "\<dots> = (\<Sum>i<length a. a ! i * B ^ i) * (\<Sum>d<length b. b ! d * B ^ d)"
    by (subst sum.swap) (simp add: sum_product)
  finally show ?thesis ..
qed

lemma le_bytes_append: "le_bytes (k + m) x = le_bytes k x @ le_bytes m (x div 256 ^ k)"
  by (induction k arbitrary: x) (simp_all add: div_mult2_eq)

text \<open>Digits below the base are read back one by one.\<close>

lemma chunks_le_bytes:
  "(\<And>i. i < n \<Longrightarrow> f i < 2 ^ 64) \<Longrightarrow>
     map le_nat (chunks 8 (le_bytes (8 * n) (\<Sum>i<n. f i * (2 ^ 64) ^ i))) = map f [0..<n]"
proof (induction n arbitrary: f)
  case (Suc n)
  define r where "r = (\<Sum>i<n. f (Suc i) * (2 ^ 64) ^ i)"
  have s: "(\<Sum>i<Suc n. f i * (2 ^ 64) ^ i) = f 0 + 2 ^ 64 * r"
    by (simp add: sum.lessThan_Suc_shift sum_distrib_left r_def ac_simps del: sum.lessThan_Suc)
  have split: "le_bytes (8 + m) x = le_bytes 8 x @ le_bytes m (x div 2 ^ 64)" for m x
    unfolding le_bytes_append limb_base ..
  have b: "(f 0 + 2 ^ 64 * r) div 2 ^ 64 = r" "(f 0 + 2 ^ 64 * r) mod 2 ^ 64 = f 0"
    using Suc.prems [of 0] by simp_all
  have "map le_nat (chunks 8 (le_bytes (8 + 8 * n) (f 0 + 2 ^ 64 * r))) = f 0 # map le_nat (chunks 8 (le_bytes (8 * n) r))"
    unfolding split b(1)
    by (subst chunks_append) (simp_all only: length_le_bytes zero_less_numeral list.map le_nat_le_bytes limb_base b(2))
  also have "map le_nat (chunks 8 (le_bytes (8 * n) r)) = map (\<lambda>i. f (Suc i)) [0..<n]"
    unfolding r_def by (rule Suc.IH, rule Suc.prems) simp
  also have "f 0 # map (\<lambda>i. f (Suc i)) [0..<n] = map f [0..<Suc n]"
    by (simp add: map_upt_Suc del: upt_Suc)
  finally show ?case unfolding s by simp
qed simp

lemma int_conv:
  assumes "bounded B a" "bounded B b"
  shows "int (conv (map nat a) (map nat b) k) = conv a b k"
  unfolding conv_def of_nat_sum length_map
proof (rule sum.cong [OF refl])
  fix d assume "d \<in> {..<length b}"
  then show "int (if d \<le> k \<and> k - d < length a then map nat a ! (k - d) * map nat b ! d else 0) =
      (if d \<le> k \<and> k - d < length a then a ! (k - d) * b ! d else 0)"
    using bounded_nth [OF assms(1), of "k - d"] bounded_nth [OF assms(2), of d] by simp
qed

lemma conv_bound:
  assumes "bounded (2 ^ 25) a" "bounded (2 ^ 25) b" "length b \<le> 256"
  shows "0 \<le> conv a b k \<and> conv a b k \<le> 256 * 2 ^ 50"
proof
  have t: "0 \<le> (if d \<le> k \<and> k - d < length a then a ! (k - d) * b ! d else 0) \<and>
      (if d \<le> k \<and> k - d < length a then a ! (k - d) * b ! d else 0) \<le> 2 ^ 50" if "d < length b" for d
    using bounded_mult [OF bounded_nth [OF assms(1)] bounded_nth [OF assms(2) that], of "k - d"] by auto
  show "0 \<le> conv a b k" unfolding conv_def by (intro sum_nonneg) (use t in blast)
  have "conv a b k \<le> (\<Sum>d<length b. 2 ^ 50)" unfolding conv_def by (intro sum_mono) (use t in blast)
  also have "\<dots> = int (length b) * 2 ^ 50" by simp
  also have "\<dots> \<le> 256 * 2 ^ 50" using assms(3) by (intro mult_right_mono) auto
  finally show "conv a b k \<le> 256 * 2 ^ 50" .
qed

text \<open>The limbs read back from the product are its coefficients: none overflows into its neighbour.\<close>

lemma kronecker_limbs:
  assumes "bounded (2 ^ 25) a" "bounded (2 ^ 25) b" "length b \<le> 256"
  shows "map (\<lambda>l. int (le_nat l))
      (chunks 8 (le_bytes (8 * (length a + length b)) (le_nat (limb_bytes a) * le_nat (limb_bytes b))))
    = map (conv a b) [0..<length a + length b]"
proof -
  let ?c = "conv (map nat a) (map nat b)"
  have "(\<Sum>i<length xs. nat (xs ! i) * (2 ^ 64) ^ i) = (\<Sum>i<length (map nat xs). map nat xs ! i * (2 ^ 64) ^ i)" for xs
    by (rule sum.cong) (simp_all only: length_map nth_map lessThan_iff)
  then have "le_nat (limb_bytes a) * le_nat (limb_bytes b) = (\<Sum>k<length a + length b. ?c k * (2 ^ 64) ^ k)"
    using digits_product [of "map nat a" "2 ^ 64" "map nat b"] assms(1,2)
    by (simp only: le_nat_limbs length_map)
  moreover have "?c k < 2 ^ 64" for k
  proof -
    have "int (?c k) < int (2 ^ 64)"
      using conv_bound [OF assms, of k] int_conv [OF assms(1,2), of k] by simp
    then show ?thesis by (simp only: of_nat_less_iff)
  qed
  ultimately have "map le_nat (chunks 8 (le_bytes (8 * (length a + length b)) (le_nat (limb_bytes a) * le_nat (limb_bytes b))))
      = map ?c [0..<length a + length b]"
    by (simp only: chunks_le_bytes)
  then have "map int (map le_nat (chunks 8 (le_bytes (8 * (length a + length b)) (le_nat (limb_bytes a) * le_nat (limb_bytes b)))))
      = map int (map ?c [0..<length a + length b])" by (rule arg_cong)
  then show ?thesis unfolding map_map comp_def int_conv [OF assms(1,2)] .
qed

lemma negacyclic_mul_exact_correct:
  assumes "bounded (2 ^ 25) a" "bounded (2 ^ 25) b" "length a = N" "length b \<le> N" "length b \<le> 256" "b \<noteq> []"
  shows "negacyclic_mul_exact a b N =
    Ret (map (nega a b N) [0..<N], map (\<lambda>m. conv a b (N + m)) [0..<length b])"
proof -
  let ?c = "map (conv a b) [0..<N + length b]"
  have hi: "drop N ?c = map (\<lambda>m. conv a b (N + m)) [0..<length b]"
    by (intro nth_equalityI) simp_all
  have "map2 (-) (take (length b) (take N ?c)) (drop N ?c) @ drop (length b) (take N ?c) = map (nega a b N) [0..<N]"
  proof (rule nth_equalityI)
    fix i assume "i < length (map2 (-) (take (length b) (take N ?c)) (drop N ?c) @ drop (length b) (take N ?c))"
    then have i: "i < N" using assms(4) by simp
    have "conv a b (N + i) = 0" if "length b \<le> i"
      using that assms(3) by (auto simp: conv_def intro!: sum.neutral)
    then show "(map2 (-) (take (length b) (take N ?c)) (drop N ?c) @ drop (length b) (take N ?c)) ! i
        = map (nega a b N) [0..<N] ! i"
      using i assms(4) conv_fold [OF assms(3,4) i] by (auto simp: nth_append hi)
  qed (use assms(4) in simp)
  moreover have "a \<noteq> []" using assms by auto
  ultimately show ?thesis
    using assms kronecker_limbs [OF assms(1,2,5)]
    unfolding negacyclic_mul_exact_def bounded_def Let_def by (simp add: hi)
qed

section \<open>Properties\<close>

text \<open>C11. The Kronecker-substitution product and the shift-and-add reference are the same function on the
  inputs the gate draws: for entries below \<open>2\<^sup>25\<close> and at most 256 multiplier entries neither 64-bit
  limb nor \<^verbatim>\<open>int64\<close> accumulator overflows, and both give the coefficients of the product modulo
  \<open>X\<^sup>N + 1\<close>; the upper half returned beside it is the unfolded wrap part.\<close>

theorem kronecker_eq_naive:
  assumes "bounded (2 ^ 25) a" "bounded (2 ^ 25) b" "length a = N" "length b \<le> N" "length b \<le> 256" "b \<noteq> []"
  shows "negacyclic_mul_exact a b N = Ret (naive_negacyclic a b N, map (\<lambda>m. conv a b (N + m)) [0..<length b])
    \<and> naive_negacyclic a b N = map (nega a b N) [0..<N]"
  using negacyclic_mul_exact_correct [OF assms] naive_negacyclic_correct [OF assms(1-5)] by simp

theorem kronecker_eq_naive_witness:
  "negacyclic_mul_exact [1, 2, 3] [4, 5] 3
     = Ret (naive_negacyclic [1, 2, 3] [4, 5] 3, map (\<lambda>m. conv [1, 2, 3] [4, 5] (3 + m)) [0..<length [4, 5::int]])
   \<and> naive_negacyclic [1, 2, 3] [4, 5] 3 = [-11, 13, 22]"
proof
  show "naive_negacyclic [1, 2, 3] [4, 5] 3 = [-11, 13, 22]" by code_simp
qed (rule kronecker_eq_naive [THEN conjunct1]; simp add: bounded_def)

text \<open>The layout trial: what its assertions amount to.\<close>

lemma dot_upt: "(\<Sum>j\<leftarrow>[0..<256]. f j) = (\<Sum>j<256. (f j :: int))"
  by (simp add: interv_sum_list_conv_sum_set_nat atLeast0LessThan)

lemma conv_top:
  assumes "length a = N" "length b = 256"
  shows "conv a b (N + 255) = 0"
  using assms by (auto simp: conv_def intro!: sum.neutral)

text \<open>A trial exercises wrap-around when some wrap term is non-zero.\<close>

definition exercises_wrap :: "nat \<Rightarrow> int list \<times> int list \<Rightarrow> bool" where
  "exercises_wrap N = (\<lambda>(x, w). \<exists>m<255. conv x (rev w) (N + m) \<noteq> 0)"

lemma layout_trial_eq:
  assumes "N = 256 * L" "length x = N" "length w = 256" "bounded (2 ^ 25) x" "bounded (2 ^ 25) w" "0 < L"
  shows "layout_trial N L (x, w) = py_assert (exercises_wrap N (x, w))"
proof -
  have b: "bounded (2 ^ 25) (rev w)" using assms by (simp add: bounded_def)
  have "rev w \<noteq> []" using assms(3) by auto
  then have k: "negacyclic_mul_exact x (rev w) N =
      Ret (map (nega x (rev w) N) [0..<N], map (\<lambda>m. conv x (rev w) (N + m)) [0..<256])"
    using negacyclic_mul_exact_correct [OF assms(4) b] assms by simp
  have n: "naive_negacyclic x (rev w) N = map (nega x (rev w) N) [0..<N]"
    using naive_negacyclic_correct [OF assms(4) b] assms by simp
  have lane: "map (nega x (rev w) N) [0..<N] ! (256 * k + 255) = (\<Sum>j\<leftarrow>[0..<256]. x ! (256 * k + j) * w ! j)"
    if "k < L" for k
    using that assms(1) nega_lane [OF assms(3), of k N x] by (simp add: dot_upt)
  have top: "conv x (rev w) (N + 255) = 0" using assms by (intro conv_top) auto
  show ?thesis
    unfolding layout_trial_def Let_def by (simp add: k n lane top exercises_wrap_def Bex_def cong: conj_cong)
qed

text \<open>C35. The layout gate. For \<open>N = 256 L\<close> and draws below \<open>2\<^sup>25\<close>, \<^verbatim>\<open>layout_trials\<close> passes exactly when
  every draw exercises a wrap-around term: its other assertions (wrap targets never hit an output index,
  Kronecker product equals the reference, coefficient \<open>256 k + 255\<close> equals lane \<open>k\<close>'s dot product, the
  padding limb is zero) hold for every input.\<close>

theorem layout_trials_pass_iff:
  assumes "0 < L" and "\<And>x w. (x, w) \<in> set draws \<Longrightarrow>
      length x = 256 * L \<and> length w = 256 \<and> bounded (2 ^ 25) x \<and> bounded (2 ^ 25) w"
  shows "layout_trials (256 * L) L draws =
    (if \<forall>d \<in> set draws. exercises_wrap (256 * L) d
     then Ret \<lparr>lr_N = 256 * L, lr_L = L, lr_trials = length draws, lr_pass = True, lr_wrap_target_range = (0, 254)\<rparr>
     else Raise AssertionError)"
proof -
  have t: "layout_trial (256 * L) L d = py_assert (exercises_wrap (256 * L) d)" if "d \<in> set draws" for d
  proof -
    obtain x w where d: "d = (x, w)" by (cases d)
    with assms(2) [of x w] that show ?thesis
      using layout_trial_eq [OF refl, of x L w] assms(1) by simp
  qed
  have "rmap (layout_trial (256 * L) L) ds = (if \<forall>d \<in> set ds. exercises_wrap (256 * L) d
      then Ret (map (\<lambda>_. ()) ds) else Raise AssertionError)" if "set ds \<subseteq> set draws" for ds
    using that by (induction ds) (auto simp: t py_assert_def)
  moreover have "set [0..<255] \<inter> set (out_idx L) = {}" by (auto simp: out_idx_def)
  ultimately show ?thesis by (simp add: layout_trials_def)
qed

theorem layout_trials_pass_iff_witness:
  "layout_trials (256 * 1) 1 [(replicate 256 0, replicate 256 1)] = Raise AssertionError"
  by (subst layout_trials_pass_iff) (auto simp: bounded_def exercises_wrap_def conv_def intro!: sum.neutral)

end
