(* ===== verification/CnpGate.thy ===== *)
theory CnpGate
  imports Negacyclic "HOL-Library.Product_Lexorder" "HOL-Library.Multiset"
begin

text \<open>
  The CNP gate \<^verbatim>\<open>scripts/cnp_gate.py\<close> beyond its layout trials: centring modulo \<open>t\<close>, rounding half to
  even, the input audit, the fixed-point sweep over scale pairs with its worst-case overflow bound, the
  choice of passing cells, the fallbacks, and the mask check with its weight-recovery attack. Matrices are
  lists of rows. Values that numpy keeps as integral floats below \<open>2\<^sup>53\<close> are integers here; other floats
  are reals. The ROC-AUC of scikit-learn, the chi-square p-value of scipy and the random draws are
  arguments.
\<close>

section \<open>Centring and rounding\<close>

definition center :: "int \<Rightarrow> int \<Rightarrow> int" where
  "center v t = (let v = v mod t in if v > t div 2 then v - t else v)"

text \<open>\<^verbatim>\<open>np.rint\<close>: round half to even.\<close>

definition round_half_even :: "real \<Rightarrow> int" where
  "round_half_even a =
     (let f = \<lfloor>a\<rfloor>; r = a - of_int f in
      if r < 1 / 2 then f else if r > 1 / 2 then f + 1 else if even f then f else f + 1)"

definition T_HERA :: int where
  "T_HERA = 0x1FC0001"

definition T_RUBATO :: int where
  "T_RUBATO = 0x1FC0001"

definition RUBATO_SIGMA :: real where
  "RUBATO_SIGMA = 1.6356633496458739795537788457309656607510203877762320964302959"

definition RUBATO_BOUND :: int where
  "RUBATO_BOUND = \<lfloor>6 * RUBATO_SIGMA\<rfloor>"

definition LOG_RANGE :: "nat list" where
  "LOG_RANGE = [4..<15]"

lemma center_range:
  assumes "0 < t"
  shows "- (t - 1) \<le> 2 * center v t \<and> 2 * center v t \<le> t"
proof -
  have "0 \<le> v mod t" "v mod t < t" using assms by simp_all
  then show ?thesis unfolding center_def Let_def by (cases "v mod t > t div 2") auto
qed

lemma center_cong: "center v t mod t = v mod t"
  by (simp add: center_def Let_def)

lemma center_id:
  assumes "odd t" "0 < t" "\<bar>v\<bar> \<le> t div 2"
  shows "center v t = v"
proof (cases "0 \<le> v")
  case True
  then have "v mod t = v" using assms by (intro mod_pos_pos_trivial) auto
  then show ?thesis using True assms by (simp add: center_def)
next
  case False
  then have "(v + t) mod t = v + t" using assms by (intro mod_pos_pos_trivial) auto
  then have "v mod t = v + t" by simp
  moreover have "v + t > t div 2" using False assms by (auto elim!: oddE)
  ultimately show ?thesis by (simp add: center_def)
qed

lemma center_unique:
  assumes "odd t" "0 < t" "\<bar>u\<bar> \<le> t div 2" "u mod t = v mod t"
  shows "center v t = u"
proof -
  have "center v t = center u t" using assms(4) by (simp add: center_def)
  then show ?thesis using center_id [OF assms(1-3)] by simp
qed

lemma center_small:
  assumes "odd t" "0 < t"
  shows "\<bar>center v t\<bar> \<le> t div 2"
  using center_range [OF assms(2), of v] assms by (auto elim!: oddE)

lemma rhe_half_step: "\<bar>of_int (round_half_even a) - a\<bar> \<le> 1 / 2"
  using floor_correct [of a] by (auto simp: round_half_even_def Let_def)

lemma rhe_bound:
  assumes "\<bar>a\<bar> \<le> of_int n"
  shows "\<bar>round_half_even a\<bar> \<le> n"
proof -
  have "\<bar>of_int (round_half_even a) :: real\<bar> \<le> of_int n + 1 / 2"
    using rhe_half_step [of a] assms by linarith
  then have "of_int (2 * \<bar>round_half_even a\<bar>) \<le> (of_int (2 * n + 1) :: real)" by simp
  then have "2 * \<bar>round_half_even a\<bar> \<le> 2 * n + 1" by (simp only: of_int_le_iff)
  then show ?thesis by linarith
qed

lemma rhe_of_int [simp]: "round_half_even (of_int n) = n"
  by (simp add: round_half_even_def)

section \<open>Inputs\<close>

text \<open>The three arrays numpy loads are arguments; the bias and a second copy of the weights come from the
  weight file and are cross-checked.\<close>

definition load_gate :: "fs \<Rightarrow> 'x \<times> 'y \<times> f64 list \<Rightarrow> ('x \<times> 'y \<times> f64 list \<times> f64) res" where
  "load_gate fs npys =
     (case npys of (X, y, w) \<Rightarrow>
      rbind (read_bytes fs ''artifacts/model_weights.bin'') (\<lambda>raw.
      rbind (unpack_u32 (take 4 raw)) (\<lambda>n.
      rbind (unpack_f64 (take 8 (drop 4 raw))) (\<lambda>bias.
      rbind (frombuffer_f64 (take (8 * unat n) (drop 12 raw))) (\<lambda>wbin.
      rbind (py_assert (unat n = 256 \<and> length raw = 12 + 8 * 256)) (\<lambda>_.
      rbind (py_assert (list_all2 f64_eq wbin w)) (\<lambda>_.
      Ret (X, y, w, bias))))))))"

text \<open>Column statistics; \<^verbatim>\<open>std\<close> is numpy's population standard deviation.\<close>

definition col :: "nat \<Rightarrow> 'a list list \<Rightarrow> 'a list" where
  "col j X = map (\<lambda>r. r ! j) X"

definition ncols :: "'a list list \<Rightarrow> nat" where
  "ncols X = length (hd X)"

definition mean :: "real list \<Rightarrow> real" where
  "mean xs = sum_list xs / real (length xs)"

definition std :: "nat \<Rightarrow> real list \<Rightarrow> real" where
  "std ddof xs = sqrt ((\<Sum>x\<leftarrow>xs. (x - mean xs)\<^sup>2) / real (length xs - ddof))"

text \<open>\<^verbatim>\<open>np.percentile\<close> with linear interpolation.\<close>

definition np_percentile :: "real list \<Rightarrow> real \<Rightarrow> real" where
  "np_percentile xs q =
     (let s = sort xs; pos = q / 100 * real (length xs - 1); i = nat \<lfloor>pos\<rfloor>
      in s ! i + (pos - real i) * (s ! min (i + 1) (length xs - 1) - s ! i))"

text \<open>\<^verbatim>\<open>np.median\<close>.\<close>

definition np_median :: "real list \<Rightarrow> real" where
  "np_median xs = (let s = sort xs; n = length xs
     in if odd n then s ! (n div 2) else (s ! (n div 2 - 1) + s ! (n div 2)) / 2)"

definition lmax :: "'a::linorder list \<Rightarrow> 'a" where
  "lmax xs = fold max (tl xs) (hd xs)"

definition lmin :: "'a::linorder list \<Rightarrow> 'a" where
  "lmin xs = fold min (tl xs) (hd xs)"

record audit =
  au_shape :: "nat \<times> nat"
  au_global_max_abs :: real
  au_global_min :: real
  au_global_max :: real
  au_n_constant_cols :: nat
  au_n_all_zero_cols :: nat
  au_cols_with_abs_gt_1 :: nat
  au_per_col :: "(real \<times> real \<times> real) list"
  au_claim_abs_le_1 :: bool
  au_claim_zero_padding :: bool

definition feature_audit :: "real list list \<Rightarrow> audit" where
  "feature_audit X =
     (let js = [0..<ncols X];
          sd = map (\<lambda>j. std 0 (col j X)) js;
          mx = map (\<lambda>j. lmax (map abs (col j X))) js
      in \<lparr>au_shape = (length X, ncols X), au_global_max_abs = lmax mx,
          au_global_min = lmin (concat X), au_global_max = lmax (concat X),
          au_n_constant_cols = length (filter (\<lambda>s. s = 0) sd),
          au_n_all_zero_cols = length (filter (\<lambda>m. m = 0) mx),
          au_cols_with_abs_gt_1 = length (filter (\<lambda>m. m > 1) mx),
          au_per_col = map (\<lambda>j. (lmin (col j X), lmax (col j X), std 0 (col j X))) js,
          au_claim_abs_le_1 = (lmax mx \<le> 1),
          au_claim_zero_padding = list_ex (\<lambda>m. m = 0) mx\<rparr>)"

section \<open>Fixed-point simulation of CNP-A\<close>

record cnp_a_res =
  ca_max_abs_err :: real
  ca_mean_abs_err :: real
  ca_auc :: real
  ca_delta_auc :: real

definition cnp_a :: "('y \<Rightarrow> real list \<Rightarrow> real) \<Rightarrow> real list list \<Rightarrow> 'y \<Rightarrow> real list \<Rightarrow> real \<Rightarrow> real \<Rightarrow> cnp_a_res" where
  "cnp_a roc_auc X y w b auc0 =
     (let D = 2 ^ 40;
          xq = map (map (\<lambda>x. round_half_even (x * D))) X;
          wq = map (\<lambda>v. round_half_even (v * D)) w;
          s = map (\<lambda>r. of_int (dot r wq) / (D * D)) xq;
          ref = map (\<lambda>r. dot r w) X;
          err = map2 (\<lambda>p q. \<bar>p - q\<bar>) s ref;
          auc = roc_auc y (map (\<lambda>v. v + b) s)
      in \<lparr>ca_max_abs_err = lmax err, ca_mean_abs_err = mean err, ca_auc = auc, ca_delta_auc = auc - auc0\<rparr>)"

section \<open>The CNP-B sweep\<close>

record cell =
  log2_dx :: nat
  log2_dw :: nat
  blocks :: nat
  worst_case_bound :: int
  t_half :: int
  worst_case_safe :: bool
  sum_abs_wq :: int
  emp_max_abs_s :: int
  headroom_bits :: real
  overflow_count :: nat
  auc :: real
  delta_auc :: real
  abs_delta_auc :: real
  auc_std :: real
  aucs :: "real list"

definition col_slice :: "nat \<times> nat \<Rightarrow> 'a list \<Rightarrow> 'a list" where
  "col_slice s xs = take (snd s - fst s) (drop (fst s) xs)"

text \<open>The inner function \<^verbatim>\<open>run\<close>: one centred partial sum per block and row.\<close>

fun run_blocks :: "int \<Rightarrow> int list \<Rightarrow> int list list \<Rightarrow> (nat \<times> nat) list \<Rightarrow> int list \<times> int \<times> nat \<Rightarrow> (int list \<times> int \<times> nat) res" where
  "run_blocks t wq xq [] acc = Ret acc"
| "run_blocks t wq xq (s # sl) (tot, smax, ovf) =
     (let sb = map (\<lambda>r. dot (col_slice s r) (col_slice s wq)) xq in
      if sb = [] then Raise ValueError
      else rbind (py_assert (lmax (map abs sb) < 2 ^ 53)) (\<lambda>_.
        run_blocks t wq xq sl
          (map2 (+) tot (map (\<lambda>v. center v t) sb),
           max smax (lmax (map abs sb)),
           ovf + length (filter (\<lambda>v. \<bar>v\<bar> > t div 2) sb))))"

definition run_cell :: "int \<Rightarrow> int list \<Rightarrow> (nat \<times> nat) list \<Rightarrow> real \<Rightarrow> int list list \<Rightarrow> (real list \<times> int \<times> nat) res" where
  "run_cell t wq sl scale xq =
     rbind (run_blocks t wq xq sl (replicate (length xq) 0, 0, 0)) (\<lambda>(tot, smax, ovf).
     Ret (map (\<lambda>v. of_int v / scale) tot, smax, ovf))"

definition clip :: "int \<Rightarrow> int \<Rightarrow> int \<Rightarrow> int" where
  "clip lo hi v = max lo (min hi v)"

text \<open>One \<open>(dx, dw)\<close> cell. \<open>noise_draws\<close> are the Gaussian matrices drawn for the noise seeds, if any;
  \<open>xbound\<close> and \<open>bias\<close> default as in the source.\<close>

definition sweep_cell ::
  "('y \<Rightarrow> real list \<Rightarrow> real) \<Rightarrow> real list list \<Rightarrow> 'y \<Rightarrow> real list \<Rightarrow> real \<Rightarrow> real \<Rightarrow> int \<Rightarrow> nat \<Rightarrow> nat
   \<Rightarrow> real list list list option \<Rightarrow> nat \<Rightarrow> real list option \<Rightarrow> real option \<Rightarrow> cell res" where
  "sweep_cell roc_auc X y w b auc0 t lx lw noise_draws blk xbound bias_opt =
     (let dx = 2 ^ lx; dw = 2 ^ lw;
          bias = (case bias_opt of None \<Rightarrow> b | Some c \<Rightarrow> c);
          xb = (case xbound of None \<Rightarrow> replicate (ncols X) 1 | Some v \<Rightarrow> v);
          xq = map (map (\<lambda>x. round_half_even (x * dx))) X;
          wq = map (\<lambda>v. round_half_even (v * dw)) w;
          xqmax_col = map (\<lambda>c. \<lceil>dx * c\<rceil>) xb;
          noise = (if noise_draws \<noteq> None then RUBATO_BOUND else 0);
          sl = (if blk = 1 then [(0, ncols X)] else [(0, 128), (128, 256)]);
          wc = map (\<lambda>s. dot (map abs (col_slice s wq)) (map (\<lambda>m. m + noise) (col_slice s xqmax_col))) sl;
          wc_safe = list_all (\<lambda>v. v \<le> t div 2) wc;
          base = \<lparr>log2_dx = lx, log2_dw = lw, blocks = blk, worst_case_bound = lmax wc, t_half = t div 2,
                  worst_case_safe = wc_safe, sum_abs_wq = sum_list (map abs wq), emp_max_abs_s = 0,
                  headroom_bits = 0, overflow_count = 0, auc = 0, delta_auc = 0, abs_delta_auc = 0,
                  auc_std = 0, aucs = []\<rparr>
      in case noise_draws of
        None \<Rightarrow>
          rbind (run_cell t wq sl (dx * dw) xq) (\<lambda>(sc, smax, ovf).
          let a = roc_auc y (map (\<lambda>v. v + bias) sc) in
          Ret (base\<lparr>emp_max_abs_s := smax, headroom_bits := log 2 (of_int (t div 2) / max (of_int smax) 1),
                    overflow_count := ovf, auc := a, delta_auc := a - auc0, abs_delta_auc := \<bar>a - auc0\<bar>\<rparr>))
      | Some draws \<Rightarrow>
          rbind (rmap (\<lambda>nd.
            let e = map (map (\<lambda>v. clip (- RUBATO_BOUND) RUBATO_BOUND (round_half_even v))) nd
            in run_cell t wq sl (dx * dw) (map2 (map2 (+)) xq e)) draws) (\<lambda>rs.
          if rs = [] then Raise ValueError else
          let as = map (\<lambda>(sc, smax, ovf). roc_auc y (map (\<lambda>v. v + bias) sc)) rs;
              smaxs = map (\<lambda>(sc, smax, ovf). smax) rs;
              ovfs = sum_list (map (\<lambda>(sc, smax, ovf). ovf) rs);
              m = mean as
          in Ret (base\<lparr>emp_max_abs_s := lmax smaxs,
                    headroom_bits := log 2 (of_int (t div 2) / max (of_int (lmax smaxs)) 1),
                    overflow_count := ovfs, auc := m, delta_auc := m - auc0, abs_delta_auc := \<bar>m - auc0\<bar>,
                    auc_std := std 1 as, aucs := as\<rparr>)))"

definition sweep ::
  "('y \<Rightarrow> real list \<Rightarrow> real) \<Rightarrow> real list list \<Rightarrow> 'y \<Rightarrow> real list \<Rightarrow> real \<Rightarrow> real \<Rightarrow> int
   \<Rightarrow> real list list list option \<Rightarrow> nat \<Rightarrow> real list option \<Rightarrow> real option \<Rightarrow> cell list res" where
  "sweep roc_auc X y w b auc0 t nd blk xbound bias_opt =
     rmap (\<lambda>(lx, lw). sweep_cell roc_auc X y w b auc0 t lx lw nd blk xbound bias_opt)
       (List.product LOG_RANGE LOG_RANGE)"

text \<open>\<^verbatim>\<open>pick\<close>: the sort key divides by the worst-case bound, so a zero bound raises.\<close>

definition pick_key :: "cell \<Rightarrow> real \<times> real" where
  "pick_key c = (abs_delta_auc c, - (of_int (t_half c) / of_int (worst_case_bound c)))"

definition pick :: "cell list \<Rightarrow> real \<Rightarrow> cell list res" where
  "pick cells tol =
     (let ok = filter (\<lambda>c. worst_case_safe c \<and> abs_delta_auc c \<le> tol) cells
      in if list_ex (\<lambda>c. worst_case_bound c = 0) ok then Raise ZeroDivisionError
         else Ret (sort_key pick_key ok))"

definition fallbacks ::
  "('y \<Rightarrow> real list \<Rightarrow> real) \<Rightarrow> real list list \<Rightarrow> 'y \<Rightarrow> real list \<Rightarrow> real \<Rightarrow> real \<Rightarrow> int
   \<Rightarrow> real list list list option \<Rightarrow> real list list \<Rightarrow> ((cell list \<times> cell list) \<times> (cell list \<times> cell list)) res" where
  "fallbacks roc_auc Xte y w b auc0 t nd Xtr =
     rbind (sweep roc_auc Xte y w b auc0 t nd 2 None None) (\<lambda>c1.
     rbind (pick c1 (1 / 1000)) (\<lambda>p1.
     let mu = map (\<lambda>j. mean (col j Xtr)) [0..<ncols Xtr];
         Xc = map (\<lambda>r. map2 (-) r mu) Xte;
         xb = map (\<lambda>m. 1 + \<bar>m\<bar>) mu;
         b2 = b + dot mu w
     in
     rbind (sweep roc_auc Xc y w b auc0 t nd 1 (Some xb) (Some b2)) (\<lambda>c2.
     rbind (pick c2 (1 / 1000)) (\<lambda>p2.
     Ret ((c1, take 5 p1), (c2, take 5 p2))))))"

section \<open>The worst-case bound rules out overflow\<close>

lemma slice_length: "length xs = length ys \<Longrightarrow> length (col_slice s xs) = length (col_slice s ys)"
  by (simp add: col_slice_def)

lemma dot_abs_bound:
  assumes "list_all2 (\<lambda>x m. \<bar>x\<bar> \<le> m) xs ms"
  shows "\<bar>dot xs ws\<bar> \<le> dot (map abs ws) (ms :: int list)"
  using assms
proof (induction xs ms arbitrary: ws rule: list_all2_induct)
  case (Cons x xs m ms)
  show ?case
  proof (cases ws)
    case (Cons v vs)
    have "\<bar>x * v\<bar> \<le> \<bar>v\<bar> * m"
      unfolding abs_mult using \<open>\<bar>x\<bar> \<le> m\<close> by (subst mult.commute) (rule mult_left_mono, simp_all)
    then show ?thesis using Cons Cons.IH [of vs] by simp
  qed simp
qed simp

lemma slice_all2: "list_all2 P xs ys \<Longrightarrow> list_all2 P (col_slice s xs) (col_slice s ys)"
  by (simp add: col_slice_def list_all2_dropI list_all2_takeI)

lemma lmax_in: "es \<noteq> [] \<Longrightarrow> lmax es \<in> set es" for es :: "real list"
proof -
  have "fold max xs x \<in> set (x # xs)" for xs and x :: real
    by (induction xs arbitrary: x) (auto simp: max_def)
  then show "es \<noteq> [] \<Longrightarrow> lmax es \<in> set es" by (cases es) (simp_all add: lmax_def)
qed

lemma lmax_ge: "x \<in> set xs \<Longrightarrow> x \<le> lmax xs"
proof -
  have "z \<le> fold max ys z \<and> (\<forall>x \<in> set ys. x \<le> fold max ys z)" for ys :: "'a list" and z
    by (induction ys arbitrary: z) (auto intro: order_trans [OF max.cobounded1] order_trans [OF max.cobounded2])
  then show "x \<in> set xs \<Longrightarrow> x \<le> lmax xs"
    by (cases xs) (auto simp: lmax_def)
qed

text \<open>Blocks whose partial sums stay within \<open>t div 2\<close> are summed exactly and count no overflow.\<close>

lemma run_blocks_exact:
  assumes t: "odd t" "0 < t"
    and small: "\<And>s r. s \<in> set sl \<Longrightarrow> r \<in> set xq \<Longrightarrow> \<bar>dot (col_slice s r) (col_slice s wq)\<bar> \<le> t div 2"
    and run: "run_blocks t wq xq sl (tot, smax, ovf) = Ret (tot', smax', ovf')"
    and len: "length tot = length xq"
  shows "ovf' = ovf \<and> tot' = map2 (\<lambda>v r. v + (\<Sum>s\<leftarrow>sl. dot (col_slice s r) (col_slice s wq))) tot xq"
  using small run len
proof (induction sl arbitrary: tot smax ovf)
  case Nil
  then show ?case by (auto intro: nth_equalityI)
next
  case (Cons s sl)
  let ?sb = "map (\<lambda>r. dot (col_slice s r) (col_slice s wq)) xq"
  have c: "map (\<lambda>v. center v t) ?sb = ?sb"
    using Cons.prems(1) [of s] center_id [OF t] by (intro map_idI) auto
  have o: "filter (\<lambda>v. \<bar>v\<bar> > t div 2) ?sb = []"
    using Cons.prems(1) [of s] by (intro filter_False) (auto simp: not_less)
  have "run_blocks t wq xq sl (map2 (+) tot ?sb, max smax (lmax (map abs ?sb)), ovf) = Ret (tot', smax', ovf')"
    using Cons.prems(2) by (simp only: run_blocks.simps Let_def c o) (auto simp: res_simps split: if_splits)
  from Cons.IH [OF _ this] Cons.prems(1,3)
  have "ovf' = ovf \<and> tot' = map2 (\<lambda>v r. v + (\<Sum>s\<leftarrow>sl. dot (col_slice s r) (col_slice s wq))) (map2 (+) tot ?sb) xq"
    by simp
  then show ?case
    using Cons.prems(3) by (auto intro!: nth_equalityI)
qed

lemma run_cell_exact:
  assumes "odd t" "0 < t"
    and "\<And>s r. s \<in> set sl \<Longrightarrow> r \<in> set xq \<Longrightarrow> \<bar>dot (col_slice s r) (col_slice s wq)\<bar> \<le> t div 2"
    and "\<And>r. r \<in> set xq \<Longrightarrow> (\<Sum>s\<leftarrow>sl. dot (col_slice s r) (col_slice s wq)) = dot r wq"
    and "run_cell t wq sl k xq = Ret (sc, smax, ovf)"
  shows "ovf = 0 \<and> sc = map (\<lambda>r. of_int (dot r wq) / k) xq"
proof -
  from assms(5) obtain tot where run: "run_blocks t wq xq sl (replicate (length xq) 0, 0, 0) = Ret (tot, smax, ovf)"
    and sc: "sc = map (\<lambda>v. of_int v / k) tot"
    by (auto simp: run_cell_def res_simps)
  have z: "ovf = 0" and "tot = map2 (\<lambda>v r. v + (\<Sum>s\<leftarrow>sl. dot (col_slice s r) (col_slice s wq))) (replicate (length xq) 0) xq"
    using run_blocks_exact [OF assms(1-3) run] by simp_all
  from this(2) have "tot = map (\<lambda>r. dot r wq) xq"
    using assms(4) by (auto intro!: nth_equalityI)
  with sc z show ?thesis by (simp add: comp_def)
qed

text \<open>The slices of the source cover the columns once.\<close>

lemma slices_cover:
  assumes "length r = n" "length wq = n" "blk = 1 \<or> n = 256"
  shows "(\<Sum>s\<leftarrow>(if blk = 1 then [(0, n)] else [(0, 128), (128, 256)]). dot (col_slice s r) (col_slice s wq)) = dot r wq"
proof (cases "blk = 1")
  case True
  then show ?thesis using assms by (simp add: col_slice_def)
next
  case False
  then have n: "n = 256" using assms(3) by simp
  have "dot r wq = dot (take 128 r @ drop 128 r) (take 128 wq @ drop 128 wq)" by simp
  also have "\<dots> = dot (take 128 r) (take 128 wq) + dot (drop 128 r) (drop 128 wq)"
    using assms n by (intro dot_append) simp
  finally show ?thesis using False assms n by (simp add: col_slice_def)
qed

lemma rhe_row_bound:
  assumes "list_all2 (\<lambda>x c. \<bar>x\<bar> \<le> c) r xb"
  shows "list_all2 (\<lambda>q m. \<bar>q\<bar> \<le> m) (map (\<lambda>x. round_half_even (x * 2 ^ lx)) r) (map (\<lambda>c. \<lceil>2 ^ lx * c\<rceil>) xb)"
  using assms
proof (induction rule: list_all2_induct)
  case (Cons x xs c cs)
  have "\<bar>x * 2 ^ lx\<bar> \<le> 2 ^ lx * c" using Cons(1) by (simp add: abs_mult mult.commute)
  also have "\<dots> \<le> of_int \<lceil>2 ^ lx * c\<rceil>" by (rule le_of_int_ceiling)
  finally show ?case using Cons(3) by (simp add: rhe_bound)
qed simp

lemma noisy_row_bound:
  assumes "list_all2 (\<lambda>q m. \<bar>q\<bar> \<le> m) q ms" "length e = length q"
  shows "list_all2 (\<lambda>q m. \<bar>q\<bar> \<le> m)
     (map2 (+) q (map (\<lambda>v. clip (- RUBATO_BOUND) RUBATO_BOUND (round_half_even v)) e)) (map (\<lambda>m. m + RUBATO_BOUND) ms)"
proof -
  have "0 \<le> RUBATO_BOUND" by (simp add: RUBATO_BOUND_def RUBATO_SIGMA_def)
  then have "\<bar>clip (- RUBATO_BOUND) RUBATO_BOUND z\<bar> \<le> RUBATO_BOUND" for z by (auto simp: clip_def)
  then show ?thesis using assms
    by (auto simp: list_all2_conv_all_nth intro!: order_trans [OF abs_triangle_ineq] add_mono)
qed

lemma slice_map: "col_slice s (map f xs) = map f (col_slice s xs)"
  by (simp add: col_slice_def take_map drop_map)

text \<open>The part of \<^verbatim>\<open>sweep_cell\<close> that the bound speaks about: every block sum of a row bounded
  column by column by \<open>ms\<close> is within the bound computed from \<open>ms\<close>.\<close>

lemma block_sum_small:
  assumes "list_all (\<lambda>v. v \<le> (h::int)) (map (\<lambda>s. dot (map abs (col_slice s wq)) (col_slice s ms)) sl)"
    and "s \<in> set sl" and "list_all2 (\<lambda>q m. \<bar>q\<bar> \<le> m) r ms"
  shows "\<bar>dot (col_slice s r) (col_slice s wq)\<bar> \<le> h"
proof -
  have "\<bar>dot (col_slice s r) (col_slice s wq)\<bar> \<le> dot (map abs (col_slice s wq)) (col_slice s ms)"
    by (rule dot_abs_bound [OF slice_all2 [OF assms(3)]])
  also have "\<dots> \<le> h" using assms(1,2) by (auto simp: list_all_iff)
  finally show ?thesis .
qed

text \<open>The inputs a sweep is run on: rectangular data within the per-column guarantee.\<close>

definition sweep_inputs :: "real list list \<Rightarrow> real list \<Rightarrow> nat \<Rightarrow> real list option \<Rightarrow> real list list list option \<Rightarrow> bool" where
  "sweep_inputs X w blk xbound nd \<longleftrightarrow>
     length w = ncols X \<and> (blk = 1 \<or> ncols X = 256)
     \<and> (\<forall>r \<in> set X. list_all2 (\<lambda>x c. \<bar>x\<bar> \<le> c) r (case xbound of None \<Rightarrow> replicate (ncols X) 1 | Some v \<Rightarrow> v)
          \<and> length r = ncols X)
     \<and> (\<forall>ds. nd = Some ds \<longrightarrow> (\<forall>d \<in> set ds. list_all2 (\<lambda>e r. length e = length r) d X))"

lemma run_cell_safe:
  assumes t: "odd t" "0 < t"
    and safe: "list_all (\<lambda>v. v \<le> t div 2) (map (\<lambda>s. dot (map abs (col_slice s wq)) (col_slice s ms))
        (if blk = 1 then [(0, n)] else [(0, 128), (128, 256)]))"
    and xq: "\<And>r. r \<in> set xq \<Longrightarrow> list_all2 (\<lambda>q m. \<bar>q\<bar> \<le> m) r ms \<and> length r = n"
    and n: "length wq = n" "blk = 1 \<or> n = 256"
    and run: "run_cell t wq (if blk = 1 then [(0, n)] else [(0, 128), (128, 256)]) k xq = Ret (sc, smax, ovf)"
  shows "ovf = 0 \<and> sc = map (\<lambda>r. of_int (dot r wq) / k) xq"
proof (rule run_cell_exact [OF t _ _ run])
  show "\<bar>dot (col_slice s r) (col_slice s wq)\<bar> \<le> t div 2"
    if "s \<in> set (if blk = 1 then [(0, n)] else [(0, 128), (128, 256)])" "r \<in> set xq" for s r
    using block_sum_small [OF safe that(1)] xq [OF that(2)] by blast
  show "(\<Sum>s\<leftarrow>(if blk = 1 then [(0, n)] else [(0, 128), (128, 256)]). dot (col_slice s r) (col_slice s wq)) = dot r wq"
    if "r \<in> set xq" for r
    using slices_cover [of r n wq blk] xq [OF that] n by simp
qed

lemma quantised_rows:
  assumes "sweep_inputs X w blk xbound nd" and "q \<in> set (map (map (\<lambda>x. round_half_even (x * 2 ^ lx))) X)"
  shows "list_all2 (\<lambda>q m. \<bar>q\<bar> \<le> m) q
      (map (\<lambda>c. \<lceil>2 ^ lx * c\<rceil>) (case xbound of None \<Rightarrow> replicate (ncols X) 1 | Some v \<Rightarrow> v)) \<and> length q = ncols X"
proof -
  obtain r where "r \<in> set X" "q = map (\<lambda>x. round_half_even (x * 2 ^ lx)) r" using assms(2) by auto
  with assms(1) show ?thesis by (auto simp: sweep_inputs_def intro: rhe_row_bound)
qed

lemma sweep_cell_safe_hera:
  assumes t: "odd t" "0 < t" and inp: "sweep_inputs X w blk xbound None"
    and cell: "sweep_cell roc_auc X y w b auc0 t lx lw None blk xbound bias_opt = Ret c"
    and safe: "worst_case_safe c"
  shows "overflow_count c = 0 \<and> auc c = roc_auc y (map (\<lambda>r.
      of_int (dot (map (\<lambda>x. round_half_even (x * 2 ^ lx)) r) (map (\<lambda>v. round_half_even (v * 2 ^ lw)) w)) / (2 ^ lx * 2 ^ lw)
      + (case bias_opt of None \<Rightarrow> b | Some v \<Rightarrow> v)) X)"
proof -
  let ?xb = "case xbound of None \<Rightarrow> replicate (ncols X) 1 | Some v \<Rightarrow> v"
  let ?wq = "map (\<lambda>v. round_half_even (v * 2 ^ lw)) w"
  let ?ms = "map (\<lambda>c. \<lceil>2 ^ lx * c\<rceil>) ?xb"
  let ?xq = "map (map (\<lambda>x. round_half_even (x * 2 ^ lx))) X"
  let ?sl = "if blk = 1 then [(0, ncols X)] else [(0, 128), (128, 256)]"
  from cell obtain sc smax ovf where run: "run_cell t ?wq ?sl (2 ^ lx * 2 ^ lw) ?xq = Ret (sc, smax, ovf)"
    and c: "overflow_count c = ovf" "auc c = roc_auc y (map (\<lambda>v. v + (case bias_opt of None \<Rightarrow> b | Some v \<Rightarrow> v)) sc)"
      "worst_case_safe c = list_all (\<lambda>v. v \<le> t div 2) (map (\<lambda>s. dot (map abs (col_slice s ?wq)) (col_slice s ?ms)) ?sl)"
    by (auto simp: sweep_cell_def Let_def res_simps split: prod.splits)
  have "ovf = 0 \<and> sc = map (\<lambda>r. of_int (dot r ?wq) / (2 ^ lx * 2 ^ lw)) ?xq"
    using run_cell_safe [OF t _ _ _ _ run] quantised_rows [OF inp, of _ lx] inp safe c(3)
    by (simp add: sweep_inputs_def)
  then show ?thesis using c(1,2) by (simp add: comp_def)
qed

lemma sweep_cell_safe_rubato:
  assumes t: "odd t" "0 < t" and inp: "sweep_inputs X w blk xbound (Some ds)"
    and cell: "sweep_cell roc_auc X y w b auc0 t lx lw (Some ds) blk xbound bias_opt = Ret c"
    and safe: "worst_case_safe c"
  shows "overflow_count c = 0"
proof -
  let ?xb = "case xbound of None \<Rightarrow> replicate (ncols X) 1 | Some v \<Rightarrow> v"
  let ?wq = "map (\<lambda>v. round_half_even (v * 2 ^ lw)) w"
  let ?ms = "map (\<lambda>m. m + RUBATO_BOUND) (map (\<lambda>c. \<lceil>2 ^ lx * c\<rceil>) ?xb)"
  let ?xq = "map (map (\<lambda>x. round_half_even (x * 2 ^ lx))) X"
  let ?e = "map (map (\<lambda>v. clip (- RUBATO_BOUND) RUBATO_BOUND (round_half_even v)))"
  let ?sl = "if blk = 1 then [(0, ncols X)] else [(0, 128), (128, 256)]"
  let ?run = "\<lambda>nd. run_cell t ?wq ?sl (2 ^ lx * 2 ^ lw) (map2 (map2 (+)) ?xq (?e nd))"
  from cell obtain rs where rs: "rmap ?run ds = Ret rs"
    and c: "overflow_count c = sum_list (map (\<lambda>(sc, smax, ovf). ovf) rs)"
      "worst_case_safe c = list_all (\<lambda>v. v \<le> t div 2) (map (\<lambda>s. dot (map abs (col_slice s ?wq)) (col_slice s ?ms)) ?sl)"
    by (auto simp: sweep_cell_def Let_def res_simps slice_map comp_def split: if_splits)
  have rows: "list_all2 (\<lambda>q m. \<bar>q\<bar> \<le> m) r ?ms \<and> length r = ncols X"
    if d: "d \<in> set ds" and r: "r \<in> set (map2 (map2 (+)) ?xq (?e d))" for d r
  proof -
    have l: "list_all2 (\<lambda>e r. length e = length r) d X" using inp d by (auto simp: sweep_inputs_def)
    then obtain i where i: "i < length X" "i < length d" and r: "r = map2 (+) (?xq ! i) (?e d ! i)"
      using r by (auto simp: in_set_conv_nth list_all2_lengthD)
    have q: "?xq ! i \<in> set ?xq" using i by (intro nth_mem) simp
    have "length (d ! i) = length (?xq ! i)" using l i by (simp add: list_all2_conv_all_nth)
    then show ?thesis
      using noisy_row_bound [OF quantised_rows [OF inp q, THEN conjunct1]] quantised_rows [OF inp q] r i by simp
  qed
  have "ovf = 0" if d: "d \<in> set ds" and run: "?run d = Ret (sc, smax, ovf)" for d sc smax ovf
    using run_cell_safe [OF t _ rows [OF d] _ _ run] inp safe c(2) by (simp add: sweep_inputs_def)
  note zero = this
  have all: "list_all2 (\<lambda>d z. ?run d = Ret z) ds rs" using rs unfolding rmap_Ret_iff .
  have "\<forall>z \<in> set rs. snd (snd z) = 0"
  proof
    fix z assume "z \<in> set rs"
    then obtain i where i: "i < length rs" "rs ! i = z" by (auto simp: in_set_conv_nth)
    obtain sc smax ovf where z: "z = (sc, smax, ovf)" by (cases z)
    have "ds ! i \<in> set ds" using all i(1) by (simp add: list_all2_lengthD)
    moreover have "?run (ds ! i) = Ret (sc, smax, ovf)" using list_all2_nthD2 [OF all i(1)] i(2) z by simp
    ultimately have "ovf = 0" by (rule zero)
    then show "snd (snd z) = 0" using z by simp
  qed
  then have "map (\<lambda>(sc, smax, ovf). ovf) rs = map (\<lambda>_. 0) rs" by auto
  then show ?thesis using c(1) by (simp add: sum_list_0)
qed

section \<open>Quantisation error\<close>

lemma rhe_scaled: "0 < d \<Longrightarrow> \<bar>of_int (round_half_even (x * d)) / d - x\<bar> \<le> 1 / (2 * d)"
proof -
  assume d: "0 < d"
  then have "of_int (round_half_even (x * d)) / d - x = (of_int (round_half_even (x * d)) - x * d) / d"
    by (simp add: diff_divide_distrib)
  then show ?thesis using d divide_right_mono [OF rhe_half_step [of "x * d"], of d] by simp
qed

lemma quantised_product_error:
  assumes "0 < dx" "0 < dw"
  shows "\<bar>of_int (round_half_even (x * dx)) * of_int (round_half_even (v * dw)) / (dx * dw) - x * v\<bar>
      \<le> \<bar>v\<bar> / (2 * dx) + \<bar>x\<bar> / (2 * dw) + 1 / (4 * (dx * dw))"
proof -
  define p where "p = of_int (round_half_even (x * dx)) / dx - x"
  define q where "q = of_int (round_half_even (v * dw)) / dw - v"
  have pq: "\<bar>p\<bar> \<le> 1 / (2 * dx)" "\<bar>q\<bar> \<le> 1 / (2 * dw)"
    using assms by (simp_all only: p_def q_def rhe_scaled)
  have "of_int (round_half_even (x * dx)) * of_int (round_half_even (v * dw)) / (dx * dw) - x * v = (x + p) * (v + q) - x * v"
    by (simp add: p_def q_def)
  also have "\<bar>\<dots>\<bar> \<le> \<bar>v\<bar> * \<bar>p\<bar> + \<bar>x\<bar> * \<bar>q\<bar> + \<bar>p\<bar> * \<bar>q\<bar>"
    using abs_triangle_ineq [of "v * p + x * q" "p * q"] abs_triangle_ineq [of "v * p" "x * q"]
    by (simp add: abs_mult algebra_simps)
  also have "\<dots> \<le> \<bar>v\<bar> * (1 / (2 * dx)) + \<bar>x\<bar> * (1 / (2 * dw)) + 1 / (2 * dx) * (1 / (2 * dw))"
    using pq assms by (intro add_mono mult_left_mono mult_mono) auto
  finally show ?thesis by simp
qed

lemma quantised_dot_error:
  assumes "0 < dx" "0 < dw" "length x = length w"
  shows "\<bar>of_int (dot (map (\<lambda>v. round_half_even (v * dx)) x) (map (\<lambda>v. round_half_even (v * dw)) w)) / (dx * dw) - dot x w\<bar>
      \<le> (\<Sum>v\<leftarrow>w. \<bar>v\<bar>) / (2 * dx) + (\<Sum>v\<leftarrow>x. \<bar>v\<bar>) / (2 * dw) + real (length x) / (4 * (dx * dw))"
  using assms(3)
proof (induction x w rule: list_induct2)
  case (Cons x xs v vs)
  show ?case
    using quantised_product_error [OF assms(1,2), of x v] Cons.IH
    by (simp add: add_divide_distrib)
qed simp

section \<open>Properties\<close>

text \<open>C13. A sweep cell marked worst-case safe never overflows: whatever the data (within the per-column
  guarantee), the noise draws and the block split, its overflow count is zero, and without noise the
  AUC it reports is that of the exact fixed-point logits, as if no reduction modulo \<open>t\<close> had happened.\<close>

theorem safe_cell_exact:
  assumes "odd t" "0 < t" and "sweep_inputs X w blk xbound nd"
    and "sweep_cell roc_auc X y w b auc0 t lx lw nd blk xbound bias_opt = Ret c" and "worst_case_safe c"
  shows "overflow_count c = 0 \<and> (nd = None \<longrightarrow> auc c = roc_auc y (map (\<lambda>r.
      of_int (dot (map (\<lambda>x. round_half_even (x * 2 ^ lx)) r) (map (\<lambda>v. round_half_even (v * 2 ^ lw)) w)) / (2 ^ lx * 2 ^ lw)
      + (case bias_opt of None \<Rightarrow> b | Some v \<Rightarrow> v)) X))"
proof (cases nd)
  case None
  with sweep_cell_safe_hera [OF assms(1,2), of X w blk xbound roc_auc y b auc0 lx lw bias_opt c] assms(3-5)
  show ?thesis by simp
next
  case (Some ds)
  with sweep_cell_safe_rubato [OF assms(1,2), of X w blk xbound ds roc_auc y b auc0 lx lw bias_opt c] assms(3-5)
  show ?thesis by simp
qed

lemma demo_cell:
  "\<exists>c. sweep_cell (\<lambda>_ ls. hd ls) [[1 / 2]] () [3] 0 0 T_HERA 4 4 None 1 None None = Ret c \<and> worst_case_safe c"
  by (simp add: sweep_cell_def Let_def run_cell_def ncols_def col_slice_def round_half_even_def lmax_def T_HERA_def)

theorem safe_cell_exact_witness:
  "\<exists>c. sweep_cell (\<lambda>_ ls. hd ls) [[1 / 2]] () [3] 0 0 T_HERA 4 4 None 1 None None = Ret c
     \<and> overflow_count c = 0 \<and> auc c = 3 / 2"
proof -
  obtain c where c: "sweep_cell (\<lambda>_ ls. hd ls) [[1 / 2]] () [3] 0 0 T_HERA 4 4 None 1 None None = Ret c" "worst_case_safe c"
    using demo_cell by blast
  have "sweep_inputs [[1 / 2]] [3] 1 None None" by (simp add: sweep_inputs_def ncols_def)
  from safe_cell_exact [OF _ _ this c] c(1) show ?thesis by (simp add: T_HERA_def round_half_even_def)
qed

text \<open>\<^verbatim>\<open>pick\<close> returns exactly the safe cells within the AUC tolerance, in order of increasing AUC
  deviation (ties by decreasing headroom), so its first element is a best passing cell; it is empty only
  when no cell passes. It fails only on a zero worst-case bound.\<close>

theorem pick_best:
  assumes "pick cells tol = Ret good"
  shows "mset good = mset (filter (\<lambda>c. worst_case_safe c \<and> abs_delta_auc c \<le> tol) cells)
    \<and> sorted (map pick_key good)
    \<and> (\<forall>c \<in> set cells. worst_case_safe c \<and> abs_delta_auc c \<le> tol \<longrightarrow>
         good \<noteq> [] \<and> abs_delta_auc (hd good) \<le> abs_delta_auc c)"
proof -
  let ?ok = "filter (\<lambda>c. worst_case_safe c \<and> abs_delta_auc c \<le> tol) cells"
  from assms have g: "good = sort_key pick_key ?ok" by (auto simp: pick_def Let_def split: if_splits)
  have "good \<noteq> [] \<and> abs_delta_auc (hd good) \<le> abs_delta_auc c" if "c \<in> set ?ok" for c
  proof -
    have c: "c \<in> set good" using that g by simp
    then obtain d ds where d: "good = d # ds" by (cases good) auto
    have "sorted (map pick_key good)" using g by simp
    with c d have "pick_key d \<le> pick_key c" by auto
    then show ?thesis using d by (auto simp: pick_key_def less_eq_prod_def)
  qed
  then show ?thesis using g by auto
qed

theorem pick_best_witness:
  "\<exists>c d. pick [c, d] (1 / 1000) = Ret [d] \<and> abs_delta_auc d = 0 \<and> sorted (map pick_key [d])"
proof -
  obtain c :: cell where c: "\<not> worst_case_safe c" by (metis cell.select_convs(6))
  obtain d :: cell where d: "worst_case_safe d" "abs_delta_auc d = 0" "worst_case_bound d = 1"
    by (metis cell.select_convs(4,6,13))
  have r: "pick [c, d] (1 / 1000) = Ret [d]" using c d by (simp add: pick_def)
  from pick_best [OF this] r d(2) c d show ?thesis by auto
qed

text \<open>The CNP-A simulation at scale \<open>2\<^sup>40\<close>: for features of absolute value at most one, the reported
  maximal logit error is at most \<open>(\<Sum>\<bar>w\<bar> + n) / 2\<^sup>41 + n / 2\<^sup>82\<close> for \<open>n\<close> features.\<close>

theorem cnp_a_error_bound:
  assumes "X \<noteq> []" and "\<And>r. r \<in> set X \<Longrightarrow> length r = length w \<and> (\<forall>x \<in> set r. \<bar>x\<bar> \<le> 1)"
  shows "ca_max_abs_err (cnp_a roc_auc X y w b auc0)
      \<le> ((\<Sum>v\<leftarrow>w. \<bar>v\<bar>) + real (length w)) / 2 ^ 41 + real (length w) / 2 ^ 82"
proof -
  let ?q = "\<lambda>v. round_half_even (v * 2 ^ 40)"
  let ?err = "\<lambda>r. \<bar>of_int (dot (map ?q r) (map ?q w)) / (2 ^ 40 * 2 ^ 40) - dot r w\<bar>"
  have e: "?err r \<le> ((\<Sum>v\<leftarrow>w. \<bar>v\<bar>) + real (length w)) / 2 ^ 41 + real (length w) / 2 ^ 82" if "r \<in> set X" for r
  proof -
    have l: "length r = length w" and "(\<Sum>v\<leftarrow>r. \<bar>v\<bar>) \<le> (\<Sum>v\<leftarrow>r. 1)"
      using assms(2) [OF that] by (auto intro!: sum_list_mono)
    then have "(\<Sum>v\<leftarrow>r. \<bar>v\<bar>) \<le> real (length w)" by (simp add: sum_list_triv)
    then show ?thesis using quantised_dot_error [of "2 ^ 40" "2 ^ 40" r w] l by (simp add: field_simps)
  qed
  note lmax_in
  moreover have "ca_max_abs_err (cnp_a roc_auc X y w b auc0) = lmax (map ?err X)"
    by (simp add: cnp_a_def Let_def map2_map_map comp_def)
  ultimately obtain r where "r \<in> set X" "ca_max_abs_err (cnp_a roc_auc X y w b auc0) = ?err r"
    using assms(1) by (metis (no_types, lifting) imageE list.map_disc_iff list.set_map)
  then show ?thesis using e by simp
qed

theorem cnp_a_error_bound_witness:
  "ca_max_abs_err (cnp_a (\<lambda>_ _. 0) [[1 / 3]] () [2] 0 0) \<le> 3 / 2 ^ 41 + 1 / 2 ^ 82"
  using cnp_a_error_bound [of "[[1 / 3]]" "[2]" "\<lambda>_ _. 0" "()" 0 0] by simp

end
