(* ===== verification/MaskCheck.thy ===== *)
theory MaskCheck
  imports CnpGate
begin

text \<open>
  The mask check and the driver of \<^verbatim>\<open>scripts/cnp_gate.py\<close>. A product that is returned unmasked leaks the
  weights: \<open>triangular_solve\<close> is the attack of the source and is proved to recover them; masking every
  coefficient but the outputs keeps the outputs. \<^verbatim>\<open>pow(x, -1, t)\<close> is modelled by the extended Euclidean
  algorithm.
\<close>

section \<open>Modular inverse\<close>

function egcd :: "int \<Rightarrow> int \<Rightarrow> int \<times> int \<times> int" where
  "egcd a b = (if b = 0 then (a, 1, 0)
     else (case egcd b (a mod b) of (g, x, y) \<Rightarrow> (g, y, x - (a div b) * y)))"
  by auto
termination
  by (relation "measure (\<lambda>(a, b). nat \<bar>b\<bar>)") (auto simp: abs_mod_less)

declare egcd.simps [simp del]

definition pow_inverse :: "int \<Rightarrow> int \<Rightarrow> int res" where
  "pow_inverse a t = (case egcd (a mod t) t of (g, x, y) \<Rightarrow> if g = 1 then Ret (x mod t) else Raise ValueError)"

lemma egcd_bezout: "egcd a b = (g, x, y) \<Longrightarrow> a * x + b * y = g"
proof (induction a b arbitrary: g x y rule: egcd.induct)
  case (1 a b)
  show ?case
  proof (cases "b = 0")
    case False
    obtain g' x' y' where r: "egcd b (a mod b) = (g', x', y')" by (cases "egcd b (a mod b)")
    with 1(2) False have e: "g = g'" "x = y'" "y = x' - (a div b) * y'" by (auto simp: egcd.simps [of a b])
    have "b * x' + (a mod b) * y' = g'" by (rule 1(1) [OF False r])
    moreover have "a mod b = a - b * (a div b)" by (simp add: minus_mult_div_eq_mod)
    ultimately show ?thesis unfolding e by (simp add: algebra_simps)
  qed (use 1(2) in \<open>simp add: egcd.simps [of a 0]\<close>)
qed

lemma egcd_gcd: "0 \<le> a \<Longrightarrow> 0 \<le> b \<Longrightarrow> fst (egcd a b) = gcd a b"
proof (induction a b rule: egcd.induct)
  case (1 a b)
  show ?case
  proof (cases "b = 0")
    case False
    have "fst (egcd a b) = fst (egcd b (a mod b))"
      using False by (simp add: egcd.simps [of a b] split: prod.splits)
    also have "\<dots> = gcd b (a mod b)" using 1 False by simp
    also have "\<dots> = gcd a b" by (rule gcd_red_int [symmetric])
    finally show ?thesis .
  qed (use 1 in \<open>simp add: egcd.simps\<close>)
qed

lemma pow_inverse_Ret: "pow_inverse a t = Ret x \<Longrightarrow> (a * x) mod t = 1 mod t"
proof -
  assume "pow_inverse a t = Ret x"
  then obtain x0 y0 where e: "egcd (a mod t) t = (1, x0, y0)" and x: "x = x0 mod t"
    by (auto simp: pow_inverse_def split: prod.splits if_splits)
  have "(a mod t) * x0 + t * y0 = 1" using egcd_bezout [OF e] .
  then have "((a mod t) * x0 + t * y0) mod t = 1 mod t" by simp
  then show ?thesis using x by (simp add: mod_simps)
qed

lemma pow_inverse_total: "0 < t \<Longrightarrow> coprime a t \<Longrightarrow> \<exists>x. pow_inverse a t = Ret x"
proof -
  assume "0 < t" "coprime a t"
  then have "fst (egcd (a mod t) t) = 1"
    using egcd_gcd [of "a mod t" t] gcd_red_int [of a t] by (simp add: gcd.commute)
  then show ?thesis by (cases "egcd (a mod t) t") (simp add: pow_inverse_def)
qed

section \<open>The attack on an unmasked product\<close>

text \<open>Step \<open>m\<close> of the solve: subtract the known terms of coefficient \<open>m\<close>, multiply by the inverse of the
  first feature.\<close>

definition solve_step :: "int list \<Rightarrow> int list \<Rightarrow> int \<Rightarrow> int \<Rightarrow> nat \<Rightarrow> int list \<Rightarrow> int list" where
  "solve_step c lane_x x0inv t m rc =
     (let acc = c ! m - (\<Sum>i\<leftarrow>[1..<m + 1]. lane_x ! i * rc ! (255 - m + i))
      in rc[255 - m := (acc * x0inv) mod t])"

definition triangular_solve :: "int list \<Rightarrow> int list \<Rightarrow> int \<Rightarrow> int \<Rightarrow> int list" where
  "triangular_solve c lane_x x0inv t = fold (solve_step c lane_x x0inv t) [0..<256] (replicate 256 0)"

record mask_res =
  mr_masked_chi2 :: real
  mr_masked_p :: real
  mr_unmasked_chi2 :: real
  mr_unmasked_p :: real
  mr_n_samples_masked :: nat
  mr_outputs_unchanged :: bool
  mr_recovered :: bool

definition chi_hist :: "int \<Rightarrow> int list \<Rightarrow> nat list" where
  "chi_hist t v = map (\<lambda>k. length (filter (\<lambda>x. x * 64 div t = int k) v)) [0..<64]"

definition nonout :: "nat list" where
  "nonout = filter (\<lambda>i. i \<notin> set (out_idx 32)) [0..<8192]"

text \<open>One masking trial: the random mask \<open>m\<close> is zeroed at the output indices.\<close>

definition mask_trial :: "int \<Rightarrow> int list \<Rightarrow> int list \<Rightarrow> int list res" where
  "mask_trial t prd draw =
     (let m = map (\<lambda>i. if i \<in> set (out_idx 32) then 0 else draw ! i) [0..<8192] in
      rbind (py_assert (\<forall>i \<in> set nonout. m ! i \<noteq> 0)) (\<lambda>_.
      let masked = map2 (\<lambda>p q. (p + q) mod t) prd m in
      rbind (py_assert (\<forall>i \<in> set (out_idx 32). masked ! i = prd ! i)) (\<lambda>_.
      Ret (map (\<lambda>i. masked ! i) nonout))))"

definition mask_check :: "(nat list \<Rightarrow> real \<times> real) \<Rightarrow> int list list \<Rightarrow> real list list \<Rightarrow> real list \<Rightarrow> int \<Rightarrow> mask_res res" where
  "mask_check chisquare draws X w t =
     (let xq = map (map (\<lambda>x. round_half_even (x * 2 ^ 8))) (take 32 X);
          wq = map (\<lambda>v. round_half_even (v * 2 ^ 8)) w;
          xpoly = map (\<lambda>v. v mod t) (concat xq);
          wrev = map (\<lambda>v. v mod t) (rev wq);
          prd = map (\<lambda>v. v mod t) (naive_negacyclic xpoly wrev 8192)
      in
      rbind (py_assert (\<forall>k \<in> set [0..<32]. prd ! (k * 256 + 255) = dot (xq ! k) wq mod t)) (\<lambda>_.
      rbind (rmap (mask_trial t prd) draws) (\<lambda>pools.
      let pool = concat pools;
          masked = chisquare (chi_hist t pool);
          unmasked = chisquare (chi_hist t (concat (map (\<lambda>_. map (\<lambda>i. prd ! i) nonout) draws)))
      in
      rbind (py_assert (snd masked > 1 / 1000)) (\<lambda>_.
      let lane_x = xq ! 0 in
      rbind (py_assert (lane_x ! 0 mod t \<noteq> 0)) (\<lambda>_.
      let xp = map (\<lambda>v. v mod t) lane_x @ replicate (8192 - 256) 0;
          c = map (\<lambda>v. v mod t) (naive_negacyclic xp wrev 8192)
      in
      rbind (pow_inverse (lane_x ! 0 mod t) t) (\<lambda>x0inv.
      let rc = triangular_solve c lane_x x0inv t in
      rbind (py_assert (map (\<lambda>v. center v t) rc = wq)) (\<lambda>_.
      Ret \<lparr>mr_masked_chi2 = fst masked, mr_masked_p = snd masked,
           mr_unmasked_chi2 = fst unmasked, mr_unmasked_p = snd unmasked,
           mr_n_samples_masked = length pool, mr_outputs_unchanged = True, mr_recovered = True\<rparr>)))))))"

section \<open>The attack recovers the weights\<close>

text \<open>An unmasked single-lane product, coefficient by coefficient.\<close>

definition lane_coeff :: "int list \<Rightarrow> int list \<Rightarrow> nat \<Rightarrow> int" where
  "lane_coeff x w m = (\<Sum>i\<leftarrow>[0..<m + 1]. x ! i * w ! (255 - m + i))"

lemma solve_step_correct:
  assumes c: "c ! m mod t = lane_coeff x w m mod t" and inv: "(x ! 0 * x0inv) mod t = 1 mod t"
    and m: "m < 256" and len: "length rc = 256"
    and known: "\<And>j. 255 - m < j \<Longrightarrow> j < 256 \<Longrightarrow> rc ! j = w ! j mod t"
  shows "solve_step c x x0inv t m rc = rc[255 - m := w ! (255 - m) mod t]"
proof -
  let ?s = "\<Sum>i\<leftarrow>[1..<m + 1]. x ! i * w ! (255 - m + i)"
  let ?r = "\<Sum>i\<leftarrow>[1..<m + 1]. x ! i * rc ! (255 - m + i)"
  have "?r mod t = ?s mod t"
  proof -
    have aux: "(\<Sum>i\<leftarrow>is. x ! i * rc ! (255 - m + i)) mod t = (\<Sum>i\<leftarrow>is. x ! i * w ! (255 - m + i)) mod t"
      if "set is \<subseteq> {1..<m + 1}" for "is"
      using that
    proof (induction "is")
      case (Cons i "is")
      then have "rc ! (255 - m + i) = w ! (255 - m + i) mod t" using m by (intro known) auto
      then have "(x ! i * rc ! (255 - m + i)) mod t = (x ! i * w ! (255 - m + i)) mod t"
        by (simp add: mod_simps)
      moreover have "(\<Sum>i\<leftarrow>is. x ! i * rc ! (255 - m + i)) mod t = (\<Sum>i\<leftarrow>is. x ! i * w ! (255 - m + i)) mod t"
        using Cons by simp
      ultimately show ?case unfolding list.map sum_list.Cons by (rule mod_add_cong)
    qed simp
    show ?thesis by (rule aux) auto
  qed
  moreover have "lane_coeff x w m = x ! 0 * w ! (255 - m) + ?s"
    unfolding lane_coeff_def by (subst upt_conv_Cons) simp_all
  ultimately have "(c ! m - ?r) mod t = (x ! 0 * w ! (255 - m)) mod t"
    using mod_diff_cong [of "c ! m" t "lane_coeff x w m" ?r ?s] c by simp
  then have "((c ! m - ?r) * x0inv) mod t = (x ! 0 * w ! (255 - m) * x0inv) mod t"
    by (rule mod_mult_cong) simp
  also have "\<dots> = (x ! 0 * x0inv mod t * w ! (255 - m)) mod t" by (simp add: mod_simps ac_simps)
  also have "\<dots> = w ! (255 - m) mod t" unfolding inv by (simp add: mod_simps)
  finally show ?thesis by (simp add: solve_step_def Let_def)
qed

lemma triangular_solve_correct:
  assumes c: "\<And>m. m < 256 \<Longrightarrow> c ! m mod t = lane_coeff x w m mod t"
    and inv: "(x ! 0 * x0inv) mod t = 1 mod t" and w: "length w = 256"
  shows "triangular_solve c x x0inv t = map (\<lambda>v. v mod t) w"
proof -
  have "n \<le> 256 \<Longrightarrow> length (fold (solve_step c x x0inv t) [0..<n] (replicate 256 0)) = 256 \<and>
      (\<forall>j. 256 - n \<le> j \<longrightarrow> j < 256 \<longrightarrow> fold (solve_step c x x0inv t) [0..<n] (replicate 256 0) ! j = w ! j mod t)" for n
  proof (induction n)
    case (Suc n)
    let ?rc = "fold (solve_step c x x0inv t) [0..<n] (replicate 256 0)"
    have l: "length ?rc = 256" and known: "?rc ! j = w ! j mod t" if "255 - n < j" "j < 256" for j
      using Suc that by auto
    have l: "length ?rc = 256" using Suc by simp
    have "solve_step c x x0inv t n ?rc = ?rc[255 - n := w ! (255 - n) mod t]"
      using Suc.prems by (intro solve_step_correct c inv l known) auto
    then show ?case using l known Suc.prems by (auto simp: nth_list_update)
  qed simp
  from this [of 256] w show ?thesis by (intro nth_equalityI) (simp_all add: triangular_solve_def)
qed

text \<open>The coefficients of the single-lane product are \<open>lane_coeff\<close>.\<close>

lemma single_lane_coeff:
  assumes "length x = 256" "length w = 256" "m < 256"
  shows "nega (x @ replicate 7936 0) (rev w) 8192 m = lane_coeff x w m"
proof -
  have "nega (x @ replicate 7936 0) (rev w) 8192 m = (\<Sum>d<256. if d \<le> m then x ! (m - d) * w ! (255 - d) else 0)"
    using assms by (auto simp: nega_def rev_nth nth_append intro!: sum.cong)
  also have "\<dots> = (\<Sum>d<m + 1. x ! (m - d) * w ! (255 - d))"
    using assms(3) by (intro sum.mono_neutral_cong_right) auto
  also have "\<dots> = (\<Sum>i<m + 1. x ! i * w ! (255 - m + i))"
    using assms(3) by (subst sum.nat_diff_reindex [symmetric]) (auto intro!: sum.cong)
  finally show ?thesis
    by (simp add: lane_coeff_def interv_sum_list_conv_sum_set_nat atLeast0LessThan del: upt_Suc)
qed

lemma nega_mod_cong:
  assumes "length a = length a'" "length b = length b'" "length a = N" "length b \<le> N" "i < N"
    and "\<And>j. j < N \<Longrightarrow> a ! j mod t = a' ! j mod t" "\<And>d. d < length b \<Longrightarrow> b ! d mod t = b' ! d mod (t::int)"
  shows "nega a b N i mod t = nega a' b' N i mod t"
proof -
  define F where "F d = (if d \<le> i then a ! (i - d) * b ! d else - (a ! (N - d + i) * b ! d))" for d
  define G where "G d = (if d \<le> i then a' ! (i - d) * b' ! d else - (a' ! (N - d + i) * b' ! d))" for d
  have "(if d \<le> i then a ! (i - d) * b ! d else - (a ! (N - d + i) * b ! d)) mod t =
      (if d \<le> i then a' ! (i - d) * b' ! d else - (a' ! (N - d + i) * b' ! d)) mod t" if "d < length b" for d
  proof (cases "d \<le> i")
    case True
    have "(a ! (i - d) * b ! d) mod t = (a' ! (i - d) * b' ! d) mod t"
      using assms(5) that by (intro mod_mult_cong assms(6,7)) auto
    then show ?thesis using True by simp
  next
    case False
    have "(a ! (N - d + i) * b ! d) mod t = (a' ! (N - d + i) * b' ! d) mod t"
      using assms(4) that False by (intro mod_mult_cong assms(6,7)) auto
    then show ?thesis using False by (simp only: if_False) (metis mod_minus_eq)
  qed
  then have "F d mod t = G d mod t" if "d < length b" for d
    using that unfolding F_def G_def .
  then have "(\<Sum>d<length b. F d mod t) = (\<Sum>d<length b. G d mod t)" by (intro sum.cong) auto
  then have "sum F {..<length b} mod t = sum G {..<length b} mod t"
    using mod_sum_eq [of F t "{..<length b}"] mod_sum_eq [of G t "{..<length b}"] by simp
  then show ?thesis unfolding nega_def F_def G_def assms(2) .
qed

text \<open>The reference product of residues, reduced modulo \<open>t\<close>.\<close>

lemma product_mod:
  assumes t: "0 < t" "t \<le> 2 ^ 25" and a: "length a = N" and b: "length b \<le> N" "length b \<le> 256" and i: "i < N"
  shows "map (\<lambda>v. v mod t) (naive_negacyclic (map (\<lambda>v. v mod t) a) (map (\<lambda>v. v mod t) b) N) ! i = nega a b N i mod t"
proof -
  have r: "bounded (2 ^ 25) (map (\<lambda>v. v mod t) xs)" for xs
  proof -
    have "x mod t < 2 ^ 25" for x using pos_mod_bound [OF t(1), of x] t(2) by linarith
    then show ?thesis using t(1) by (auto simp: bounded_def)
  qed
  have "naive_negacyclic (map (\<lambda>v. v mod t) a) (map (\<lambda>v. v mod t) b) N = map (nega (map (\<lambda>v. v mod t) a) (map (\<lambda>v. v mod t) b) N) [0..<N]"
    using a b by (intro naive_negacyclic_correct r) simp_all
  moreover have "nega (map (\<lambda>v. v mod t) a) (map (\<lambda>v. v mod t) b) N i mod t = nega a b N i mod t"
    using a b i by (intro nega_mod_cong) simp_all
  ultimately show ?thesis using i by simp
qed

lemma length_naive [simp]: "length (naive_negacyclic a b N) = N"
proof (induction b rule: rev_induct)
  case (snoc y b)
  then show ?case by (simp add: naive_snoc nega_step_def)
qed (simp add: naive_negacyclic_def)

definition masked_pool :: "int \<Rightarrow> int list \<Rightarrow> int list list \<Rightarrow> int list" where
  "masked_pool t prd draws = concat (map (\<lambda>d. map (\<lambda>i. (prd ! i + d ! i) mod t) nonout) draws)"

lemma nonout_iff [simp]: "i \<in> set nonout \<longleftrightarrow> i < 8192 \<and> i \<notin> set (out_idx 32)"
  by (auto simp: nonout_def)

lemma out_idx_less: "i \<in> set (out_idx 32) \<Longrightarrow> i < 8192"
  by (auto simp: out_idx_def)

lemma mask_trial_eq:
  assumes prd: "length prd = 8192" "\<And>i. i < 8192 \<Longrightarrow> prd ! i mod t = prd ! i"
  shows "mask_trial t prd d =
    (if \<forall>i \<in> set nonout. d ! i \<noteq> 0 then Ret (map (\<lambda>i. (prd ! i + d ! i) mod t) nonout) else Raise AssertionError)"
proof -
  let ?m = "map (\<lambda>i. if i \<in> set (out_idx 32) then 0 else d ! i) [0..<8192]"
  have m: "?m ! i = (if i \<in> set (out_idx 32) then 0 else d ! i)" if "i < 8192" for i
    using that by simp
  have masked: "map2 (\<lambda>p q. (p + q) mod t) prd ?m ! i = (prd ! i + ?m ! i) mod t" if "i < 8192" for i
    using that prd(1) by simp
  have "(\<forall>i \<in> set nonout. ?m ! i \<noteq> 0) = (\<forall>i \<in> set nonout. d ! i \<noteq> 0)"
    by (intro ball_cong refl) (simp add: m del: nth_map)
  moreover have "\<forall>i \<in> set (out_idx 32). map2 (\<lambda>p q. (p + q) mod t) prd ?m ! i = prd ! i"
    by (auto simp: masked m out_idx_less prd(2) simp del: nth_map)
  moreover have "map (\<lambda>i. map2 (\<lambda>p q. (p + q) mod t) prd ?m ! i) nonout = map (\<lambda>i. (prd ! i + d ! i) mod t) nonout"
    by (intro map_cong refl) (simp add: masked m del: nth_map)
  ultimately show ?thesis
    unfolding mask_trial_def Let_def by (simp add: py_assert_def del: nonout_iff set_upt)
qed

lemma rmap_mask_trials:
  assumes "length prd = 8192" "\<And>i. i < 8192 \<Longrightarrow> prd ! i mod t = prd ! i"
  shows "rmap (mask_trial t prd) draws =
    (if \<forall>d \<in> set draws. \<forall>i \<in> set nonout. d ! i \<noteq> 0
     then Ret (map (\<lambda>d. map (\<lambda>i. (prd ! i + d ! i) mod t) nonout) draws) else Raise AssertionError)"
  by (induction draws) (simp_all add: mask_trial_eq [OF assms] del: nonout_iff)

lemma attack_recovers:
  assumes "odd t" "0 < t" "t \<le> 2 ^ 25" and x: "length x = 256" "coprime (x ! 0) t"
    and w: "length wq = 256" "\<And>v. v \<in> set wq \<Longrightarrow> \<bar>v\<bar> \<le> t div 2"
  shows "\<exists>x0inv. pow_inverse (x ! 0 mod t) t = Ret x0inv \<and>
    map (\<lambda>v. center v t) (triangular_solve
      (map (\<lambda>v. v mod t) (naive_negacyclic (map (\<lambda>v. v mod t) x @ replicate (8192 - 256) 0) (map (\<lambda>v. v mod t) (rev wq)) 8192))
      x x0inv t) = wq"
proof -
  obtain x0inv where inv: "pow_inverse (x ! 0 mod t) t = Ret x0inv"
    using pow_inverse_total [of t "x ! 0 mod t"] assms(2) x(2) by (auto simp: coprime_mod_left_iff)
  let ?c = "map (\<lambda>v. v mod t) (naive_negacyclic (map (\<lambda>v. v mod t) (x @ replicate 7936 0)) (map (\<lambda>v. v mod t) (rev wq)) 8192)"
  have "?c ! m mod t = lane_coeff x wq m mod t" if "m < 256" for m
  proof -
    have "?c ! m = nega (x @ replicate 7936 0) (rev wq) 8192 m mod t"
      using that x(1) w(1) by (intro product_mod assms(2,3)) simp_all
    then show ?thesis using single_lane_coeff [OF x(1) w(1) that] by simp
  qed
  moreover have "(x ! 0 * x0inv) mod t = 1 mod t"
    using pow_inverse_Ret [OF inv] by (simp add: mod_simps)
  ultimately have "triangular_solve ?c x x0inv t = map (\<lambda>v. v mod t) wq"
    using w(1) by (rule triangular_solve_correct)
  moreover have "map (\<lambda>v. center v t) (map (\<lambda>v. v mod t) wq) = wq"
    unfolding map_map comp_def using center_unique [OF assms(1,2) w(2)] by (intro map_idI) simp
  ultimately show ?thesis using inv by simp
qed

section \<open>Properties\<close>

text \<open>C36. The attack succeeds: from the unmasked product of a single-lane query with a first feature
  invertible modulo \<open>t\<close>, the triangular solve of the source, centred, returns all 256 quantised weights
  exactly, for every weight vector within \<open>t div 2\<close>.\<close>

theorem unmasked_product_leaks:
  assumes "odd t" "0 < t" "t \<le> 2 ^ 25" and x: "length x = 256" "coprime (x ! 0) t"
    and w: "length wq = 256" "\<And>v. v \<in> set wq \<Longrightarrow> \<bar>v\<bar> \<le> t div 2"
  shows "\<exists>x0inv. pow_inverse (x ! 0 mod t) t = Ret x0inv \<and>
    map (\<lambda>v. center v t) (triangular_solve
      (map (\<lambda>v. v mod t) (naive_negacyclic (map (\<lambda>v. v mod t) x @ replicate (8192 - 256) 0) (map (\<lambda>v. v mod t) (rev wq)) 8192))
      x x0inv t) = wq"
  using assms by (rule attack_recovers)

theorem unmasked_product_leaks_witness:
  "\<exists>x0inv. pow_inverse (replicate 256 7 ! 0 mod T_HERA) T_HERA = Ret x0inv \<and>
    map (\<lambda>v. center v T_HERA) (triangular_solve
      (map (\<lambda>v. v mod T_HERA) (naive_negacyclic (map (\<lambda>v. v mod T_HERA) (replicate 256 7) @ replicate (8192 - 256) 0)
         (map (\<lambda>v. v mod T_HERA) (rev (replicate 256 (-5)))) 8192))
      (replicate 256 7) x0inv T_HERA) = replicate 256 (-5)"
proof (rule unmasked_product_leaks)
  have "coprime 7 T_HERA" unfolding coprime_iff_gcd_eq_1 by code_simp
  then show "coprime (replicate 256 7 ! 0) T_HERA" by simp
qed (simp_all add: T_HERA_def)

text \<open>The product the mask check computes from its first 32 rows.\<close>

definition gate_product :: "int \<Rightarrow> real list list \<Rightarrow> real list \<Rightarrow> int list" where
  "gate_product t X w =
     map (\<lambda>v. v mod t) (naive_negacyclic
       (map (\<lambda>v. v mod t) (concat (map (map (\<lambda>x. round_half_even (x * 2 ^ 8))) (take 32 X))))
       (map (\<lambda>v. v mod t) (rev (map (\<lambda>v. round_half_even (v * 2 ^ 8)) w))) 8192)"

lemma gate_product_lane:
  assumes t: "0 < t" "t \<le> 2 ^ 25" and X: "32 \<le> length X" "\<And>r. r \<in> set X \<Longrightarrow> length r = 256" and w: "length w = 256"
    and k: "k < 32"
  shows "gate_product t X w ! (k * 256 + 255) =
    dot (map (map (\<lambda>x. round_half_even (x * 2 ^ 8))) (take 32 X) ! k) (map (\<lambda>v. round_half_even (v * 2 ^ 8)) w) mod t"
proof -
  define xq where "xq = map (map (\<lambda>x. round_half_even (x * 2 ^ 8))) (take 32 X)"
  define wq where "wq = map (\<lambda>v. round_half_even (v * 2 ^ 8)) w"
  have rows: "length c = 256" if "c \<in> set xq" for c using that X(2) by (auto simp: xq_def dest: in_set_takeD)
  have l: "length xq = 32" "length wq = 256" using X(1) w by (simp_all add: xq_def wq_def)
  then have lc: "length (concat xq) = 8192" using length_concat_const [of xq 256] rows by simp
  have "gate_product t X w ! (k * 256 + 255) = nega (concat xq) (rev wq) 8192 (256 * k + 255) mod t"
    unfolding gate_product_def xq_def [symmetric] wq_def [symmetric] mult.commute [of k]
    using lc l k by (intro product_mod t) simp_all
  also have "nega (concat xq) (rev wq) 8192 (256 * k + 255) = (\<Sum>j<256. concat xq ! (256 * k + j) * wq ! j)"
    using l k by (intro nega_lane) simp_all
  also have "\<dots> = (\<Sum>j<256. xq ! k ! j * wq ! j)"
    using nth_concat_const [of xq 256 k] rows l k by (intro sum.cong) auto
  also have "\<dots> = dot (xq ! k) wq" using rows [of "xq ! k"] l k by (simp add: dot_sum)
  finally show ?thesis unfolding xq_def wq_def .
qed

text \<open>The mask check can fail only by chance: for 32 rows of 256 features, weights within the centred
  range after scaling and a first feature invertible modulo \<open>t\<close>, every deterministic assertion holds (the
  outputs are the lanes' dot products, masking changes no output, the attack recovers the weights), and the
  check returns exactly when no mask entry was drawn as zero off the outputs and the chi-square test of the
  masked coefficients passes.\<close>

theorem mask_check_outcome:
  assumes t: "odd t" "0 < t" "t \<le> 2 ^ 25"
    and X: "32 \<le> length X" "\<And>r. r \<in> set X \<Longrightarrow> length r = 256" and w: "length w = 256"
    and wq: "\<And>v. v \<in> set w \<Longrightarrow> \<bar>round_half_even (v * 2 ^ 8)\<bar> \<le> t div 2"
    and x0: "coprime (round_half_even (X ! 0 ! 0 * 2 ^ 8)) t" "1 < t"
  shows "is_ret (mask_check chisquare draws X w t) \<longleftrightarrow>
      (\<forall>d \<in> set draws. \<forall>i \<in> set nonout. d ! i \<noteq> 0)
      \<and> snd (chisquare (chi_hist t (masked_pool t (gate_product t X w) draws))) > 1 / 1000"
proof -
  define xq where "xq = map (map (\<lambda>x. round_half_even (x * 2 ^ 8))) (take 32 X)"
  define wq where "wq = map (\<lambda>v. round_half_even (v * 2 ^ 8)) w"
  define prd where "prd = gate_product t X w"
  have prd: "length prd = 8192" "\<And>i. i < 8192 \<Longrightarrow> prd ! i mod t = prd ! i"
    by (simp_all add: prd_def gate_product_def)
  have ne: "0 < length X" using X(1) by linarith
  then have X0: "X ! 0 \<in> set X" by (rule nth_mem)
  have xq0: "xq ! 0 = map (\<lambda>x. round_half_even (x * 2 ^ 8)) (X ! 0)" "length (xq ! 0) = 256" "xq ! 0 ! 0 = round_half_even (X ! 0 ! 0 * 2 ^ 8)"
    using ne X(2) [OF X0] by (auto simp: xq_def nth_take)
  have nz: "xq ! 0 ! 0 mod t \<noteq> 0"
  proof
    assume "xq ! 0 ! 0 mod t = 0"
    then have "t dvd round_half_even (X ! 0 ! 0 * 2 ^ 8)" unfolding xq0(3) by (rule dvd_eq_mod_eq_0 [THEN iffD2])
    then have "is_unit t" by (rule coprime_common_divisor [OF x0(1) _ dvd_refl])
    then show False using x0(2) by simp
  qed
  obtain x0inv where att: "pow_inverse (xq ! 0 ! 0 mod t) t = Ret x0inv"
    "map (\<lambda>v. center v t) (triangular_solve
      (map (\<lambda>v. v mod t) (naive_negacyclic (map (\<lambda>v. v mod t) (xq ! 0) @ replicate (8192 - 256) 0) (map (\<lambda>v. v mod t) (rev wq)) 8192))
      (xq ! 0) x0inv t) = wq"
    using attack_recovers [OF t xq0(2), of wq] x0(1) assms(7) w by (auto simp: xq0(3) wq_def)
  have lane: "\<forall>k \<in> set [0..<32]. prd ! (k * 256 + 255) = dot (xq ! k) wq mod t"
    using gate_product_lane [OF t(2,3) X w] by (simp add: prd_def xq_def wq_def)
  have prd_eq: "map (\<lambda>v. v mod t) (naive_negacyclic (map (\<lambda>v. v mod t) (concat xq)) (map (\<lambda>v. v mod t) (rev wq)) 8192) = prd"
    unfolding prd_def gate_product_def xq_def wq_def ..
  show ?thesis
    unfolding mask_check_def Let_def xq_def [symmetric] wq_def [symmetric] prd_eq unfolding prd_def [symmetric]
    using lane nz att
    by (simp add: rmap_mask_trials [OF prd] masked_pool_def py_assert_def del: nonout_iff set_upt)
qed

theorem mask_check_outcome_witness:
  "is_ret (mask_check (\<lambda>_. (0, 1)) [] (replicate 32 (replicate 256 1)) (replicate 256 1) T_HERA)"
proof -
  have "coprime 256 T_HERA" unfolding coprime_iff_gcd_eq_1 by code_simp
  then show ?thesis
    using mask_check_outcome [of T_HERA "replicate 32 (replicate 256 1)" "replicate 256 1" "\<lambda>_. (0, 1)" "[]"]
    by (simp add: T_HERA_def round_half_even_def)
qed

section \<open>The gate's driver\<close>

record cnp_b_entry =
  cb_cells :: "cell list"
  cb_passing :: "cell list"
  cb_n_passing :: nat
  cb_best :: "cell option"
  cb_fallbacks :: "((cell list \<times> cell list) \<times> (cell list \<times> cell list)) option"

record gate_report =
  gr_baseline_auc :: real
  gr_audit :: audit
  gr_layout :: "layout_res list"
  gr_cnp_a :: cnp_a_res
  gr_hera :: cnp_b_entry
  gr_rubato :: cnp_b_entry
  gr_mask :: mask_res

definition cnp_b_for ::
  "('y \<Rightarrow> real list \<Rightarrow> real) \<Rightarrow> bool \<Rightarrow> real list list \<Rightarrow> 'y \<Rightarrow> real list \<Rightarrow> real \<Rightarrow> real \<Rightarrow> real list list
   \<Rightarrow> int \<Rightarrow> real list list list option \<Rightarrow> cnp_b_entry res" where
  "cnp_b_for roc_auc force_fallbacks X y w b auc0 Xtr t nd =
     rbind (sweep roc_auc X y w b auc0 t nd 1 None None) (\<lambda>cells.
     rbind (pick cells (1 / 1000)) (\<lambda>good.
     rbind (if good = [] \<or> force_fallbacks
            then rbind (fallbacks roc_auc X y w b auc0 t nd Xtr) (\<lambda>f. Ret (Some f)) else Ret None) (\<lambda>fb.
     Ret \<lparr>cb_cells = cells, cb_passing = take 5 good, cb_n_passing = length good,
          cb_best = (if good = [] then None else Some (hd good)), cb_fallbacks = fb\<rparr>)))"

definition cnp_gate_main ::
  "('y \<Rightarrow> real list \<Rightarrow> real) \<Rightarrow> (nat list \<Rightarrow> real \<times> real) \<Rightarrow> bool
   \<Rightarrow> real list list \<times> 'y \<times> real list \<times> real \<Rightarrow> real list list
   \<Rightarrow> (int list \<times> int list) list \<Rightarrow> (int list \<times> int list) list \<Rightarrow> real list list list \<Rightarrow> int list list \<Rightarrow> gate_report res" where
  "cnp_gate_main roc_auc chisquare force_fallbacks inputs Xtr draws1 draws2 noise_draws mask_draws =
     (case inputs of (X, y, w, b) \<Rightarrow>
      let auc0 = roc_auc y (map (\<lambda>r. dot r w + b) X) in
      rbind (py_assert (\<bar>auc0 - 9794 / 10000\<bar> < 5 / 10000)) (\<lambda>_.
      let au = feature_audit X in
      rbind (py_assert (au_claim_abs_le_1 au)) (\<lambda>_.
      rbind (layout_trials 8192 32 draws1) (\<lambda>l1.
      rbind (layout_trials 65536 256 draws2) (\<lambda>l2.
      let ca = cnp_a roc_auc X y w b auc0 in
      rbind (cnp_b_for roc_auc force_fallbacks X y w b auc0 Xtr T_HERA None) (\<lambda>hera.
      rbind (cnp_b_for roc_auc force_fallbacks X y w b auc0 Xtr T_RUBATO (Some noise_draws)) (\<lambda>rubato.
      rbind (mask_check chisquare mask_draws X w T_HERA) (\<lambda>mk.
      Ret \<lparr>gr_baseline_auc = auc0, gr_audit = au, gr_layout = [l1, l2], gr_cnp_a = ca,
           gr_hera = hera, gr_rubato = rubato, gr_mask = mk\<rparr>))))))))"

text \<open>The audit's claim is the hypothesis of the worst-case bound: every feature is at most one in
  absolute value.\<close>

lemma audit_claim:
  assumes "au_claim_abs_le_1 (feature_audit X)" "r \<in> set X" "\<And>r. r \<in> set X \<Longrightarrow> length r = ncols X" "x \<in> set r"
  shows "\<bar>x\<bar> \<le> 1"
proof -
  obtain j where j: "j < length r" "r ! j = x" using assms(4) by (auto simp: in_set_conv_nth)
  let ?mx = "map (\<lambda>j. lmax (map abs (col j X))) [0..<ncols X]"
  have jn: "j < ncols X" using j assms(2,3) by metis
  have "\<bar>x\<bar> \<in> set (map abs (col j X))" using assms(2) j by (force simp: col_def)
  then have "\<bar>x\<bar> \<le> lmax (map abs (col j X))" by (rule lmax_ge)
  also have "\<dots> \<le> lmax ?mx" using jn by (intro lmax_ge) auto
  also have "\<dots> \<le> 1" using assms(1) by (simp add: feature_audit_def Let_def)
  finally show ?thesis .
qed

lemma cnp_b_for_best:
  assumes "cnp_b_for roc_auc ff X y w b auc0 Xtr t nd = Ret e" "cb_best e = Some c"
  obtains cells good where "sweep roc_auc X y w b auc0 t nd 1 None None = Ret cells"
    "pick cells (1 / 1000) = Ret good" "good \<noteq> []" "c = hd good"
proof -
  from assms(1) obtain cells good fb where e: "sweep roc_auc X y w b auc0 t nd 1 None None = Ret cells"
    "pick cells (1 / 1000) = Ret good"
    "e = \<lparr>cb_cells = cells, cb_passing = take 5 good, cb_n_passing = length good,
          cb_best = (if good = [] then None else Some (hd good)), cb_fallbacks = fb\<rparr>"
    unfolding cnp_b_for_def rbind_Ret_iff by blast
  with assms(2) have "good \<noteq> []" "c = hd good" by (auto split: if_splits)
  with e that show ?thesis by blast
qed

lemma pick_member: "pick cells tol = Ret good \<Longrightarrow> c \<in> set good \<Longrightarrow> c \<in> set cells \<and> worst_case_safe c \<and> abs_delta_auc c \<le> tol"
  by (auto simp: pick_def Let_def split: if_splits)

lemma sweep_member:
  assumes "sweep roc_auc X y w b auc0 t nd blk xb bo = Ret cells" "c \<in> set cells"
  shows "\<exists>lx lw. sweep_cell roc_auc X y w b auc0 t lx lw nd blk xb bo = Ret c"
proof -
  from assms(2) obtain i where i: "i < length cells" "cells ! i = c" by (auto simp: in_set_conv_nth)
  from assms(1) have "list_all2 (\<lambda>p z. (case p of (lx, lw) \<Rightarrow> sweep_cell roc_auc X y w b auc0 t lx lw nd blk xb bo) = Ret z)
      (List.product LOG_RANGE LOG_RANGE) cells" unfolding sweep_def rmap_Ret_iff .
  from list_all2_nthD2 [OF this i(1)] i(2) show ?thesis by (auto split: prod.splits)
qed

text \<open>The cell the gate recommends carries a guarantee: on audited data (every feature at most one in
  absolute value, which the audit's claim establishes) the best cell reported for HERA or Rubato, if there
  is one, is worst-case safe, within the AUC tolerance, and counted no overflow.\<close>

theorem cnp_gate_recommendation:
  assumes au: "au_claim_abs_le_1 (feature_audit X)" and t: "t = T_HERA \<or> t = T_RUBATO"
    and run: "cnp_b_for roc_auc ff X y w b auc0 Xtr t nd = Ret e" and best: "cb_best e = Some c"
    and X: "\<And>r. r \<in> set X \<Longrightarrow> length r = ncols X" and w: "length w = ncols X"
    and nd: "\<And>ds d. nd = Some ds \<Longrightarrow> d \<in> set ds \<Longrightarrow> list_all2 (\<lambda>e r. length e = length r) d X"
  shows "(\<forall>r \<in> set X. \<forall>x \<in> set r. \<bar>x\<bar> \<le> 1) \<and> worst_case_safe c \<and> abs_delta_auc c \<le> 1 / 1000 \<and> overflow_count c = 0"
proof -
  have small: "\<forall>r \<in> set X. \<forall>x \<in> set r. \<bar>x\<bar> \<le> 1" using audit_claim [OF au _ X] by blast
  from cnp_b_for_best [OF run best] obtain cells good where
    cells: "sweep roc_auc X y w b auc0 t nd 1 None None = Ret cells"
    and good: "pick cells (1 / 1000) = Ret good" "good \<noteq> []" "c = hd good" .
  have c: "c \<in> set cells" "worst_case_safe c" "abs_delta_auc c \<le> 1 / 1000"
    using pick_member [OF good(1), of c] good(2,3) by auto
  from sweep_member [OF cells c(1)] obtain lx lw where
    cell: "sweep_cell roc_auc X y w b auc0 t lx lw nd 1 None None = Ret c" by blast
  have inp: "sweep_inputs X w 1 None nd"
    using X w small nd by (auto simp: sweep_inputs_def list_all2_conv_all_nth)
  have t': "odd t" "0 < t" using t by (auto simp: T_HERA_def T_RUBATO_def)
  have "overflow_count c = 0"
  proof (cases nd)
    case None
    show ?thesis using sweep_cell_safe_hera [OF t' inp [unfolded None] cell [unfolded None] c(2)] ..
  next
    case (Some ds)
    show ?thesis by (rule sweep_cell_safe_rubato [OF t' inp [unfolded Some] cell [unfolded Some] c(2)])
  qed
  with c small show ?thesis by simp
qed

text \<open>A one-feature model on which the sweep is computed for every scale pair.\<close>

lemma unit_cell:
  assumes "lx \<le> 14" "lw \<le> 14"
  shows "\<exists>c. sweep_cell (\<lambda>_ _. 0) [[1]] () [1] 0 0 T_HERA lx lw None 1 None None = Ret c
    \<and> worst_case_bound c = 2 ^ lw * 2 ^ lx \<and> abs_delta_auc c = 0 \<and> worst_case_safe c = (2 ^ lw * 2 ^ lx \<le> T_HERA div 2)"
proof -
  have r: "round_half_even (2 ^ n) = 2 ^ n" for n
    using rhe_of_int [of "2 ^ n"] by simp
  have "\<lceil>2 ^ lx :: real\<rceil> = 2 ^ lx" by (metis ceiling_of_int of_int_numeral of_int_power)
  moreover have "(2 :: int) ^ lx * 2 ^ lw < 9007199254740992"
  proof -
    have "(2 :: int) ^ lx * 2 ^ lw \<le> 2 ^ 14 * 2 ^ 14" using assms by (intro mult_mono power_increasing) auto
    then show ?thesis by simp
  qed
  ultimately show ?thesis
    by (simp add: sweep_cell_def Let_def run_cell_def ncols_def col_slice_def r lmax_def abs_mult)
qed

theorem cnp_gate_recommendation_witness:
  "\<exists>e c. cnp_b_for (\<lambda>_ _. 0) False [[1]] () [1] 0 0 [[1]] T_HERA None = Ret e \<and> cb_best e = Some c
     \<and> worst_case_safe c \<and> overflow_count c = 0"
proof -
  define f where "f = (\<lambda>(lx, lw). projr (sweep_cell (\<lambda>_ _. 0) [[1]] () [1] 0 0 T_HERA lx lw None 1 None None))"
  have f: "(case p of (lx, lw) \<Rightarrow> sweep_cell (\<lambda>_ _. 0) [[1]] () [1] 0 0 T_HERA lx lw None 1 None None) = Ret (f p)"
    "worst_case_bound (f p) \<noteq> 0" "abs_delta_auc (f p) = 0"
    "worst_case_safe (f p) = (2 ^ snd p * 2 ^ fst p \<le> T_HERA div 2)"
    if "p \<in> set (List.product LOG_RANGE LOG_RANGE)" for p
  proof -
    have "fst p \<le> 14" "snd p \<le> 14" using that by (auto simp: LOG_RANGE_def)
    from unit_cell [OF this] obtain c where
      c: "sweep_cell (\<lambda>_ _. 0) [[1]] () [1] 0 0 T_HERA (fst p) (snd p) None 1 None None = Ret c"
        "worst_case_bound c = 2 ^ snd p * 2 ^ fst p" "abs_delta_auc c = 0"
        "worst_case_safe c = (2 ^ snd p * 2 ^ fst p \<le> T_HERA div 2)" by blast
    have fp: "f p = c" unfolding f_def case_prod_beta c(1) by simp
    show "(case p of (lx, lw) \<Rightarrow> sweep_cell (\<lambda>_ _. 0) [[1]] () [1] 0 0 T_HERA lx lw None 1 None None) = Ret (f p)"
      unfolding fp case_prod_beta by (rule c(1))
    show "worst_case_bound (f p) \<noteq> 0" "abs_delta_auc (f p) = 0"
      "worst_case_safe (f p) = (2 ^ snd p * 2 ^ fst p \<le> T_HERA div 2)" unfolding fp c by simp_all
  qed
  define cells where "cells = map f (List.product LOG_RANGE LOG_RANGE)"
  have s: "sweep (\<lambda>_ _. 0) [[1]] () [1] 0 0 T_HERA None 1 None None = Ret cells"
    unfolding sweep_def cells_def using f(1) by (rule rmap_Ret)
  have cb: "worst_case_bound c \<noteq> 0" if "c \<in> set cells" for c
    using that f(2) unfolding cells_def set_map by blast
  define good where "good = sort_key pick_key (filter (\<lambda>c. worst_case_safe c \<and> abs_delta_auc c \<le> 1 / 1000) cells)"
  have p: "pick cells (1 / 1000) = Ret good"
    using cb by (auto simp: pick_def Let_def good_def list_ex_iff)
  have m: "(4, 4) \<in> set (List.product LOG_RANGE LOG_RANGE)" by (simp add: LOG_RANGE_def)
  then have "f (4, 4) \<in> set cells" unfolding cells_def set_map by (rule imageI)
  moreover have "worst_case_safe (f (4, 4))" "abs_delta_auc (f (4, 4)) \<le> 1 / 1000"
    using f(3,4) [OF m] by (simp_all add: T_HERA_def)
  ultimately have "f (4, 4) \<in> set good" unfolding good_def set_sort set_filter by (intro CollectI conjI)
  then have ne: "good \<noteq> []" by auto
  let ?e = "\<lparr>cb_cells = cells, cb_passing = take 5 good, cb_n_passing = length good,
      cb_best = Some (hd good), cb_fallbacks = None\<rparr>"
  have e: "cnp_b_for (\<lambda>_ _. 0) False [[1]] () [1] 0 0 [[1]] T_HERA None = Ret ?e"
    unfolding cnp_b_for_def s rbind.simps p using ne by simp
  have au: "au_claim_abs_le_1 (feature_audit [[1]])"
    by (simp add: feature_audit_def Let_def ncols_def col_def lmax_def)
  have "worst_case_safe (hd good) \<and> overflow_count (hd good) = 0"
    using cnp_gate_recommendation [OF au disjI1 [OF refl] e, of "hd good"] by (simp add: ncols_def)
  moreover have "cb_best ?e = Some (hd good)" by simp
  ultimately show ?thesis using e by blast
qed

end
