(* ===== verification/CnpB.thy ===== *)
theory CnpB
  imports CnpGate
begin

text \<open>
  The inputs and the scoring of the CNP-B runs: \<^verbatim>\<open>scripts/cnp_b/prepare_inputs.py\<close> quantises features, weights and
  bias, computes the integers the bank must read and picks a stratified subset; \<^verbatim>\<open>scripts/cnp_b/score.py\<close> compares
  decrypted integers with them. The Go harness between the two is not part of this. Arrays written with \<^verbatim>\<open>tofile\<close> and
  read back with the same element type are lists of values after the cast; \<^verbatim>\<open>int64\<close> arithmetic wraps.
\<close>

section \<open>Preparation\<close>

definition LX :: nat where "LX = 8"
definition LW :: nat where "LW = 6"
definition SEED :: int where "SEED = 20260617"

text \<open>\<^verbatim>\<open>astype(np.int64)\<close> of an integral float; numpy leaves the result undefined out of range (\<open>und\<close>).\<close>

definition np_int64 :: "(int \<Rightarrow> int) \<Rightarrow> int \<Rightarrow> int" where
  "np_int64 und x = (if - (2 ^ 63) \<le> x \<and> x < 2 ^ 63 then x else und x)"

definition flatnonzero :: "('a \<Rightarrow> bool) \<Rightarrow> 'a list \<Rightarrow> nat list" where
  "flatnonzero P xs = filter (\<lambda>i. P (xs ! i)) [0..<length xs]"

record prep_meta =
  pm_n :: nat
  pm_features :: nat
  pm_t :: int
  pm_log2_dx :: nat
  pm_log2_dw :: nat
  pm_bias :: real
  pm_bias_q :: int
  pm_worst_case_bound :: int
  pm_t_half :: int
  pm_frauds :: nat
  pm_strat_rows :: nat
  pm_seed :: int

text \<open>The output directory: \<^verbatim>\<open>xq.i16\<close>, \<^verbatim>\<open>wq.i16\<close>, \<^verbatim>\<open>y.u8\<close>, \<^verbatim>\<open>plain_logit.f64\<close>, \<^verbatim>\<open>expected.i64\<close>, \<^verbatim>\<open>strat4096.i32\<close>, \<^verbatim>\<open>meta.json\<close>.\<close>

record cnp_data =
  cd_xq :: "int list list"
  cd_wq :: "int list"
  cd_y :: "int list"
  cd_plain :: "real list"
  cd_expected :: "int list"
  cd_strat :: "int list"
  cd_meta :: prep_meta

definition quant :: "nat \<Rightarrow> (int \<Rightarrow> int) \<Rightarrow> real \<Rightarrow> int" where
  "quant l und x = np_int64 und (round_half_even (x * 2 ^ l))"

text \<open>\<^verbatim>\<open>int(rhe(bias * 2^14))\<close>: NaN and the infinities raise.\<close>

definition bias_int :: "f64 \<Rightarrow> int res" where
  "bias_int bias =
     (if f64_is_nan bias then Raise ValueError else if \<not> f64_isfinite bias then Raise OverflowError
      else Ret (round_half_even (f64_real bias * 2 ^ (LX + LW))))"

text \<open>\<open>choice nf k\<close> are the \<open>k\<close> elements \<^verbatim>\<open>rng.choice\<close> draws without replacement; it raises when there are fewer.\<close>

definition stratified :: "(nat list \<Rightarrow> nat \<Rightarrow> nat list) \<Rightarrow> int list \<Rightarrow> nat list res" where
  "stratified choice y =
     (let fr = flatnonzero (\<lambda>v. v = 1) y; nf = flatnonzero (\<lambda>v. v = 0) y
      in if 4096 < length fr \<or> length nf < 4096 - length fr then Raise ValueError
         else Ret (sort (fr @ choice nf (4096 - length fr))))"

definition prepare_inputs ::
  "(int \<Rightarrow> int) \<Rightarrow> (nat list \<Rightarrow> nat \<Rightarrow> nat list) \<Rightarrow> real ndarray \<Rightarrow> int list \<Rightarrow> real ndarray \<Rightarrow> byte list \<Rightarrow> cnp_data res" where
  "prepare_inputs und choice X y0 w raw =
     (let y = map (\<lambda>v. v mod 256) y0; rows = chunks 256 (elems X) in
      rbind (unpack_f64 (take 8 (drop 4 raw))) (\<lambda>bias.
      if length (shape X) < 2 then Raise IndexError else
      rbind (py_assert (shape X ! 1 = 256 \<and> shape w = [256])) (\<lambda>_.
      let xq = map (map (quant LX und)) rows; wq = map (quant LW und) (elems w) in
      rbind (bias_int bias) (\<lambda>bq.
      if concat xq = [] then Raise ValueError else
      rbind (py_assert (lmax (map (\<lambda>v. i64 \<bar>v\<bar>) (concat xq)) \<le> 2 ^ LX)) (\<lambda>_.
      if \<not> (- (2 ^ 63) \<le> bq \<and> bq < 2 ^ 63) then Raise OverflowError else
      let expected = map (\<lambda>r. center (i64 (i64 (dot r wq) + bq)) T_HERA) xq;
          bound = i64 (i64 (i64 (\<Sum>v\<leftarrow>wq. i64 \<bar>v\<bar>) * 2 ^ LX) + \<bar>bq\<bar>) in
      rbind (py_assert (bound < T_HERA div 2)) (\<lambda>_.
      rbind (stratified choice y) (\<lambda>pick.
      Ret \<lparr>cd_xq = map (map (signed_take_bit 15)) xq, cd_wq = map (signed_take_bit 15) wq, cd_y = y,
           cd_plain = map (\<lambda>r. dot r (elems w) + f64_real bias) rows, cd_expected = expected,
           cd_strat = map (\<lambda>i. signed_take_bit 31 (int i)) pick,
           cd_meta = \<lparr>pm_n = shape X ! 0, pm_features = 256, pm_t = T_HERA, pm_log2_dx = LX, pm_log2_dw = LW,
                      pm_bias = f64_real bias, pm_bias_q = bq, pm_worst_case_bound = bound, pm_t_half = T_HERA div 2,
                      pm_frauds = length (flatnonzero (\<lambda>v. v = 1) y), pm_strat_rows = length pick, pm_seed = SEED\<rparr>\<rparr>)))))))"

section \<open>Scoring\<close>

text \<open>\<^verbatim>\<open>a[rows]\<close>: negative indices count from the end.\<close>

definition np_pos :: "nat \<Rightarrow> int \<Rightarrow> nat" where
  "np_pos n i = nat (if i < 0 then i + int n else i)"

definition np_take :: "'a list \<Rightarrow> int list \<Rightarrow> 'a list res" where
  "np_take xs is = rmap (\<lambda>i. if - int (length xs) \<le> i \<and> i < int (length xs)
     then Ret (xs ! np_pos (length xs) i) else Raise IndexError) is"

record score_rep =
  sr_rows :: nat
  sr_frauds :: int
  sr_bit_exact :: bool
  sr_rows_differing :: nat
  sr_max_abs_integer_diff :: int
  sr_max_abs_logit_error :: real
  sr_mean_abs_logit_error :: real
  sr_median_abs_logit_error :: real
  sr_roc_auc_encrypted :: real
  sr_roc_auc_plaintext :: real
  sr_pr_auc_encrypted :: real
  sr_pr_auc_plaintext :: real
  sr_delta_roc_auc :: real

definition score ::
  "(int list \<Rightarrow> real list \<Rightarrow> real res) \<Rightarrow> (int list \<Rightarrow> real list \<Rightarrow> real res) \<Rightarrow> int list \<Rightarrow> int list \<Rightarrow> cnp_data \<Rightarrow> score_rep res" where
  "score roc_auc pr_auc rows dec d =
     rbind (py_assert (length rows = length dec \<and> 0 < length rows)) (\<lambda>_.
     rbind (np_take (cd_y d) rows) (\<lambda>y.
     rbind (np_take (cd_plain d) rows) (\<lambda>plain.
     rbind (np_take (cd_expected d) rows) (\<lambda>expected.
     let logit = map (\<lambda>v. of_int v / 2 ^ 14) dec;
         err = map2 (\<lambda>a b. \<bar>a - b\<bar>) logit plain in
     rbind (roc_auc y logit) (\<lambda>ae.
     rbind (roc_auc y plain) (\<lambda>ap.
     rbind (pr_auc y logit) (\<lambda>pe.
     rbind (pr_auc y plain) (\<lambda>pp.
     Ret \<lparr>sr_rows = length rows, sr_frauds = sum_list y, sr_bit_exact = (dec = expected),
          sr_rows_differing = length (filter (\<lambda>(a, b). a \<noteq> b) (zip dec expected)),
          sr_max_abs_integer_diff = lmax (map2 (\<lambda>a b. i64 \<bar>i64 (a - b)\<bar>) dec expected),
          sr_max_abs_logit_error = lmax err, sr_mean_abs_logit_error = mean err, sr_median_abs_logit_error = np_median err,
          sr_roc_auc_encrypted = ae, sr_roc_auc_plaintext = ap, sr_pr_auc_encrypted = pe, sr_pr_auc_plaintext = pp,
          sr_delta_roc_auc = ae - ap\<rparr>))))))))"

section \<open>Nothing wraps\<close>

text \<open>Inputs far from overflow: two-dimensional features, 256 weights, magnitudes up to \<open>2\<^sup>40\<close>.\<close>

definition moderate :: "real ndarray \<Rightarrow> real ndarray \<Rightarrow> bool" where
  "moderate X w \<longleftrightarrow> (\<exists>n. shape X = [n, 256] \<and> length (elems X) = n * 256) \<and> length (elems w) = 256 \<and>
     (\<forall>x \<in> set (elems X). \<bar>x\<bar> \<le> 2 ^ 40) \<and> (\<forall>v \<in> set (elems w). \<bar>v\<bar> \<le> 2 ^ 40)"

lemma np_int64_id: "\<bar>x\<bar> \<le> 2 ^ 62 \<Longrightarrow> np_int64 und x = x"
  by (auto simp: np_int64_def abs_le_iff)

lemma i64_small: "\<bar>x\<bar> \<le> 2 ^ 62 \<Longrightarrow> i64 x = x"
  by (rule i64_id) (auto simp: abs_le_iff)

lemma i64_nonneg: "0 \<le> x \<Longrightarrow> x < 2 ^ 63 \<Longrightarrow> i64 x = x"
  by (rule i64_id) simp_all

lemma quant_small:
  assumes "\<bar>x\<bar> \<le> 2 ^ 40" "l \<le> 8"
  shows "quant l und x = round_half_even (x * 2 ^ l) \<and> \<bar>quant l und x\<bar> \<le> 2 ^ (40 + l)"
proof -
  have "\<bar>x * 2 ^ l\<bar> \<le> of_int (2 ^ (40 + l))"
    using assms(1) by (simp add: abs_mult power_add mult_right_mono)
  then have b: "\<bar>round_half_even (x * 2 ^ l)\<bar> \<le> 2 ^ (40 + l)" by (rule rhe_bound)
  moreover have "(2 :: int) ^ (40 + l) \<le> 2 ^ 62" using assms(2) by (intro power_increasing) auto
  ultimately have "quant l und x = round_half_even (x * 2 ^ l)"
    unfolding quant_def using np_int64_id by (meson order_trans)
  then show ?thesis using b by simp
qed

lemma sum_abs_le:
  assumes "length ws = 256" "\<forall>v \<in> set ws. \<bar>v\<bar> \<le> 2 ^ 46"
  shows "0 \<le> (\<Sum>v\<leftarrow>ws. \<bar>v\<bar>) \<and> (\<Sum>v\<leftarrow>ws. \<bar>v\<bar>) \<le> (2 ^ 54 :: int)"
proof -
  have "(\<Sum>v\<leftarrow>ws. \<bar>v\<bar>) \<le> (\<Sum>v\<leftarrow>ws. 2 ^ 46)" using assms(2) by (intro sum_list_mono) auto
  moreover have "0 \<le> (\<Sum>v\<leftarrow>ws. \<bar>v\<bar>)" by (rule sum_list_nonneg) auto
  ultimately show ?thesis using assms(1) by (simp add: sum_list_triv)
qed

text \<open>The centred value of the wrapped sum is the sum, whenever the asserted bound holds.\<close>

lemma centre_exact:
  assumes ws: "length ws = 256" "\<forall>v \<in> set ws. \<bar>v\<bar> \<le> 2 ^ 46" and r: "length r = 256" "\<forall>x \<in> set r. \<bar>x\<bar> \<le> 2 ^ 8"
    and b: "\<bar>bq\<bar> \<le> 2 ^ 54"
    and bound: "i64 (i64 (i64 (\<Sum>v\<leftarrow>ws. i64 \<bar>v\<bar>) * 2 ^ 8) + \<bar>bq\<bar>) < T_HERA div 2"
  shows "center (i64 (i64 (dot r ws) + bq)) T_HERA = dot r ws + bq \<and> \<bar>dot r ws + bq\<bar> < T_HERA div 2"
proof -
  have "map (\<lambda>v. i64 \<bar>v\<bar>) ws = map abs ws" using ws(2) by (intro map_cong refl i64_small) force
  then have S: "(\<Sum>v\<leftarrow>ws. i64 \<bar>v\<bar>) = (\<Sum>v\<leftarrow>ws. \<bar>v\<bar>)" by (simp only:)
  let ?S = "\<Sum>v\<leftarrow>ws. \<bar>v\<bar>"
  have s: "0 \<le> ?S" "?S \<le> 2 ^ 54" using sum_abs_le [OF ws] by simp_all
  have B: "?S * 2 ^ 8 + \<bar>bq\<bar> < T_HERA div 2"
  proof -
    have "i64 ?S = ?S" using s by (intro i64_nonneg) simp_all
    moreover have "i64 (?S * 2 ^ 8) = ?S * 2 ^ 8" using s by (intro i64_nonneg) simp_all
    moreover have "i64 (?S * 2 ^ 8 + \<bar>bq\<bar>) = ?S * 2 ^ 8 + \<bar>bq\<bar>" using s b by (intro i64_nonneg) simp_all
    ultimately show ?thesis using bound unfolding S by simp
  qed
  have "list_all2 (\<lambda>x m. \<bar>x\<bar> \<le> m) r (replicate 256 (2 ^ 8))"
    using r by (auto simp: list_all2_conv_all_nth)
  then have "\<bar>dot r ws\<bar> \<le> dot (map abs ws) (replicate 256 (2 ^ 8))" by (rule dot_abs_bound)
  also have "\<dots> = ?S * 2 ^ 8"
    unfolding ws(1) [symmetric] by (induction ws) (simp_all add: algebra_simps)
  finally have D: "\<bar>dot r ws\<bar> \<le> ?S * 2 ^ 8" .
  then have q: "\<bar>dot r ws + bq\<bar> < T_HERA div 2" using B by linarith
  have d: "\<bar>dot r ws\<bar> \<le> 2 ^ 62" using D s(2) by simp
  then have "i64 (dot r ws) = dot r ws" by (rule i64_small)
  moreover have "i64 (dot r ws + bq) = dot r ws + bq"
    using q by (intro i64_small) (simp add: T_HERA_def)
  ultimately show ?thesis using q center_id [of T_HERA "dot r ws + bq"] by (simp add: T_HERA_def)
qed

lemma prepare_inputs_Ret:
  assumes "prepare_inputs und choice X y w raw = Ret d"
  obtains bias bq pick where "bias_int bias = Ret bq" "shape w = [256]" "shape X ! 1 = 256"
    "lmax (map (\<lambda>v. i64 \<bar>v\<bar>) (concat (map (map (quant LX und)) (chunks 256 (elems X))))) \<le> 2 ^ LX"
    "i64 (i64 (i64 (\<Sum>v\<leftarrow>map (quant LW und) (elems w). i64 \<bar>v\<bar>) * 2 ^ LX) + \<bar>bq\<bar>) < T_HERA div 2"
    "stratified choice (map (\<lambda>v. v mod 256) y) = Ret pick"
    "cd_xq d = map (map (\<lambda>x. signed_take_bit 15 (quant LX und x))) (chunks 256 (elems X))"
    "cd_wq d = map (\<lambda>v. signed_take_bit 15 (quant LW und v)) (elems w)"
    "cd_plain d = map (\<lambda>r. dot r (elems w) + f64_real bias) (chunks 256 (elems X))"
    "cd_expected d = map (\<lambda>r. center (i64 (i64 (dot (map (quant LX und) r) (map (quant LW und) (elems w))) + bq)) T_HERA) (chunks 256 (elems X))"
    "cd_strat d = map (\<lambda>i. signed_take_bit 31 (int i)) pick" "pm_bias (cd_meta d) = f64_real bias" "pm_bias_q (cd_meta d) = bq"
  using assms unfolding prepare_inputs_def Let_def rbind_Ret_iff py_assert_Ret_iff
  by (auto simp: rbind_Ret_iff comp_def split: if_splits)

section \<open>Properties\<close>

lemma chunk_rows:
  assumes "length xs = n * 256" "r \<in> set (chunks 256 xs)"
  shows "length r = 256 \<and> set r \<subseteq> set xs"
proof -
  have "r \<in> set (chunks 256 xs) \<Longrightarrow> length xs = n * 256 \<Longrightarrow> length r = 256 \<and> set r \<subseteq> set xs" for n xs r
  proof (induction n arbitrary: xs)
    case (Suc n)
    then have c: "chunks 256 xs = take 256 xs # chunks 256 (drop 256 xs)" by (intro chunks_step) auto
    show ?case
    proof (cases "r = take 256 xs")
      case True
      then show ?thesis using Suc.prems by (simp add: set_take_subset)
    next
      case False
      then have "r \<in> set (chunks 256 (drop 256 xs))" using Suc.prems c by simp
      then show ?thesis using Suc.IH [of "drop 256 xs"] Suc.prems(2) set_drop_subset [of 256 xs] by auto
    qed
  qed simp
  then show ?thesis using assms by blast
qed

text \<open>The integer a row stands for, without reduction.\<close>

definition row_integer :: "cnp_data \<Rightarrow> real list \<Rightarrow> real list \<Rightarrow> int" where
  "row_integer d w r = dot (map (\<lambda>x. round_half_even (x * 2 ^ 8)) r) (map (\<lambda>v. round_half_even (v * 2 ^ 6)) w) + pm_bias_q (cd_meta d)"

lemma bias_int_bound: "bias_int bias = Ret bq \<Longrightarrow> \<bar>f64_real bias\<bar> \<le> 2 ^ 40 \<Longrightarrow> \<bar>bq\<bar> \<le> 2 ^ 54"
  using rhe_bound [of "f64_real bias * 2 ^ 14" "2 ^ 54"] by (auto simp: bias_int_def LX_def LW_def abs_mult split: if_splits)

lemma prepared_row:
  assumes "moderate X w" "prepare_inputs und choice X y w raw = Ret d" "\<bar>pm_bias (cd_meta d)\<bar> \<le> 2 ^ 40"
  shows "cd_expected d = map (row_integer d (elems w)) (chunks 256 (elems X)) \<and>
    (\<forall>r \<in> set (chunks 256 (elems X)). \<bar>row_integer d (elems w) r\<bar> < T_HERA div 2 \<and>
       (\<forall>x \<in> set r. \<bar>round_half_even (x * 2 ^ 8)\<bar> \<le> 2 ^ 8)) \<and>
    cd_xq d = map (map (\<lambda>x. round_half_even (x * 2 ^ 8))) (chunks 256 (elems X)) \<and>
    cd_plain d = map (\<lambda>r. dot r (elems w) + pm_bias (cd_meta d)) (chunks 256 (elems X)) \<and>
    pm_bias_q (cd_meta d) = round_half_even (pm_bias (cd_meta d) * 2 ^ 14)"
proof -
  obtain bias bq pick where P: "bias_int bias = Ret bq"
    "lmax (map (\<lambda>v. i64 \<bar>v\<bar>) (concat (map (map (quant LX und)) (chunks 256 (elems X))))) \<le> 2 ^ LX"
    "i64 (i64 (i64 (\<Sum>v\<leftarrow>map (quant LW und) (elems w). i64 \<bar>v\<bar>) * 2 ^ LX) + \<bar>bq\<bar>) < T_HERA div 2"
    "cd_xq d = map (map (\<lambda>x. signed_take_bit 15 (quant LX und x))) (chunks 256 (elems X))"
    "cd_expected d = map (\<lambda>r. center (i64 (i64 (dot (map (quant LX und) r) (map (quant LW und) (elems w))) + bq)) T_HERA) (chunks 256 (elems X))"
    "pm_bias (cd_meta d) = f64_real bias" "pm_bias_q (cd_meta d) = bq"
    "cd_plain d = map (\<lambda>r. dot r (elems w) + f64_real bias) (chunks 256 (elems X))"
    by (rule prepare_inputs_Ret [OF assms(2)])
  obtain n where n: "length (elems X) = n * 256" using assms(1) by (auto simp: moderate_def)
  have w: "length (elems w) = 256" "\<forall>v \<in> set (elems w). \<bar>v\<bar> \<le> 2 ^ 40" using assms(1) by (auto simp: moderate_def)
  have wq: "map (quant LW und) (elems w) = map (\<lambda>v. round_half_even (v * 2 ^ 6)) (elems w)"
    using quant_small [of _ 6 und] w(2) by (simp add: LW_def)
  have wq46: "\<forall>v \<in> set (map (quant LW und) (elems w)). \<bar>v\<bar> \<le> 2 ^ 46"
  proof -
    have "\<bar>quant 6 und v\<bar> \<le> 2 ^ 46" if "v \<in> set (elems w)" for v
      by (rule order_trans [OF conjunct2 [OF quant_small [of v 6 und]]]) (use w(2) that in simp_all)
    then show ?thesis by (simp add: LW_def)
  qed
  have bq: "\<bar>bq\<bar> \<le> 2 ^ 54" using bias_int_bound P(1,6) assms(3) by simp
  have X: "quant LX und x = round_half_even (x * 2 ^ 8) \<and> \<bar>round_half_even (x * 2 ^ 8)\<bar> \<le> 2 ^ 8" if "r \<in> set (chunks 256 (elems X))" "x \<in> set r" for r x
  proof -
    have "\<bar>x\<bar> \<le> 2 ^ 40" using that chunk_rows [OF n] assms(1) by (auto simp: moderate_def)
    from quant_small [OF this order.refl, of und]
    have q: "quant LX und x = round_half_even (x * 2 ^ 8)" "\<bar>quant LX und x\<bar> \<le> 2 ^ (40 + 8)"
      unfolding LX_def by (rule conjunct1, rule conjunct2)
    have "i64 \<bar>quant LX und x\<bar> \<in> set (map (\<lambda>v. i64 \<bar>v\<bar>) (concat (map (map (quant LX und)) (chunks 256 (elems X)))))"
      using that by (force simp: image_iff)
    then have "i64 \<bar>quant LX und x\<bar> \<le> 2 ^ LX" using P(2) lmax_ge order_trans by blast
    then show ?thesis using q by (simp add: i64_small LX_def)
  qed
  have row: "center (i64 (i64 (dot (map (quant LX und) r) (map (quant LW und) (elems w))) + bq)) T_HERA = row_integer d (elems w) r \<and>
      \<bar>row_integer d (elems w) r\<bar> < T_HERA div 2" if r: "r \<in> set (chunks 256 (elems X))" for r
  proof -
    have m: "map (quant LX und) r = map (\<lambda>x. round_half_even (x * 2 ^ 8)) r" using X [OF r] by simp
    have "center (i64 (i64 (dot (map (quant LX und) r) (map (quant LW und) (elems w))) + bq)) T_HERA =
        dot (map (quant LX und) r) (map (quant LW und) (elems w)) + bq \<and>
        \<bar>dot (map (quant LX und) r) (map (quant LW und) (elems w)) + bq\<bar> < T_HERA div 2"
      using chunk_rows [OF n r] X [OF r] P(3)
      by (intro centre_exact wq46 bq) (auto simp: w(1) LX_def)
    then show ?thesis unfolding row_integer_def P(7) m wq .
  qed
  have "signed_take_bit 15 (quant LX und x) = round_half_even (x * 2 ^ 8)" if "r \<in> set (chunks 256 (elems X))" "x \<in> set r" for r x
    using X [OF that] by (simp add: signed_take_bit_int_eq_self abs_le_iff)
  moreover have "bq = round_half_even (f64_real bias * 2 ^ 14)" using P(1) by (simp add: bias_int_def LX_def LW_def split: if_splits)
  ultimately show ?thesis using row X by (auto simp: P(4-8))
qed

lemma row_integer_error:
  assumes "length r = 256" "length w = 256" "pm_bias_q (cd_meta d) = round_half_even (pm_bias (cd_meta d) * 2 ^ 14)"
  shows "\<bar>of_int (row_integer d w r) / 2 ^ 14 - (dot r w + pm_bias (cd_meta d))\<bar>
    \<le> (\<Sum>v\<leftarrow>w. \<bar>v\<bar>) / 2 ^ 9 + (\<Sum>x\<leftarrow>r. \<bar>x\<bar>) / 2 ^ 7 + 1 / 2 ^ 8 + 1 / 2 ^ 15"
proof -
  let ?D = "dot (map (\<lambda>x. round_half_even (x * 2 ^ 8)) r) (map (\<lambda>v. round_half_even (v * 2 ^ 6)) w)" and ?b = "pm_bias (cd_meta d)"
  have p: "(2 :: real) ^ 8 * 2 ^ 6 = 2 ^ 14" "real (length r) / (4 * 2 ^ 14) = 1 / 2 ^ 8" by (simp_all add: assms(1))
  have e1: "\<bar>of_int ?D / 2 ^ 14 - dot r w\<bar> \<le> (\<Sum>v\<leftarrow>w. \<bar>v\<bar>) / 2 ^ 9 + (\<Sum>x\<leftarrow>r. \<bar>x\<bar>) / 2 ^ 7 + 1 / 2 ^ 8"
    using quantised_dot_error [of "2 ^ 8" "2 ^ 6" r w] assms(1,2) unfolding p by simp
  have e2: "\<bar>of_int (round_half_even (?b * 2 ^ 14)) / 2 ^ 14 - ?b\<bar> \<le> 1 / 2 ^ 15"
    using rhe_scaled [of "2 ^ 14" ?b] by simp
  have e3: "of_int (row_integer d w r) / 2 ^ 14 - (dot r w + ?b) =
      (of_int ?D / 2 ^ 14 - dot r w) + (of_int (round_half_even (?b * 2 ^ 14)) / 2 ^ 14 - ?b)"
    by (simp add: row_integer_def assms(3) add_divide_distrib)
  show ?thesis unfolding e3
    by (rule order_trans [OF abs_triangle_ineq add_mono [OF e1 e2]])
qed

lemma cnp_b_expected:
  assumes "moderate X w" "prepare_inputs und choice X y w raw = Ret d" "\<bar>pm_bias (cd_meta d)\<bar> \<le> 2 ^ 40"
  shows "cd_expected d = map (row_integer d (elems w)) (chunks 256 (elems X)) \<and>
    cd_xq d = map (map (\<lambda>x. round_half_even (x * 2 ^ 8))) (chunks 256 (elems X)) \<and>
    (\<forall>i < length (chunks 256 (elems X)).
       \<bar>cd_expected d ! i\<bar> < T_HERA div 2 \<and>
       \<bar>of_int (cd_expected d ! i) / 2 ^ 14 - cd_plain d ! i\<bar>
         \<le> (\<Sum>v\<leftarrow>elems w. \<bar>v\<bar>) / 2 ^ 9 + (\<Sum>x\<leftarrow>chunks 256 (elems X) ! i. \<bar>x\<bar>) / 2 ^ 7 + 1 / 2 ^ 8 + 1 / 2 ^ 15) \<and>
    length (cd_expected d) = length (chunks 256 (elems X)) \<and> length (cd_plain d) = length (chunks 256 (elems X))"
proof -
  note P = prepared_row [OF assms]
  obtain n where n: "length (elems X) = n * 256" "length (elems w) = 256" using assms(1) by (auto simp: moderate_def)
  have "\<bar>cd_expected d ! i\<bar> < T_HERA div 2 \<and> \<bar>of_int (cd_expected d ! i) / 2 ^ 14 - cd_plain d ! i\<bar>
         \<le> (\<Sum>v\<leftarrow>elems w. \<bar>v\<bar>) / 2 ^ 9 + (\<Sum>x\<leftarrow>chunks 256 (elems X) ! i. \<bar>x\<bar>) / 2 ^ 7 + 1 / 2 ^ 8 + 1 / 2 ^ 15"
    if i: "i < length (chunks 256 (elems X))" for i
  proof -
    let ?r = "chunks 256 (elems X) ! i"
    have r: "?r \<in> set (chunks 256 (elems X))" using i by simp
    have e: "cd_expected d ! i = row_integer d (elems w) ?r" "cd_plain d ! i = dot ?r (elems w) + pm_bias (cd_meta d)"
      using P i by simp_all
    show ?thesis unfolding e
      using P r row_integer_error [of ?r "elems w" d] chunk_rows [OF n(1) r] n(2) by blast
  qed
  then show ?thesis using P by simp
qed

text \<open>C14. When the preparation of a CNP-B run completes on inputs far from overflow, the integers it tells the bank to
  expect are the unreduced sums \<open>xq . wq + bias_q\<close> (reduction modulo \<open>t\<close> and \<open>int64\<close> change nothing), below \<open>t div 2\<close>, each
  divided by \<open>2\<^sup>14\<close> within the stated distance of the plaintext logit; the features written as \<^verbatim>\<open>int16\<close> are the quantised
  features.\<close>
theorem cnp_b_expected_exact:
  assumes "moderate X w" "prepare_inputs und choice X y w raw = Ret d" "\<bar>pm_bias (cd_meta d)\<bar> \<le> 2 ^ 40"
  shows "cd_expected d = map (row_integer d (elems w)) (chunks 256 (elems X)) \<and>
    cd_xq d = map (map (\<lambda>x. round_half_even (x * 2 ^ 8))) (chunks 256 (elems X)) \<and>
    (\<forall>i < length (chunks 256 (elems X)).
       \<bar>cd_expected d ! i\<bar> < T_HERA div 2 \<and>
       \<bar>of_int (cd_expected d ! i) / 2 ^ 14 - cd_plain d ! i\<bar>
         \<le> (\<Sum>v\<leftarrow>elems w. \<bar>v\<bar>) / 2 ^ 9 + (\<Sum>x\<leftarrow>chunks 256 (elems X) ! i. \<bar>x\<bar>) / 2 ^ 7 + 1 / 2 ^ 8 + 1 / 2 ^ 15)"
  using cnp_b_expected [OF assms] by blast

lemma np_take_Ret:
  assumes "np_take xs is = Ret ys"
  shows "ys = map (\<lambda>i. xs ! np_pos (length xs) i) is \<and> (\<forall>i \<in> set is. np_pos (length xs) i < length xs)"
  using assms
proof (induction "is" arbitrary: ys)
  case (Cons i "is")
  then obtain zs where z: "ys = xs ! np_pos (length xs) i # zs" "np_take xs is = Ret zs"
      "- int (length xs) \<le> i \<and> i < int (length xs)"
    by (auto simp: np_take_def rbind_Ret_iff split: if_splits)
  then show ?case using Cons.IH [OF z(2)] by (auto simp: np_pos_def)
qed (simp add: np_take_def)

lemma score_Ret:
  assumes "score roc_auc pr_auc rows dec d = Ret rep"
  obtains plain expected where "length rows = length dec" "0 < length rows" "np_take (cd_plain d) rows = Ret plain"
    "np_take (cd_expected d) rows = Ret expected" "sr_bit_exact rep = (dec = expected)"
    "sr_rows_differing rep = length (filter (\<lambda>(a, b). a \<noteq> b) (zip dec expected))"
    "sr_max_abs_integer_diff rep = lmax (map2 (\<lambda>a b. i64 \<bar>i64 (a - b)\<bar>) dec expected)"
    "sr_max_abs_logit_error rep = lmax (map2 (\<lambda>a b. \<bar>a - b\<bar>) (map (\<lambda>v. of_int v / 2 ^ 14) dec) plain)"
  using assms unfolding score_def Let_def rbind_Ret_iff py_assert_Ret_iff
  by (elim exE conjE) (rule that, assumption+, simp_all only: sum.inject, auto)

lemma differing_none: "length xs = length ys \<Longrightarrow> filter (\<lambda>(a, b). a \<noteq> b) (zip xs ys) = [] \<longleftrightarrow> xs = ys"
  by (induction xs ys rule: list_induct2) auto

lemma lmax_map2_same: "xs \<noteq> [] \<Longrightarrow> lmax (map2 (\<lambda>a b. i64 \<bar>i64 (a - b)\<bar>) xs xs) = 0"
proof -
  assume "xs \<noteq> []"
  moreover have "map2 (\<lambda>a b. i64 \<bar>i64 (a - b)\<bar>) xs xs = replicate (length xs) 0"
    by (induction xs) (simp_all add: i64_nonneg)
  moreover have "lmax (replicate (Suc n) (0 :: int)) = 0" for n
    unfolding lmax_def by (induction n) simp_all
  ultimately show ?thesis by (cases xs) simp_all
qed

text \<open>C15. Scoring a CNP-B run against prepared data: the score says bit-exact exactly when every decrypted integer is the
  unreduced sum of its row, which is exactly when it counts no differing row; then the integer difference is zero and
  the logit error is at most the quantisation error of the rows scored.\<close>
theorem cnp_b_score_sound:
  assumes "moderate X w" "prepare_inputs und choice X y w raw = Ret d" "\<bar>pm_bias (cd_meta d)\<bar> \<le> 2 ^ 40"
    and "score roc_auc pr_auc rows dec d = Ret rep"
    and "\<forall>r \<in> set (chunks 256 (elems X)). (\<Sum>v\<leftarrow>elems w. \<bar>v\<bar>) / 2 ^ 9 + (\<Sum>x\<leftarrow>r. \<bar>x\<bar>) / 2 ^ 7 + 1 / 2 ^ 8 + 1 / 2 ^ 15 \<le> E"
  shows "(sr_bit_exact rep \<longleftrightarrow> dec = map (\<lambda>i. row_integer d (elems w) (chunks 256 (elems X) ! np_pos (length (cd_expected d)) i)) rows) \<and>
    (sr_bit_exact rep \<longleftrightarrow> sr_rows_differing rep = 0) \<and>
    (sr_bit_exact rep \<longrightarrow> sr_max_abs_integer_diff rep = 0 \<and> sr_max_abs_logit_error rep \<le> E)"
proof -
  let ?c = "chunks 256 (elems X)" and ?p = "np_pos (length (chunks 256 (elems X)))"
  note P = cnp_b_expected [OF assms(1-3)]
  obtain plain expected where S: "length rows = length dec" "0 < length rows" "np_take (cd_plain d) rows = Ret plain"
    "np_take (cd_expected d) rows = Ret expected" "sr_bit_exact rep = (dec = expected)"
    "sr_rows_differing rep = length (filter (\<lambda>(a, b). a \<noteq> b) (zip dec expected))"
    "sr_max_abs_integer_diff rep = lmax (map2 (\<lambda>a b. i64 \<bar>i64 (a - b)\<bar>) dec expected)"
    "sr_max_abs_logit_error rep = lmax (map2 (\<lambda>a b. \<bar>a - b\<bar>) (map (\<lambda>v. of_int v / 2 ^ 14) dec) plain)"
    by (rule score_Ret [OF assms(4)])
  have len: "length (cd_expected d) = length ?c" "length (cd_plain d) = length ?c" using P by simp_all
  have ex: "expected = map (\<lambda>i. cd_expected d ! ?p i) rows" "plain = map (\<lambda>i. cd_plain d ! ?p i) rows"
    and rng: "\<forall>i \<in> set rows. ?p i < length ?c"
    using np_take_Ret [OF S(3)] np_take_Ret [OF S(4)] by (simp_all add: len)
  have ints: "expected = map (\<lambda>i. row_integer d (elems w) (?c ! ?p i)) rows" using P rng by (simp add: ex)
  have "sr_max_abs_logit_error rep \<le> E" if "dec = expected"
  proof -
    let ?err = "map (\<lambda>i. \<bar>of_int (cd_expected d ! ?p i) / 2 ^ 14 - cd_plain d ! ?p i\<bar>) rows"
    have "sr_max_abs_logit_error rep = lmax ?err"
      by (simp add: S(8) that ex map2_map_map comp_def)
    moreover have "lmax ?err \<in> set ?err" using S(2) by (intro lmax_in) auto
    ultimately obtain i where "i \<in> set rows" "sr_max_abs_logit_error rep = \<bar>of_int (cd_expected d ! ?p i) / 2 ^ 14 - cd_plain d ! ?p i\<bar>"
      by auto
    moreover have pi: "?p i < length ?c" "?c ! ?p i \<in> set ?c" using rng calculation(1) by auto
    moreover have "\<bar>of_int (cd_expected d ! ?p i) / 2 ^ 14 - cd_plain d ! ?p i\<bar>
         \<le> (\<Sum>v\<leftarrow>elems w. \<bar>v\<bar>) / 2 ^ 9 + (\<Sum>x\<leftarrow>?c ! ?p i. \<bar>x\<bar>) / 2 ^ 7 + 1 / 2 ^ 8 + 1 / 2 ^ 15"
      using P pi(1) by blast
    ultimately show ?thesis using bspec [OF assms(5) pi(2)] by linarith
  qed
  moreover have "sr_max_abs_integer_diff rep = 0" if "dec = expected"
    using S(1,2) that by (simp add: S(7) lmax_map2_same)
  moreover have "dec = expected \<longleftrightarrow> sr_rows_differing rep = 0"
    using differing_none [of dec expected] S(1) by (simp add: S(6) ex)
  ultimately show ?thesis unfolding S(5) len using ints by blast
qed

section \<open>A concrete run\<close>

definition demo_features :: "real ndarray" where
  "demo_features = \<lparr>shape = [1, 256], elems = replicate 256 (1 / 2)\<rparr>"

definition demo_weights :: "real ndarray" where
  "demo_weights = \<lparr>shape = [256], elems = replicate 256 1\<rparr>"

lemma length_flatnonzero_replicate: "length (flatnonzero P (replicate n x)) = (if P x then n else 0)"
proof -
  have "filter (\<lambda>i. P (replicate n x ! i)) [0..<n] = (if P x then [0..<n] else [])"
    by (cases "P x") (auto simp: filter_True filter_empty_conv)
  then show ?thesis by (simp add: flatnonzero_def)
qed

lemma demo_stratified: "\<exists>pick. stratified choice (replicate 4096 1) = Ret pick"
  unfolding stratified_def Let_def length_flatnonzero_replicate by simp

lemma demo_chunks: "chunks 256 (replicate 256 v) = [replicate 256 v]"
  using chunks_step [of 256 "replicate 256 v"] by simp

lemma dot_replicate: "dot (replicate n a) (replicate n b) = of_nat n * (a * b)"
  by (induction n) (simp_all add: algebra_simps)

lemma sum_list_map_replicate: "(\<Sum>x\<leftarrow>replicate n a. f x) = of_nat n * (f a :: 'a :: comm_semiring_1)"
  by (induction n) (simp_all add: algebra_simps)

lemma demo_quant: "quant 8 und (1 / 2) = 128" "quant 6 und 1 = 64"
proof -
  have "round_half_even (1 / 2 * 2 ^ 8) = 128" using rhe_of_int [of 128] by simp
  then show "quant 8 und (1 / 2) = 128" by (simp add: quant_def np_int64_def)
  have "round_half_even (1 * 2 ^ 6) = 64" using rhe_of_int [of 64] by simp
  then show "quant 6 und 1 = 64" by (simp add: quant_def np_int64_def)
qed

lemma lmax_replicate: "lmax (replicate (Suc n) c) = c"
  unfolding lmax_def by (induction n) simp_all

lemma demo_bias: "unpack_f64 (take 8 (drop 4 (replicate 12 0))) = Ret 0" "bias_int 0 = Ret 0" "f64_real 0 = 0"
proof -
  show "unpack_f64 (take 8 (drop 4 (replicate 12 0))) = Ret 0" by code_simp
  show z: "f64_real 0 = 0" by (simp add: f64_real_def)
  have "round_half_even (0 :: real) = 0" using rhe_of_int [of 0] by simp
  then show "bias_int 0 = Ret 0" by (simp add: bias_int_def z f64_is_nan_def f64_isfinite_def)
qed

lemma demo_prepare:
  "\<exists>d. prepare_inputs und choice demo_features (replicate 4096 1) demo_weights (replicate 12 0) = Ret d \<and>
     pm_bias (cd_meta d) = 0 \<and> cd_y d = replicate 4096 1"
proof -
  obtain pick where p: "stratified choice (replicate 4096 1) = Ret pick" using demo_stratified by blast
  have y: "map (\<lambda>v. v mod 256) (replicate 4096 (1 :: int)) = replicate 4096 1" by (simp only: map_replicate) simp
  have xq: "map (map (quant LX und)) (chunks 256 (elems demo_features)) = [replicate 256 128]"
    by (simp add: demo_features_def demo_chunks LX_def demo_quant)
  have wq: "map (quant LW und) (elems demo_weights) = replicate 256 64"
    by (simp add: demo_weights_def LW_def demo_quant)
  have mx: "lmax (map (\<lambda>v. i64 \<bar>v\<bar>) (concat [replicate 256 (128 :: int)])) = 128"
    using lmax_replicate [of 255 "i64 128"] by (simp add: i64_nonneg)
  have sm: "(\<Sum>v\<leftarrow>replicate 256 (64 :: int). i64 \<bar>v\<bar>) = 16384"
    unfolding sum_list_map_replicate by (simp add: i64_nonneg)
  have ne: "concat [replicate 256 (128 :: int)] \<noteq> []" by simp
  have bd: "i64 (i64 (i64 16384 * 2 ^ LX) + \<bar>0\<bar>) < T_HERA div 2" by (simp add: LX_def i64_nonneg T_HERA_def)
  show ?thesis
    unfolding prepare_inputs_def Let_def y xq wq demo_bias(1) rbind.simps demo_bias(2) mx sm p
    using ne bd by (simp add: demo_features_def demo_weights_def LX_def py_assert_def demo_bias(3) del: map_replicate)
qed

lemma demo_moderate: "moderate demo_features demo_weights"
  by (simp add: moderate_def demo_features_def demo_weights_def)

theorem cnp_b_expected_exact_witness:
  "\<exists>d. prepare_inputs (\<lambda>_. 0) (\<lambda>nf k. take k nf) demo_features (replicate 4096 1) demo_weights (replicate 12 0) = Ret d \<and>
     \<bar>of_int (cd_expected d ! 0) / 2 ^ 14 - cd_plain d ! 0\<bar> \<le> 256 / 2 ^ 9 + 128 / 2 ^ 7 + 1 / 2 ^ 8 + 1 / 2 ^ 15"
proof -
  obtain d where d: "prepare_inputs (\<lambda>_. 0) (\<lambda>nf k. take k nf) demo_features (replicate 4096 1) demo_weights (replicate 12 0) = Ret d"
    "pm_bias (cd_meta d) = 0" using demo_prepare by blast
  have c: "chunks 256 (elems demo_features) = [replicate 256 (1 / 2)]" by (simp add: demo_features_def demo_chunks)
  have w: "(\<Sum>v\<leftarrow>elems demo_weights. \<bar>v\<bar>) = 256" "(\<Sum>x\<leftarrow>replicate 256 (1 / 2 :: real). \<bar>x\<bar>) = 128"
    unfolding demo_weights_def ndarray.simps sum_list_map_replicate by simp_all
  have "\<bar>pm_bias (cd_meta d)\<bar> \<le> 2 ^ 40" using d(2) by simp
  from cnp_b_expected_exact [OF demo_moderate d(1) this] show ?thesis
    unfolding c using w d(1) by auto
qed

lemma np_take_0: "xs \<noteq> [] \<Longrightarrow> np_take xs [0] = Ret [xs ! 0]"
  by (simp add: np_take_def np_pos_def)

theorem cnp_b_score_sound_witness:
  "\<exists>d rep. prepare_inputs (\<lambda>_. 0) (\<lambda>nf k. take k nf) demo_features (replicate 4096 1) demo_weights (replicate 12 0) = Ret d \<and>
     score (\<lambda>_ _. Ret 0) (\<lambda>_ _. Ret 0) [0] [cd_expected d ! 0] d = Ret rep \<and>
     sr_rows_differing rep = 0 \<and> sr_max_abs_logit_error rep \<le> 2"
proof -
  obtain d where d: "prepare_inputs (\<lambda>_. 0) (\<lambda>nf k. take k nf) demo_features (replicate 4096 1) demo_weights (replicate 12 0) = Ret d"
    "pm_bias (cd_meta d) = 0" "cd_y d = replicate 4096 1" using demo_prepare by blast
  have c: "chunks 256 (elems demo_features) = [replicate 256 (1 / 2)]" by (simp add: demo_features_def demo_chunks)
  have w: "(\<Sum>v\<leftarrow>elems demo_weights. \<bar>v\<bar>) = 256" "(\<Sum>x\<leftarrow>replicate 256 (1 / 2 :: real). \<bar>x\<bar>) = 128"
    unfolding demo_weights_def ndarray.simps sum_list_map_replicate by simp_all
  have b: "\<bar>pm_bias (cd_meta d)\<bar> \<le> 2 ^ 40" using d(2) by simp
  have len: "length (cd_expected d) = 1" "length (cd_plain d) = 1" using cnp_b_expected [OF demo_moderate d(1) b] c by simp_all
  then have ne: "cd_expected d \<noteq> []" "cd_plain d \<noteq> []" "cd_y d \<noteq> []" by (auto simp: d(3))
  have "\<exists>rep. score (\<lambda>_ _. Ret 0) (\<lambda>_ _. Ret 0) [0] [cd_expected d ! 0] d = Ret rep \<and> sr_bit_exact rep"
    by (simp add: score_def np_take_0 ne Let_def)
  then obtain rep where rep: "score (\<lambda>_ _. Ret 0) (\<lambda>_ _. Ret 0) [0] [cd_expected d ! 0] d = Ret rep" "sr_bit_exact rep" by blast
  have "\<forall>r \<in> set (chunks 256 (elems demo_features)).
      (\<Sum>v\<leftarrow>elems demo_weights. \<bar>v\<bar>) / 2 ^ 9 + (\<Sum>x\<leftarrow>r. \<bar>x\<bar>) / 2 ^ 7 + 1 / 2 ^ 8 + 1 / 2 ^ 15 \<le> 2"
    unfolding c using w by simp
  from cnp_b_score_sound [OF demo_moderate d(1) b rep(1) this] rep d(1) show ?thesis by blast
qed

end
