(* ===== verification/Provisioning.thy ===== *)
theory Provisioning
  imports Prelude
begin

text \<open>
  The vendor's fail-closed provisioning state machine
  (\<^verbatim>\<open>vendor_server/include/provisioning_state.h\<close>): its state, its four transitions, the step relation they
  generate and its invariants. Messages are not modelled. Counters are 64 bits wide.
\<close>

section \<open>State and transitions\<close>

datatype prov_state = PROV_INIT | PROV_AWAITING_KEYS | PROV_VALIDATING | PROV_READY | PROV_FAULT

record psm =
  pstate :: prov_state
  total_requests :: "64 word"
  mismatch_count :: "64 word"

definition kMaxContinuousMismatches :: "64 word" where
  "kMaxContinuousMismatches = 3"

definition psm_init :: psm where
  "psm_init = \<lparr>pstate = PROV_AWAITING_KEYS, total_requests = 0, mismatch_count = 0\<rparr>"

text \<open>Each operation returns whether the transition was taken, and the new state.\<close>

definition on_structural_result :: "bool \<Rightarrow> psm \<Rightarrow> bool \<times> psm" where
  "on_structural_result ok m =
     (if pstate m \<noteq> PROV_AWAITING_KEYS then (False, m)
      else (True, m\<lparr>pstate := if ok then PROV_VALIDATING else PROV_FAULT\<rparr>))"

definition on_canary_result :: "bool \<Rightarrow> psm \<Rightarrow> bool \<times> psm" where
  "on_canary_result passed m =
     (if pstate m \<noteq> PROV_VALIDATING then (False, m)
      else (True, m\<lparr>pstate := if passed then PROV_READY else PROV_FAULT\<rparr>))"

definition record_request_and_maybe_trip :: "bool \<Rightarrow> psm \<Rightarrow> bool \<times> psm" where
  "record_request_and_maybe_trip checks_passed m =
     (let m1 = m\<lparr>total_requests := total_requests m + 1\<rparr> in
      if checks_passed then (False, m1)
      else
        let mismatches = mismatch_count m1 + 1;
            m2 = m1\<lparr>mismatch_count := mismatches\<rparr>
        in if mismatches < kMaxContinuousMismatches then (False, m2)
           else if pstate m2 \<noteq> PROV_READY then (False, m2)
           else (True, m2\<lparr>pstate := PROV_FAULT\<rparr>))"

definition force_fault :: "psm \<Rightarrow> psm" where
  "force_fault m = m\<lparr>pstate := PROV_FAULT\<rparr>"

section \<open>Runs\<close>

datatype event = Structural bool | Canary bool | Request bool | ForceFault

fun apply_event :: "event \<Rightarrow> psm \<Rightarrow> psm" where
  "apply_event (Structural ok) m = snd (on_structural_result ok m)"
| "apply_event (Canary p) m = snd (on_canary_result p m)"
| "apply_event (Request c) m = snd (record_request_and_maybe_trip c m)"
| "apply_event ForceFault m = force_fault m"

inductive step :: "psm \<Rightarrow> event \<Rightarrow> psm \<Rightarrow> bool" where
  step: "apply_event e m = m' \<Longrightarrow> step m e m'"

inductive_cases stepE: "step m e m'"

inductive run :: "psm \<Rightarrow> event list \<Rightarrow> psm \<Rightarrow> bool" where
  run_nil: "run m [] m"
| run_cons: "step m e m' \<Longrightarrow> run m' es m'' \<Longrightarrow> run m (e # es) m''"

inductive_cases run_nilE: "run m [] m'"
inductive_cases run_consE: "run m (e # es) m'"

definition reachable :: "psm \<Rightarrow> bool" where
  "reachable m \<longleftrightarrow> (\<exists>es. run psm_init es m)"

lemmas sm_defs = on_structural_result_def on_canary_result_def record_request_and_maybe_trip_def
  force_fault_def Let_def

lemma run_fold: "run m es m' \<longleftrightarrow> fold apply_event es m = m'"
proof (induction es arbitrary: m)
  case Nil
  then show ?case by (auto intro: run_nil elim: run_nilE)
next
  case (Cons e es)
  then show ?case by (auto intro: run_cons step elim!: run_consE stepE)
qed

lemma run_append: "run m (es @ es') m'' \<longleftrightarrow> (\<exists>m'. run m es m' \<and> run m' es' m'')"
  by (simp add: run_fold)

section \<open>What a step can do\<close>

lemma fault_step: "pstate m = PROV_FAULT \<Longrightarrow> step m e m' \<Longrightarrow> pstate m' = PROV_FAULT"
  by (erule stepE, cases e) (auto simp: sm_defs)

lemma ready_step:
  "step m e m' \<Longrightarrow> pstate m' = PROV_READY \<Longrightarrow>
     pstate m = PROV_READY \<or> (pstate m = PROV_VALIDATING \<and> e = Canary True)"
  by (erule stepE, cases e) (auto simp: sm_defs split: if_splits)

lemma validating_step:
  "step m e m' \<Longrightarrow> pstate m' = PROV_VALIDATING \<Longrightarrow>
     pstate m = PROV_VALIDATING \<or> (pstate m = PROV_AWAITING_KEYS \<and> e = Structural True)"
  by (erule stepE, cases e) (auto simp: sm_defs split: if_splits)

lemma awaiting_step: "step m e m' \<Longrightarrow> pstate m' = PROV_AWAITING_KEYS \<Longrightarrow> pstate m = PROV_AWAITING_KEYS"
  by (erule stepE, cases e) (auto simp: sm_defs split: if_splits)

text \<open>Failed requests of a sequence of continuous-validation results.\<close>

definition failures :: "bool list \<Rightarrow> nat" where
  "failures cs = length (filter Not cs)"

lemma fault_run: "pstate m = PROV_FAULT \<Longrightarrow> run m es m' \<Longrightarrow> pstate m' = PROV_FAULT"
proof (induction es arbitrary: m)
  case (Cons e es)
  then show ?case by (auto elim!: run_consE intro: fault_step)
qed (auto elim: run_nilE)

lemma request_run:
  assumes "pstate m = PROV_READY" "mismatch_count m = word_of_nat k" "k < 3"
    and "run m (map Request cs) m'"
  shows "pstate m' = (if k + failures cs < 3 then PROV_READY else PROV_FAULT)"
  using assms
proof (induction cs arbitrary: m k)
  case Nil
  then show ?case by (auto elim: run_nilE simp: failures_def)
next
  case (Cons c cs)
  then obtain m1 where m1: "m1 = snd (record_request_and_maybe_trip c m)" "run m1 (map Request cs) m'"
    by (auto elim!: run_consE stepE)
  show ?case
  proof (cases "c \<or> k < 2")
    case True
    define k' where "k' = (if c then k else k + 1)"
    have "k = 0 \<or> k = 1 \<or> k = 2" using Cons.prems(3) by auto
    then have "pstate m1 = PROV_READY" "mismatch_count m1 = word_of_nat k'" "k' < 3"
      using True Cons.prems m1(1) by (auto simp: sm_defs k'_def kMaxContinuousMismatches_def)
    from Cons.IH [OF this m1(2)] show ?thesis by (auto simp: failures_def k'_def)
  next
    case False
    then have "k = 2" using Cons.prems(3) by simp
    then have "pstate m1 = PROV_FAULT"
      using False Cons.prems m1(1) by (auto simp: sm_defs kMaxContinuousMismatches_def)
    from fault_run [OF this m1(2)] show ?thesis using False \<open>k = 2\<close> by (simp add: failures_def)
  qed
qed

lemma run_to_ready:
  assumes "run m es m'" "pstate m' = PROV_READY" "pstate m \<noteq> PROV_READY"
  shows "\<exists>es1 es2 m1. es = es1 @ Canary True # es2 \<and> run m es1 m1 \<and> pstate m1 = PROV_VALIDATING"
  using assms
proof (induction es arbitrary: m)
  case (Cons e es)
  then obtain m1 where m1: "step m e m1" "run m1 es m'" by (auto elim: run_consE)
  show ?case
  proof (cases "pstate m1 = PROV_READY")
    case True
    with ready_step [OF m1(1)] Cons.prems(3) have "pstate m = PROV_VALIDATING" "e = Canary True" by auto
    then show ?thesis using run_nil by (intro exI [of _ "[]"] exI [of _ es] exI [of _ m]) auto
  next
    case False
    from Cons.IH [OF m1(2) Cons.prems(2) False] obtain es1 es2 m2 where
      "es = es1 @ Canary True # es2" "run m1 es1 m2" "pstate m2 = PROV_VALIDATING" by blast
    with m1(1) show ?thesis by (intro exI [of _ "e # es1"] exI [of _ es2] exI [of _ m2]) (auto intro: run_cons)
  qed
qed (auto elim: run_nilE)

lemma run_to_validating:
  assumes "run m es m'" "pstate m' = PROV_VALIDATING" "pstate m \<noteq> PROV_VALIDATING"
  shows "\<exists>es1 es2. es = es1 @ Structural True # es2"
  using assms
proof (induction es arbitrary: m)
  case (Cons e es)
  then obtain m1 where m1: "step m e m1" "run m1 es m'" by (auto elim: run_consE)
  show ?case
  proof (cases "pstate m1 = PROV_VALIDATING")
    case True
    with validating_step [OF m1(1)] Cons.prems(3) show ?thesis by auto
  next
    case False
    from Cons.IH [OF m1(2) Cons.prems(2) False] show ?thesis by (metis append_Cons)
  qed
qed (auto elim: run_nilE)

section \<open>Properties\<close>

text \<open>C5. Fail-closed: \<^verbatim>\<open>PROV_FAULT\<close> is terminal under every sequence of operations, and \<^verbatim>\<open>PROV_READY\<close> is
  reached from the initial state only by a run in which a successful structural validation is followed by
  a bank-confirmed canary.\<close>

theorem provisioning_fail_closed:
  "(\<forall>m es m'. pstate m = PROV_FAULT \<and> run m es m' \<longrightarrow> pstate m' = PROV_FAULT) \<and>
   (\<forall>es m. run psm_init es m \<and> pstate m = PROV_READY \<longrightarrow>
     (\<exists>es1 es2 es3. es = es1 @ Structural True # es2 @ Canary True # es3))"
proof (intro conjI allI impI)
  fix es m assume "run psm_init es m \<and> pstate m = PROV_READY"
  then obtain es1 es2 m1 where e: "es = es1 @ Canary True # es2" "run psm_init es1 m1" "pstate m1 = PROV_VALIDATING"
    using run_to_ready [of psm_init es m] by (auto simp: psm_init_def)
  then obtain fs1 fs2 where "es1 = fs1 @ Structural True # fs2"
    using run_to_validating [of psm_init es1 m1] by (auto simp: psm_init_def)
  with e(1) show "\<exists>es1 es2 es3. es = es1 @ Structural True # es2 @ Canary True # es3"
    by (intro exI [of _ fs1] exI [of _ fs2] exI [of _ es2]) simp
qed (auto intro: fault_run)

theorem provisioning_fail_closed_witness:
  "\<exists>es1 es2 es3. [Request True, Structural True, Canary True] = es1 @ Structural True # es2 @ Canary True # es3"
proof -
  have "run psm_init [Request True, Structural True, Canary True]
      (fold apply_event [Request True, Structural True, Canary True] psm_init)" by (simp add: run_fold)
  moreover have "pstate (fold apply_event [Request True, Structural True, Canary True] psm_init) = PROV_READY"
    by (simp add: sm_defs psm_init_def)
  ultimately show ?thesis using provisioning_fail_closed by blast
qed

text \<open>C38. Continuous validation trips at the third failed request, counted cumulatively: whatever
  successful requests lie between the failures, a server that became ready stays ready exactly while
  fewer than three requests have failed in total.\<close>

theorem trips_at_third_cumulative_failure:
  assumes "pstate m = PROV_READY" "mismatch_count m = 0" "run m (map Request cs) m'"
  shows "pstate m' = (if failures cs < 3 then PROV_READY else PROV_FAULT)"
  using request_run [OF assms(1) _ _ assms(3), of 0] assms(2) by simp

theorem trips_at_third_cumulative_failure_witness:
  "\<exists>m'. run (psm_init\<lparr>pstate := PROV_READY\<rparr>) (map Request [False, True, False, True, True, False]) m'
     \<and> pstate m' = PROV_FAULT"
proof -
  obtain m' where r: "run (psm_init\<lparr>pstate := PROV_READY\<rparr>) (map Request [False, True, False, True, True, False]) m'"
    by (simp only: run_fold)
  from trips_at_third_cumulative_failure [OF _ _ r] r show ?thesis by (auto simp: psm_init_def failures_def)
qed

end
