(* ===== verification/SlotFold.thy ===== *)
theory SlotFold
  imports Prelude
begin

text \<open>
  Slot reductions: the rotate-and-add folds that turn 256 per-slot products into one dot product per
  lane. The numpy oracle (\<^verbatim>\<open>tests/numeric_oracle.py\<close>) and the vendor's three ciphertext routines
  (\<^verbatim>\<open>vendor_server/src/rotation_hoisting.cpp\<close>) are modelled; the ciphertext routines take the
  homomorphic operations as arguments, since SEAL is not part of the repository. The interface
  \<open>slot_backend\<close> states what those operations promise: addition adds slots, a rotation by \<open>s\<close> moves
  slot \<open>i + s\<close> to slot \<open>i\<close> up to a noise bound. The folds are proved once against it.
\<close>

section \<open>The numpy oracle\<close>

text \<open>\<^verbatim>\<open>np.roll(v, -s)\<close> is a cyclic left rotation; adding two arrays adds element by element.\<close>

definition rot :: "real list \<Rightarrow> nat \<Rightarrow> real list" where
  "rot v s = rotate s v"

definition vadd :: "real list \<Rightarrow> real list \<Rightarrow> real list" where
  "vadd v w = map2 (+) v w"

definition STEPS :: "nat list" where
  "STEPS = [1, 2, 4, 8, 16, 32, 64, 128]"

definition broken_fold :: "real list \<Rightarrow> nat list \<Rightarrow> real list" where
  "broken_fold ct steps = fold (\<lambda>s acc. vadd acc (rot ct s)) steps ct"

definition correct_fold :: "real list \<Rightarrow> nat list \<Rightarrow> real list" where
  "correct_fold ct steps = fold (\<lambda>s acc. vadd acc (rot acc s)) steps ct"

section \<open>The vendor's reductions\<close>

text \<open>\<open>rotate_vector c s\<close> and \<open>add c d\<close> are SEAL's operations; a key for every rotation used is
  assumed present except where the routine itself checks it.\<close>

definition hoisted_tree_sum :: "('c \<Rightarrow> nat \<Rightarrow> 'c) \<Rightarrow> ('c \<Rightarrow> 'c \<Rightarrow> 'c) \<Rightarrow> 'c \<Rightarrow> nat \<Rightarrow> 'c res" where
  "hoisted_tree_sum rotate_vector add ct n_features =
     (if n_features \<noteq> 256 then Raise ValueError
      else Ret (fold (\<lambda>s acc. add acc (rotate_vector acc s)) STEPS ct))"

definition BSGS_ROTATION_STEPS :: "nat list" where
  "BSGS_ROTATION_STEPS = [1..<16] @ map (\<lambda>i. i * 16) [1..<16]"

definition bsgs_reduction ::
  "('c \<Rightarrow> nat \<Rightarrow> 'c) \<Rightarrow> ('c \<Rightarrow> 'c \<Rightarrow> 'c) \<Rightarrow> (nat \<Rightarrow> bool) \<Rightarrow> 'c \<Rightarrow> nat \<Rightarrow> nat \<Rightarrow> nat \<Rightarrow> 'c res" where
  "bsgs_reduction rotate_vector add has_key ct_in n_features baby_step giant_step =
     (if n_features \<noteq> 256 then Raise ValueError
      else if baby_step * giant_step \<noteq> n_features then Raise ValueError
      else if \<not> list_all has_key BSGS_ROTATION_STEPS then Raise RuntimeError
      else
        let baby_rot = map (\<lambda>j. rotate_vector ct_in j) [1..<baby_step];
            baby_acc = fold (\<lambda>r acc. add acc r) baby_rot ct_in;
            giant_rot = map (\<lambda>i. rotate_vector baby_acc (i * baby_step)) [1..<giant_step]
        in Ret (fold (\<lambda>r acc. add acc r) giant_rot baby_acc))"

definition naive_tree_sum :: "('c \<Rightarrow> nat \<Rightarrow> 'c) \<Rightarrow> ('c \<Rightarrow> 'c \<Rightarrow> 'c) \<Rightarrow> 'c \<Rightarrow> nat \<Rightarrow> 'c res" where
  "naive_tree_sum rotate_vector add ct n_features =
     (if n_features \<noteq> 256 then Raise ValueError
      else Ret (fold (\<lambda>step acc. add acc (rotate_vector ct step)) [1..<n_features] ct))"

section \<open>Sums over windows\<close>

definition window :: "(nat \<Rightarrow> real) \<Rightarrow> nat \<Rightarrow> nat \<Rightarrow> real" where
  "window f n i = (\<Sum>m<n. f (i + m))"

lemma window_1 [simp]: "window f (Suc 0) i = f i"
  by (simp add: window_def)

lemma window_add: "window f (n + k) i = window f n i + window f k (i + n)"
  by (induction k) (simp_all add: window_def add.assoc)

lemma window_double: "window f (2 * n) i = window f n i + window f n (i + n)"
  using window_add [of f n n i] by (simp add: mult_2)

lemma window_window: "(\<Sum>j<g. window f b (i + j * b)) = window f (g * b) i"
proof (induction g)
  case (Suc g)
  have "window f (Suc g * b) i = window f (g * b + b) i" by (simp add: add.commute)
  then show ?case using Suc by (simp add: window_add)
qed (simp add: window_def)

lemma sum_lessThan_head: "0 < (n::nat) \<Longrightarrow> (\<Sum>m<n. f m) = f 0 + (\<Sum>m\<in>{1..<n}. (f m :: real))"
  by (simp add: sum.atLeast_Suc_lessThan flip: atLeast0LessThan)

section \<open>The interface of a slot backend\<close>

locale slot_backend =
  fixes ok :: "'c \<Rightarrow> bool"
    and rotv :: "'c \<Rightarrow> nat \<Rightarrow> 'c"
    and addc :: "'c \<Rightarrow> 'c \<Rightarrow> 'c"
    and slots :: "'c \<Rightarrow> nat \<Rightarrow> real"
    and e_rot :: real
  assumes ok_rot: "ok c \<Longrightarrow> ok (rotv c s)"
    and ok_add: "ok c \<Longrightarrow> ok d \<Longrightarrow> ok (addc c d)"
    and slots_add: "ok c \<Longrightarrow> ok d \<Longrightarrow> slots (addc c d) i = slots c i + slots d i"
    and slots_rot: "ok c \<Longrightarrow> \<bar>slots (rotv c s) i - slots c (i + s)\<bar> \<le> e_rot"
begin

lemma e_rot_nonneg: "ok c \<Longrightarrow> 0 \<le> e_rot"
  using slots_rot [of c 0 0] abs_ge_zero order_trans by blast

text \<open>One doubling step: a window of \<open>n\<close> slots known up to \<open>e\<close> becomes one of \<open>2 n\<close>.\<close>

lemma double_step:
  assumes "ok acc" and "\<And>i. \<bar>slots acc i - window f n i\<bar> \<le> e"
  shows "ok (addc acc (rotv acc n))"
    and "\<bar>slots (addc acc (rotv acc n)) i - window f (2 * n) i\<bar> \<le> 2 * e + e_rot"
proof -
  show "ok (addc acc (rotv acc n))" using assms(1) by (intro ok_add ok_rot)
  have "slots (addc acc (rotv acc n)) i - window f (2 * n) i =
      (slots acc i - window f n i) + (slots acc (i + n) - window f n (i + n))
      + (slots (rotv acc n) i - slots acc (i + n))"
    using assms(1) by (simp add: slots_add ok_rot window_double)
  then show "\<bar>slots (addc acc (rotv acc n)) i - window f (2 * n) i\<bar> \<le> 2 * e + e_rot"
    using assms(2) [of i] assms(2) [of "i + n"] slots_rot [OF assms(1), of n i] by linarith
qed

lemma doubling_fold:
  assumes "ok c"
  shows "ok (fold (\<lambda>s acc. addc acc (rotv acc s)) (map ((^) 2) [0..<r]) c) \<and>
    (\<forall>i. \<bar>slots (fold (\<lambda>s acc. addc acc (rotv acc s)) (map ((^) 2) [0..<r]) c) i
        - window (slots c) (2 ^ r) i\<bar> \<le> (2 ^ r - 1) * e_rot)"
proof (induction r)
  case 0
  then show ?case using assms by simp
next
  case (Suc r)
  let ?acc = "fold (\<lambda>s acc. addc acc (rotv acc s)) (map ((^) 2) [0..<r]) c"
  have "2 * ((2 ^ r - 1) * e_rot) + e_rot = (2 ^ Suc r - 1) * e_rot"
    by (simp add: algebra_simps)
  with double_step [of ?acc "slots c" "2 ^ r" "(2 ^ r - 1) * e_rot"] Suc
  show ?case by simp
qed

lemma STEPS_powers: "STEPS = map ((^) 2) [0..<8]"
  by (simp add: STEPS_def upt_rec)

text \<open>The deployed fold sums each window of 256 slots, with at most 255 rotation errors.\<close>

lemma hoisted_window:
  assumes "ok c" and "hoisted_tree_sum rotv addc c 256 = Ret d"
  shows "ok d \<and> \<bar>slots d i - window (slots c) 256 i\<bar> \<le> 255 * e_rot"
  using assms(2) doubling_fold [OF assms(1), of 8]
  by (simp add: hoisted_tree_sum_def STEPS_powers)

text \<open>Accumulating independent rotations of one source ciphertext: the fold of the naive baseline, of
  both layers of the baby-step giant-step reduction and of the broken fold.\<close>

lemma indep_fold:
  assumes "ok c" and "ok a"
  shows "ok (fold (\<lambda>s acc. addc acc (rotv c s)) ss a) \<and>
    \<bar>slots (fold (\<lambda>s acc. addc acc (rotv c s)) ss a) i - (slots a i + (\<Sum>s\<leftarrow>ss. slots c (i + s)))\<bar>
      \<le> length ss * e_rot"
  using assms(2)
proof (induction ss arbitrary: a)
  case (Cons s ss)
  have ok': "ok (addc a (rotv c s))" using assms(1) Cons.prems by (intro ok_add ok_rot)
  have "slots (addc a (rotv c s)) i = slots a i + slots (rotv c s) i"
    using assms(1) Cons.prems by (simp add: slots_add ok_rot)
  then have "slots (addc a (rotv c s)) i + (\<Sum>s\<leftarrow>ss. slots c (i + s)) - (slots a i + (\<Sum>s\<leftarrow>s # ss. slots c (i + s)))
      = slots (rotv c s) i - slots c (i + s)" by simp
  with Cons.IH [OF ok'] slots_rot [OF assms(1), of s i] show ?case
    by (simp add: distrib_right) linarith
qed simp

lemma naive_window:
  assumes "ok c" and "naive_tree_sum rotv addc c 256 = Ret d"
  shows "ok d \<and> \<bar>slots d i - window (slots c) 256 i\<bar> \<le> 255 * e_rot"
proof -
  have "slots c i + (\<Sum>s\<leftarrow>[1..<256]. slots c (i + s)) = window (slots c) 256 i"
    by (simp add: window_def sum_lessThan_head [of 256] interv_sum_list_conv_sum_set_nat)
  with assms(2) indep_fold [OF assms(1,1), of "[1..<256]" i] show ?thesis
    by (simp add: naive_tree_sum_def)
qed

lemma bsgs_window:
  assumes c: "ok c" and r: "bsgs_reduction rotv addc has_key c 256 b g = Ret d"
  shows "ok d \<and> \<bar>slots d i - window (slots c) 256 i\<bar> \<le> 255 * e_rot"
proof -
  define acc where "acc = fold (\<lambda>s acc. addc acc (rotv c s)) [1..<b] c"
  have bg: "b * g = 256" and d: "d = fold (\<lambda>s acc. addc acc (rotv acc' s)) (map (\<lambda>i. i * b) [1..<g]) acc'"
    if "acc' = acc" for acc'
    using r that by (auto simp: bsgs_reduction_def acc_def Let_def fold_map comp_def split: if_splits)
  from bg have pos: "0 < b" "0 < g" by (auto intro: Nat.gr0I)
  have acc: "ok acc" "\<bar>slots acc j - window (slots c) b j\<bar> \<le> (b - 1) * e_rot" for j
    using indep_fold [OF c c, of "[1..<b]" j] pos(1)
    by (simp_all add: acc_def window_def sum_lessThan_head [of b] interv_sum_list_conv_sum_set_nat)
  have ok_d: "ok d" and e1: "\<bar>slots d i - (\<Sum>j<g. slots acc (i + j * b))\<bar> \<le> (g - 1) * e_rot"
    using indep_fold [OF acc(1) acc(1), of "map (\<lambda>i. i * b) [1..<g]" i] d [OF refl] pos(2)
    by (simp_all add: sum_lessThan_head [of g] interv_sum_list_conv_sum_set_nat comp_def)
  have "\<bar>(\<Sum>j<g. slots acc (i + j * b)) - (\<Sum>j<g. window (slots c) b (i + j * b))\<bar>
      \<le> (\<Sum>j<g. (b - 1) * e_rot)"
    unfolding sum_subtractf [symmetric] by (intro order_trans [OF sum_abs] sum_mono acc(2))
  then have e2: "\<bar>(\<Sum>j<g. slots acc (i + j * b)) - window (slots c) 256 i\<bar> \<le> g * (b - 1) * e_rot"
    using bg [OF refl] by (simp add: window_window ac_simps)
  have "g - 1 + g * (b - 1) = (255 :: nat)"
    using pos bg [OF refl] by (cases g; cases b) (auto simp: algebra_simps)
  then have "(g - 1) * e_rot + g * (b - 1) * e_rot = 255 * e_rot"
    by (metis (no_types, lifting) distrib_right of_nat_add of_nat_numeral)
  with ok_d e1 e2 show ?thesis by linarith
qed

end

section \<open>The oracle is a slot backend\<close>

lemma length_rot_vadd [simp]:
  "length (rot v s) = length v" "length v = length w \<Longrightarrow> length (vadd v w) = length v"
  by (simp_all add: rot_def vadd_def)

interpretation np_slots: slot_backend "\<lambda>v. length v = 4096" rot vadd "\<lambda>v i. v ! (i mod 4096)" 0
  by unfold_locales (auto simp: rot_def vadd_def nth_rotate mod_simps ac_simps)

lemma hoisted_rot_vadd: "hoisted_tree_sum rot vadd ct 256 = Ret (correct_fold ct STEPS)"
  by (simp add: hoisted_tree_sum_def correct_fold_def)

section \<open>Properties\<close>

text \<open>The corrected fold of the numpy oracle puts into every slot the sum of the 256 consecutive slots
  that start there (cyclically), and the broken fold it replaced sums only the nine slots at offsets
  0, 1, 2, 4, ..., 128.\<close>

theorem oracle_folds:
  assumes "length ct = 4096" and "i < 4096"
  shows "correct_fold ct STEPS ! i = (\<Sum>m<256. ct ! ((i + m) mod 4096))
    \<and> broken_fold ct STEPS ! i = (\<Sum>s\<leftarrow>0 # STEPS. ct ! ((i + s) mod 4096))"
  using np_slots.hoisted_window [OF assms(1) hoisted_rot_vadd, of i]
    np_slots.indep_fold [OF assms(1,1), of STEPS i] assms(2)
  by (simp add: window_def broken_fold_def)

theorem oracle_folds_witness:
  "correct_fold (map real [0..<4096]) STEPS ! 1 = (\<Sum>m<256. map real [0..<4096] ! ((1 + m) mod 4096))
   \<and> broken_fold (map real [0..<4096]) STEPS ! 1 = 264"
  using oracle_folds [of "map real [0..<4096]" 1]
  by (simp add: STEPS_def del: upt_rec_numeral)

text \<open>C10. The vendor's three reductions agree: on any backend whose addition is exact and whose rotations
  err by at most \<open>e\<close>, the deployed doubling fold, the baby-step giant-step reduction (for every split
  of 256 it accepts) and the naive baseline all return, and any two of their results differ in no slot
  by more than \<open>510 e\<close>; with exact rotations they are equal slot by slot.\<close>

theorem reductions_agree:
  assumes "slot_backend ok rotv addc slots e" and "ok c"
    and "b * g = 256" and "list_all has_key BSGS_ROTATION_STEPS"
  shows "\<exists>h s n. hoisted_tree_sum rotv addc c 256 = Ret h
    \<and> bsgs_reduction rotv addc has_key c 256 b g = Ret s
    \<and> naive_tree_sum rotv addc c 256 = Ret n
    \<and> (\<forall>i. \<bar>slots h i - slots s i\<bar> \<le> 510 * e \<and> \<bar>slots h i - slots n i\<bar> \<le> 510 * e)"
proof -
  obtain h where h: "hoisted_tree_sum rotv addc c 256 = Ret h"
    by (simp add: hoisted_tree_sum_def)
  obtain s where s: "bsgs_reduction rotv addc has_key c 256 b g = Ret s"
    using assms(3,4) by (simp add: bsgs_reduction_def Let_def)
  obtain n where n: "naive_tree_sum rotv addc c 256 = Ret n"
    by (simp add: naive_tree_sum_def)
  have "\<bar>slots h i - slots s i\<bar> \<le> 510 * e \<and> \<bar>slots h i - slots n i\<bar> \<le> 510 * e" for i
    using slot_backend.hoisted_window [OF assms(1,2) h, of i] slot_backend.bsgs_window [OF assms(1,2) s, of i]
      slot_backend.naive_window [OF assms(1,2) n, of i] by linarith
  with h s n show ?thesis by blast
qed

theorem reductions_agree_witness:
  "\<exists>h s n. hoisted_tree_sum rot vadd (replicate 4096 1) 256 = Ret h
    \<and> bsgs_reduction rot vadd (\<lambda>_. True) (replicate 4096 1) 256 16 16 = Ret s
    \<and> naive_tree_sum rot vadd (replicate 4096 1) 256 = Ret n
    \<and> (\<forall>i. \<bar>h ! (i mod 4096) - s ! (i mod 4096)\<bar> \<le> 510 * 0 \<and> \<bar>h ! (i mod 4096) - n ! (i mod 4096)\<bar> \<le> 510 * 0)"
  by (rule reductions_agree [OF np_slots.slot_backend_axioms]) (simp_all add: list_all_iff)

end
