(* ===== verification/WeightFile.thy ===== *)
theory WeightFile
  imports Prelude
begin

text \<open>
  The model-weight file \<^verbatim>\<open>artifacts/model_weights.bin\<close>: a \<^verbatim>\<open>u32\<close> feature count, a
  \<^verbatim>\<open>f64\<close> bias and 256 \<^verbatim>\<open>f64\<close> weights, all little-endian. The compiler writes it
  (\<^verbatim>\<open>compiler/serialize_weights.py\<close>); the training check, the parity gate, two reporting
  scripts, the sweep scripts and the vendor's loader read it, each with its own checks. The writer and
  every reader are modelled on file contents as bytes, and two interfaces say what the readers promise:
  \<open>weight_reader\<close> (a well-formed image is read back) and \<open>strict_weight_reader\<close> (nothing else
  is accepted).
\<close>

section \<open>Writers\<close>

definition N_FEATURES :: nat where
  "N_FEATURES = 256"

definition EXPECTED_BYTES :: nat where
  "EXPECTED_BYTES = 2060"

definition N_FEATURES_D2 :: nat where
  "N_FEATURES_D2 = 512"

definition EXPECTED_BYTES_D2 :: nat where
  "EXPECTED_BYTES_D2 = 4108"

text \<open>The bytes the three \<^verbatim>\<open>f.write\<close> calls put into the file.\<close>

definition weights_image :: "nat \<Rightarrow> f64 list \<Rightarrow> f64 \<Rightarrow> byte list" where
  "weights_image n w b = pack_u32 (word_of_nat n) @ pack_f64 b @ concat (map pack_f64 w)"

definition write_model_weights_bin :: "f64 ndarray \<Rightarrow> f64 \<Rightarrow> path \<Rightarrow> fs \<Rightarrow> unit res \<times> fs" where
  "write_model_weights_bin weights bias p fs =
     (if length (shape weights) \<noteq> 1 \<or> hd (shape weights) \<noteq> N_FEATURES then (Raise ValueError, fs)
      else if \<not> list_all f64_isfinite (elems weights) \<or> \<not> f64_isfinite bias then (Raise ValueError, fs)
      else
        let image = pack_u32 (word_of_nat N_FEATURES) @ pack_f64 bias
                    @ concat (map pack_f64 (elems weights));
            written = length image
        in (if written \<noteq> EXPECTED_BYTES then Raise RuntimeError else Ret (), fs(p \<mapsto> image)))"

definition write_degree2_weights_bin :: "f64 ndarray \<Rightarrow> f64 \<Rightarrow> path \<Rightarrow> fs \<Rightarrow> unit res \<times> fs" where
  "write_degree2_weights_bin weights bias p fs =
     (if length (shape weights) \<noteq> 1 \<or> hd (shape weights) \<noteq> N_FEATURES_D2 then (Raise ValueError, fs)
      else if \<not> list_all f64_isfinite (elems weights) \<or> \<not> f64_isfinite bias then (Raise ValueError, fs)
      else
        let image = pack_u32 (word_of_nat N_FEATURES_D2) @ pack_f64 bias
                    @ concat (map pack_f64 (elems weights));
            written = length image
        in (if written \<noteq> EXPECTED_BYTES_D2 then Raise RuntimeError else Ret (), fs(p \<mapsto> image)))"

section \<open>Readers\<close>

text \<open>\<^verbatim>\<open>load_and_verify\<close>: three reads from the open file, the feature count checked last.\<close>

definition load_and_verify :: "fs \<Rightarrow> path \<Rightarrow> (f64 list \<times> f64) res" where
  "load_and_verify fs p =
     rbind (read_bytes fs p) (\<lambda>raw.
     rbind (unpack_u32 (take 4 raw)) (\<lambda>n.
     rbind (unpack_f64 (take 8 (drop 4 raw))) (\<lambda>bias.
     rbind (frombuffer_f64 (take (unat n * 8) (drop 12 raw))) (\<lambda>w.
     rbind (py_assert (unat n = N_FEATURES)) (\<lambda>_. Ret (w, bias))))))"

definition DEFAULT_MODEL_WEIGHTS_PATH :: path where
  "DEFAULT_MODEL_WEIGHTS_PATH = ''artifacts/model_weights.bin''"

definition load_model_weights :: "fs \<Rightarrow> path option \<Rightarrow> (f64 list \<times> f64) res" where
  "load_model_weights fs path =
     (let p = (case path of Some q \<Rightarrow> q | None \<Rightarrow> DEFAULT_MODEL_WEIGHTS_PATH) in
      rbind (read_bytes fs p) (\<lambda>raw.
      if length raw \<noteq> 2060 then Raise RuntimeError else
      rbind (unpack_u32_from raw 0) (\<lambda>n_features.
      if n_features \<noteq> 256 then Raise RuntimeError else
      rbind (unpack_f64_from raw 4) (\<lambda>bias.
      rbind (unpack_f64s_from 256 raw 12) (\<lambda>weights. Ret (weights, bias))))))"

text \<open>The copy of the loader in \<^verbatim>\<open>generate_roc.py\<close>, and the one in
  \<^verbatim>\<open>show_accuracy_check.py\<close>.\<close>

definition roc_load_depth1_weights :: "fs \<Rightarrow> path \<Rightarrow> (f64 list \<times> f64) res" where
  "roc_load_depth1_weights fs p =
     rbind (read_bytes fs p) (\<lambda>raw.
     if length raw \<noteq> 2060 then Raise RuntimeError else
     rbind (unpack_u32_from raw 0) (\<lambda>n_features.
     if n_features \<noteq> 256 then Raise RuntimeError else
     rbind (unpack_f64_from raw 4) (\<lambda>bias.
     rbind (unpack_f64s_from 256 raw 12) (\<lambda>weights. Ret (weights, bias)))))"

definition accuracy_load_depth1_weights :: "fs \<Rightarrow> path \<Rightarrow> (f64 list \<times> f64) res" where
  "accuracy_load_depth1_weights fs p =
     rbind (read_bytes fs p) (\<lambda>raw.
     if length raw \<noteq> 2060 then Raise RuntimeError else
     rbind (unpack_u32_from raw 0) (\<lambda>n_features.
     if n_features \<noteq> 256 then Raise RuntimeError else
     rbind (unpack_f64_from raw 4) (\<lambda>bias.
     rbind (unpack_f64s_from 256 raw 12) (\<lambda>weights. Ret (weights, bias)))))"

text \<open>The vendor's \<^verbatim>\<open>load_raw_weights\<close>: an unopenable file and every failed check are a
  \<^verbatim>\<open>std::runtime_error\<close>; the size check precedes the reads, which therefore never run short.\<close>

definition load_raw_weights :: "fs \<Rightarrow> path \<Rightarrow> (f64 list \<times> f64) res" where
  "load_raw_weights fs p =
     (case fs p of None \<Rightarrow> Raise RuntimeError
      | Some raw \<Rightarrow>
        if length raw \<noteq> 2060 then Raise RuntimeError
        else let n = (word_of_nat (le_nat (take 4 raw)) :: u32);
                 bias = (word_of_nat (le_nat (take 8 (drop 4 raw))) :: f64)
             in if n \<noteq> 256 then Raise RuntimeError
                else Ret (map (\<lambda>c. word_of_nat (le_nat c)) (chunks 8 (take (unat n * 8) (drop 12 raw))), bias))"

text \<open>\<^verbatim>\<open>cnp_common.load_model\<close> and the sweep's \<^verbatim>\<open>load_weights_and_bias\<close> take only the bias
  from the file, at its fixed offset and with no check of size or header; the weights come from
  \<^verbatim>\<open>weights.npy\<close>, whose reading by numpy is the parameter \<open>np_load\<close>.\<close>

definition load_model :: "(path \<Rightarrow> f64 ndarray res) \<Rightarrow> fs \<Rightarrow> (f64 list \<times> f64) res" where
  "load_model np_load fs =
     rbind (read_bytes fs ''artifacts/model_weights.bin'') (\<lambda>raw.
     rbind (unpack_f64 (take 8 (drop 4 raw))) (\<lambda>bias.
     rbind (np_load ''artifacts/weights.npy'') (\<lambda>w.
     rbind (py_assert (shape w = [256])) (\<lambda>_. Ret (elems w, bias)))))"

definition load_weights_and_bias :: "(path \<Rightarrow> f64 ndarray res) \<Rightarrow> fs \<Rightarrow> (f64 ndarray \<times> f64) res" where
  "load_weights_and_bias np_load fs =
     rbind (np_load ''artifacts/weights.npy'') (\<lambda>weights.
     rbind (read_bytes fs ''artifacts/model_weights.bin'') (\<lambda>raw.
     rbind (unpack_f64 (take 8 (drop 4 raw))) (\<lambda>bias. Ret (weights, bias))))"

section \<open>What the readers promise\<close>

locale weight_reader =
  fixes rd :: "fs \<Rightarrow> path \<Rightarrow> (f64 list \<times> f64) res"
  assumes rd_image: "fs p = Some (weights_image 256 w b) \<Longrightarrow> length w = 256 \<Longrightarrow> rd fs p = Ret (w, b)"
begin

lemma rd_after_write:
  assumes "write_model_weights_bin a b p fs = (Ret (), fs')" and "ndarray_wf a"
  shows "rd fs' p = Ret (elems a, b)"
proof -
  from assms have "shape a = [256]" and f: "fs' = fs(p \<mapsto> weights_image 256 (elems a) b)"
    by (auto simp: write_model_weights_bin_def Let_def weights_image_def N_FEATURES_def length_Suc_conv
        split: if_splits)
  with assms(2) show ?thesis
    by (intro rd_image) (auto simp: ndarray_wf_def)
qed

end

locale strict_weight_reader = weight_reader +
  assumes rd_only: "rd fs p = Ret (w, b) \<Longrightarrow> fs p = Some (weights_image 256 w b) \<and> length w = 256"
    and rd_bad: "fs p = Some raw \<Longrightarrow> \<not> is_ret (rd fs p) \<Longrightarrow> rd fs p = Raise RuntimeError"
begin

lemma rd_iff: "rd fs p = Ret (w, b) \<longleftrightarrow> fs p = Some (weights_image 256 w b) \<and> length w = 256"
  using rd_only rd_image by blast

text \<open>An existing file is either read completely or refused with \<^verbatim>\<open>RuntimeError\<close>.\<close>

lemma rd_refuse_iff:
  assumes "fs p = Some raw"
  shows "rd fs p = Raise RuntimeError \<longleftrightarrow> (\<nexists>w b. raw = weights_image 256 w b \<and> length w = 256)"
  using assms rd_bad [of fs p raw] rd_iff [of fs p] by (cases "rd fs p") auto

end

text \<open>Two readers of the strict contract cannot be told apart on an existing file.\<close>

lemma strict_readers_agree:
  assumes r: "strict_weight_reader r1" "strict_weight_reader r2" and raw: "fs p = Some raw"
  shows "r1 fs p = r2 fs p"
proof (cases "r1 fs p")
  case (Inl e)
  then have "r1 fs p = Raise RuntimeError"
    using strict_weight_reader.rd_bad [OF r(1), of fs p raw] raw by simp
  then show ?thesis
    using strict_weight_reader.rd_refuse_iff [OF r(1), of fs p raw]
      strict_weight_reader.rd_refuse_iff [OF r(2), of fs p raw] raw by simp
next
  case (Inr wb)
  then show ?thesis
    using strict_weight_reader.rd_iff [OF r(1), of fs p "fst wb" "snd wb"]
      strict_weight_reader.rd_iff [OF r(2), of fs p "fst wb" "snd wb"] by simp
qed

section \<open>The readers against the interfaces\<close>

lemma weights_image_parts [simp]:
  "length (weights_image n w b) = 12 + 8 * length w"
  "take 4 (weights_image n w b) = pack_u32 (word_of_nat n)"
  "take 8 (drop 4 (weights_image n w b)) = pack_f64 b"
  "drop 12 (weights_image n w b) = concat (map pack_f64 w)"
  by (simp_all add: weights_image_def)

lemma weights_image_split:
  "length raw = 2060 \<Longrightarrow> take 4 raw = pack_u32 256 \<Longrightarrow> take 8 (drop 4 raw) = pack_f64 b \<Longrightarrow>
   drop 12 raw = concat (map pack_f64 w) \<Longrightarrow> raw = weights_image 256 w b"
proof -
  assume a: "take 4 raw = pack_u32 256" "take 8 (drop 4 raw) = pack_f64 b"
    "drop 12 raw = concat (map pack_f64 w)"
  have "raw = take 4 raw @ take 8 (drop 4 raw) @ drop 8 (drop 4 raw)"
    by (metis append_take_drop_id)
  then show ?thesis using a by (simp add: weights_image_def)
qed

lemma unpack_256_iff:
  "length raw = 2060 \<Longrightarrow>
   unpack_f64s_from 256 raw 12 = Inr ws \<longleftrightarrow> drop 12 raw = concat (map pack_f64 ws) \<and> length ws = 256"
proof -
  assume l: "length raw = 2060"
  have "length ws = 256" if "drop 12 raw = concat (map pack_f64 ws)"
    using arg_cong [OF that, of length] l by simp
  then show ?thesis using l by (auto simp: unpack_f64s_from_Ret_iff)
qed

text \<open>The common body of the three Python loaders.\<close>

lemma strict_body_iff:
  "(if length raw \<noteq> 2060 then Raise RuntimeError else
     rbind (unpack_u32_from raw 0) (\<lambda>n_features.
     if n_features \<noteq> 256 then Raise RuntimeError else
     rbind (unpack_f64_from raw 4) (\<lambda>bias.
     rbind (unpack_f64s_from 256 raw 12) (\<lambda>weights. Ret (weights, bias))))) = Ret (w, b)
   \<longleftrightarrow> raw = weights_image 256 w b \<and> length w = 256"
  by (auto simp: res_simps unpack_u32_from_def unpack_u32_Ret_iff unpack_f64_from_def unpack_f64_Ret_iff
      unpack_256_iff intro!: weights_image_split split: if_splits)

lemma strict_body_raises:
  "(if length raw \<noteq> 2060 then Raise RuntimeError else
     rbind (unpack_u32_from raw 0) (\<lambda>n_features.
     if n_features \<noteq> 256 then Raise RuntimeError else
     rbind (unpack_f64_from raw 4) (\<lambda>bias.
     rbind (unpack_f64s_from 256 raw 12) (\<lambda>weights. Ret (weights, bias))))) \<in> {Raise RuntimeError} \<union> range Ret"
proof (cases "length raw = 2060")
  case True
  then obtain w where "unpack_f64s_from 256 raw 12 = Inr w"
    using unpack_f64s_from_total [of 12 256 raw] by auto
  with True show ?thesis
    by (simp add: unpack_u32_from_def unpack_u32_def unpack_f64_from_def unpack_f64_def)
qed simp

lemma strict_reader_intro:
  assumes "\<And>fs p raw. fs p = Some raw \<Longrightarrow>
      rd fs p = (if length raw \<noteq> 2060 then Raise RuntimeError else
        rbind (unpack_u32_from raw 0) (\<lambda>n_features.
        if n_features \<noteq> 256 then Raise RuntimeError else
        rbind (unpack_f64_from raw 4) (\<lambda>bias.
        rbind (unpack_f64s_from 256 raw 12) (\<lambda>weights. Ret (weights, bias)))))"
    and "\<And>fs p. fs p = None \<Longrightarrow> \<not> is_ret (rd fs p)"
  shows "strict_weight_reader rd"
proof
  show "rd fs p = Ret (w, b)" if "fs p = Some (weights_image 256 w b)" "length w = 256" for fs p w b
    unfolding assms(1) [of fs p, OF that(1)] strict_body_iff using that(2) by simp
  show "fs p = Some (weights_image 256 w b) \<and> length w = 256" if "rd fs p = Ret (w, b)" for fs p w b
    using that assms(1) [of fs p] assms(2) [of fs p] strict_body_iff [of _ w b]
    by (cases "fs p") auto
  show "rd fs p = Raise RuntimeError" if "fs p = Some raw" "\<not> is_ret (rd fs p)" for fs p raw
    using assms(1) [of fs p, OF that(1)] strict_body_raises [of raw] that(2) by auto
qed

interpretation parity_reader: strict_weight_reader "\<lambda>fs p. load_model_weights fs (Some p)"
  by (rule strict_reader_intro) (simp_all add: load_model_weights_def read_bytes_def)

interpretation roc_reader: strict_weight_reader roc_load_depth1_weights
  by (rule strict_reader_intro) (simp_all add: roc_load_depth1_weights_def read_bytes_def)

interpretation accuracy_reader: strict_weight_reader accuracy_load_depth1_weights
  by (rule strict_reader_intro) (simp_all add: accuracy_load_depth1_weights_def read_bytes_def)

lemma load_raw_weights_eq:
  "fs p = Some raw \<Longrightarrow> load_raw_weights fs p = roc_load_depth1_weights fs p"
  using rmap_unpack_chunks [of "drop 12 raw" 256]
  by (simp add: load_raw_weights_def roc_load_depth1_weights_def read_bytes_def Let_def unpack_u32_from_def
      unpack_u32_def unpack_f64_from_def unpack_f64_def unpack_f64s_from_def)

interpretation vendor_reader: strict_weight_reader load_raw_weights
  by (rule strict_reader_intro)
    (simp_all add: load_raw_weights_eq roc_load_depth1_weights_def read_bytes_def, simp add: load_raw_weights_def)

interpretation train_reader: weight_reader load_and_verify
  by unfold_locales (simp add: load_and_verify_def read_bytes_def N_FEATURES_def)

section \<open>Properties\<close>

lemma write_ok_iff:
  "ndarray_wf a \<Longrightarrow>
   write_model_weights_bin a b p fs =
     (if shape a = [256] \<and> list_all f64_isfinite (elems a) \<and> f64_isfinite b
      then (Ret (), fs(p \<mapsto> weights_image 256 (elems a) b)) else (Raise ValueError, fs))"
  by (auto simp: write_model_weights_bin_def N_FEATURES_def EXPECTED_BYTES_def weights_image_def Let_def
      ndarray_wf_def length_Suc_conv)

lemma write_d2_ok_iff:
  "ndarray_wf a \<Longrightarrow>
   write_degree2_weights_bin a b p fs =
     (if shape a = [512] \<and> list_all f64_isfinite (elems a) \<and> f64_isfinite b
      then (Ret (), fs(p \<mapsto> weights_image 512 (elems a) b)) else (Raise ValueError, fs))"
  by (auto simp: write_degree2_weights_bin_def N_FEATURES_D2_def EXPECTED_BYTES_D2_def weights_image_def Let_def
      ndarray_wf_def length_Suc_conv)

text \<open>C12. Whatever \<^verbatim>\<open>write_model_weights_bin\<close> accepts is read back exactly, weights and bias bit
  for bit, by every loader of the system: the training check, the parity gate, the two report scripts
  and the vendor server.\<close>

theorem weights_roundtrip:
  assumes "ndarray_wf a" and "write_model_weights_bin a b p fs = (Ret (), fs')"
  shows "load_and_verify fs' p = Ret (elems a, b)
    \<and> load_model_weights fs' (Some p) = Ret (elems a, b)
    \<and> roc_load_depth1_weights fs' p = Ret (elems a, b)
    \<and> accuracy_load_depth1_weights fs' p = Ret (elems a, b)
    \<and> load_raw_weights fs' p = Ret (elems a, b)"
  using train_reader.rd_after_write [OF assms(2,1)] parity_reader.rd_after_write [OF assms(2,1)]
    roc_reader.rd_after_write [OF assms(2,1)] accuracy_reader.rd_after_write [OF assms(2,1)]
    vendor_reader.rd_after_write [OF assms(2,1)] by simp_all

theorem weights_roundtrip_witness:
  "load_raw_weights ((\<lambda>_. None)(''m'' \<mapsto> weights_image 256 (replicate 256 0x3FF0000000000000) 7)) ''m''
     = Ret (replicate 256 0x3FF0000000000000, 7)"
  using weights_roundtrip [where a = "vec (replicate 256 0x3FF0000000000000)" and fs = "\<lambda>_. None"
      and b = 7 and p = "''m''"]
  by (simp add: write_ok_iff f64_isfinite_def list_all_iff)

text \<open>\<^verbatim>\<open>write_model_weights_bin\<close> succeeds exactly on a one-dimensional array of 256 finite values
  with a finite bias; otherwise it raises \<^verbatim>\<open>ValueError\<close> before any file is touched. Its final size
  check never fires.\<close>

theorem write_model_weights_bin_total:
  assumes "ndarray_wf a"
  shows "write_model_weights_bin a b p fs =
     (if shape a = [256] \<and> list_all f64_isfinite (elems a) \<and> f64_isfinite b
      then (Ret (), fs(p \<mapsto> weights_image 256 (elems a) b)) else (Raise ValueError, fs))"
  by (rule write_ok_iff [OF assms])

theorem write_model_weights_bin_total_witness:
  "write_model_weights_bin (vec (replicate 256 0)) 0x7FF0000000000000 ''m'' (\<lambda>_. None) = (Raise ValueError, \<lambda>_. None)"
  by (subst write_model_weights_bin_total) (simp_all add: f64_isfinite_def)

text \<open>The strict loaders (parity gate, both report scripts, vendor) accept exactly the images of 256
  weights: an existing file is either such an image, and then all four return its weights and bias, or
  all four raise the same error.\<close>

theorem strict_loaders_exact:
  assumes "fs p = Some raw"
  shows "(load_model_weights fs (Some p) = Ret (w, b) \<longleftrightarrow> raw = weights_image 256 w b \<and> length w = 256)
    \<and> (load_model_weights fs (Some p) = Raise RuntimeError \<longleftrightarrow>
           (\<nexists>w b. raw = weights_image 256 w b \<and> length w = 256))
    \<and> roc_load_depth1_weights fs p = load_model_weights fs (Some p)
    \<and> accuracy_load_depth1_weights fs p = load_model_weights fs (Some p)
    \<and> load_raw_weights fs p = load_model_weights fs (Some p)"
  using assms parity_reader.rd_iff [of fs p w b] parity_reader.rd_refuse_iff [of fs p raw]
    strict_readers_agree [OF roc_reader.strict_weight_reader_axioms parity_reader.strict_weight_reader_axioms, of fs p]
    strict_readers_agree [OF accuracy_reader.strict_weight_reader_axioms parity_reader.strict_weight_reader_axioms, of fs p]
    strict_readers_agree [OF vendor_reader.strict_weight_reader_axioms parity_reader.strict_weight_reader_axioms, of fs p]
  by simp_all

theorem strict_loaders_exact_witness:
  "load_model_weights ((\<lambda>_. None)(''m'' \<mapsto> weights_image 256 [1, 2] 3)) (Some ''m'') = Raise RuntimeError"
  using strict_loaders_exact [where fs = "(\<lambda>_. None)(''m'' \<mapsto> weights_image 256 [1, 2] 3)" and p = "''m''"
      and raw = "weights_image 256 [1, 2] 3"]
  by (auto dest: arg_cong [where f = length])

text \<open>\<^verbatim>\<open>load_and_verify\<close> does not verify the number of weights it returns: for every \<open>k\<close> below
  256 a file truncated to \<open>k\<close> weights is accepted and gives \<open>k\<close> weights, where every strict loader
  refuses it.\<close>

theorem load_and_verify_truncated:
  assumes "length w < 256" and "fs p = Some (weights_image 256 w b)"
  shows "load_and_verify fs p = Ret (w, b) \<and> load_model_weights fs (Some p) = Raise RuntimeError"
  using assms by (simp add: load_and_verify_def load_model_weights_def read_bytes_def N_FEATURES_def)

theorem load_and_verify_truncated_witness:
  "load_and_verify ((\<lambda>_. None)(''m'' \<mapsto> weights_image 256 [1, 2] 3)) ''m'' = Ret ([1, 2], 3)"
  by (rule load_and_verify_truncated [THEN conjunct1]) simp_all

end
