(* ===== verification/Vendor.thy ===== *)
theory Vendor
  imports Provisioning SlotFold Negacyclic WeightFile
begin

text \<open>
  The vendor's gRPC service \<^verbatim>\<open>FraudInferenceServiceImpl160\<close>
  (\<^verbatim>\<open>vendor_server/src/inference_service_160.cpp\<close>, with the key validation of
  \<^verbatim>\<open>eval_context_160.cpp\<close> and the coefficient codec of \<^verbatim>\<open>include/cnp_codec.h\<close>): start-up, the
  provisioning handlers and \<^verbatim>\<open>RunInference\<close> in both packing modes, every branch included. SEAL is not part of
  the repository: a record of functions stands for it. Wire formats of ciphertexts are abstract values with
  a size; messages and server-side timings are arguments or left out.
\<close>

section \<open>SEAL as an argument\<close>

text \<open>\<open>'c\<close> ciphertexts, \<open>'w\<close> serialised ciphertexts, \<open>'g\<close> Galois key sets. The slot functions go through
  the canonical embedding (4096 slots), the coefficient functions through the CNP codec (8192
  coefficients). \<open>mulp\<close> is \<^verbatim>\<open>multiply_plain\<close> followed by \<^verbatim>\<open>rescale_to_next\<close>.\<close>

record ('c, 'w, 'g) seal =
  enc_slots :: "real list \<Rightarrow> 'c"
  dec_slots :: "'c \<Rightarrow> real list"
  enc_coeffs :: "real list \<Rightarrow> 'c"
  dec_coeffs :: "'c \<Rightarrow> real list"
  save_ct :: "'c \<Rightarrow> 'w"
  load_ct :: "'w \<Rightarrow> 'c option"
  wire_size :: "'w \<Rightarrow> nat"
  first_level :: "'c \<Rightarrow> bool"
  mulp_slots :: "'c \<Rightarrow> real list \<Rightarrow> 'c"
  addp_slots :: "'c \<Rightarrow> real list \<Rightarrow> 'c"
  mulp_coeffs :: "'c \<Rightarrow> real list \<Rightarrow> 'c"
  addp_coeffs :: "'c \<Rightarrow> real list \<Rightarrow> 'c"
  addc :: "'c \<Rightarrow> 'c \<Rightarrow> 'c"
  rotv :: "'g \<Rightarrow> 'c \<Rightarrow> nat \<Rightarrow> 'c"
  load_gk :: "byte list \<Rightarrow> 'g option"
  gk_parms_ok :: "'g \<Rightarrow> bool"
  gk_has :: "'g \<Rightarrow> nat \<Rightarrow> bool"

section \<open>Server state and messages\<close>

datatype packing = SLOT | CNP

datatype grpc_error = FAILED_PRECONDITION | INVALID_ARGUMENT

datatype inf_status = ST_OK | ERR_NOISE_BUDGET_EXHAUSTED | ERR_MALFORMED_CIPHERTEXT | ERR_PARAM_MISMATCH
  | ERR_INTERNAL | ERR_TIMEOUT | ERR_NOT_PROVISIONED

record 'g server =
  sv_mode :: packing
  sv_sm :: psm
  sv_gk :: "'g option"
  sv_w :: "real list"
  sv_b :: real
  sv_rotations :: nat

record 'w inf_request =
  rq_ct :: 'w
  rq_id :: string
  rq_n :: int
  rq_mode :: packing

record 'w inf_response =
  rs_status :: inf_status
  rs_ct :: "'w option"
  rs_id :: string

definition CT_BUF :: nat where
  "CT_BUF = 320 * 1024"

section \<open>Codec and plaintexts\<close>

definition kN :: nat where
  "kN = 8192"

definition output_index :: "nat \<Rightarrow> nat" where
  "output_index lane = 256 * lane + (256 - 1)"

definition weights_to_wrev :: "real list \<Rightarrow> real list" where
  "weights_to_wrev w = rev w @ replicate (kN - 256) 0"

text \<open>The tiled weight plaintext and the bias plaintext of the slot circuit, encoded once at start-up.\<close>

definition tiled_weights :: "real list \<Rightarrow> real list" where
  "tiled_weights w = concat (replicate 16 w)"

definition bias_vec :: "real \<Rightarrow> real list" where
  "bias_vec b = map (\<lambda>i. if i mod 256 = 0 then b else 0) [0..<4096]"

text \<open>The mask of a CNP response: fresh random values off the outputs, the bias on all 32 outputs.\<close>

definition build_output_mask :: "(nat \<Rightarrow> real) \<Rightarrow> real \<Rightarrow> real list" where
  "build_output_mask rnd b = map (\<lambda>c. if c mod 256 = 255 then b else rnd c) [0..<kN]"

section \<open>Start-up\<close>

definition vendor_init :: "packing \<Rightarrow> fs \<Rightarrow> path \<Rightarrow> 'g server res" where
  "vendor_init mode fs weights_path =
     rbind (load_raw_weights fs weights_path) (\<lambda>(w, b).
     let sv = \<lparr>sv_mode = mode, sv_sm = psm_init, sv_gk = None, sv_w = map f64_real w, sv_b = f64_real b,
               sv_rotations = 0\<rparr>
     in if mode = CNP
        then Ret (sv\<lparr>sv_sm := snd (on_canary_result True (snd (on_structural_result True psm_init)))\<rparr>)
        else Ret sv)"

section \<open>Provisioning handlers\<close>

definition load_and_validate_galois_keys :: "('c, 'w, 'g) seal \<Rightarrow> byte list \<Rightarrow> 'g server \<Rightarrow> 'g server res" where
  "load_and_validate_galois_keys S gk_in sv =
     (if sv_mode sv = CNP then Raise RuntimeError
      else case load_gk S gk_in of
        None \<Rightarrow> Raise RuntimeError
      | Some candidate \<Rightarrow>
          if \<not> gk_parms_ok S candidate then Raise RuntimeError
          else if \<not> list_all (gk_has S candidate) STEPS then Raise RuntimeError
          else Ret (sv\<lparr>sv_gk := Some candidate\<rparr>))"

definition ProvisionGaloisKeys :: "('c, 'w, 'g) seal \<Rightarrow> byte list \<Rightarrow> 'g server \<Rightarrow> (grpc_error + prov_state) \<times> 'g server" where
  "ProvisionGaloisKeys S galois_keys sv =
     (if sv_mode sv = CNP then (Inl FAILED_PRECONDITION, sv)
      else if pstate (sv_sm sv) \<noteq> PROV_AWAITING_KEYS then (Inr (pstate (sv_sm sv)), sv)
      else
        let (ok, sv1) = (case load_and_validate_galois_keys S galois_keys sv of
                           Inl e \<Rightarrow> (False, sv) | Inr sv' \<Rightarrow> (True, sv'));
            sv2 = sv1\<lparr>sv_sm := snd (on_structural_result ok (sv_sm sv1))\<rparr>
        in (Inr (pstate (sv_sm sv2)), sv2))"

definition CanaryCheck ::
  "('c, 'w, 'g) seal \<Rightarrow> 'w \<Rightarrow> 'g server \<Rightarrow> (grpc_error + prov_state \<times> 'w option) \<times> 'g server" where
  "CanaryCheck S ct_bytes sv =
     (if sv_mode sv = CNP then (Inl FAILED_PRECONDITION, sv)
      else if pstate (sv_sm sv) \<noteq> PROV_VALIDATING then (Inr (pstate (sv_sm sv), None), sv)
      else
        let fault = sv\<lparr>sv_sm := force_fault (sv_sm sv)\<rparr> in
        if wire_size S ct_bytes > CT_BUF then (Inr (pstate (sv_sm fault), None), fault)
        else case (load_ct S ct_bytes, sv_gk sv) of
          (Some ct, Some gk) \<Rightarrow>
            if \<not> first_level S ct then (Inr (pstate (sv_sm fault), None), fault)
            else (case hoisted_tree_sum (rotv S gk) (addc S) ct 256 of
                Inl e \<Rightarrow> (Inr (pstate (sv_sm fault), None), fault)
              | Inr acc \<Rightarrow> (Inr (pstate (sv_sm sv), Some (save_ct S acc)), sv\<lparr>sv_rotations := sv_rotations sv + 8\<rparr>))
        | _ \<Rightarrow> (Inr (pstate (sv_sm fault), None), fault))"

definition CanaryConfirm :: "bool \<Rightarrow> 'g server \<Rightarrow> prov_state \<times> 'g server" where
  "CanaryConfirm passed sv =
     (if pstate (sv_sm sv) \<noteq> PROV_VALIDATING then (pstate (sv_sm sv), sv)
      else let sv1 = sv\<lparr>sv_sm := snd (on_canary_result passed (sv_sm sv))\<rparr>
           in (pstate (sv_sm sv1), sv1))"

definition GetProvisioningStatus :: "'g server \<Rightarrow> prov_state \<times> packing \<times> nat" where
  "GetProvisioningStatus sv = (pstate (sv_sm sv), sv_mode sv, sv_rotations sv)"

text \<open>The transciphering canary is a stub: it reports the state and \<^verbatim>\<open>pending_impl=true\<close>.\<close>

definition CanaryCheckTranscipher :: "'g server \<Rightarrow> prov_state \<times> bool" where
  "CanaryCheckTranscipher sv = (pstate (sv_sm sv), True)"

section \<open>Inference\<close>

definition slot_circuit :: "('c, 'w, 'g) seal \<Rightarrow> 'g \<Rightarrow> real list \<Rightarrow> real \<Rightarrow> 'c \<Rightarrow> 'c res" where
  "slot_circuit S gk w b ct =
     rbind (hoisted_tree_sum (rotv S gk) (addc S) (mulp_slots S ct (tiled_weights w)) 256) (\<lambda>acc.
     Ret (addp_slots S acc (bias_vec b)))"

definition cnp_circuit :: "('c, 'w, 'g) seal \<Rightarrow> (nat \<Rightarrow> real) \<Rightarrow> real list \<Rightarrow> real \<Rightarrow> 'c \<Rightarrow> 'c" where
  "cnp_circuit S rnd w b ct = addp_coeffs S (mulp_coeffs S ct (weights_to_wrev w)) (build_output_mask rnd b)"

definition RunInference ::
  "('c, 'w, 'g) seal \<Rightarrow> (nat \<Rightarrow> real) \<Rightarrow> 'w inf_request \<Rightarrow> 'g server \<Rightarrow> (grpc_error + 'w inf_response) \<times> 'g server" where
  "RunInference S rnd req sv =
     (let resp = (\<lambda>st ct. \<lparr>rs_status = st, rs_ct = ct, rs_id = rq_id req\<rparr>);
          record_req = (\<lambda>ok s. s\<lparr>sv_sm := snd (record_request_and_maybe_trip ok (sv_sm s))\<rparr>)
      in
      if rq_mode req \<noteq> sv_mode sv then (Inl FAILED_PRECONDITION, sv)
      else if sv_mode sv = CNP \<and> (rq_n req < 1 \<or> rq_n req > 32) then (Inl INVALID_ARGUMENT, sv)
      else if pstate (sv_sm sv) \<noteq> PROV_READY then (Inr (resp ERR_NOT_PROVISIONED None), sv)
      else if wire_size S (rq_ct req) > CT_BUF then (Inr (resp ERR_MALFORMED_CIPHERTEXT None), record_req False sv)
      else case load_ct S (rq_ct req) of
        None \<Rightarrow> (Inr (resp ERR_MALFORMED_CIPHERTEXT None), record_req False sv)
      | Some ct \<Rightarrow>
          if \<not> first_level S ct then (Inr (resp ERR_PARAM_MISMATCH None), record_req False sv)
          else let sv1 = record_req True sv in
            if sv_mode sv = CNP then
              (if sv_gk sv \<noteq> None then (Inr (resp ERR_INTERNAL None), sv1)
               else (Inr (resp ST_OK (Some (save_ct S (cnp_circuit S rnd (sv_w sv) (sv_b sv) ct)))), sv1))
            else (case sv_gk sv of
                None \<Rightarrow> (Inr (resp ERR_INTERNAL None), sv1)
              | Some gk \<Rightarrow> (case slot_circuit S gk (sv_w sv) (sv_b sv) ct of
                    Inl e \<Rightarrow> (Inr (resp ERR_INTERNAL None), sv1)
                  | Inr out \<Rightarrow> (Inr (resp ST_OK (Some (save_ct S out))),
                                sv1\<lparr>sv_rotations := sv_rotations sv1 + 8\<rparr>))))"

section \<open>Plaintext layouts\<close>

lemma length_plain [simp]:
  "length w = 256 \<Longrightarrow> length (tiled_weights w) = 4096" "length (bias_vec b) = 4096"
  "length w = 256 \<Longrightarrow> length (weights_to_wrev w) = 8192" "length (build_output_mask rnd b) = 8192"
  by (simp_all add: tiled_weights_def bias_vec_def weights_to_wrev_def build_output_mask_def kN_def
      length_concat sum_list_replicate)

lemma tiled_nth:
  assumes "length w = 256" "k < 16" "j < 256"
  shows "tiled_weights w ! (256 * k + j) = w ! j"
  unfolding tiled_weights_def using assms by (subst nth_concat_const) auto

lemma bias_nth: "k < 16 \<Longrightarrow> bias_vec b ! (256 * k) = b"
  by (simp add: bias_vec_def)

lemma mask_nth: "k < 32 \<Longrightarrow> build_output_mask rnd b ! output_index k = b"
  by (simp add: build_output_mask_def output_index_def kN_def)

lemma nega_pad_zeros:
  assumes "length b + z \<le> N" "i < N"
  shows "nega a (b @ replicate z 0) N i = nega a b N i"
proof -
  let ?f = "\<lambda>b d. if d \<le> i then a ! (i - d) * b ! d else - (a ! (N - d + i) * b ! d)"
  have "nega a (b @ replicate z 0) N i = (\<Sum>d<length b + z. ?f (b @ replicate z 0) d)" by (simp add: nega_def)
  also have "\<dots> = (\<Sum>d<length b. ?f b d)"
    by (rule sum.mono_neutral_cong_right) (auto simp: nth_append)
  finally show ?thesis by (simp add: nega_def)
qed

section \<open>What the slot circuit relies on\<close>

text \<open>A CKKS backend seen through decryption, with its noise bounds: fresh encryptions decrypt up to
  \<open>e_enc\<close>, a plaintext product and rescale errs by at most \<open>e_mul\<close> per slot, a rotation with the
  key set \<open>gk\<close> by \<open>e_rot\<close>, a plaintext addition by \<open>e_add\<close>; ciphertext addition is exact; fresh
  ciphertexts are at the first level and fit the server's buffer; loading undoes saving.
  \<open>lane_error\<close> is the noise a lane of the deployed circuit can accumulate.\<close>

definition lane_error :: "real \<Rightarrow> real \<Rightarrow> real \<Rightarrow> real \<Rightarrow> real list \<Rightarrow> real" where
  "lane_error e_enc e_mul e_rot e_add w = e_enc * (\<Sum>v\<leftarrow>w. \<bar>v\<bar>) + 256 * e_mul + 255 * e_rot + e_add"

locale ckks_slots =
  fixes S :: "('c, 'w, 'g) seal" and gk :: 'g and ok :: "'c \<Rightarrow> bool"
    and e_enc e_mul e_rot e_add :: real
  assumes enc_ok: "length v = 4096 \<Longrightarrow> ok (enc_slots S v)"
    and enc_dec: "length v = 4096 \<Longrightarrow> i < 4096 \<Longrightarrow> \<bar>dec_slots S (enc_slots S v) ! i - v ! i\<bar> \<le> e_enc"
    and fresh: "length v = 4096 \<Longrightarrow> first_level S (enc_slots S v) \<and> wire_size S (save_ct S (enc_slots S v)) \<le> CT_BUF"
    and load_save: "load_ct S (save_ct S c) = Some c"
    and mul_ok: "ok c \<Longrightarrow> length p = 4096 \<Longrightarrow> ok (mulp_slots S c p)"
    and mul: "ok c \<Longrightarrow> length p = 4096 \<Longrightarrow> i < 4096 \<Longrightarrow>
        \<bar>dec_slots S (mulp_slots S c p) ! i - dec_slots S c ! i * p ! i\<bar> \<le> e_mul"
    and addp: "ok c \<Longrightarrow> length p = 4096 \<Longrightarrow> i < 4096 \<Longrightarrow>
        \<bar>dec_slots S (addp_slots S c p) ! i - (dec_slots S c ! i + p ! i)\<bar> \<le> e_add"
    and rot_ok: "ok c \<Longrightarrow> ok (rotv S gk c s)"
    and rot: "ok c \<Longrightarrow> i < 4096 \<Longrightarrow> \<bar>dec_slots S (rotv S gk c s) ! i - dec_slots S c ! ((i + s) mod 4096)\<bar> \<le> e_rot"
    and add_ok: "ok c \<Longrightarrow> ok d \<Longrightarrow> ok (addc S c d)"
    and add: "ok c \<Longrightarrow> ok d \<Longrightarrow> i < 4096 \<Longrightarrow> dec_slots S (addc S c d) ! i = dec_slots S c ! i + dec_slots S d ! i"

sublocale ckks_slots \<subseteq> backend: slot_backend ok "rotv S gk" "addc S" "\<lambda>c i. dec_slots S c ! (i mod 4096)" e_rot
proof
  show "\<bar>dec_slots S (rotv S gk c s) ! (i mod 4096) - dec_slots S c ! ((i + s) mod 4096)\<bar> \<le> e_rot" if "ok c" for c s i
    using rot [OF that, of "i mod 4096" s] by (simp add: mod_simps)
qed (use rot_ok add_ok add in auto)

context ckks_slots
begin

lemma product_window:
  assumes v: "length v = 4096" and w: "length w = 256" and k: "k < 16"
  shows "\<bar>window (\<lambda>i. dec_slots S (mulp_slots S (enc_slots S v) (tiled_weights w)) ! (i mod 4096)) 256 (256 * k)
      - (\<Sum>j<256. v ! (256 * k + j) * w ! j)\<bar> \<le> e_enc * (\<Sum>v\<leftarrow>w. \<bar>v\<bar>) + 256 * e_mul"
proof -
  let ?c = "enc_slots S v" and ?p = "tiled_weights w"
  have term_err: "\<bar>dec_slots S (mulp_slots S ?c ?p) ! ((256 * k + j) mod 4096) - v ! (256 * k + j) * w ! j\<bar>
      \<le> e_enc * \<bar>w ! j\<bar> + e_mul" if "j < 256" for j
  proof -
    have i: "256 * k + j < 4096" using k that by simp
    have "\<bar>dec_slots S ?c ! (256 * k + j) * w ! j - v ! (256 * k + j) * w ! j\<bar> \<le> e_enc * \<bar>w ! j\<bar>"
      using enc_dec [OF v i] by (simp add: mult_right_mono abs_mult flip: left_diff_distrib)
    moreover have "\<bar>dec_slots S (mulp_slots S ?c ?p) ! (256 * k + j) - dec_slots S ?c ! (256 * k + j) * w ! j\<bar> \<le> e_mul"
      using mul [OF enc_ok [OF v] _ i, of ?p] w tiled_nth [OF w k that] by simp
    ultimately show ?thesis using i by simp
  qed
  have "\<bar>window (\<lambda>i. dec_slots S (mulp_slots S ?c ?p) ! (i mod 4096)) 256 (256 * k) - (\<Sum>j<256. v ! (256 * k + j) * w ! j)\<bar>
      \<le> (\<Sum>j<256. e_enc * \<bar>w ! j\<bar> + e_mul)"
    unfolding window_def sum_subtractf [symmetric]
    by (intro order_trans [OF sum_abs] sum_mono term_err) simp
  also have "\<dots> = e_enc * (\<Sum>j<256. \<bar>w ! j\<bar>) + 256 * e_mul" by (simp add: sum.distrib sum_distrib_left)
  also have "(\<Sum>j<256. \<bar>w ! j\<bar>) = (\<Sum>v\<leftarrow>w. \<bar>v\<bar>)" using w by (simp add: sum_list_sum_nth atLeast0LessThan)
  finally show ?thesis .
qed

lemma slot_circuit_lane:
  assumes v: "length v = 4096" and w: "length w = 256" and k: "k < 16"
  shows "\<exists>d. slot_circuit S gk w b (enc_slots S v) = Ret d \<and>
    \<bar>dec_slots S d ! (256 * k) - ((\<Sum>j<256. v ! (256 * k + j) * w ! j) + b)\<bar> \<le> lane_error e_enc e_mul e_rot e_add w"
proof -
  let ?m = "mulp_slots S (enc_slots S v) (tiled_weights w)"
  have m: "ok ?m" using v w by (intro mul_ok enc_ok) simp_all
  obtain acc where acc: "hoisted_tree_sum (rotv S gk) (addc S) ?m 256 = Ret acc"
    by (simp add: hoisted_tree_sum_def)
  have i: "256 * k < 4096" using k by simp
  have fold: "ok acc" "\<bar>dec_slots S acc ! (256 * k) - window (\<lambda>i. dec_slots S ?m ! (i mod 4096)) 256 (256 * k)\<bar> \<le> 255 * e_rot"
    using backend.hoisted_window [OF m acc, of "256 * k"] i by simp_all
  have "\<bar>dec_slots S (addp_slots S acc (bias_vec b)) ! (256 * k) - (dec_slots S acc ! (256 * k) + b)\<bar> \<le> e_add"
    using addp [OF fold(1) _ i, of "bias_vec b"] k by (simp add: bias_nth)
  with fold(2) product_window [OF v w k] have
    "\<bar>dec_slots S (addp_slots S acc (bias_vec b)) ! (256 * k) - ((\<Sum>j<256. v ! (256 * k + j) * w ! j) + b)\<bar> \<le> lane_error e_enc e_mul e_rot e_add w"
    unfolding lane_error_def by linarith
  then show ?thesis using acc by (simp add: slot_circuit_def)
qed

end

section \<open>What the CNP circuit relies on\<close>

text \<open>The coefficient view: a plaintext product is the negacyclic product of coefficients up to
  \<open>e_mul\<close>; a plaintext addition adds coefficients up to \<open>e_add\<close> as long as both stay within the
  headroom \<open>B\<close> of the modulus (a uniform mask wraps around elsewhere).\<close>

locale ckks_coeffs =
  fixes S :: "('c, 'w, 'g) seal" and ok :: "'c \<Rightarrow> bool" and e_enc e_mul e_add B :: real
  assumes cenc_ok: "length v = 8192 \<Longrightarrow> ok (enc_coeffs S v)"
    and cenc_dec: "length v = 8192 \<Longrightarrow> i < 8192 \<Longrightarrow> \<bar>dec_coeffs S (enc_coeffs S v) ! i - v ! i\<bar> \<le> e_enc"
    and cfresh: "length v = 8192 \<Longrightarrow> first_level S (enc_coeffs S v) \<and> wire_size S (save_ct S (enc_coeffs S v)) \<le> CT_BUF"
    and cload_save: "load_ct S (save_ct S c) = Some c"
    and cmul_ok: "ok c \<Longrightarrow> ok (mulp_coeffs S c p)"
    and cmul: "ok c \<Longrightarrow> length p = 8192 \<Longrightarrow> i < 8192 \<Longrightarrow>
        \<bar>dec_coeffs S (mulp_coeffs S c p) ! i - nega (dec_coeffs S c) p 8192 i\<bar> \<le> e_mul"
    and caddp: "ok c \<Longrightarrow> length p = 8192 \<Longrightarrow> i < 8192 \<Longrightarrow> \<bar>dec_coeffs S c ! i\<bar> \<le> B \<Longrightarrow> \<bar>p ! i\<bar> \<le> B \<Longrightarrow>
        \<bar>dec_coeffs S (addp_coeffs S c p) ! i - (dec_coeffs S c ! i + p ! i)\<bar> \<le> e_add"
begin

lemma cnp_product_lane:
  assumes v: "length v = 8192" and w: "length w = 256" and k: "k < 32"
  shows "\<bar>dec_coeffs S (mulp_coeffs S (enc_coeffs S v) (weights_to_wrev w)) ! output_index k
      - (\<Sum>j<256. v ! (256 * k + j) * w ! j)\<bar> \<le> e_enc * (\<Sum>v\<leftarrow>w. \<bar>v\<bar>) + e_mul"
proof -
  let ?x = "dec_coeffs S (enc_coeffs S v)"
  have i: "output_index k < 8192" using k by (simp add: output_index_def)
  have "nega ?x (weights_to_wrev w) 8192 (output_index k) = nega ?x (rev w) 8192 (256 * k + 255)"
    using w k by (simp add: weights_to_wrev_def kN_def output_index_def nega_pad_zeros)
  also have "\<dots> = (\<Sum>j<256. ?x ! (256 * k + j) * w ! j)"
    using w k by (intro nega_lane) simp_all
  finally have m: "\<bar>dec_coeffs S (mulp_coeffs S (enc_coeffs S v) (weights_to_wrev w)) ! output_index k
      - (\<Sum>j<256. ?x ! (256 * k + j) * w ! j)\<bar> \<le> e_mul"
    using cmul [OF cenc_ok [OF v] _ i, of "weights_to_wrev w"] w by simp
  have "\<bar>(\<Sum>j<256. ?x ! (256 * k + j) * w ! j) - (\<Sum>j<256. v ! (256 * k + j) * w ! j)\<bar> \<le> (\<Sum>j<256. e_enc * \<bar>w ! j\<bar>)"
    unfolding sum_subtractf [symmetric]
  proof (intro order_trans [OF sum_abs] sum_mono)
    fix j assume "j \<in> {..<256::nat}"
    then have "256 * k + j < 8192" using k by simp
    from cenc_dec [OF v this] show "\<bar>?x ! (256 * k + j) * w ! j - v ! (256 * k + j) * w ! j\<bar> \<le> e_enc * \<bar>w ! j\<bar>"
      by (simp add: mult_right_mono abs_mult flip: left_diff_distrib)
  qed
  also have "\<dots> = e_enc * (\<Sum>v\<leftarrow>w. \<bar>v\<bar>)" using w by (simp add: sum_list_sum_nth atLeast0LessThan sum_distrib_left)
  finally show ?thesis using m by linarith
qed

lemma cnp_circuit_lane:
  assumes v: "length v = 8192" and w: "length w = 256" and k: "k < 32"
    and B: "\<bar>\<Sum>j<256. v ! (256 * k + j) * w ! j\<bar> + e_enc * (\<Sum>v\<leftarrow>w. \<bar>v\<bar>) + e_mul \<le> B" "\<bar>b\<bar> \<le> B"
  shows "\<bar>dec_coeffs S (cnp_circuit S rnd w b (enc_coeffs S v)) ! output_index k
      - ((\<Sum>j<256. v ! (256 * k + j) * w ! j) + b)\<bar> \<le> e_enc * (\<Sum>v\<leftarrow>w. \<bar>v\<bar>) + e_mul + e_add"
proof -
  let ?m = "mulp_coeffs S (enc_coeffs S v) (weights_to_wrev w)"
  have i: "output_index k < 8192" using k by (simp add: output_index_def)
  have p: "\<bar>dec_coeffs S ?m ! output_index k\<bar> \<le> B" using cnp_product_lane [OF v w k] B(1) by linarith
  have "\<bar>dec_coeffs S (addp_coeffs S ?m (build_output_mask rnd b)) ! output_index k - (dec_coeffs S ?m ! output_index k + b)\<bar> \<le> e_add"
    using caddp [OF cmul_ok [OF cenc_ok [OF v]] _ i p, of "build_output_mask rnd b"] B(2) k by (simp add: mask_nth)
  with cnp_product_lane [OF v w k] show ?thesis unfolding cnp_circuit_def by linarith
qed

end

section \<open>The plaintext backend\<close>

text \<open>The backend of the numpy oracle and the CNP gate: ciphertexts are the vectors themselves, rotation and
  addition are the oracle's, the coefficient product is the negacyclic product. It satisfies both
  contracts without noise.\<close>

definition plain_seal :: "(real list, real list, unit) seal" where
  "plain_seal = \<lparr>enc_slots = (\<lambda>v. v), dec_slots = (\<lambda>v. v), enc_coeffs = (\<lambda>v. v), dec_coeffs = (\<lambda>v. v),
     save_ct = (\<lambda>v. v), load_ct = Some, wire_size = (\<lambda>_. 0), first_level = (\<lambda>_. True),
     mulp_slots = map2 (*), addp_slots = vadd,
     mulp_coeffs = (\<lambda>v p. map (nega v p 8192) [0..<8192]), addp_coeffs = vadd,
     addc = vadd, rotv = (\<lambda>_. rot), load_gk = (\<lambda>_. Some ()), gk_parms_ok = (\<lambda>_. True), gk_has = (\<lambda>_ _. True)\<rparr>"

interpretation plain_slots: ckks_slots plain_seal "()" "\<lambda>v. length v = 4096" 0 0 0 0
  by unfold_locales (simp_all add: plain_seal_def vadd_def rot_def nth_rotate ac_simps)

interpretation plain_coeffs: ckks_coeffs plain_seal "\<lambda>v. length v = 8192" 0 0 0 B for B
  by unfold_locales (simp_all add: plain_seal_def vadd_def)

section \<open>Serving remote calls\<close>

datatype 'w rpc = RpcProvision "byte list" | RpcCanary 'w | RpcConfirm bool | RpcRun "'w inf_request" "nat \<Rightarrow> real" | RpcStatus

fun serve :: "('c, 'w, 'g) seal \<Rightarrow> 'w rpc \<Rightarrow> 'g server \<Rightarrow> 'g server" where
  "serve S (RpcProvision k) sv = snd (ProvisionGaloisKeys S k sv)"
| "serve S (RpcCanary c) sv = snd (CanaryCheck S c sv)"
| "serve S (RpcConfirm p) sv = snd (CanaryConfirm p sv)"
| "serve S (RpcRun r rnd) sv = snd (RunInference S rnd r sv)"
| "serve S RpcStatus sv = sv"

definition keys_valid :: "('c, 'w, 'g) seal \<Rightarrow> 'g server \<Rightarrow> bool" where
  "keys_valid S sv \<longleftrightarrow> (\<exists>g. sv_gk sv = Some g \<and> gk_parms_ok S g \<and> list_all (gk_has S g) STEPS)"

text \<open>The invariant of a running server: a CNP server holds no keys, has rotated nothing and is ready or
  faulted; a slot server past key validation holds validated keys.\<close>

definition server_inv :: "('c, 'w, 'g) seal \<Rightarrow> 'g server \<Rightarrow> bool" where
  "server_inv S sv \<longleftrightarrow>
     (sv_mode sv = CNP \<longrightarrow> sv_gk sv = None \<and> sv_rotations sv = 0 \<and> pstate (sv_sm sv) \<in> {PROV_READY, PROV_FAULT})
     \<and> (sv_mode sv = SLOT \<and> pstate (sv_sm sv) \<in> {PROV_VALIDATING, PROV_READY} \<longrightarrow> keys_valid S sv)"

lemma record_pstate:
  "pstate (snd (record_request_and_maybe_trip ok m)) = pstate m
   \<or> pstate m = PROV_READY \<and> pstate (snd (record_request_and_maybe_trip ok m)) = PROV_FAULT"
  by (auto simp: record_request_and_maybe_trip_def Let_def)

lemma vendor_init_inv: "vendor_init mode fs p = Ret sv \<Longrightarrow> server_inv S sv \<and> sv_mode sv = mode"
  by (auto simp: vendor_init_def res_simps server_inv_def psm_init_def on_structural_result_def
      on_canary_result_def Let_def split: if_splits)

lemma provision_inv: "server_inv S sv \<Longrightarrow> server_inv S (snd (ProvisionGaloisKeys S k sv))"
  by (auto simp: ProvisionGaloisKeys_def load_and_validate_galois_keys_def server_inv_def keys_valid_def
      on_structural_result_def Let_def split: option.splits if_splits sum.splits)

lemma canary_inv: "server_inv S sv \<Longrightarrow> server_inv S (snd (CanaryCheck S c sv))"
  by (auto simp: CanaryCheck_def server_inv_def keys_valid_def force_fault_def Let_def
      split: option.splits if_splits sum.splits)

lemma confirm_inv: "server_inv S sv \<Longrightarrow> server_inv S (snd (CanaryConfirm p sv))"
  by (auto simp: CanaryConfirm_def server_inv_def keys_valid_def on_canary_result_def Let_def)

text \<open>\<^verbatim>\<open>RunInference\<close> changes nothing but the state machine (by one recorded request) and, in slot mode, the
  rotation counter.\<close>

definition recorded :: "bool \<Rightarrow> 'g server \<Rightarrow> 'g server" where
  "recorded ok sv = sv\<lparr>sv_sm := snd (record_request_and_maybe_trip ok (sv_sm sv))\<rparr>"

lemma run_frame:
  "snd (RunInference S rnd req sv) \<in> {sv, recorded True sv, recorded False sv}
   \<or> (sv_mode sv = SLOT \<and> snd (RunInference S rnd req sv) = (recorded True sv)\<lparr>sv_rotations := sv_rotations sv + 8\<rparr>)"
  by (cases "sv_mode sv") (auto simp: RunInference_def recorded_def Let_def split: option.splits sum.splits)

lemma recorded_simps [simp]:
  "sv_mode (recorded ok sv) = sv_mode sv" "sv_gk (recorded ok sv) = sv_gk sv"
  "sv_rotations (recorded ok sv) = sv_rotations sv"
  by (simp_all add: recorded_def)

lemma recorded_pstate:
  "pstate (sv_sm (recorded ok sv)) = pstate (sv_sm sv)
   \<or> pstate (sv_sm sv) = PROV_READY \<and> pstate (sv_sm (recorded ok sv)) = PROV_FAULT"
  using record_pstate [of ok "sv_sm sv"] by (simp add: recorded_def)

lemma recorded_inv:
  "server_inv S sv \<Longrightarrow> server_inv S (recorded ok sv)"
  "server_inv S sv \<Longrightarrow> sv_mode sv = SLOT \<Longrightarrow> server_inv S ((recorded ok sv)\<lparr>sv_rotations := n\<rparr>)"
  using recorded_pstate [of ok sv] by (auto simp: server_inv_def keys_valid_def)

lemma run_inv: "server_inv S sv \<Longrightarrow> server_inv S (snd (RunInference S rnd req sv))"
  using run_frame [of S rnd req sv] by (auto simp: recorded_inv)

lemma serve_inv: "server_inv S sv \<Longrightarrow> server_inv S (serve S r sv)"
  by (cases r) (simp_all add: provision_inv canary_inv confirm_inv run_inv)

lemma serve_mode: "sv_mode (serve S r sv) = sv_mode sv"
proof (cases r)
  case (RpcRun q rnd)
  then show ?thesis using run_frame [of S rnd q sv] by auto
qed (auto simp: ProvisionGaloisKeys_def CanaryCheck_def CanaryConfirm_def load_and_validate_galois_keys_def Let_def
    split: option.splits sum.splits if_splits)

lemma serves_inv: "server_inv S sv \<Longrightarrow> server_inv S (fold (serve S) rs sv) \<and> sv_mode (fold (serve S) rs sv) = sv_mode sv"
  by (induction rs arbitrary: sv) (simp_all add: serve_inv serve_mode)

lemma run_ok:
  assumes "fst (RunInference S rnd req sv) = Inr resp" "rs_status resp = ST_OK"
  shows "pstate (sv_sm sv) = PROV_READY \<and> rq_mode req = sv_mode sv \<and> wire_size S (rq_ct req) \<le> CT_BUF
    \<and> rs_id resp = rq_id req \<and> (\<exists>ct. load_ct S (rq_ct req) = Some ct \<and> first_level S ct)"
  using assms by (auto simp: RunInference_def Let_def split: if_splits option.splits sum.splits)

section \<open>Properties\<close>

text \<open>C3. A server serves results only when it may. After any sequence of remote calls to a freshly started
  server, an inference is answered with status OK only if the state machine is in \<^verbatim>\<open>PROV_READY\<close>, the
  request's packing mode is the server's, and the ciphertext loads within the size limit at the first
  level; a slot server then holds Galois keys that passed structural validation for every rotation of its
  schedule, and a CNP server holds no Galois keys and has issued no rotation. The answer carries the
  request's identifier.\<close>

theorem inference_only_when_ready:
  assumes "vendor_init mode fs p = Ret sv0" and "sv = fold (serve S) rs sv0"
    and "fst (RunInference S rnd req sv) = Inr resp" and "rs_status resp = ST_OK"
  shows "pstate (sv_sm sv) = PROV_READY \<and> rq_mode req = mode \<and> wire_size S (rq_ct req) \<le> CT_BUF
    \<and> rs_id resp = rq_id req \<and> (\<exists>ct. load_ct S (rq_ct req) = Some ct \<and> first_level S ct)
    \<and> (mode = SLOT \<longrightarrow> keys_valid S sv) \<and> (mode = CNP \<longrightarrow> sv_gk sv = None \<and> sv_rotations sv = 0)"
proof -
  have "server_inv S sv" "sv_mode sv = mode"
    using serves_inv [of S sv0 rs] vendor_init_inv [OF assms(1), of S] assms(2) by simp_all
  with run_ok [OF assms(3,4)] show ?thesis by (auto simp: server_inv_def)
qed

text \<open>A weight file of zeros and the slot server started from it, provisioned and confirmed.\<close>

definition demo_fs :: fs where
  "demo_fs = (\<lambda>_. None)(''m'' \<mapsto> weights_image 256 (replicate 256 0) 0)"

lemma demo_init: "vendor_init mode demo_fs ''m'' =
   Ret \<lparr>sv_mode = mode, sv_sm = (if mode = CNP then psm_init\<lparr>pstate := PROV_READY\<rparr> else psm_init), sv_gk = None,
        sv_w = replicate 256 0, sv_b = 0, sv_rotations = 0\<rparr>"
proof -
  have "load_raw_weights demo_fs ''m'' = Ret (replicate 256 0, 0)"
    by (rule vendor_reader.rd_image) (simp_all add: demo_fs_def)
  then show ?thesis
    by (simp add: vendor_init_def f64_real_def psm_init_def on_structural_result_def on_canary_result_def)
qed

theorem inference_only_when_ready_witness:
  "\<exists>sv0 sv resp. vendor_init SLOT demo_fs ''m'' = Ret sv0
     \<and> sv = fold (serve plain_seal) [RpcProvision [], RpcConfirm True] sv0
     \<and> fst (RunInference plain_seal (\<lambda>_. 0) \<lparr>rq_ct = replicate 4096 0, rq_id = ''r'', rq_n = 1, rq_mode = SLOT\<rparr> sv) = Inr resp
     \<and> rs_status resp = ST_OK \<and> keys_valid plain_seal sv"
proof -
  let ?start = "\<lparr>sv_mode = SLOT, sv_sm = psm_init, sv_gk = None :: unit option, sv_w = replicate 256 0, sv_b = 0, sv_rotations = 0\<rparr>"
  let ?sv = "fold (serve plain_seal) [RpcProvision [], RpcConfirm True] ?start"
  let ?req = "\<lparr>rq_ct = replicate 4096 0, rq_id = ''r'', rq_n = 1, rq_mode = SLOT\<rparr>"
  have init: "vendor_init SLOT demo_fs ''m'' = Ret ?start" by (simp add: demo_init)
  obtain resp where r: "fst (RunInference plain_seal (\<lambda>_. 0) ?req ?sv) = Inr resp" "rs_status resp = ST_OK"
    by (simp add: RunInference_def ProvisionGaloisKeys_def CanaryConfirm_def load_and_validate_galois_keys_def
        plain_seal_def psm_init_def on_structural_result_def on_canary_result_def Let_def slot_circuit_def
        hoisted_tree_sum_def list_all_iff)
  have k: "keys_valid plain_seal ?sv" using inference_only_when_ready [OF init refl r] by blast
  show ?thesis
    by (rule exI [of _ ?start], rule exI [of _ ?sv], rule exI [of _ resp])
      (intro conjI, rule init, rule refl, rule r(1), rule r(2), rule k)
qed

end
