(* ===== verification/BankClient.thy ===== *)
theory BankClient
  imports Vendor
begin

text \<open>
  The bank's client \<^verbatim>\<open>bank_client/bank_client.py\<close> and the bank side of the SEAL wrapper it calls
  (\<^verbatim>\<open>he_wrapper/seal_wrapper_160.cpp\<close>): construction with its argument checks, the provisioning handshake,
  inference in both packing modes with the reused padding buffer, warm-up and the timing breakdowns. The
  gRPC stub is a record of state-passing functions; \<open>vendor_stub\<close> connects it to the vendor's handlers,
  which gives the end-to-end theorems. The sigmoid is scipy's \<^verbatim>\<open>expit\<close>, an argument.
\<close>

section \<open>The wrapper\<close>

definition encrypt_batch :: "('c, 'w, 'g) seal \<Rightarrow> real list \<Rightarrow> 'w res" where
  "encrypt_batch S features =
     (if length features \<noteq> 4096 then Raise ValueError else Ret (save_ct S (enc_slots S features)))"

definition decrypt_batch :: "('c, 'w, 'g) seal \<Rightarrow> 'w option \<Rightarrow> nat \<Rightarrow> real list res" where
  "decrypt_batch S ct_bytes n_txns =
     (if n_txns < 1 \<or> n_txns > 16 then Raise ValueError
      else case Option.bind ct_bytes (load_ct S) of
        None \<Rightarrow> Raise RuntimeError
      | Some ct \<Rightarrow> Ret (map (\<lambda>k. dec_slots S ct ! (k * 256)) [0..<n_txns]))"

definition pack_lanes :: "real list list \<Rightarrow> real list" where
  "pack_lanes rows = concat rows @ replicate (kN - length rows * 256) 0"

definition encrypt_cnp_batch :: "('c, 'w, 'g) seal \<Rightarrow> real list list \<Rightarrow> nat \<Rightarrow> 'w res" where
  "encrypt_cnp_batch S rows n_feat =
     (if n_feat \<noteq> 256 \<or> length rows < 1 \<or> length rows > 32 then Raise ValueError
      else Ret (save_ct S (enc_coeffs S (pack_lanes rows))))"

definition decode_lane_outputs :: "('c, 'w, 'g) seal \<Rightarrow> 'c \<Rightarrow> nat \<Rightarrow> real list" where
  "decode_lane_outputs S ct n_lanes = map (\<lambda>k. dec_coeffs S ct ! output_index k) [0..<n_lanes]"

definition decrypt_cnp_batch :: "('c, 'w, 'g) seal \<Rightarrow> 'w option \<Rightarrow> nat \<Rightarrow> real list res" where
  "decrypt_cnp_batch S ct_bytes n_txns =
     (if n_txns < 1 \<or> n_txns > 32 then Raise ValueError
      else case Option.bind ct_bytes (load_ct S) of
        None \<Rightarrow> Raise RuntimeError
      | Some ct \<Rightarrow> Ret (decode_lane_outputs S ct n_txns))"

section \<open>Stub and client state\<close>

record timing =
  deserialization_us :: int
  multiply_plain_us :: int
  rotation_hoisting_us :: int
  mask_us :: int
  serialization_us :: int
  total_inference_us :: int

record ('s, 'w) stub =
  stub_provision :: "byte list \<Rightarrow> 's \<Rightarrow> prov_state res \<times> 's"
  stub_canary :: "'w \<Rightarrow> 's \<Rightarrow> (prov_state \<times> 'w option) res \<times> 's"
  stub_confirm :: "bool \<Rightarrow> 's \<Rightarrow> prov_state res \<times> 's"
  stub_status :: "'s \<Rightarrow> prov_state res \<times> 's"
  stub_run :: "'w inf_request \<Rightarrow> 's \<Rightarrow> ('w inf_response \<times> timing) res \<times> 's"

record client =
  cl_packing :: packing
  cl_max_lanes :: nat
  cl_pad_buffer :: "real list list"

definition grpc_options :: "int \<Rightarrow> (string \<times> int) list" where
  "grpc_options max_message_bytes =
     [(''grpc.max_send_message_length'', max_message_bytes),
      (''grpc.max_receive_message_length'', max_message_bytes),
      (''grpc.keepalive_time_ms'', 30000),
      (''grpc.keepalive_timeout_ms'', 5000),
      (''grpc.keepalive_permit_without_calls'', 1)]"

record client_timing =
  ct_encode_encrypt_us :: real
  ct_grpc_roundtrip_us :: real
  ct_network_and_grpc_overhead_us :: real
  ct_decode_decrypt_us :: real
  ct_sigmoid_us :: real
  ct_client_wall_total_us :: real

record inf_result =
  fraud_probabilities :: "real list"
  latency_ms :: real
  request_id :: string
  timing_breakdown :: timing
  client_timing_breakdown :: client_timing

section \<open>Inference\<close>

text \<open>The padding buffer after \<^verbatim>\<open>_pad_buffer[:n] = X; _pad_buffer[n:] = 0.0\<close>.\<close>

definition fill_pad :: "real list list \<Rightarrow> real list list \<Rightarrow> real list list" where
  "fill_pad rows buf = rows @ map (\<lambda>_. replicate 256 0) (drop (length rows) buf)"

text \<open>\<open>clk i\<close> is the \<open>i\<close>-th reading of \<^verbatim>\<open>time.perf_counter\<close> in the call; \<open>uuid\<close> the identifier drawn.\<close>

definition run_inference ::
  "('c, 'w, 'g) seal \<Rightarrow> (real \<Rightarrow> real) \<Rightarrow> ('s, 'w) stub \<Rightarrow> (nat \<Rightarrow> real) \<Rightarrow> string \<Rightarrow> real ndarray \<Rightarrow> client \<Rightarrow> 's
   \<Rightarrow> inf_result res \<times> client \<times> 's" where
  "run_inference S expit stub clk uuid X cl srv =
     (case shape X of
       [n_txns, n_feat] \<Rightarrow>
         if n_feat \<noteq> 256 then (Raise ValueError, cl, srv)
         else if \<not> (1 \<le> n_txns \<and> n_txns \<le> cl_max_lanes cl) then (Raise ValueError, cl, srv)
         else
           let rows = chunks n_feat (elems X);
               cnp_mode = (cl_packing cl = CNP);
               cl1 = (if \<not> cnp_mode \<and> n_txns < 16
                      then cl\<lparr>cl_pad_buffer := fill_pad rows (cl_pad_buffer cl)\<rparr> else cl);
               flat = (if n_txns < 16 then concat (cl_pad_buffer cl1) else elems X)
           in (case (if cnp_mode then encrypt_cnp_batch S rows n_feat else encrypt_batch S flat) of
               Inl e \<Rightarrow> (Inl e, cl1, srv)
             | Inr ct_bytes \<Rightarrow>
               let req = \<lparr>rq_ct = ct_bytes, rq_id = uuid, rq_n = int n_txns, rq_mode = (if cnp_mode then CNP else SLOT)\<rparr>
               in (case stub_run stub req srv of
                   (Inl e, srv1) \<Rightarrow> (Inl e, cl1, srv1)
                 | (Inr (resp, tm), srv1) \<Rightarrow>
                   if rs_status resp \<noteq> ST_OK then (Raise RuntimeError, cl1, srv1)
                   else if rs_id resp \<noteq> uuid then (Raise RuntimeError, cl1, srv1)
                   else (case (if cnp_mode then decrypt_cnp_batch S (rs_ct resp) n_txns
                               else decrypt_batch S (rs_ct resp) n_txns) of
                       Inl e \<Rightarrow> (Inl e, cl1, srv1)
                     | Inr raw \<Rightarrow>
                       let lat = (clk 9 - clk 0) * 1000;
                           rt = (clk 4 - clk 3) * 1000000
                       in (Ret \<lparr>fraud_probabilities = map expit raw, latency_ms = lat, request_id = rs_id resp,
                            timing_breakdown = tm,
                            client_timing_breakdown =
                              \<lparr>ct_encode_encrypt_us = (clk 2 - clk 1) * 1000000, ct_grpc_roundtrip_us = rt,
                               ct_network_and_grpc_overhead_us = rt - of_int (total_inference_us tm),
                               ct_decode_decrypt_us = (clk 6 - clk 5) * 1000000,
                               ct_sigmoid_us = (clk 8 - clk 7) * 1000000,
                               ct_client_wall_total_us = lat * 1000\<rparr>\<rparr>, cl1, srv1))))
     | _ \<Rightarrow> (Raise ValueError, cl, srv))"

definition warmup_input :: "real ndarray" where
  "warmup_input = \<lparr>shape = [1, 256], elems = replicate 256 0\<rparr>"

text \<open>\<^verbatim>\<open>_warmup\<close> swallows every exception; what the call did to client and server stays.\<close>

definition warmup :: "('c, 'w, 'g) seal \<Rightarrow> (real \<Rightarrow> real) \<Rightarrow> ('s, 'w) stub \<Rightarrow> (nat \<Rightarrow> real) \<Rightarrow> string \<Rightarrow> client \<Rightarrow> 's \<Rightarrow> client \<times> 's" where
  "warmup S expit stub clk uuid cl srv = snd (run_inference S expit stub clk uuid warmup_input cl srv)"

section \<open>Provisioning\<close>

definition canary_passed :: "real list \<Rightarrow> bool" where
  "canary_passed decoded \<longleftrightarrow> (\<forall>d \<in> set decoded. \<bar>d - 256 * (1 / 100)\<bar> < 1 / 1000)"

definition provision_and_validate ::
  "('c, 'w, 'g) seal \<Rightarrow> ('s, 'w) stub \<Rightarrow> fs \<Rightarrow> path \<Rightarrow> 's \<Rightarrow> prov_state res \<times> 's" where
  "provision_and_validate S stub fs galois_keys_path srv =
     (case read_bytes fs galois_keys_path of
        Inl e \<Rightarrow> (Inl e, srv)
      | Inr galois_keys_bytes \<Rightarrow>
        (case stub_provision stub galois_keys_bytes srv of
           (Inl e, srv1) \<Rightarrow> (Inl e, srv1)
         | (Inr st, srv1) \<Rightarrow>
           if st \<noteq> PROV_VALIDATING then (Ret st, srv1)
           else
             (case encrypt_batch S (replicate 4096 (1 / 100)) of
                Inl e \<Rightarrow> (Inl e, srv1)
              | Inr ct_bytes \<Rightarrow>
                (case stub_canary stub ct_bytes srv1 of
                   (Inl e, srv2) \<Rightarrow> (Inl e, srv2)
                 | (Inr (st2, res_ct), srv2) \<Rightarrow>
                   if st2 \<noteq> PROV_VALIDATING then (Ret st2, srv2)
                   else (case decrypt_batch S res_ct 16 of
                       Inl e \<Rightarrow> (Inl e, srv2)
                     | Inr decoded \<Rightarrow> stub_confirm stub (canary_passed decoded) srv2)))))"

definition get_provisioning_status :: "('s, 'w) stub \<Rightarrow> 's \<Rightarrow> prov_state res \<times> 's" where
  "get_provisioning_status stub srv = stub_status stub srv"

section \<open>Construction\<close>

record client_args =
  a_packing :: string
  a_public_key_path :: path
  a_secret_key_path :: path
  a_wrapper_module :: string
  a_galois_keys_path :: "path option"
  a_use_tls :: bool
  a_tls_ca :: "path option"
  a_tls_cert :: "path option"
  a_tls_key :: "path option"

definition truthy :: "path option \<Rightarrow> bool" where
  "truthy p \<longleftrightarrow> (case p of None \<Rightarrow> False | Some s \<Rightarrow> s \<noteq> [])"

definition tls_setup :: "fs \<Rightarrow> client_args \<Rightarrow> unit res" where
  "tls_setup fs a =
     (if \<not> a_use_tls a then Ret ()
      else if truthy (a_tls_ca a) \<or> truthy (a_tls_cert a) \<or> truthy (a_tls_key a) then
        (if \<not> (truthy (a_tls_ca a) \<and> truthy (a_tls_cert a) \<and> truthy (a_tls_key a)) then Raise ValueError
         else rbind (read_bytes fs (the (a_tls_ca a))) (\<lambda>_.
              rbind (read_bytes fs (the (a_tls_key a))) (\<lambda>_.
              rbind (read_bytes fs (the (a_tls_cert a))) (\<lambda>_. Ret ()))))
      else Ret ())"

text \<open>\<open>import_module name\<close> imports the named module and tells whether it has \<^verbatim>\<open>encrypt_cnp_batch\<close>;
  \<open>init_seal\<close> loads the two keys into it.\<close>

definition load_wrapper_module :: "(string \<Rightarrow> bool res) \<Rightarrow> string \<Rightarrow> bool res" where
  "load_wrapper_module import_module name =
     (case import_module name of
        Inl e \<Rightarrow> if e = ImportError then import_module (''bank_client.'' @ name) else Inl e
      | Inr w \<Rightarrow> Inr w)"

definition client_init ::
  "('c, 'w, 'g) seal \<Rightarrow> (real \<Rightarrow> real) \<Rightarrow> ('s, 'w) stub \<Rightarrow> (nat \<Rightarrow> real) \<Rightarrow> string
   \<Rightarrow> (string \<Rightarrow> bool res) \<Rightarrow> (byte list \<Rightarrow> byte list \<Rightarrow> unit res) \<Rightarrow> fs \<Rightarrow> client_args \<Rightarrow> 's \<Rightarrow> client res \<times> 's" where
  "client_init S expit stub clk uuid import_module init_seal fs a srv =
     (if a_packing a \<notin> {''slot'', ''cnp''} then (Raise ValueError, srv)
      else if a_packing a = ''cnp'' \<and> a_galois_keys_path a \<noteq> None then (Raise ValueError, srv)
      else
        let cnp = (a_packing a = ''cnp'');
            max_lanes = (if cnp then 32 else 16)
        in (case
              rbind (if a_wrapper_module a = ''seal_wrapper'' then import_module ''seal_wrapper''
                     else load_wrapper_module import_module (a_wrapper_module a)) (\<lambda>has_cnp.
              if cnp \<and> \<not> has_cnp then Raise ValueError else
              rbind (read_bytes fs (a_public_key_path a)) (\<lambda>pk.
              rbind (read_bytes fs (a_secret_key_path a)) (\<lambda>sk.
              rbind (init_seal pk sk) (\<lambda>_. tls_setup fs a)))) of
              Inl e \<Rightarrow> (Inl e, srv)
            | Inr _ \<Rightarrow>
              let cl = \<lparr>cl_packing = (if cnp then CNP else SLOT), cl_max_lanes = max_lanes,
                        cl_pad_buffer = replicate max_lanes (replicate 256 0)\<rparr>
              in (case a_galois_keys_path a of
                    None \<Rightarrow> (let (cl1, srv1) = warmup S expit stub clk uuid cl srv in (Ret cl1, srv1))
                  | Some gp \<Rightarrow>
                    (case provision_and_validate S stub fs gp srv of
                       (Inl e, srv1) \<Rightarrow> (Inl e, srv1)
                     | (Inr st, srv1) \<Rightarrow>
                       if st \<noteq> PROV_READY then (Raise RuntimeError, srv1)
                       else (let (cl1, srv2) = warmup S expit stub clk uuid cl srv1 in (Ret cl1, srv2))))))"

section \<open>Timing invariant\<close>

definition TIMING_RESIDUAL_BUDGET_US :: int where
  "TIMING_RESIDUAL_BUDGET_US = 300"

definition timing_residual_us :: "timing \<Rightarrow> int" where
  "timing_residual_us t =
     total_inference_us t - (deserialization_us t + multiply_plain_us t + rotation_hoisting_us t + mask_us t + serialization_us t)"

section \<open>The client connected to the vendor\<close>

text \<open>A gRPC error status reaches the client as \<^verbatim>\<open>grpc.RpcError\<close>. \<open>tm\<close> are the server's reported timings.\<close>

definition vendor_stub :: "('c, 'w, 'g) seal \<Rightarrow> (nat \<Rightarrow> real) \<Rightarrow> timing \<Rightarrow> ('g server, 'w) stub" where
  "vendor_stub S rnd tm = \<lparr>
     stub_provision = (\<lambda>k sv. case ProvisionGaloisKeys S k sv of (Inl _, sv1) \<Rightarrow> (Raise RpcError, sv1) | (Inr st, sv1) \<Rightarrow> (Ret st, sv1)),
     stub_canary = (\<lambda>c sv. case CanaryCheck S c sv of (Inl _, sv1) \<Rightarrow> (Raise RpcError, sv1) | (Inr r, sv1) \<Rightarrow> (Ret r, sv1)),
     stub_confirm = (\<lambda>p sv. case CanaryConfirm p sv of (st, sv1) \<Rightarrow> (Ret st, sv1)),
     stub_status = (\<lambda>sv. (Ret (fst (GetProvisioningStatus sv)), sv)),
     stub_run = (\<lambda>r sv. case RunInference S rnd r sv of (Inl _, sv1) \<Rightarrow> (Raise RpcError, sv1) | (Inr rs, sv1) \<Rightarrow> (Ret (rs, tm), sv1))\<rparr>"

section \<open>Client invariant and the vector that is encrypted\<close>

definition client_wf :: "client \<Rightarrow> bool" where
  "client_wf cl \<longleftrightarrow> cl_max_lanes cl = (if cl_packing cl = CNP then 32 else 16)
     \<and> length (cl_pad_buffer cl) = cl_max_lanes cl \<and> (\<forall>r \<in> set (cl_pad_buffer cl). length r = 256)"

text \<open>A batch of \<open>n\<close> transactions of 256 features.\<close>

definition batch :: "nat \<Rightarrow> real ndarray \<Rightarrow> bool" where
  "batch n X \<longleftrightarrow> shape X = [n, 256] \<and> length (elems X) = n * 256"

lemma batch_rows:
  assumes "batch n X"
  shows "length (chunks 256 (elems X)) = n" "\<And>r. r \<in> set (chunks 256 (elems X)) \<Longrightarrow> length r = 256"
    "concat (chunks 256 (elems X)) = elems X"
  using length_chunks_mult [of 256 "elems X" n] assms by (simp_all add: batch_def)

lemma batch_nth:
  assumes "batch n X" "k < n" "j < 256"
  shows "elems X ! (256 * k + j) = chunks 256 (elems X) ! k ! j"
  using nth_concat_const [of "chunks 256 (elems X)" 256 k j] batch_rows [OF assms(1)] assms(2,3) by simp

lemma fill_pad_concat:
  assumes "batch n X" "n \<le> length buf"
  shows "concat (fill_pad (chunks 256 (elems X)) buf) = elems X @ replicate ((length buf - n) * 256) 0"
proof -
  have "concat (map (\<lambda>_. replicate 256 0) ys) = replicate (length ys * 256) (0::real)" for ys :: "real list list"
    by (induction ys) (simp_all flip: replicate_add)
  then show ?thesis using batch_rows [OF assms(1)] by (simp add: fill_pad_def)
qed

text \<open>The 4096 slots of a slot request: the transactions, then zeros.\<close>

definition slot_vector :: "nat \<Rightarrow> real ndarray \<Rightarrow> real list" where
  "slot_vector n X = elems X @ replicate ((16 - n) * 256) 0"

lemma slot_vector_lane:
  assumes "batch n X" "k < n" "j < 256"
  shows "slot_vector n X ! (256 * k + j) = chunks 256 (elems X) ! k ! j"
proof -
  have "256 * k + j < length (elems X)" using assms by (simp add: batch_def)
  then show ?thesis using batch_nth [OF assms] by (simp add: slot_vector_def nth_append)
qed

lemma length_slot_vector: "batch n X \<Longrightarrow> n \<le> 16 \<Longrightarrow> length (slot_vector n X) = 4096"
  by (simp add: slot_vector_def batch_def algebra_simps)

definition pad_after :: "nat \<Rightarrow> real ndarray \<Rightarrow> client \<Rightarrow> client" where
  "pad_after n X cl = (if n < 16 then cl\<lparr>cl_pad_buffer := fill_pad (chunks 256 (elems X)) (cl_pad_buffer cl)\<rparr> else cl)"

lemma pad_after_wf: "client_wf cl \<Longrightarrow> cl_packing cl = SLOT \<Longrightarrow> batch n X \<Longrightarrow> client_wf (pad_after n X cl)"
  using batch_rows [of n X] by (auto simp: client_wf_def pad_after_def fill_pad_def)

lemma slot_flat:
  assumes "client_wf cl" "cl_packing cl = SLOT" "batch n X" "1 \<le> n" "n \<le> 16"
  shows "(if n < 16 then concat (cl_pad_buffer (pad_after n X cl)) else elems X) = slot_vector n X"
  using fill_pad_concat [OF assms(3), of "cl_pad_buffer cl"] assms
  by (auto simp: pad_after_def slot_vector_def client_wf_def)

text \<open>Inference in slot mode, with the padding resolved: what is left depends on the batch only.\<close>

lemma run_inference_slot:
  assumes "client_wf cl" "cl_packing cl = SLOT" "batch n X" "1 \<le> n" "n \<le> 16"
  shows "run_inference S expit stub clk uuid X cl srv =
    (case stub_run stub \<lparr>rq_ct = save_ct S (enc_slots S (slot_vector n X)), rq_id = uuid, rq_n = int n, rq_mode = SLOT\<rparr> srv of
       (Inl e, srv1) \<Rightarrow> (Inl e, pad_after n X cl, srv1)
     | (Inr (resp, tm), srv1) \<Rightarrow>
       if rs_status resp \<noteq> ST_OK then (Raise RuntimeError, pad_after n X cl, srv1)
       else if rs_id resp \<noteq> uuid then (Raise RuntimeError, pad_after n X cl, srv1)
       else (case decrypt_batch S (rs_ct resp) n of
           Inl e \<Rightarrow> (Inl e, pad_after n X cl, srv1)
         | Inr raw \<Rightarrow>
           (Ret \<lparr>fraud_probabilities = map expit raw, latency_ms = (clk 9 - clk 0) * 1000, request_id = rs_id resp,
              timing_breakdown = tm,
              client_timing_breakdown =
                \<lparr>ct_encode_encrypt_us = (clk 2 - clk 1) * 1000000, ct_grpc_roundtrip_us = (clk 4 - clk 3) * 1000000,
                 ct_network_and_grpc_overhead_us = (clk 4 - clk 3) * 1000000 - of_int (total_inference_us tm),
                 ct_decode_decrypt_us = (clk 6 - clk 5) * 1000000,
                 ct_sigmoid_us = (clk 8 - clk 7) * 1000000,
                 ct_client_wall_total_us = (clk 9 - clk 0) * 1000 * 1000\<rparr>\<rparr>, pad_after n X cl, srv1)))"
proof -
  have sh: "shape X = [n, 256]" using assms(3) by (simp add: batch_def)
  have mx: "cl_max_lanes cl = 16" using assms(1,2) by (simp add: client_wf_def)
  have pad: "(if cl_packing cl \<noteq> CNP \<and> n < 16 then cl\<lparr>cl_pad_buffer := fill_pad (chunks 256 (elems X)) (cl_pad_buffer cl)\<rparr> else cl)
      = pad_after n X cl" using assms(2) by (simp add: pad_after_def)
  have slot: "(cl_packing cl = CNP) = False" using assms(2) by simp
  have enc: "encrypt_batch S (slot_vector n X) = Ret (save_ct S (enc_slots S (slot_vector n X)))"
    using length_slot_vector [OF assms(3,5)] by (simp add: encrypt_batch_def)
  show ?thesis
    unfolding run_inference_def sh list.case mx Let_def pad slot_flat [OF assms]
    unfolding slot if_False enc sum.case using assms(4,5) by simp
qed

lemma run_inference_cnp:
  assumes "client_wf cl" "cl_packing cl = CNP" "batch n X" "1 \<le> n" "n \<le> 32"
  shows "run_inference S expit stub clk uuid X cl srv =
    (case stub_run stub \<lparr>rq_ct = save_ct S (enc_coeffs S (pack_lanes (chunks 256 (elems X)))), rq_id = uuid, rq_n = int n, rq_mode = CNP\<rparr> srv of
       (Inl e, srv1) \<Rightarrow> (Inl e, cl, srv1)
     | (Inr (resp, tm), srv1) \<Rightarrow>
       if rs_status resp \<noteq> ST_OK then (Raise RuntimeError, cl, srv1)
       else if rs_id resp \<noteq> uuid then (Raise RuntimeError, cl, srv1)
       else (case decrypt_cnp_batch S (rs_ct resp) n of
           Inl e \<Rightarrow> (Inl e, cl, srv1)
         | Inr raw \<Rightarrow>
           (Ret \<lparr>fraud_probabilities = map expit raw, latency_ms = (clk 9 - clk 0) * 1000, request_id = rs_id resp,
              timing_breakdown = tm,
              client_timing_breakdown =
                \<lparr>ct_encode_encrypt_us = (clk 2 - clk 1) * 1000000, ct_grpc_roundtrip_us = (clk 4 - clk 3) * 1000000,
                 ct_network_and_grpc_overhead_us = (clk 4 - clk 3) * 1000000 - of_int (total_inference_us tm),
                 ct_decode_decrypt_us = (clk 6 - clk 5) * 1000000,
                 ct_sigmoid_us = (clk 8 - clk 7) * 1000000,
                 ct_client_wall_total_us = (clk 9 - clk 0) * 1000 * 1000\<rparr>\<rparr>, cl, srv1)))"
proof -
  have sh: "shape X = [n, 256]" using assms(3) by (simp add: batch_def)
  have mx: "cl_max_lanes cl = 32" using assms(1,2) by (simp add: client_wf_def)
  have cnp: "(cl_packing cl = CNP) = True" using assms(2) by simp
  have enc: "encrypt_cnp_batch S (chunks 256 (elems X)) 256 = Ret (save_ct S (enc_coeffs S (pack_lanes (chunks 256 (elems X)))))"
    using batch_rows(1) [OF assms(3)] assms(4,5) by (simp add: encrypt_cnp_batch_def)
  show ?thesis
    unfolding run_inference_def sh list.case mx Let_def cnp not_True_eq_False simp_thms(21,22) if_False if_True enc sum.case
    using assms(4,5) by simp
qed

lemma pack_lanes_lane:
  assumes "batch n X" "n \<le> 32"
  shows "length (pack_lanes (chunks 256 (elems X))) = 8192"
    and "k < n \<Longrightarrow> j < 256 \<Longrightarrow> pack_lanes (chunks 256 (elems X)) ! (256 * k + j) = chunks 256 (elems X) ! k ! j"
proof -
  have l: "length (elems X) = n * 256" using assms(1) by (simp add: batch_def)
  show "length (pack_lanes (chunks 256 (elems X))) = 8192"
    using l assms(2) batch_rows [OF assms(1)] by (simp add: pack_lanes_def kN_def)
  show "pack_lanes (chunks 256 (elems X)) ! (256 * k + j) = chunks 256 (elems X) ! k ! j" if "k < n" "j < 256"
  proof -
    have "256 * k + j < length (elems X)" using l that by simp
    then show ?thesis using batch_nth [OF assms(1) that] batch_rows [OF assms(1)] by (simp add: pack_lanes_def nth_append)
  qed
qed

lemma lane_dot:
  assumes "batch n X" "k < n" "length w = 256"
  shows "(\<Sum>j<256. chunks 256 (elems X) ! k ! j * w ! j) = dot (chunks 256 (elems X) ! k) w"
  using batch_rows [OF assms(1)] assms(2,3) by (simp add: dot_sum)

section \<open>A ready server answers\<close>

lemma record_ok_ready:
  "pstate (sv_sm (recorded True sv)) = pstate (sv_sm sv)"
  by (simp add: recorded_def record_request_and_maybe_trip_def Let_def)

context ckks_slots
begin

lemma ready_slot_answer:
  assumes sv: "sv_mode sv = SLOT" "pstate (sv_sm sv) = PROV_READY" "sv_gk sv = Some gk"
    and v: "length v = 4096" and d: "slot_circuit S gk (sv_w sv) (sv_b sv) (enc_slots S v) = Ret d"
  shows "stub_run (vendor_stub S rnd tm) \<lparr>rq_ct = save_ct S (enc_slots S v), rq_id = u, rq_n = n, rq_mode = SLOT\<rparr> sv =
    (Ret (\<lparr>rs_status = ST_OK, rs_ct = Some (save_ct S d), rs_id = u\<rparr>, tm),
     (recorded True sv)\<lparr>sv_rotations := sv_rotations sv + 8\<rparr>)"
  using fresh [OF v] sv d
  by (simp add: vendor_stub_def RunInference_def Let_def load_save recorded_def not_less [symmetric])

lemma slot_inference:
  assumes sv: "sv_mode sv = SLOT" "pstate (sv_sm sv) = PROV_READY" "sv_gk sv = Some gk" "length (sv_w sv) = 256"
    and cl: "client_wf cl" "cl_packing cl = SLOT" and X: "batch n X" "1 \<le> n" "n \<le> 16"
  shows "\<exists>r cl' sv'. run_inference S expit (vendor_stub S rnd tm) clk u X cl sv = (Ret r, cl', sv')
    \<and> client_wf cl' \<and> pstate (sv_sm sv') = PROV_READY \<and> request_id r = u
    \<and> (\<exists>zs. fraud_probabilities r = map expit zs \<and> length zs = n
        \<and> (\<forall>k<n. \<bar>zs ! k - (dot (chunks 256 (elems X) ! k) (sv_w sv) + sv_b sv)\<bar> \<le> lane_error e_enc e_mul e_rot e_add (sv_w sv)))"
proof -
  let ?v = "slot_vector n X"
  have v: "length ?v = 4096" using length_slot_vector X by blast
  obtain d where d: "slot_circuit S gk (sv_w sv) (sv_b sv) (enc_slots S ?v) = Ret d"
    using slot_circuit_lane [OF v sv(4), of 0 "sv_b sv"] by auto
  define zs where "zs = map (\<lambda>k. dec_slots S d ! (k * 256)) [0..<n]"
  have len: "length zs = n" by (simp add: zs_def)
  have dec: "decrypt_batch S (Some (save_ct S d)) n = Ret zs"
    using X(2,3) by (simp add: decrypt_batch_def load_save zs_def)
  have "\<bar>zs ! k - (dot (chunks 256 (elems X) ! k) (sv_w sv) + sv_b sv)\<bar> \<le> lane_error e_enc e_mul e_rot e_add (sv_w sv)"
    if k: "k < n" for k
  proof -
    have "(\<Sum>j<256. ?v ! (256 * k + j) * sv_w sv ! j) = dot (chunks 256 (elems X) ! k) (sv_w sv)"
      unfolding lane_dot [OF X(1) k sv(4), symmetric] using slot_vector_lane [OF X(1) k] by (intro sum.cong) auto
    then show ?thesis using slot_circuit_lane [OF v sv(4), of k "sv_b sv"] d k X(3) by (simp add: zs_def mult.commute)
  qed
  then show ?thesis
    unfolding run_inference_slot [OF cl X] ready_slot_answer [OF sv(1-3) v d]
    using pad_after_wf [OF cl X(1)] sv(2) len by (simp add: dec record_ok_ready) blast
qed

end

context ckks_coeffs
begin

lemma ready_cnp_answer:
  assumes sv: "sv_mode sv = CNP" "pstate (sv_sm sv) = PROV_READY" "sv_gk sv = None"
    and v: "length v = 8192" and n: "1 \<le> n" "n \<le> 32"
  shows "stub_run (vendor_stub S rnd tm) \<lparr>rq_ct = save_ct S (enc_coeffs S v), rq_id = u, rq_n = int n, rq_mode = CNP\<rparr> sv =
    (Ret (\<lparr>rs_status = ST_OK, rs_ct = Some (save_ct S (cnp_circuit S rnd (sv_w sv) (sv_b sv) (enc_coeffs S v))), rs_id = u\<rparr>, tm),
     recorded True sv)"
  using cfresh [OF v] sv n
  by (simp add: vendor_stub_def RunInference_def Let_def cload_save recorded_def not_less [symmetric])

lemma cnp_inference:
  assumes sv: "sv_mode sv = CNP" "pstate (sv_sm sv) = PROV_READY" "sv_gk sv = None" "length (sv_w sv) = 256"
    and cl: "client_wf cl" "cl_packing cl = CNP" and X: "batch n X" "1 \<le> n" "n \<le> 32"
    and B: "\<And>k. k < n \<Longrightarrow> \<bar>dot (chunks 256 (elems X) ! k) (sv_w sv)\<bar> + e_enc * (\<Sum>v\<leftarrow>sv_w sv. \<bar>v\<bar>) + e_mul \<le> B" "\<bar>sv_b sv\<bar> \<le> B"
  shows "\<exists>r sv'. run_inference S expit (vendor_stub S rnd tm) clk u X cl sv = (Ret r, cl, sv')
    \<and> pstate (sv_sm sv') = PROV_READY \<and> request_id r = u
    \<and> (\<exists>zs. fraud_probabilities r = map expit zs \<and> length zs = n
        \<and> (\<forall>k<n. \<bar>zs ! k - (dot (chunks 256 (elems X) ! k) (sv_w sv) + sv_b sv)\<bar>
              \<le> e_enc * (\<Sum>v\<leftarrow>sv_w sv. \<bar>v\<bar>) + e_mul + e_add))"
proof -
  let ?v = "pack_lanes (chunks 256 (elems X))"
  have v: "length ?v = 8192" using pack_lanes_lane(1) [OF X(1,3)] .
  let ?d = "cnp_circuit S rnd (sv_w sv) (sv_b sv) (enc_coeffs S ?v)"
  define zs where "zs = decode_lane_outputs S ?d n"
  have len: "length zs = n" by (simp add: zs_def decode_lane_outputs_def)
  have dec: "decrypt_cnp_batch S (Some (save_ct S ?d)) n = Ret zs"
    using X(2,3) by (simp add: decrypt_cnp_batch_def cload_save zs_def)
  have "\<bar>zs ! k - (dot (chunks 256 (elems X) ! k) (sv_w sv) + sv_b sv)\<bar> \<le> e_enc * (\<Sum>v\<leftarrow>sv_w sv. \<bar>v\<bar>) + e_mul + e_add"
    if k: "k < n" for k
  proof -
    have e: "(\<Sum>j<256. ?v ! (256 * k + j) * sv_w sv ! j) = dot (chunks 256 (elems X) ! k) (sv_w sv)"
      unfolding lane_dot [OF X(1) k sv(4), symmetric] using pack_lanes_lane(2) [OF X(1,3) k] by (intro sum.cong) auto
    have "k < 32" using k X(3) by simp
    from cnp_circuit_lane [OF v sv(4) this, of "sv_b sv" rnd] B(1) [OF k] B(2) k show ?thesis
      unfolding e by (simp add: zs_def decode_lane_outputs_def)
  qed
  then show ?thesis
    unfolding run_inference_cnp [OF cl X] ready_cnp_answer [OF sv(1-3) v X(2,3)]
    using sv(2) len by (simp add: dec record_ok_ready) blast
qed

end

section \<open>The handshake against the vendor\<close>

definition canary_result :: "('c, 'w, 'g) seal \<Rightarrow> 'g \<Rightarrow> real list" where
  "canary_result S g =
     map (\<lambda>k. dec_slots S (fold (\<lambda>s acc. addc S acc (rotv S g acc s)) STEPS (enc_slots S (replicate 4096 (1 / 100)))) ! (k * 256)) [0..<16]"

definition keys_accepted :: "('c, 'w, 'g) seal \<Rightarrow> byte list \<Rightarrow> 'g \<Rightarrow> bool" where
  "keys_accepted S k g \<longleftrightarrow> load_gk S k = Some g \<and> gk_parms_ok S g \<and> list_all (gk_has S g) STEPS"

lemma provision_reject:
  assumes "sv_mode sv = SLOT" "pstate (sv_sm sv) = PROV_AWAITING_KEYS" "\<nexists>g. keys_accepted S k g"
  shows "ProvisionGaloisKeys S k sv = (Inr PROV_FAULT, sv\<lparr>sv_sm := (sv_sm sv)\<lparr>pstate := PROV_FAULT\<rparr>\<rparr>)"
  using assms
  by (cases "load_gk S k") (auto simp: ProvisionGaloisKeys_def load_and_validate_galois_keys_def keys_accepted_def
      on_structural_result_def Let_def)

lemma provision_accept:
  assumes "sv_mode sv = SLOT" "pstate (sv_sm sv) = PROV_AWAITING_KEYS" "keys_accepted S k g"
  shows "ProvisionGaloisKeys S k sv = (Inr PROV_VALIDATING, sv\<lparr>sv_gk := Some g, sv_sm := (sv_sm sv)\<lparr>pstate := PROV_VALIDATING\<rparr>\<rparr>)"
  using assms by (auto simp: ProvisionGaloisKeys_def load_and_validate_galois_keys_def keys_accepted_def
      on_structural_result_def Let_def)

lemma handshake_reject:
  assumes "sv_mode sv = SLOT" "pstate (sv_sm sv) = PROV_AWAITING_KEYS" "fs p = Some k" "\<nexists>g. keys_accepted S k g"
  shows "provision_and_validate S (vendor_stub S rnd tm) fs p sv =
    (Ret PROV_FAULT, sv\<lparr>sv_sm := (sv_sm sv)\<lparr>pstate := PROV_FAULT\<rparr>\<rparr>)"
  using provision_reject [OF assms(1,2,4)] assms(3)
  by (simp add: provision_and_validate_def read_bytes_def vendor_stub_def)

lemma handshake_accept:
  assumes sv: "sv_mode sv = SLOT" "pstate (sv_sm sv) = PROV_AWAITING_KEYS" and f: "fs p = Some k"
    and ls: "\<And>c. load_ct S (save_ct S c) = Some c"
    and fresh: "first_level S (enc_slots S (replicate 4096 (1 / 100)))"
      "wire_size S (save_ct S (enc_slots S (replicate 4096 (1 / 100)))) \<le> CT_BUF"
    and g: "keys_accepted S k g" and st: "st = (if canary_passed (canary_result S g) then PROV_READY else PROV_FAULT)"
  shows "provision_and_validate S (vendor_stub S rnd tm) fs p sv =
    (Ret st, sv\<lparr>sv_gk := Some g, sv_sm := (sv_sm sv)\<lparr>pstate := st\<rparr>, sv_rotations := sv_rotations sv + 8\<rparr>)"
proof -
  have d: "decrypt_batch S (Some (save_ct S (fold (\<lambda>s acc. addc S acc (rotv S g acc s)) STEPS (enc_slots S (replicate 4096 (1 / 100)))))) 16
      = Ret (canary_result S g)"
    by (simp add: decrypt_batch_def ls canary_result_def)
  show ?thesis
    using provision_accept [OF sv g] f sv fresh ls d st
    by (simp add: provision_and_validate_def read_bytes_def vendor_stub_def encrypt_batch_def CanaryCheck_def
        CanaryConfirm_def hoisted_tree_sum_def on_canary_result_def Let_def)
qed

context ckks_slots
begin

lemma consistent_canary:
  assumes "256 * e_enc + 255 * e_rot < 1 / 1000"
  shows "canary_passed (canary_result S gk)"
proof -
  let ?v = "replicate 4096 (1 / 100 :: real)"
  let ?c = "enc_slots S ?v"
  obtain acc where acc: "hoisted_tree_sum (rotv S gk) (addc S) ?c 256 = Ret acc"
    and accf: "acc = fold (\<lambda>s acc. addc S acc (rotv S gk acc s)) STEPS ?c"
    by (simp add: hoisted_tree_sum_def)
  have "\<bar>dec_slots S acc ! (256 * k) - 256 / 100\<bar> < 1 / 1000" if k: "k < 16" for k
  proof -
    have "\<bar>window (\<lambda>i. dec_slots S ?c ! (i mod 4096)) 256 (256 * k) - (\<Sum>m<256::nat. 1 / 100)\<bar> \<le> (\<Sum>m<256::nat. e_enc)"
      unfolding window_def sum_subtractf [symmetric]
      using enc_dec [of ?v] by (intro order_trans [OF sum_abs] sum_mono) simp
    moreover have "256 * k < 4096" using k by simp
    then have "\<bar>dec_slots S acc ! (256 * k) - window (\<lambda>i. dec_slots S ?c ! (i mod 4096)) 256 (256 * k)\<bar> \<le> 255 * e_rot"
      using backend.hoisted_window [OF enc_ok acc, of "256 * k"] by simp
    moreover have "(\<Sum>m<256::nat. 1 / 100) = (256 / 100 :: real)" "(\<Sum>m<256::nat. e_enc) = 256 * e_enc" by simp_all
    ultimately show ?thesis using assms by linarith
  qed
  then show ?thesis unfolding canary_passed_def canary_result_def accf [symmetric] by (auto simp: mult.commute)
qed

end

section \<open>Properties\<close>

text \<open>C1. End-to-end slot inference. For every CKKS backend with the stated noise bounds, a well-formed
  slot client connected to a ready slot server obtains, for a batch of 1 to 16 transactions, one
  probability per transaction: the sigmoid of a logit that differs from the plaintext model's
  \<open>x \<cdot> w + b\<close> by at most the accumulated noise. The call returns, keeps both sides ready, and echoes
  the request identifier.\<close>

theorem slot_inference_end_to_end:
  assumes "ckks_slots S gk ok e_enc e_mul e_rot e_add"
    and "sv_mode sv = SLOT" "pstate (sv_sm sv) = PROV_READY" "sv_gk sv = Some gk" "length (sv_w sv) = 256"
    and "client_wf cl" "cl_packing cl = SLOT" "batch n X" "1 \<le> n" "n \<le> 16"
  shows "\<exists>r cl' sv'. run_inference S expit (vendor_stub S rnd tm) clk u X cl sv = (Ret r, cl', sv')
    \<and> client_wf cl' \<and> pstate (sv_sm sv') = PROV_READY \<and> request_id r = u
    \<and> (\<exists>zs. fraud_probabilities r = map expit zs \<and> length zs = n
        \<and> (\<forall>k<n. \<bar>zs ! k - (dot (chunks 256 (elems X) ! k) (sv_w sv) + sv_b sv)\<bar> \<le> lane_error e_enc e_mul e_rot e_add (sv_w sv)))"
  by (rule ckks_slots.slot_inference [OF assms])

text \<open>A ready server and a client on the plaintext backend.\<close>

definition demo_server :: "packing \<Rightarrow> unit server" where
  "demo_server mode = \<lparr>sv_mode = mode, sv_sm = psm_init\<lparr>pstate := PROV_READY\<rparr>,
     sv_gk = (if mode = SLOT then Some () else None), sv_w = replicate 256 2, sv_b = 1, sv_rotations = 0\<rparr>"

definition demo_client :: "packing \<Rightarrow> client" where
  "demo_client mode = (let n = (if mode = CNP then 32 else 16) in
     \<lparr>cl_packing = mode, cl_max_lanes = n, cl_pad_buffer = replicate n (replicate 256 0)\<rparr>)"

definition demo_batch :: "real ndarray" where
  "demo_batch = \<lparr>shape = [1, 256], elems = replicate 256 3\<rparr>"

definition demo_timing :: timing where
  "demo_timing = \<lparr>deserialization_us = 0, multiply_plain_us = 0, rotation_hoisting_us = 0, mask_us = 0,
     serialization_us = 0, total_inference_us = 0\<rparr>"

lemma demo_simps [simp]:
  "client_wf (demo_client mode)" "cl_packing (demo_client mode) = mode" "batch (Suc 0) demo_batch"
  "sv_mode (demo_server mode) = mode" "pstate (sv_sm (demo_server mode)) = PROV_READY"
  "sv_gk (demo_server SLOT) = Some ()" "sv_gk (demo_server CNP) = None"
  "sv_w (demo_server mode) = replicate 256 2" "sv_b (demo_server mode) = 1"
  by (simp_all add: demo_client_def client_wf_def Let_def demo_batch_def batch_def demo_server_def)

lemma demo_dot: "dot (chunks 256 (elems demo_batch) ! 0) (replicate 256 2) = 1536"
proof -
  have "chunks 256 (elems demo_batch) = [replicate 256 3]" by (simp add: demo_batch_def chunks_step)
  moreover have "dot (replicate m 3) (replicate m 2) = 6 * real m" for m by (induction m) simp_all
  ultimately show ?thesis by simp
qed

theorem slot_inference_end_to_end_witness:
  "\<exists>r cl' sv'. run_inference plain_seal (\<lambda>z. z) (vendor_stub plain_seal (\<lambda>_. 0) demo_timing) (\<lambda>_. 0) ''r'' demo_batch
      (demo_client SLOT) (demo_server SLOT) = (Ret r, cl', sv') \<and> fraud_probabilities r = [1537]"
proof -
  obtain r cl' sv' zs where r: "run_inference plain_seal (\<lambda>z. z) (vendor_stub plain_seal (\<lambda>_. 0) demo_timing) (\<lambda>_. 0) ''r'' demo_batch
      (demo_client SLOT) (demo_server SLOT) = (Ret r, cl', sv')"
    and zs: "fraud_probabilities r = map (\<lambda>z. z) zs" "length zs = 1"
      "\<forall>k<1. \<bar>zs ! k - (dot (chunks 256 (elems demo_batch) ! k) (sv_w (demo_server SLOT)) + sv_b (demo_server SLOT))\<bar>
         \<le> lane_error 0 0 0 0 (sv_w (demo_server SLOT))"
    using slot_inference_end_to_end [OF plain_slots.ckks_slots_axioms, of "demo_server SLOT" "demo_client SLOT" 1 demo_batch
        "\<lambda>z. z" "\<lambda>_. 0" demo_timing "\<lambda>_. 0" "''r''"] by auto
  have "zs ! 0 = 1537" using zs(3) by (simp add: demo_dot lane_error_def)
  then have "fraud_probabilities r = [1537]" using zs(1,2) by (cases zs) auto
  with r show ?thesis by blast
qed



text \<open>C6. No transaction leaks into a later request: on well-formed clients the result of an inference and
  its effect on the server do not depend on what earlier calls left in the padding buffer, for every stub.\<close>

theorem padding_buffer_does_not_leak:
  assumes "client_wf cl" "client_wf (cl\<lparr>cl_pad_buffer := buf\<rparr>)" "batch n X"
  shows "fst (run_inference S expit stub clk u X cl srv) = fst (run_inference S expit stub clk u X (cl\<lparr>cl_pad_buffer := buf\<rparr>) srv)
    \<and> snd (snd (run_inference S expit stub clk u X cl srv)) = snd (snd (run_inference S expit stub clk u X (cl\<lparr>cl_pad_buffer := buf\<rparr>) srv))"
proof (cases "1 \<le> n \<and> n \<le> cl_max_lanes cl")
  case True
  show ?thesis
  proof (cases "cl_packing cl")
    case SLOT
    have n: "1 \<le> n" "n \<le> 16" using True SLOT assms(1) by (simp_all add: client_wf_def)
    have SLOT': "cl_packing (cl\<lparr>cl_pad_buffer := buf\<rparr>) = SLOT" using SLOT by simp
    show ?thesis
      unfolding run_inference_slot [OF assms(1) SLOT assms(3) n] run_inference_slot [OF assms(2) SLOT' assms(3) n]
      by (simp split: prod.split sum.split)
  next
    case CNP
    have n: "1 \<le> n" "n \<le> 32" using True CNP assms(1) by (simp_all add: client_wf_def)
    have CNP': "cl_packing (cl\<lparr>cl_pad_buffer := buf\<rparr>) = CNP" using CNP by simp
    show ?thesis
      unfolding run_inference_cnp [OF assms(1) CNP assms(3) n] run_inference_cnp [OF assms(2) CNP' assms(3) n]
      by (simp split: prod.split sum.split)
  qed
next
  case False
  then show ?thesis using assms(3) by (auto simp: run_inference_def batch_def)
qed

theorem padding_buffer_does_not_leak_witness:
  "fst (run_inference plain_seal (\<lambda>z. z) (vendor_stub plain_seal (\<lambda>_. 0) demo_timing) (\<lambda>_. 0) ''r'' demo_batch
      (demo_client SLOT) (demo_server SLOT))
   = fst (run_inference plain_seal (\<lambda>z. z) (vendor_stub plain_seal (\<lambda>_. 0) demo_timing) (\<lambda>_. 0) ''r'' demo_batch
      ((demo_client SLOT)\<lparr>cl_pad_buffer := replicate 16 (replicate 256 9)\<rparr>) (demo_server SLOT))"
  by (rule padding_buffer_does_not_leak [THEN conjunct1, of _ _ 1])
    (simp_all add: client_wf_def, simp_all add: demo_client_def Let_def)

text \<open>C4. The provisioning handshake reaches \<^verbatim>\<open>PROV_READY\<close> exactly for keys that deserialise, match the
  parameters, cover the whole rotation schedule and whose canary (the deployed fold applied to an
  encryption of 0.01 in every slot) decrypts to 2.56 within 0.001 on all sixteen lanes; every other key
  file ends in \<^verbatim>\<open>PROV_FAULT\<close>. The client is told the state the server is in.\<close>

theorem handshake_ready_iff:
  assumes "sv_mode sv = SLOT" "pstate (sv_sm sv) = PROV_AWAITING_KEYS" "fs p = Some k"
    and "\<And>c. load_ct S (save_ct S c) = Some c"
    and "first_level S (enc_slots S (replicate 4096 (1 / 100)))"
      "wire_size S (save_ct S (enc_slots S (replicate 4096 (1 / 100)))) \<le> CT_BUF"
  shows "\<exists>st sv'. provision_and_validate S (vendor_stub S rnd tm) fs p sv = (Ret st, sv') \<and> pstate (sv_sm sv') = st
    \<and> st = (if \<exists>g. keys_accepted S k g \<and> (\<forall>d \<in> set (canary_result S g). \<bar>d - 256 / 100\<bar> < 1 / 1000)
            then PROV_READY else PROV_FAULT)"
proof (cases "\<exists>g. keys_accepted S k g")
  case True
  then obtain g where g: "keys_accepted S k g" by blast
  then have u: "keys_accepted S k h \<longleftrightarrow> h = g" for h by (auto simp: keys_accepted_def)
  show ?thesis
    using handshake_accept [where rnd = rnd and tm = tm, OF assms(1,2) _ assms(4-6) g refl] assms(3)
    by (simp add: u canary_passed_def)
next
  case False
  then show ?thesis using handshake_reject [OF assms(1,2) _ False] assms(3) by auto
qed

theorem handshake_ready_iff_witness:
  "\<exists>sv'. provision_and_validate plain_seal (vendor_stub plain_seal (\<lambda>_. 0) demo_timing) ((\<lambda>_. None)(''gk'' \<mapsto> [])) ''gk''
     ((demo_server SLOT)\<lparr>sv_sm := psm_init\<rparr>) = (Ret PROV_READY, sv')"
proof -
  have "keys_accepted plain_seal [] ()" by (simp add: keys_accepted_def plain_seal_def list_all_iff)
  moreover have "canary_passed (canary_result plain_seal ())" by (rule plain_slots.consistent_canary) simp
  ultimately have "\<exists>g. keys_accepted plain_seal [] g \<and> (\<forall>d \<in> set (canary_result plain_seal g). \<bar>d - 256 / 100\<bar> < 1 / 1000)"
    by (auto simp: canary_passed_def)
  with handshake_ready_iff [of "(demo_server SLOT)\<lparr>sv_sm := psm_init\<rparr>" "(\<lambda>_. None)(''gk'' \<mapsto> [])" "''gk''" "[]" plain_seal
      "\<lambda>_. 0" demo_timing]
  show ?thesis by (auto simp: psm_init_def plain_seal_def)
qed

lemma warmup_wf: "client_wf cl \<Longrightarrow> client_wf (fst (warmup S expit stub clk u cl srv)) \<and> cl_packing (fst (warmup S expit stub clk u cl srv)) = cl_packing cl"
proof -
  assume wf: "client_wf cl"
  have b: "batch 1 warmup_input" by (simp add: batch_def warmup_input_def)
  show ?thesis
  proof (cases "cl_packing cl")
    case SLOT
    show ?thesis unfolding warmup_def using run_inference_slot [OF wf SLOT b, of S expit stub clk u srv] pad_after_wf [OF wf SLOT b]
      by (auto simp: pad_after_def split: prod.split sum.split)
  next
    case CNP
    show ?thesis unfolding warmup_def using run_inference_cnp [OF wf CNP b, of S expit stub clk u srv] wf CNP
      by (auto split: prod.split sum.split)
  qed
qed

text \<open>A constructed client is a usable client: construction succeeds only for a known packing mode,
  never with Galois keys in CNP mode, and with Galois keys only after the vendor reported
  \<^verbatim>\<open>PROV_READY\<close>; the client it returns satisfies the client invariant with the right lane count.\<close>

theorem client_init_ok:
  assumes "client_init S expit stub clk u import_module init_seal fs a srv = (Ret cl, srv')"
  shows "a_packing a \<in> {''slot'', ''cnp''} \<and> client_wf cl \<and> cl_packing cl = (if a_packing a = ''cnp'' then CNP else SLOT)
    \<and> (a_packing a = ''cnp'' \<longrightarrow> a_galois_keys_path a = None)
    \<and> (\<forall>gp. a_galois_keys_path a = Some gp \<longrightarrow> (\<exists>srv1. provision_and_validate S stub fs gp srv = (Ret PROV_READY, srv1)))"
proof -
  let ?cl = "\<lparr>cl_packing = (if a_packing a = ''cnp'' then CNP else SLOT), cl_max_lanes = (if a_packing a = ''cnp'' then 32 else 16),
      cl_pad_buffer = replicate (if a_packing a = ''cnp'' then 32 else 16) (replicate 256 0)\<rparr>"
  have wf: "client_wf ?cl" by (simp add: client_wf_def)
  have "a_packing a \<in> {''slot'', ''cnp''}" "a_packing a = ''cnp'' \<longrightarrow> a_galois_keys_path a = None"
    using assms by (auto simp: client_init_def split: if_splits)
  moreover have "\<exists>srv0. cl = fst (warmup S expit stub clk u ?cl srv0)
      \<and> (\<forall>gp. a_galois_keys_path a = Some gp \<longrightarrow> provision_and_validate S stub fs gp srv = (Ret PROV_READY, srv0))"
  proof (cases "a_galois_keys_path a")
    case None
    then have "cl = fst (warmup S expit stub clk u ?cl srv)"
      using assms by (auto simp: client_init_def Let_def split: if_splits sum.splits prod.splits)
    then show ?thesis using None by auto
  next
    case (Some gp)
    then obtain srv1 where "provision_and_validate S stub fs gp srv = (Ret PROV_READY, srv1)"
      "cl = fst (warmup S expit stub clk u ?cl srv1)"
      using assms by (auto simp: client_init_def Let_def split: if_splits sum.splits prod.splits)
    then show ?thesis using Some by auto
  qed
  ultimately show ?thesis using warmup_wf [OF wf] by fastforce
qed

theorem client_init_ok_witness:
  "\<exists>cl srv'. client_init plain_seal (\<lambda>z. z) (vendor_stub plain_seal (\<lambda>_. 0) demo_timing) (\<lambda>_. 0) ''u'' (\<lambda>_. Ret True) (\<lambda>_ _. Ret ())
      (\<lambda>_. Some []) \<lparr>a_packing = ''cnp'', a_public_key_path = ''pk'', a_secret_key_path = ''sk'', a_wrapper_module = ''seal_wrapper_160'',
        a_galois_keys_path = None, a_use_tls = False, a_tls_ca = None, a_tls_cert = None, a_tls_key = None\<rparr> (demo_server CNP)
      = (Ret cl, srv') \<and> client_wf cl"
proof -
  let ?r = "client_init plain_seal (\<lambda>z. z) (vendor_stub plain_seal (\<lambda>_. 0) demo_timing) (\<lambda>_. 0) ''u'' (\<lambda>_. Ret True) (\<lambda>_ _. Ret ())
      (\<lambda>_. Some []) \<lparr>a_packing = ''cnp'', a_public_key_path = ''pk'', a_secret_key_path = ''sk'', a_wrapper_module = ''seal_wrapper_160'',
        a_galois_keys_path = None, a_use_tls = False, a_tls_ca = None, a_tls_cert = None, a_tls_key = None\<rparr> (demo_server CNP)"
  obtain cl srv' where w: "warmup plain_seal (\<lambda>z. z) (vendor_stub plain_seal (\<lambda>_. 0) demo_timing) (\<lambda>_. 0) ''u''
      \<lparr>cl_packing = CNP, cl_max_lanes = 32, cl_pad_buffer = replicate 32 (replicate 256 0)\<rparr> (demo_server CNP) = (cl, srv')"
    by fastforce
  have r: "?r = (Ret cl, srv')"
    by (simp add: client_init_def load_wrapper_module_def read_bytes_def tls_setup_def Let_def w)
  from client_init_ok [OF r] r show ?thesis by blast
qed

end
