(* ===== verification/Compiler.thy ===== *)
theory Compiler
  imports WeightFile CnpGate
begin

text \<open>
  The offline compiler: feature preparation and dataset validation (\<^verbatim>\<open>compiler/train_xgboost.py\<close>), the
  surrogate logistic regression and its artifacts (\<^verbatim>\<open>train_logistic_regression.py\<close>), the AUC dispatch
  (\<^verbatim>\<open>auc_dispatch.py\<close>) with its degree-2 fallback (\<^verbatim>\<open>degree2_linearizer.py\<close>, and the client-side
  \<^verbatim>\<open>feature_pipeline_degree2.py\<close>), and key generation (\<^verbatim>\<open>gen_keys_160.py\<close>). The artifact directory is a
  store of binary files, arrays and other files. scikit-learn, XGBoost, pandas and numpy's percentile and
  argsort are arguments.
\<close>

section \<open>The artifact store\<close>

datatype arr = Mat "real list list" | VecF "f64 list" | VecR "real list" | VecI "int list"

record store =
  bins :: fs
  arrs :: "path \<rightharpoonup> arr"
  others :: "path set"

definition np_load_mat :: "store \<Rightarrow> path \<Rightarrow> real list list res" where
  "np_load_mat st p = (case arrs st p of None \<Rightarrow> Raise FileNotFoundError | Some (Mat X) \<Rightarrow> Ret X | Some _ \<Rightarrow> Raise TypeError)"

definition np_load_f :: "store \<Rightarrow> path \<Rightarrow> f64 list res" where
  "np_load_f st p = (case arrs st p of None \<Rightarrow> Raise FileNotFoundError | Some (VecF v) \<Rightarrow> Ret v | Some _ \<Rightarrow> Raise TypeError)"

definition np_load_i :: "store \<Rightarrow> path \<Rightarrow> int list res" where
  "np_load_i st p = (case arrs st p of None \<Rightarrow> Raise FileNotFoundError | Some (VecI v) \<Rightarrow> Ret v | Some _ \<Rightarrow> Raise TypeError)"

definition np_save :: "path \<Rightarrow> arr \<Rightarrow> store \<Rightarrow> store" where
  "np_save p a st = st\<lparr>arrs := (arrs st)(p \<mapsto> a)\<rparr>"

definition file_exists :: "store \<Rightarrow> path \<Rightarrow> bool" where
  "file_exists st p \<longleftrightarrow> bins st p \<noteq> None \<or> arrs st p \<noteq> None \<or> p \<in> others st"

section \<open>Feature preparation and dataset validation\<close>

record csv =
  columns :: "string list"
  csv_rows :: "real list list"

definition np_clip :: "real \<Rightarrow> real \<Rightarrow> real \<Rightarrow> real" where
  "np_clip lo hi x = min (max x lo) hi"

definition drop_columns :: "string list \<Rightarrow> csv \<Rightarrow> real list list" where
  "drop_columns ds df = map (\<lambda>r. map snd (filter (\<lambda>(c, _). c \<notin> set ds) (zip (columns df) r))) (csv_rows df)"

definition class_column :: "csv \<Rightarrow> int list" where
  "class_column df = map (\<lambda>r. \<lfloor>the (map_of (zip (columns df) r) ''Class'')\<rfloor>) (csv_rows df)"

text \<open>Steps 6 and 7: winsorise to the training split's 1st and 99th percentiles, clip to \<open>[-3, 3]\<close>, scale.\<close>

definition winsor_clip :: "real list \<Rightarrow> real list \<Rightarrow> real list \<Rightarrow> real list" where
  "winsor_clip lower upper row =
     map (\<lambda>v. np_clip (- 3) 3 v / 3) (map2 (\<lambda>(l, u) x. np_clip l u x) (zip lower upper) row)"

record ('m, 's) trainer =
  split_data :: "real list list \<Rightarrow> int list \<Rightarrow> real list list \<times> real list list \<times> int list \<times> int list"
  fit_scaler :: "real list list \<Rightarrow> 's"
  apply_scaler :: "'s \<Rightarrow> real list list \<Rightarrow> real list list"
  percentile :: "real \<Rightarrow> real list \<Rightarrow> real"
  poly_expand :: "real list \<Rightarrow> real list"
  train_and_score :: "nat \<Rightarrow> real \<Rightarrow> real list list \<Rightarrow> int list \<Rightarrow> real list list \<Rightarrow> int list \<Rightarrow> 'm \<times> real \<times> real"

definition xgb_save :: "real list list \<Rightarrow> real list list \<Rightarrow> real list list \<Rightarrow> real list list \<Rightarrow> int list \<Rightarrow> int list
    \<Rightarrow> real \<Rightarrow> real \<Rightarrow> store \<Rightarrow> store" where
  "xgb_save Xtr Xte Xtr_raw Xte_raw ytr yte train_auc test_auc st =
     (let st1 = np_save ''artifacts/xgb_scores.npy'' (VecR [train_auc, test_auc])
                (np_save ''artifacts/y_test.npy'' (VecI yte)
                (np_save ''artifacts/y_train.npy'' (VecI ytr)
                (np_save ''artifacts/X_test_raw.npy'' (Mat Xte_raw)
                (np_save ''artifacts/X_train_raw.npy'' (Mat Xtr_raw)
                (np_save ''artifacts/X_test.npy'' (Mat Xte)
                (np_save ''artifacts/X_train.npy'' (Mat Xtr) st))))))
      in st1\<lparr>others := others st1 \<union> {''artifacts/scaler.pkl'', ''artifacts/poly.pkl'', ''artifacts/xgb_model.pkl''}\<rparr>)"

text \<open>Steps 2 to 7 and the expansion: from the data set to the train and test matrices.\<close>

definition xgb_features :: "('m, 's) trainer \<Rightarrow> csv \<Rightarrow> (real list list \<times> real list list) \<times> (real list list \<times> real list list) \<times> int list \<times> int list" where
  "xgb_features T df =
     (let X = (if ''Time'' \<in> set (columns df) then drop_columns [''Time'', ''Class''] df else drop_columns [''Class''] df);
          y = class_column df;
          (Xtr_raw, Xte_raw, ytr, yte) = split_data T X y;
          sc = fit_scaler T Xtr_raw;
          Xtr_s = apply_scaler T sc Xtr_raw;
          Xte_s = apply_scaler T sc Xte_raw;
          lower = map (\<lambda>j. percentile T 1 (col j Xtr_s)) [0..<ncols Xtr_s];
          upper = map (\<lambda>j. percentile T 99 (col j Xtr_s)) [0..<ncols Xtr_s];
          expand = (\<lambda>row. take 256 (poly_expand T (winsor_clip lower upper row)))
      in ((map expand Xtr_s, map expand Xte_s), (Xtr_s, Xte_s), ytr, yte))"

definition train_xgboost_main :: "('m, 's) trainer \<Rightarrow> csv option \<Rightarrow> store \<Rightarrow> nat res \<times> store" where
  "train_xgboost_main T data st =
     (case data of
        None \<Rightarrow> (Raise FileNotFoundError, st)
      | Some df \<Rightarrow>
        if ''Class'' \<notin> set (columns df) then (Raise ValueError, st)
        else
          let ((Xtr, Xte), (Xtr_s, Xte_s), ytr, yte) = xgb_features T df;
              neg = length (filter (\<lambda>v. v = 0) ytr);
              pos = length (filter (\<lambda>v. v = 1) ytr)
          in if pos = 0 then (Raise ValueError, st)
             else
               let spw = real neg / real pos;
                   first = train_and_score T 300 spw Xtr ytr Xte yte;
                   (m, train_auc, test_auc) =
                     (if snd (snd first) < 98 / 100 then train_and_score T 500 spw Xtr ytr Xte yte else first)
               in if \<not> 98 / 100 \<le> test_auc then (Raise AssertionError, st)
                  else (Ret 0, xgb_save Xtr Xte Xtr_s Xte_s ytr yte train_auc test_auc st))"

section \<open>The surrogate logistic regression\<close>

text \<open>Fitted coefficients and intercept are binary64 values; arithmetic on them is over the reals they
  denote.\<close>

record lr_lib =
  lr_fit :: "real list list \<Rightarrow> int list \<Rightarrow> f64 list \<times> f64"
  lr_proba :: "f64 list \<times> f64 \<Rightarrow> real list list \<Rightarrow> real list"
  lr_roc_auc :: "int list \<Rightarrow> real list \<Rightarrow> real"
  lr_expit :: "real \<Rightarrow> real"

definition validate_and_gate :: "lr_lib \<Rightarrow> f64 list \<Rightarrow> f64 \<Rightarrow> real list list \<Rightarrow> int list \<Rightarrow> string \<times> real" where
  "validate_and_gate L weights bias X_test y_test =
     (''depth1'', lr_roc_auc L y_test (map (\<lambda>r. lr_expit L (dot r (map f64_real weights) + f64_real bias)) X_test))"

definition load_required_arrays :: "store \<Rightarrow> (real list list \<times> real list list \<times> int list \<times> int list) res" where
  "load_required_arrays st =
     rbind (np_load_mat st ''artifacts/X_train.npy'') (\<lambda>X_train.
     rbind (np_load_mat st ''artifacts/X_test.npy'') (\<lambda>X_test.
     rbind (np_load_i st ''artifacts/y_train.npy'') (\<lambda>y_train.
     rbind (np_load_i st ''artifacts/y_test.npy'') (\<lambda>y_test. Ret (X_train, X_test, y_train, y_test)))))"

text \<open>The linearisation report is written when the XGBoost scores exist.\<close>

definition lin_report :: "real \<Rightarrow> store \<Rightarrow> store res" where
  "lin_report lr_auc st =
     (case arrs st ''artifacts/xgb_scores.npy'' of
        Some (VecR v) \<Rightarrow>
          if length v < 2 then Raise IndexError
          else Ret (st\<lparr>others := insert ''artifacts/linearization_cost.json'' (others st)\<rparr>)
      | Some _ \<Rightarrow> Raise TypeError
      | None \<Rightarrow> Ret st)"

definition finish_lr :: "f64 list \<Rightarrow> f64 \<Rightarrow> store \<Rightarrow> nat res \<times> store" where
  "finish_lr weights bias st =
     (case write_model_weights_bin (vec weights) bias ''artifacts/model_weights.bin'' (bins st) of
        (Inl e, fs') \<Rightarrow> (Inl e, st\<lparr>bins := fs'\<rparr>)
      | (Inr _, fs') \<Rightarrow>
        let st1 = np_save ''artifacts/weights.npy'' (VecF weights) (st\<lparr>bins := fs'\<rparr>) in
        if \<not> file_exists st1 ''artifacts/scaler.pkl'' then (Raise FileNotFoundError, st1)
        else if \<not> list_all (file_exists st1) [''artifacts/model_weights.bin'', ''artifacts/weights.npy'', ''artifacts/scaler.pkl'']
          then (Raise FileNotFoundError, st1)
        else if length (the (bins st1 ''artifacts/model_weights.bin'')) \<noteq> 2060 then (Raise RuntimeError, st1)
        else (Ret 0, st1))"

definition train_lr_main :: "lr_lib \<Rightarrow> store \<Rightarrow> nat res \<times> store" where
  "train_lr_main L st =
     (case load_required_arrays st of
        Inl e \<Rightarrow> (Inl e, st)
      | Inr (X_train, X_test, y_train, y_test) \<Rightarrow>
        if ncols X_train \<noteq> 256 then (Raise AssertionError, st)
        else
          let (weights, bias) = lr_fit L X_train y_train;
              lr_auc = lr_roc_auc L y_test (lr_proba L (weights, bias) X_test);
              gate_auc = snd (validate_and_gate L weights bias X_test y_test)
          in if \<not> \<bar>gate_auc - lr_auc\<bar> < 1 / 1000000 then (Raise AssertionError, st)
             else (case lin_report lr_auc st of
                 Inl e \<Rightarrow> (Inl e, st)
               | Inr st1 \<Rightarrow> finish_lr weights bias st1))"

section \<open>The degree-2 fallback\<close>

definition N_TOP_LINEAR :: int where "N_TOP_LINEAR = 256"
definition N_TOP_INTERACT :: nat where "N_TOP_INTERACT = 32"
definition N_INTERACT :: int where "N_INTERACT = 496"

text \<open>\<^verbatim>\<open>np.zeros((n, w))\<close> refuses a negative dimension; \<^verbatim>\<open>X[:, idx]\<close> an index out of range.\<close>

definition np_zeros2 :: "nat \<Rightarrow> int \<Rightarrow> real list list res" where
  "np_zeros2 n w = (if w < 0 then Raise ValueError else Ret (replicate n (replicate (nat w) 0)))"

definition take_cols :: "nat list \<Rightarrow> real list list \<Rightarrow> real list list res" where
  "take_cols idx X = (if \<forall>r \<in> set X. \<forall>j \<in> set idx. j < length r then Ret (map (\<lambda>r. map ((!) r) idx) X) else Raise IndexError)"

definition pairs32 :: "(nat \<times> nat) list" where
  "pairs32 = concat (map (\<lambda>i. map (Pair i) [i + 1..<N_TOP_INTERACT]) [0..<N_TOP_INTERACT])"

definition interact_cols :: "nat list \<Rightarrow> real list list \<Rightarrow> real list list res" where
  "interact_cols idx X =
     (if length idx < N_TOP_INTERACT then Raise IndexError
      else if \<forall>r \<in> set X. \<forall>j \<in> set (take N_TOP_INTERACT idx). j < length r
      then Ret (map (\<lambda>r. map (\<lambda>(i, j). r ! (idx ! i) * r ! (idx ! j)) pairs32) X) else Raise IndexError)"

definition hstack3 :: "real list list \<Rightarrow> real list list \<Rightarrow> real list list \<Rightarrow> real list list" where
  "hstack3 A B C = map2 (@) A (map2 (@) B C)"

definition build_degree2_features :: "real list list \<Rightarrow> nat list \<Rightarrow> nat list \<Rightarrow> real list list res" where
  "build_degree2_features X top_linear_idx top_interact_idx =
     rbind (take_cols top_linear_idx X) (\<lambda>X_lin.
     rbind (interact_cols top_interact_idx X) (\<lambda>X_inter.
     rbind (np_zeros2 (length X) (int N_FEATURES_D2 - N_TOP_LINEAR - N_INTERACT)) (\<lambda>pad_cols.
     Ret (hstack3 X_lin X_inter pad_cols))))"

text \<open>The saved feature indices are column numbers, so never negative.\<close>

definition linearize_degree2 :: "lr_lib \<Rightarrow> (real list \<Rightarrow> nat list) \<Rightarrow> store \<Rightarrow> real res \<times> store" where
  "linearize_degree2 L argsort st =
     (case
        rbind (load_required_arrays st) (\<lambda>(X_train, X_test, y_train, y_test).
        rbind (np_load_f st ''artifacts/weights.npy'') (\<lambda>d1_weights.
        rbind (np_load_i st ''artifacts/feature_idx.npy'') (\<lambda>idx.
        let top_linear_idx = map nat idx;
            order = argsort (map (\<lambda>w. \<bar>f64_real w\<bar>) d1_weights);
            top32_local = drop (length order - N_TOP_INTERACT) order
        in rbind (if list_all (\<lambda>j. j < length top_linear_idx) top32_local
                  then Ret (map ((!) top_linear_idx) top32_local) else Raise IndexError) (\<lambda>top_interact_idx.
        rbind (build_degree2_features X_train top_linear_idx top_interact_idx) (\<lambda>X_tr.
        rbind (build_degree2_features X_test top_linear_idx top_interact_idx) (\<lambda>X_te.
        let m = lr_fit L X_tr y_train; a = lr_roc_auc L y_test (lr_proba L m X_te)
        in if a < 96 / 100 then Raise AssertionError
           else rbind (py_assert (length (fst m) = N_FEATURES_D2)) (\<lambda>_. Ret (m, a, top_linear_idx, top_interact_idx)))))))) of
        Inl e \<Rightarrow> (Inl e, st)
      | Inr (m, a, li, ii) \<Rightarrow>
        (case write_degree2_weights_bin (vec (fst m)) (snd m) ''artifacts/degree2_weights.bin'' (bins st) of
           (Inl e, fs') \<Rightarrow> (Inl e, st\<lparr>bins := fs'\<rparr>)
         | (Inr _, fs') \<Rightarrow>
           let st1 = np_save ''artifacts/degree2_interact_idx.npy'' (VecI (map int ii))
                     (np_save ''artifacts/degree2_linear_idx.npy'' (VecI (map int li)) (st\<lparr>bins := fs'\<rparr>))
           in (Ret a, st1\<lparr>others := insert ''artifacts/degree2_model.pkl'' (others st1)\<rparr>)))"

record pipeline2 =
  linear_idx :: "nat list"
  interact_idx :: "nat list"

definition pipeline2_init :: "nat list \<Rightarrow> nat list \<Rightarrow> pipeline2 res" where
  "pipeline2_init li ii =
     rbind (py_assert (int (length li) = N_TOP_LINEAR)) (\<lambda>_.
     rbind (py_assert (length ii = N_TOP_INTERACT)) (\<lambda>_. Ret \<lparr>linear_idx = li, interact_idx = ii\<rparr>))"

definition pipeline2_transform :: "(real list list \<Rightarrow> real list list) \<Rightarrow> (real list list \<Rightarrow> real list list) \<Rightarrow> pipeline2
    \<Rightarrow> real list list \<Rightarrow> real list list res" where
  "pipeline2_transform winsorize scaler p df =
     (let X = map (map (\<lambda>v. np_clip (- 3) 3 v / 3)) (scaler (winsorize df)) in
      rbind (take_cols (linear_idx p) X) (\<lambda>X_lin.
      rbind (interact_cols (interact_idx p) X) (\<lambda>X_inter.
      rbind (np_zeros2 (length X) (int N_FEATURES_D2 - N_TOP_LINEAR - 496)) (\<lambda>pad.
      Ret (hstack3 X_lin X_inter pad)))))"

section \<open>Dispatch\<close>

datatype active_path = Depth1 | Depth1Borderline | Degree2

record dispatch_result =
  depth1_auc :: real
  active_path :: active_path
  degree2_auc :: "real option"

definition run_dispatch :: "lr_lib \<Rightarrow> (real list \<Rightarrow> nat list) \<Rightarrow> store \<Rightarrow> dispatch_result res \<times> store" where
  "run_dispatch L argsort st =
     (case
        rbind (np_load_mat st ''artifacts/X_test.npy'') (\<lambda>X_test.
        rbind (np_load_i st ''artifacts/y_test.npy'') (\<lambda>y_test.
        rbind (np_load_f st ''artifacts/weights.npy'') (\<lambda>weights.
        rbind (read_bytes (bins st) ''artifacts/model_weights.bin'') (\<lambda>raw.
        rbind (unpack_f64 (take 8 (drop 4 raw))) (\<lambda>bias.
        Ret (snd (validate_and_gate L weights bias X_test y_test))))))) of
        Inl e \<Rightarrow> (Inl e, st)
      | Inr a \<Rightarrow>
        let save = (\<lambda>s. s\<lparr>others := insert ''artifacts/dispatch_result.json'' (others s)\<rparr>) in
        if 94 / 100 \<le> a then (Ret \<lparr>depth1_auc = a, active_path = Depth1, degree2_auc = None\<rparr>, save st)
        else if 92 / 100 \<le> a then (Ret \<lparr>depth1_auc = a, active_path = Depth1Borderline, degree2_auc = None\<rparr>, save st)
        else (case linearize_degree2 L argsort st of
            (Inl e, st1) \<Rightarrow> (Inl e, st1)
          | (Inr d2, st1) \<Rightarrow>
            if d2 < 96 / 100 then (Raise AssertionError, st1)
            else (Ret \<lparr>depth1_auc = a, active_path = Degree2, degree2_auc = Some d2\<rparr>, save st1)))"

definition dispatch_exit :: "dispatch_result res \<Rightarrow> int" where
  "dispatch_exit r = (case r of Inl e \<Rightarrow> 1 | Inr d \<Rightarrow> if active_path d \<in> {Depth1, Depth1Borderline, Degree2} then 0 else 1)"

section \<open>Key generation\<close>

text \<open>\<open>wrapper\<close> is the imported SEAL wrapper's key generator (public, secret, Galois key bytes), if the
  import succeeds.\<close>

definition gen_keys_160_main :: "(byte list \<times> byte list \<times> byte list) res \<Rightarrow> fs \<Rightarrow> int \<times> fs" where
  "gen_keys_160_main wrapper fs =
     (case wrapper of
        Inl e \<Rightarrow> (1, fs)
      | Inr (pk, sk, gk) \<Rightarrow>
        (0, fs(''artifacts/public_key_160.bin'' \<mapsto> pk, ''artifacts/secret_key_160.bin'' \<mapsto> sk,
               ''artifacts/galois_keys_160.bin'' \<mapsto> gk)))"

section \<open>Feature bounds\<close>

lemma np_clip_3: "\<bar>np_clip (- 3) 3 v / 3\<bar> \<le> 1"
  by (auto simp: np_clip_def)

lemma winsor_clip_bound: "v \<in> set (winsor_clip l u r) \<Longrightarrow> \<bar>v\<bar> \<le> 1"
  using np_clip_3 by (auto simp: winsor_clip_def)

text \<open>What is relied on of the interaction-only polynomial expansion: every output is an input or the
  product of two inputs.\<close>

definition interaction_only :: "(real list \<Rightarrow> real list) \<Rightarrow> bool" where
  "interaction_only p \<longleftrightarrow> (\<forall>r. \<forall>v \<in> set (p r). v \<in> set r \<or> (\<exists>a \<in> set r. \<exists>b \<in> set r. v = a * b))"

lemma expand_bound:
  assumes "interaction_only p" "v \<in> set (take 256 (p (winsor_clip l u r)))"
  shows "\<bar>v\<bar> \<le> 1"
proof -
  have "v \<in> set (p (winsor_clip l u r))" using assms(2) by (rule in_set_takeD)
  then consider "v \<in> set (winsor_clip l u r)"
    | a b where "a \<in> set (winsor_clip l u r)" "b \<in> set (winsor_clip l u r)" "v = a * b"
    using assms(1) unfolding interaction_only_def by blast
  then show ?thesis
  proof cases
    case 2
    then have "\<bar>a\<bar> * \<bar>b\<bar> \<le> 1 * 1" by (intro mult_mono winsor_clip_bound) auto
    then show ?thesis using 2(3) by (simp add: abs_mult)
  qed (rule winsor_clip_bound)
qed

section \<open>The fallback\<close>

lemma np_zeros2_negative: "np_zeros2 n (int N_FEATURES_D2 - N_TOP_LINEAR - N_INTERACT) = Raise ValueError"
  by (simp add: np_zeros2_def N_FEATURES_D2_def N_TOP_LINEAR_def N_INTERACT_def)

lemma build_degree2_raises: "\<exists>e. build_degree2_features X li ii = Raise e"
  by (cases "take_cols li X"; cases "interact_cols ii X") (simp_all add: build_degree2_features_def np_zeros2_negative)

lemma linearize_degree2_raises: "\<exists>e. linearize_degree2 L argsort st = (Raise e, st)"
proof -
  have b: "build_degree2_features X li ii \<noteq> Inr y" for X li ii y
    using build_degree2_raises [of X li ii] by auto
  show ?thesis
    unfolding linearize_degree2_def Let_def
    by (auto simp: b res_simps split: sum.split prod.splits)
qed

section \<open>Properties\<close>

text \<open>C37. The degree-2 path cannot run. \<^verbatim>\<open>build_degree2_features\<close> and the client-side degree-2 transform
  raise on every input, because the padding width \<open>512 - 256 - 496\<close> is negative; hence
  \<^verbatim>\<open>run_dispatch\<close> returns only when the depth-1 AUC is at least 0.92, with the primary path from 0.94 on and
  the borderline path below, and never selects degree 2.\<close>

theorem degree2_path_never_completes:
  "(\<forall>X li ii. \<exists>e. build_degree2_features X li ii = Raise e)
   \<and> (\<forall>wz sc p df. \<exists>e. pipeline2_transform wz sc p df = Raise e)
   \<and> (\<forall>L argsort st r st'. run_dispatch L argsort st = (Ret r, st') \<longrightarrow>
        degree2_auc r = None \<and> 92 / 100 \<le> depth1_auc r \<and>
        active_path r = (if 94 / 100 \<le> depth1_auc r then Depth1 else Depth1Borderline))"
proof (intro conjI allI impI)
  show "\<exists>e. build_degree2_features X li ii = Raise e" for X li ii by (rule build_degree2_raises)
  show "\<exists>e. pipeline2_transform wz sc p df = Raise e" for wz sc p df
  proof -
    let ?X = "map (map (\<lambda>v. np_clip (- 3) 3 v / 3)) (sc (wz df))"
    show ?thesis
      by (cases "take_cols (linear_idx p) ?X"; cases "interact_cols (interact_idx p) ?X")
        (simp_all add: pipeline2_transform_def np_zeros2_def N_FEATURES_D2_def N_TOP_LINEAR_def)
  qed
  fix L argsort st r st' assume "run_dispatch L argsort st = (Ret r, st')"
  then show "degree2_auc r = None" "92 / 100 \<le> depth1_auc r"
    "active_path r = (if 94 / 100 \<le> depth1_auc r then Depth1 else Depth1Borderline)"
    using linearize_degree2_raises [of L argsort st]
    by (auto simp: run_dispatch_def Let_def split: sum.splits if_splits prod.splits)
qed

definition demo_lr :: lr_lib where
  "demo_lr = \<lparr>lr_fit = (\<lambda>_ _. (replicate 256 0, 0)), lr_proba = (\<lambda>_ _. []), lr_roc_auc = (\<lambda>_ _. 95 / 100), lr_expit = (\<lambda>z. z)\<rparr>"

definition demo_store :: store where
  "demo_store = \<lparr>bins = (\<lambda>_. None)(''artifacts/model_weights.bin'' \<mapsto> weights_image 256 (replicate 256 0) 0),
     arrs = (\<lambda>_. None)(''artifacts/X_test.npy'' \<mapsto> Mat [replicate 256 0], ''artifacts/X_train.npy'' \<mapsto> Mat [replicate 256 0],
       ''artifacts/y_test.npy'' \<mapsto> VecI [1], ''artifacts/y_train.npy'' \<mapsto> VecI [1], ''artifacts/weights.npy'' \<mapsto> VecF (replicate 256 0)),
     others = {''artifacts/scaler.pkl''}\<rparr>"

theorem degree2_path_never_completes_witness:
  "\<exists>r st'. run_dispatch demo_lr (\<lambda>_. []) demo_store = (Ret r, st') \<and> active_path r = Depth1"
proof -
  obtain r st' where r: "run_dispatch demo_lr (\<lambda>_. []) demo_store = (Ret r, st')" "depth1_auc r = 95 / 100"
    by (simp add: run_dispatch_def demo_store_def demo_lr_def np_load_mat_def np_load_i_def np_load_f_def read_bytes_def
        validate_and_gate_def Let_def)
  have "active_path r = (if 94 / 100 \<le> depth1_auc r then Depth1 else Depth1Borderline)"
    using degree2_path_never_completes r(1) by blast
  with r show ?thesis by simp
qed

lemma xgb_features_bound:
  assumes "interaction_only (poly_expand T)" "xgb_features T df = ((Xtr, Xte), R)"
    "X = Xtr \<or> X = Xte" "r \<in> set X" "v \<in> set r"
  shows "\<bar>v\<bar> \<le> 1"
  using assms expand_bound [OF assms(1)] by (auto simp: xgb_features_def Let_def split: prod.splits)

lemma train_xgboost_outcome:
  assumes "train_xgboost_main T data st = (r, st')"
  shows "(r \<noteq> Ret 0 \<and> st' = st) \<or> (r = Ret 0 \<and> (\<exists>df Xtr Xte Xs Xt ytr yte a b.
      xgb_features T df = ((Xtr, Xte), (Xs, Xt), ytr, yte) \<and> 98 / 100 \<le> b \<and> st' = xgb_save Xtr Xte Xs Xt ytr yte a b st))"
proof (cases data)
  case (Some df)
  obtain Xtr Xte Xs Xt ytr yte where f: "xgb_features T df = ((Xtr, Xte), (Xs, Xt), ytr, yte)"
    by (metis prod.exhaust)
  define p where "p = (let spw = real (length (filter (\<lambda>v. v = 0) ytr)) / real (length (filter (\<lambda>v. v = 1) ytr));
      first = train_and_score T 300 spw Xtr ytr Xte yte
      in if snd (snd first) < 98 / 100 then train_and_score T 500 spw Xtr ytr Xte yte else first)"
  obtain m a b where p: "p = (m, a, b)" by (cases p)
  have "train_xgboost_main T data st =
      (if ''Class'' \<notin> set (columns df) then (Raise ValueError, st)
       else if length (filter (\<lambda>v. v = 1) ytr) = 0 then (Raise ValueError, st)
       else if \<not> 98 / 100 \<le> b then (Raise AssertionError, st)
       else (Ret 0, xgb_save Xtr Xte Xs Xt ytr yte a b st))"
    unfolding train_xgboost_main_def Some option.case f prod.case Let_def using p [unfolded p_def Let_def] by simp
  note eq = this [unfolded assms]
  show ?thesis
  proof (cases "''Class'' \<in> set (columns df) \<and> length (filter (\<lambda>v. v = 1) ytr) \<noteq> 0 \<and> 98 / 100 \<le> b")
    case True
    then have "r = Ret 0" "st' = xgb_save Xtr Xte Xs Xt ytr yte a b st" using eq by auto
    with f True show ?thesis by blast
  next
    case False
    then show ?thesis using eq by (auto split: if_splits)
  qed
qed (use assms in \<open>auto simp: train_xgboost_main_def\<close>)

lemma xgb_save_arrs:
  "arrs (xgb_save Xtr Xte Xr Xe ytr yte a b st) ''artifacts/X_train.npy'' = Some (Mat Xtr)"
  "arrs (xgb_save Xtr Xte Xr Xe ytr yte a b st) ''artifacts/X_test.npy'' = Some (Mat Xte)"
  "arrs (xgb_save Xtr Xte Xr Xe ytr yte a b st) ''artifacts/xgb_scores.npy'' = Some (VecR [a, b])"
  by (simp_all add: xgb_save_def np_save_def Let_def)

text \<open>C27. The features a successful training run saves are within \<open>[-1, 1]\<close>, train and test alike, and it
  saves only when the final test AUC reached 0.98 (after the retry with 500 trees if the first model did
  not); otherwise nothing is written. This is the bound on inputs that the CNP gate builds on.\<close>

theorem trained_features_bounded:
  assumes "interaction_only (poly_expand T)" "train_xgboost_main T data st = (r, st')"
  shows "(r \<noteq> Ret 0 \<longrightarrow> st' = st)
    \<and> (r = Ret 0 \<longrightarrow> (\<exists>Xtr Xte a b. arrs st' ''artifacts/X_train.npy'' = Some (Mat Xtr)
         \<and> arrs st' ''artifacts/X_test.npy'' = Some (Mat Xte) \<and> arrs st' ''artifacts/xgb_scores.npy'' = Some (VecR [a, b])
         \<and> 98 / 100 \<le> b \<and> (\<forall>x \<in> set Xtr \<union> set Xte. \<forall>v \<in> set x. \<bar>v\<bar> \<le> 1)))"
proof (cases "r = Ret 0")
  case True
  then obtain df Xtr Xte Xs Xt ytr yte a b where
    f: "xgb_features T df = ((Xtr, Xte), (Xs, Xt), ytr, yte)" "98 / 100 \<le> b" "st' = xgb_save Xtr Xte Xs Xt ytr yte a b st"
    using train_xgboost_outcome [OF assms(2)] by blast
  have "\<forall>x \<in> set Xtr \<union> set Xte. \<forall>v \<in> set x. \<bar>v\<bar> \<le> 1"
    using xgb_features_bound [OF assms(1) f(1)] by blast
  then show ?thesis using True f xgb_save_arrs [of Xtr Xte Xs Xt ytr yte a b st] by blast
next
  case False
  then show ?thesis using train_xgboost_outcome [OF assms(2)] by blast
qed

definition demo_trainer :: "(unit, unit) trainer" where
  "demo_trainer = \<lparr>split_data = (\<lambda>X y. (X, X, y, y)), fit_scaler = (\<lambda>_. ()), apply_scaler = (\<lambda>_ X. X), percentile = (\<lambda>q _. if q = 1 then - 100 else 100),
     poly_expand = (\<lambda>r. r), train_and_score = (\<lambda>_ _ _ _ _ _. ((), 1, 1))\<rparr>"

theorem trained_features_bounded_witness:
  "\<exists>st' Xtr. train_xgboost_main demo_trainer (Some \<lparr>columns = [''Time'', ''V1'', ''Class''], csv_rows = [[7, 50, 1]]\<rparr>) demo_store = (Ret 0, st')
     \<and> arrs st' ''artifacts/X_train.npy'' = Some (Mat Xtr) \<and> (\<forall>x \<in> set Xtr. \<forall>v \<in> set x. \<bar>v\<bar> \<le> 1)"
proof -
  have i: "interaction_only (poly_expand demo_trainer)" by (simp add: interaction_only_def demo_trainer_def)
  obtain st' where r: "train_xgboost_main demo_trainer (Some \<lparr>columns = [''Time'', ''V1'', ''Class''], csv_rows = [[7, 50, 1]]\<rparr>) demo_store = (Ret 0, st')"
  proof -
    have "xgb_features demo_trainer \<lparr>columns = [''Time'', ''V1'', ''Class''], csv_rows = [[7, 50, 1]]\<rparr> = (([[1]], [[1]]), ([[50]], [[50]]), [1], [1])"
      by (simp add: xgb_features_def demo_trainer_def drop_columns_def class_column_def winsor_clip_def np_clip_def ncols_def col_def Let_def)
    then show ?thesis using that by (simp add: train_xgboost_main_def demo_trainer_def)
  qed
  from trained_features_bounded [OF i r] r show ?thesis by auto
qed

lemma finite_eq_self: "list_all f64_isfinite ws \<Longrightarrow> list_all2 f64_eq ws ws"
  by (induction ws) (auto simp: f64_eq_def f64_is_nan_def)

lemma finish_lr_ok:
  assumes "finish_lr w b st = (Ret n, st')"
  shows "length w = 256 \<and> list_all f64_isfinite w \<and> bins st' ''artifacts/model_weights.bin'' = Some (weights_image 256 w b)
    \<and> arrs st' ''artifacts/weights.npy'' = Some (VecF w)"
proof -
  have w: "ndarray_wf (vec w)" by simp
  show ?thesis using assms unfolding finish_lr_def write_ok_iff [OF w]
    by (auto simp: np_save_def Let_def split: if_splits)
qed

text \<open>What logistic-regression training leaves behind is consistent: when \<^verbatim>\<open>main\<close> returns, the weight
  file holds exactly the fitted weights and bias (every strict loader returns them), \<^verbatim>\<open>weights.npy\<close>
  holds the same weights, so the CNP gate's cross-check of the two accepts them.\<close>

theorem trained_weights_consistent:
  assumes "train_lr_main L st = (Ret n, st')"
  shows "\<exists>X_train y_train w b. np_load_mat st ''artifacts/X_train.npy'' = Ret X_train \<and> np_load_i st ''artifacts/y_train.npy'' = Ret y_train
    \<and> lr_fit L X_train y_train = (w, b)
    \<and> load_model_weights (bins st') (Some ''artifacts/model_weights.bin'') = Ret (w, b)
    \<and> np_load_f st' ''artifacts/weights.npy'' = Ret w
    \<and> load_gate (bins st') (X, y, w) = Ret (X, y, w, b)"
proof -
  from assms obtain X_train X_test y_train y_test where a: "load_required_arrays st = Ret (X_train, X_test, y_train, y_test)"
    by (auto simp: train_lr_main_def split: sum.splits prod.splits)
  obtain w b where fit: "lr_fit L X_train y_train = (w, b)" by (cases "lr_fit L X_train y_train")
  from assms a fit obtain st1 where f: "finish_lr w b st1 = (Ret n, st')"
    by (auto simp: train_lr_main_def Let_def split: sum.splits if_splits)
  note ok = finish_lr_ok [OF f]
  have "load_model_weights (bins st') (Some ''artifacts/model_weights.bin'') = Ret (w, b)"
    using parity_reader.rd_image [of "bins st'" "''artifacts/model_weights.bin''" w b] ok by simp
  moreover have "load_gate (bins st') (X, y, w) = Ret (X, y, w, b)"
    using ok finite_eq_self [of w] by (simp add: load_gate_def read_bytes_def)
  ultimately show ?thesis using a fit ok by (auto simp: load_required_arrays_def res_simps np_load_f_def)
qed

theorem trained_weights_consistent_witness:
  "\<exists>n st'. train_lr_main (demo_lr\<lparr>lr_proba := \<lambda>_ _. []\<rparr>) demo_store = (Ret n, st')
     \<and> load_model_weights (bins st') (Some ''artifacts/model_weights.bin'') = Ret (replicate 256 0, 0)"
proof -
  obtain n st' where r: "train_lr_main (demo_lr\<lparr>lr_proba := \<lambda>_ _. []\<rparr>) demo_store = (Ret n, st')"
    by (simp add: train_lr_main_def load_required_arrays_def demo_store_def demo_lr_def np_load_mat_def np_load_i_def
        ncols_def validate_and_gate_def lin_report_def finish_lr_def write_ok_iff f64_isfinite_def list_all_iff np_save_def file_exists_def)
  from trained_weights_consistent [where X = "()" and y = "()", OF r] r show ?thesis by (auto simp: demo_lr_def)
qed

end
