(* ===== verification/Harness.thy ===== *)
theory Harness
  imports BankClient Compiler
begin

text \<open>
  The bank-side test harness: \<^verbatim>\<open>scripts/cnp_common.py\<close> (server processes, batched encrypted logits, error
  report), \<^verbatim>\<open>scripts/cnp_parity.py\<close> (the parity run with its server lifetime) and the parity gate
  \<^verbatim>\<open>scripts/parity_gate.py\<close>. The operating system is a record of what its calls answer; the vendor server
  is reached through a stub, as in the bank client.
\<close>

section \<open>Server processes\<close>

text \<open>What the operating system answers: the environment, the port the kernel picks, whether something
  accepts on a port, whether it can be bound, which files exist, and, for the process that is started,
  whether the \<open>i\<close>-th connection attempt succeeds and what \<^verbatim>\<open>poll\<close> reports after it failed.\<close>

record host =
  h_environ :: "string \<rightharpoonup> string"
  h_free_port :: nat
  h_accepts :: "nat \<Rightarrow> bool"
  h_bindable :: "nat \<Rightarrow> bool"
  h_exists :: "path \<Rightarrow> bool"
  h_answers :: "nat \<Rightarrow> bool"
  h_poll :: "nat \<Rightarrow> int option"

datatype pstatus = Running | Exited int | Terminated | Killed

record sproc =
  sp_argv :: "string list"
  sp_env :: "string \<rightharpoonup> string"
  sp_pin :: "nat set option"
  sp_status :: pstatus

definition build_dir :: "host \<Rightarrow> path" where
  "build_dir h = (case h_environ h ''PPFD_BUILD_DIR'' of None \<Rightarrow> ''build'' | Some d \<Rightarrow> d)"

definition server_binaries :: "host \<Rightarrow> string \<Rightarrow> path res" where
  "server_binaries h name =
     (if name = ''prod'' then Ret (build_dir h @ ''/vendor_server/vendor_server_160'')
      else if name = ''nomask_test'' then Ret (build_dir h @ ''/vendor_server/vendor_server_160_cnp_test'')
      else Raise KeyError)"

definition GRPC_MAX :: int where "GRPC_MAX = 8 * 1024 * 1024"
definition SLOT_BATCH :: nat where "SLOT_BATCH = 16"
definition CNP_BATCH :: nat where "CNP_BATCH = 32"

text \<open>\<^verbatim>\<open>PortInUseError\<close> is a \<^verbatim>\<open>RuntimeError\<close>.\<close>

definition ensure_port_free :: "host \<Rightarrow> nat \<Rightarrow> unit res" where
  "ensure_port_free h port =
     (if h_accepts h port then Raise RuntimeError
      else if \<not> h_bindable h port then Raise RuntimeError
      else Ret ())"

datatype wait_result = Up | Early int | Late

fun wait_port :: "host \<Rightarrow> nat \<Rightarrow> nat \<Rightarrow> wait_result" where
  "wait_port h 0 i = Late"
| "wait_port h (Suc k) i =
     (if h_answers h i then Up
      else case h_poll h i of Some code \<Rightarrow> Early code | None \<Rightarrow> wait_port h k (Suc i))"

definition launch_server ::
  "host \<Rightarrow> string \<Rightarrow> string \<Rightarrow> (string \<rightharpoonup> string) \<Rightarrow> nat option \<Rightarrow> nat option \<Rightarrow> nat set option
   \<Rightarrow> (string \<times> nat) res \<times> sproc option" where
  "launch_server h mode binary extra_env port omp_threads pin_cores =
     (case (case port of None \<Rightarrow> Ret (h_free_port h) | Some p \<Rightarrow> rbind (ensure_port_free h p) (\<lambda>_. Ret p)) of
        Inl e \<Rightarrow> (Inl e, None)
      | Inr p \<Rightarrow>
        let env1 = (h_environ h)(''PPFD_PACKING'' \<mapsto> mode);
            env2 = (case omp_threads of None \<Rightarrow> env1 | Some t \<Rightarrow> env1(''OMP_NUM_THREADS'' \<mapsto> py_str t));
            env = env2 ++ extra_env
        in (case server_binaries h binary of
              Inl e \<Rightarrow> (Inl e, None)
            | Inr exe \<Rightarrow>
              if \<not> h_exists h exe then (Raise FileNotFoundError, None)
              else
                let pin = (case pin_cores of Some c \<Rightarrow> if c = {} then None else Some c | None \<Rightarrow> None);
                    proc = \<lparr>sp_argv = [exe, ''artifacts/model_weights.bin'', py_str p], sp_env = env,
                            sp_pin = pin, sp_status = Running\<rparr>
                in (case wait_port h 80 0 of
                      Up \<Rightarrow> (Ret (''127.0.0.1'', p), Some proc)
                    | Early c \<Rightarrow> (Raise RuntimeError, Some (proc\<lparr>sp_status := Exited c\<rparr>))
                    | Late \<Rightarrow> (Raise RuntimeError, Some (proc\<lparr>sp_status := Terminated\<rparr>)))))"

text \<open>\<open>stops\<close>: the process ends within five seconds of the terminate signal.\<close>

definition stop_server :: "bool \<Rightarrow> sproc \<Rightarrow> sproc" where
  "stop_server stops p = (if stops then p\<lparr>sp_status := Terminated\<rparr> else p\<lparr>sp_status := Killed\<rparr>)"

section \<open>Test set, client and requests\<close>

definition np_load_vec :: "store \<Rightarrow> path \<Rightarrow> f64 ndarray res" where
  "np_load_vec st p = rbind (np_load_f st p) (\<lambda>v. Ret (vec v))"

definition load_test_set :: "store \<Rightarrow> (real list list \<times> int list) res" where
  "load_test_set st =
     rbind (np_load_mat st ''artifacts/X_test.npy'') (\<lambda>X.
     rbind (np_load_i st ''artifacts/y_test.npy'') (\<lambda>y. Ret (X, y)))"

definition make_client_args :: "string \<Rightarrow> client_args" where
  "make_client_args packing =
     \<lparr>a_packing = packing, a_public_key_path = ''artifacts/public_key_160.bin'',
      a_secret_key_path = ''artifacts/secret_key_160.bin'', a_wrapper_module = ''seal_wrapper_160'',
      a_galois_keys_path = (if packing = ''slot'' then Some ''artifacts/galois_keys_160.bin'' else None),
      a_use_tls = False, a_tls_ca = None, a_tls_cert = None, a_tls_key = None\<rparr>"

text \<open>\<^verbatim>\<open>buf = np.zeros((16, 256)); buf[:n] = X_chunk\<close>: the chunk's shape must match, or broadcast.\<close>

definition slot_buffer :: "real list list \<Rightarrow> real list list res" where
  "slot_buffer X_chunk =
     (if length X_chunk > SLOT_BATCH then Raise ValueError
      else rbind (rmap (\<lambda>r. if length r = 256 then Ret r
                            else if length r = 1 then Ret (replicate 256 (hd r)) else Raise ValueError) X_chunk)
        (\<lambda>rows. Ret (rows @ replicate (SLOT_BATCH - length rows) (replicate 256 0))))"

definition request_batch ::
  "('c, 'w, 'g) seal \<Rightarrow> ('s, 'w) stub \<Rightarrow> string \<Rightarrow> string \<Rightarrow> real list list \<Rightarrow> 's
   \<Rightarrow> (real list \<times> 'w inf_response) res \<times> 's" where
  "request_batch S stub uuid packing X_chunk srv =
     (let n = length X_chunk in
      case (if packing = ''cnp''
            then rbind (encrypt_cnp_batch S X_chunk (ncols X_chunk)) (\<lambda>ct.
              Ret \<lparr>rq_ct = ct, rq_id = uuid, rq_n = int n, rq_mode = CNP\<rparr>)
            else rbind (slot_buffer X_chunk) (\<lambda>buf.
              rbind (encrypt_batch S (concat buf)) (\<lambda>ct.
              Ret \<lparr>rq_ct = ct, rq_id = uuid, rq_n = int SLOT_BATCH, rq_mode = SLOT\<rparr>))) of
        Inl e \<Rightarrow> (Inl e, srv)
      | Inr req \<Rightarrow>
        (case stub_run stub req srv of
           (Inl e, srv1) \<Rightarrow> (Inl e, srv1)
         | (Inr (resp, tm), srv1) \<Rightarrow>
           if rs_status resp \<noteq> ST_OK then (Raise RuntimeError, srv1)
           else (rbind (if packing = ''cnp'' then decrypt_cnp_batch S (rs_ct resp) n
                        else rbind (decrypt_batch S (rs_ct resp) SLOT_BATCH) (\<lambda>raw. Ret (take n raw)))
                   (\<lambda>raw. Ret (raw, resp)), srv1)))"

text \<open>\<^verbatim>\<open>out[lo:hi] = raw\<close>.\<close>

definition np_assign :: "nat \<Rightarrow> nat \<Rightarrow> real list \<Rightarrow> real list \<Rightarrow> real list res" where
  "np_assign lo hi raw out =
     (if length raw = hi - lo then Ret (take lo out @ raw @ drop hi out)
      else if length raw = 1 then Ret (take lo out @ replicate (hi - lo) (hd raw) @ drop hi out)
      else Raise ValueError)"

text \<open>The loop \<^verbatim>\<open>for lo in range(0, X.shape[0], batch)\<close>; \<open>rb lo\<close> is the request of the batch at \<open>lo\<close>, and the
  batch sizes are positive.\<close>

function enc_loop ::
  "(nat \<Rightarrow> real list list \<Rightarrow> 's \<Rightarrow> (real list \<times> 'r) res \<times> 's) \<Rightarrow> nat \<Rightarrow> real list list \<Rightarrow> nat \<Rightarrow> real list \<Rightarrow> 's
   \<Rightarrow> real list res \<times> 's" where
  "enc_loop rb bsize X lo out srv =
     (if lo < length X \<and> 0 < bsize then
        let hi = min (lo + bsize) (length X) in
        (case rb lo (take (hi - lo) (drop lo X)) srv of
           (Inl e, srv1) \<Rightarrow> (Inl e, srv1)
         | (Inr (raw, _), srv1) \<Rightarrow>
           (case np_assign lo hi raw out of
              Inl e \<Rightarrow> (Inl e, srv1)
            | Inr out1 \<Rightarrow> enc_loop rb bsize X (lo + bsize) out1 srv1))
      else (Ret out, srv))"
  by pat_completeness auto
termination
  by (relation "measure (\<lambda>(rb, bsize, X, lo, out, srv). length X - lo)") auto

declare enc_loop.simps [simp del]

text \<open>\<open>junk\<close> are the uninitialised contents of \<^verbatim>\<open>np.empty\<close>; \<open>uuid lo\<close> the identifier drawn for the batch
  at \<open>lo\<close>.\<close>

definition encrypted_logits ::
  "('c, 'w, 'g) seal \<Rightarrow> ('s, 'w) stub \<Rightarrow> (nat \<Rightarrow> string) \<Rightarrow> (nat \<Rightarrow> real) \<Rightarrow> string \<Rightarrow> real list list \<Rightarrow> 's
   \<Rightarrow> real list res \<times> 's" where
  "encrypted_logits S stub uuid junk packing X srv =
     enc_loop (\<lambda>lo chunk. request_batch S stub (uuid lo) packing chunk)
       (if packing = ''cnp'' then CNP_BATCH else SLOT_BATCH) X 0 (map junk [0..<length X]) srv"

section \<open>Error report and parity run\<close>

record scores =
  roc_auc_score :: "int list \<Rightarrow> real list \<Rightarrow> real"
  average_precision_score :: "int list \<Rightarrow> real list \<Rightarrow> real"

record error_rep =
  n_samples :: nat
  max_abs_error :: real
  mean_abs_error :: real
  median_abs_error :: real
  abs_error_distribution :: "(string \<times> real) list"
  roc_auc_encrypted :: real
  pr_auc_encrypted :: real

definition error_report :: "scores \<Rightarrow> real list \<Rightarrow> real list \<Rightarrow> int list \<Rightarrow> error_rep res" where
  "error_report M plain_logits enc_logits y =
     (if length plain_logits \<noteq> length enc_logits then Raise ValueError
      else if enc_logits = [] then Raise ValueError
      else
        let e = map2 (\<lambda>p c. \<bar>p - c\<bar>) plain_logits enc_logits in
        Ret \<lparr>n_samples = length e, max_abs_error = lmax e, mean_abs_error = mean e, median_abs_error = np_percentile e 50,
          abs_error_distribution =
            [(''p50'', np_percentile e 50), (''p90'', np_percentile e 90), (''p99'', np_percentile e 99),
             (''p99.9'', np_percentile e (999 / 10)), (''min'', lmin e), (''max'', lmax e)],
          roc_auc_encrypted = roc_auc_score M y enc_logits,
          pr_auc_encrypted = average_precision_score M y enc_logits\<rparr>)"

record parity_rep =
  pr_report :: error_rep
  pr_roc_auc_plaintext :: real
  pr_packing :: string
  pr_batch_size :: nat

text \<open>The world of a parity run: the host, whether a stopped server ends in time, the connection made to an
  address, the wrapper's import and key loading, the clock and the identifiers.\<close>

record ('s, 'w) net =
  nt_host :: host
  nt_stops :: bool
  nt_connect :: "string \<times> nat \<Rightarrow> ('s, 'w) stub"
  nt_import :: "string \<Rightarrow> bool res"
  nt_init_seal :: "byte list \<Rightarrow> byte list \<Rightarrow> unit res"
  nt_clock :: "nat \<Rightarrow> real"
  nt_uuid :: "nat \<Rightarrow> string"
  nt_junk :: "nat \<Rightarrow> real"

definition make_client ::
  "('c, 'w, 'g) seal \<Rightarrow> (real \<Rightarrow> real) \<Rightarrow> ('s, 'w) net \<Rightarrow> fs \<Rightarrow> string \<times> nat \<Rightarrow> string \<Rightarrow> 's \<Rightarrow> client res \<times> 's" where
  "make_client S expit N fs address packing srv =
     client_init S expit (nt_connect N address) (nt_clock N) (nt_uuid N 0) (nt_import N) (nt_init_seal N) fs
       (make_client_args packing) srv"

definition client_and_logits ::
  "('c, 'w, 'g) seal \<Rightarrow> (real \<Rightarrow> real) \<Rightarrow> ('s, 'w) net \<Rightarrow> fs \<Rightarrow> string \<times> nat \<Rightarrow> string \<Rightarrow> real list list \<Rightarrow> 's
   \<Rightarrow> real list res \<times> 's" where
  "client_and_logits S expit N fs address mode X srv =
     (case make_client S expit N fs address mode srv of
        (Inl e, srv1) \<Rightarrow> (Inl e, srv1)
      | (Inr _, srv1) \<Rightarrow> encrypted_logits S (nt_connect N address) (nt_uuid N) (nt_junk N) mode X srv1)"

text \<open>The outcome: the report or exception, the process started (if any) with its final status, the vendor's
  state and the report file written.\<close>

definition run_parity ::
  "('c, 'w, 'g) seal \<Rightarrow> (real \<Rightarrow> real) \<Rightarrow> scores \<Rightarrow> ('s, 'w) net \<Rightarrow> store \<Rightarrow> string \<Rightarrow> nat option \<Rightarrow> path option
   \<Rightarrow> (string \<times> nat) option \<Rightarrow> 's \<Rightarrow> parity_rep res \<times> sproc option \<times> 's \<times> path option" where
  "run_parity S expit M N st mode max_samples out_path address srv =
     (case rbind (load_model (np_load_vec st) (bins st)) (\<lambda>(w, bias).
           rbind (load_test_set st) (\<lambda>(X0, y0).
           let X = (case max_samples of None \<Rightarrow> X0 | Some k \<Rightarrow> take k X0);
               y = (case max_samples of None \<Rightarrow> y0 | Some k \<Rightarrow> take k y0)
           in if X0 \<noteq> [] \<and> ncols X0 \<noteq> length w then Raise ValueError
              else Ret (X, y, map (\<lambda>r. dot r (map f64_real w) + f64_real bias) X))) of
        Inl e \<Rightarrow> (Inl e, None, srv, None)
      | Inr (X, y, plain) \<Rightarrow>
        let (addr, proc) = (case address of
              None \<Rightarrow> launch_server (nt_host N) mode ''prod'' Map.empty None None None
            | Some a \<Rightarrow> (Ret a, None))
        in (case addr of
              Inl e \<Rightarrow> (Inl e, proc, srv, None)
            | Inr a \<Rightarrow>
              let (enc, srv1) = client_and_logits S expit N (bins st) a mode X srv;
                  proc1 = map_option (stop_server (nt_stops N)) proc
              in (case rbind enc (\<lambda>ev. error_report M plain ev y) of
                    Inl e \<Rightarrow> (Inl e, proc1, srv1, None)
                  | Inr rep \<Rightarrow>
                    (Ret \<lparr>pr_report = rep, pr_roc_auc_plaintext = roc_auc_score M y plain, pr_packing = mode,
                          pr_batch_size = (if mode = ''cnp'' then CNP_BATCH else SLOT_BATCH)\<rparr>,
                     proc1, srv1, (if truthy out_path then out_path else None)))))"

section \<open>The parity gate\<close>

definition DEFAULT_TOLERANCE :: pyfloat where "DEFAULT_TOLERANCE = Fin (1 / 10000)"

text \<open>Probabilities are Python floats here: they come back over the network and may be NaN or infinite.
  A feature vector has one or two dimensions.\<close>

definition verify_encrypted_output ::
  "(real \<Rightarrow> real) \<Rightarrow> pyfloat list \<Rightarrow> real ndarray \<Rightarrow> real list \<Rightarrow> real \<Rightarrow> pyfloat \<Rightarrow> (bool \<times> pyfloat) res" where
  "verify_encrypted_output expit probs feature_vector weights bias tol =
     (let fv_shape = (if length (shape feature_vector) = 1 then 1 # shape feature_vector else shape feature_vector);
          n = fv_shape ! 0; d = fv_shape ! 1
      in if n \<noteq> length probs then Raise ValueError
         else if d \<noteq> length weights then Raise ValueError
         else
           let rows = map (\<lambda>k. take d (drop (d * k) (elems feature_vector))) [0..<n];
               expected = map (\<lambda>r. expit (dot r weights + bias)) rows
           in rbind (np_max (map2 (\<lambda>p e. pf_abs (pf_sub p (Fin e))) probs expected)) (\<lambda>max_abs_error.
              Ret (pf_lt max_abs_error tol, max_abs_error)))"

definition self_test_args :: client_args where
  "self_test_args =
     \<lparr>a_packing = ''slot'', a_public_key_path = ''artifacts/public_key_160.bin'',
      a_secret_key_path = ''artifacts/secret_key_160.bin'', a_wrapper_module = ''seal_wrapper_160'',
      a_galois_keys_path = Some ''artifacts/galois_keys_160.bin'',
      a_use_tls = False, a_tls_ca = None, a_tls_cert = None, a_tls_key = None\<rparr>"

definition self_test ::
  "('c, 'w, 'g) seal \<Rightarrow> (real \<Rightarrow> real) \<Rightarrow> ('s, 'w) net \<Rightarrow> store \<Rightarrow> 's \<Rightarrow> int res \<times> 's" where
  "self_test S expit N st srv =
     (let stub = nt_connect N (''127.0.0.1'', 50052) in
      case client_init S expit stub (nt_clock N) (nt_uuid N 0) (nt_import N) (nt_init_seal N) (bins st) self_test_args srv of
        (Inl e, srv1) \<Rightarrow> (Inl e, srv1)
      | (Inr cl, srv1) \<Rightarrow>
        (case rbind (np_load_mat st ''artifacts/X_test.npy'') (\<lambda>X.
              rbind (if X = [] then Raise IndexError else if length (hd X) \<noteq> 256 then Raise ValueError
                     else Ret \<lparr>shape = [1, 256], elems = hd X\<rparr>) (\<lambda>x.
              rbind (load_model_weights (bins st) None) (\<lambda>(w, b). Ret (x, map f64_real w, f64_real b)))) of
           Inl e \<Rightarrow> (Inl e, srv1)
         | Inr (x, w, b) \<Rightarrow>
           (case run_inference S expit stub (nt_clock N) (nt_uuid N 1) x cl srv1 of
              (Inl e, _, srv2) \<Rightarrow> (Inl e, srv2)
            | (Inr r, _, srv2) \<Rightarrow>
              (rbind (verify_encrypted_output expit (map Fin (fraud_probabilities r)) x w b DEFAULT_TOLERANCE) (\<lambda>(passed, _).
               Ret (if passed then 0 else 1)), srv2))))"

section \<open>Process lifetime\<close>

lemma wait_port_Up:
  "wait_port h k i = Up \<longleftrightarrow> (\<exists>j<k. h_answers h (i + j) \<and> (\<forall>l<j. \<not> h_answers h (i + l) \<and> h_poll h (i + l) = None))"
proof (induction k arbitrary: i)
  case (Suc k)
  show ?case
  proof (cases "h_answers h i")
    case True
    then show ?thesis by (auto intro: exI [of _ 0])
  next
    case False
    have "(\<exists>j<Suc k. h_answers h (i + j) \<and> (\<forall>l<j. \<not> h_answers h (i + l) \<and> h_poll h (i + l) = None)) \<longleftrightarrow>
      h_poll h i = None \<and> (\<exists>j<k. h_answers h (Suc i + j) \<and> (\<forall>l<j. \<not> h_answers h (Suc i + l) \<and> h_poll h (Suc i + l) = None))"
      using False by (auto simp: Ex_less_Suc2 All_less_Suc2)
    then show ?thesis using False Suc.IH [of "Suc i"] by (auto split: option.splits)
  qed
qed simp

lemma stop_server_stopped: "sp_status (stop_server b p) \<noteq> Running"
  by (simp add: stop_server_def)

lemma launch_running_iff:
  "launch_server h mode bin ex port omp pin = (r, proc) \<Longrightarrow>
     (\<exists>a. r = Ret a) \<longleftrightarrow> (\<exists>p. proc = Some p \<and> sp_status p = Running)"
  by (auto simp: launch_server_def Let_def split: sum.splits option.splits if_splits wait_result.splits)

section \<open>Batched requests\<close>

text \<open>A service that answers batches of at most \<open>bsize\<close> rows in order, each value within \<open>e\<close> of \<open>f\<close> of
  its row, and keeps \<open>I\<close> of the server state; \<open>good\<close> are the rows it accepts.\<close>

locale batch_service =
  fixes rb :: "nat \<Rightarrow> real list list \<Rightarrow> 's \<Rightarrow> (real list \<times> 'r) res \<times> 's" and bsize :: nat
    and I :: "'s \<Rightarrow> bool" and good :: "real list \<Rightarrow> bool" and f :: "real list \<Rightarrow> real" and e :: real
  assumes bsize: "0 < bsize"
    and answer: "I srv \<Longrightarrow> c \<noteq> [] \<Longrightarrow> length c \<le> bsize \<Longrightarrow> list_all good c \<Longrightarrow>
      \<exists>raw resp srv'. rb lo c srv = (Ret (raw, resp), srv') \<and> I srv' \<and> length raw = length c
        \<and> (\<forall>k<length c. \<bar>raw ! k - f (c ! k)\<bar> \<le> e)"
begin

lemma loop_accurate:
  assumes "I srv" "list_all good X" "length out = length X"
    and "\<And>k. k < lo \<Longrightarrow> k < length X \<Longrightarrow> \<bar>out ! k - f (X ! k)\<bar> \<le> e"
  shows "\<exists>zs srv'. enc_loop rb bsize X lo out srv = (Ret zs, srv') \<and> I srv' \<and> length zs = length X
    \<and> (\<forall>k<length X. \<bar>zs ! k - f (X ! k)\<bar> \<le> e)"
  using assms
proof (induction "length X - lo" arbitrary: lo out srv rule: less_induct)
  case less
  show ?case
  proof (cases "lo < length X")
    case False
    then show ?thesis using less.prems by (subst enc_loop.simps) auto
  next
    case True
    let ?hi = "min (lo + bsize) (length X)"
    let ?c = "take (?hi - lo) (drop lo X)"
    have len: "length ?c = ?hi - lo" by simp
    have c: "?c \<noteq> []" "length ?c \<le> bsize" "list_all good ?c"
      using True bsize less.prems(2) by (auto simp: list_all_iff dest: in_set_takeD in_set_dropD)
    obtain raw resp srv' where r: "rb lo ?c srv = (Ret (raw, resp), srv')" "I srv'" "length raw = ?hi - lo"
      "\<forall>k<?hi - lo. \<bar>raw ! k - f (?c ! k)\<bar> \<le> e"
      using answer [OF less.prems(1) c, of lo] unfolding len by blast
    let ?out = "take lo out @ raw @ drop ?hi out"
    have a: "np_assign lo ?hi raw out = Ret ?out" using r(3) by (simp add: np_assign_def)
    have out: "length ?out = length X" using less.prems(3) r(3) True by simp
    have ok: "\<bar>?out ! k - f (X ! k)\<bar> \<le> e" if k: "k < lo + bsize" "k < length X" for k
    proof (cases "k < lo")
      case True
      then show ?thesis using less.prems(3,4) k(2) by (simp add: nth_append)
    next
      case False
      then have "k - lo < ?hi - lo" using k by simp
      moreover have "?out ! k = raw ! (k - lo)" "?c ! (k - lo) = X ! k"
        using False \<open>k - lo < ?hi - lo\<close> r(3) less.prems(3) k True by (simp_all add: nth_append)
      ultimately show ?thesis using r(4) by metis
    qed
    have "length X - (lo + bsize) < length X - lo" using True bsize by simp
    from less.hyps [OF this r(2) less.prems(2) out ok] show ?thesis
      using True bsize r(1) a by (subst enc_loop.simps) (simp add: Let_def)
  qed
qed

end

lemma recorded_weights [simp]: "sv_w (recorded ok sv) = sv_w sv" "sv_b (recorded ok sv) = sv_b sv"
  by (simp_all add: recorded_def)

definition mat_nd :: "real list list \<Rightarrow> real ndarray" where
  "mat_nd c = \<lparr>shape = [length c, 256], elems = concat c\<rparr>"

definition row256 :: "real list \<Rightarrow> bool" where
  "row256 r \<longleftrightarrow> length r = 256"

lemma mat_nd_batch:
  assumes "list_all row256 c"
  shows "batch (length c) (mat_nd c)" "chunks 256 (elems (mat_nd c)) = c"
proof -
  have l: "\<And>r. r \<in> set c \<Longrightarrow> length r = 256" using assms by (simp add: list_all_iff row256_def)
  show "batch (length c) (mat_nd c)" using length_concat_const [OF l] by (simp add: batch_def mat_nd_def)
  show "chunks 256 (elems (mat_nd c)) = c" using l by (simp add: mat_nd_def chunks_concat)
qed

lemma slot_buffer_ok:
  assumes "list_all row256 c" "length c \<le> 16"
  shows "\<exists>buf. slot_buffer c = Ret buf \<and> concat buf = slot_vector (length c) (mat_nd c)"
proof -
  have "rmap (\<lambda>r. if length r = 256 then Ret r else if length r = 1 then Ret (replicate 256 (hd r)) else Raise ValueError) c
      = Ret (map (\<lambda>r. r) c)"
    using assms(1) by (intro rmap_Ret) (auto simp: list_all_iff row256_def)
  moreover have "concat (replicate k (replicate 256 (0::real))) = replicate (k * 256) 0" for k
    by (induction k) (simp_all flip: replicate_add)
  ultimately show ?thesis
    using assms(2) by (simp add: slot_buffer_def SLOT_BATCH_def slot_vector_def mat_nd_def)
qed

definition ready :: "packing \<Rightarrow> 'g option \<Rightarrow> real list \<Rightarrow> real \<Rightarrow> 'g server \<Rightarrow> bool" where
  "ready mode gk w b sv \<longleftrightarrow> sv_mode sv = mode \<and> pstate (sv_sm sv) = PROV_READY \<and> sv_gk sv = gk \<and> sv_w sv = w \<and> sv_b sv = b"

lemma ready_recorded [simp]:
  "ready mode gk w b sv \<Longrightarrow> ready mode gk w b (recorded True sv)"
  "ready mode gk w b (sv\<lparr>sv_rotations := n\<rparr>) = ready mode gk w b sv"
  by (auto simp: ready_def record_ok_ready)

context ckks_slots
begin

lemma slot_request:
  assumes sv: "ready SLOT (Some gk) w b sv" and w: "length w = 256"
    and c: "c \<noteq> []" "length c \<le> 16" "list_all row256 c"
  shows "\<exists>raw resp sv'. request_batch S (vendor_stub S rnd tm) u ''slot'' c sv = (Ret (raw, resp), sv')
    \<and> ready SLOT (Some gk) w b sv' \<and> length raw = length c
    \<and> (\<forall>k<length c. \<bar>raw ! k - (dot (c ! k) w + b)\<bar> \<le> lane_error e_enc e_mul e_rot e_add w)"
proof -
  let ?n = "length c" and ?X = "mat_nd c"
  let ?v = "slot_vector ?n ?X"
  note X = mat_nd_batch [OF c(3)]
  have v: "length ?v = 4096" using length_slot_vector [OF X(1) c(2)] .
  obtain buf where buf: "slot_buffer c = Ret buf" "concat buf = ?v" using slot_buffer_ok [OF c(3,2)] by blast
  obtain d where d: "slot_circuit S gk w b (enc_slots S ?v) = Ret d"
    using slot_circuit_lane [OF v w, of 0 b] by auto
  let ?raw = "map (\<lambda>k. dec_slots S d ! (k * 256)) [0..<16]"
  have enc: "encrypt_batch S ?v = Ret (save_ct S (enc_slots S ?v))" using v by (simp add: encrypt_batch_def)
  have dec: "decrypt_batch S (Some (save_ct S d)) SLOT_BATCH = Ret ?raw"
    by (simp add: decrypt_batch_def load_save SLOT_BATCH_def)
  have ans: "stub_run (vendor_stub S rnd tm) \<lparr>rq_ct = save_ct S (enc_slots S ?v), rq_id = u, rq_n = int SLOT_BATCH, rq_mode = SLOT\<rparr> sv =
    (Ret (\<lparr>rs_status = ST_OK, rs_ct = Some (save_ct S d), rs_id = u\<rparr>, tm), (recorded True sv)\<lparr>sv_rotations := sv_rotations sv + 8\<rparr>)"
    using ready_slot_answer [OF _ _ _ v, of sv d rnd tm u "int SLOT_BATCH"] sv d by (auto simp: ready_def)
  have "\<bar>take ?n ?raw ! k - (dot (c ! k) w + b)\<bar> \<le> lane_error e_enc e_mul e_rot e_add w" if k: "k < ?n" for k
  proof -
    have "(\<Sum>j<256. ?v ! (256 * k + j) * w ! j) = dot (c ! k) w"
      unfolding lane_dot [OF X(1) k w, unfolded X(2), symmetric] using slot_vector_lane [OF X(1) k] X(2) by (intro sum.cong) auto
    then show ?thesis using slot_circuit_lane [OF v w, of k b] d k c(2) by (simp add: mult.commute)
  qed
  then show ?thesis
    using sv c(2) by (simp add: request_batch_def buf enc ans dec)
qed

lemma slot_service:
  assumes "length w = 256"
  shows "batch_service (\<lambda>lo c. request_batch S (vendor_stub S rnd tm) (uuid lo) ''slot'' c) 16 (ready SLOT (Some gk) w b) row256
    (\<lambda>r. dot r w + b) (lane_error e_enc e_mul e_rot e_add w)"
  using slot_request [OF _ assms] by unfold_locales auto

end

context ckks_coeffs
begin

lemma cnp_request:
  assumes sv: "ready CNP None w b sv" and w: "length w = 256"
    and c: "c \<noteq> []" "length c \<le> 32" "list_all row256 c"
    and B: "\<And>r. r \<in> set c \<Longrightarrow> \<bar>dot r w\<bar> + e_enc * (\<Sum>v\<leftarrow>w. \<bar>v\<bar>) + e_mul \<le> B" "\<bar>b\<bar> \<le> B"
  shows "\<exists>raw resp sv'. request_batch S (vendor_stub S rnd tm) u ''cnp'' c sv = (Ret (raw, resp), sv')
    \<and> ready CNP None w b sv' \<and> length raw = length c
    \<and> (\<forall>k<length c. \<bar>raw ! k - (dot (c ! k) w + b)\<bar> \<le> e_enc * (\<Sum>v\<leftarrow>w. \<bar>v\<bar>) + e_mul + e_add)"
proof -
  let ?n = "length c" and ?X = "mat_nd c"
  note X = mat_nd_batch [OF c(3)]
  let ?v = "pack_lanes c"
  have n: "1 \<le> ?n" using c(1) by (cases c) auto
  have v: "length ?v = 8192" using pack_lanes_lane(1) [OF X(1) c(2)] X(2) by simp
  let ?d = "cnp_circuit S rnd w b (enc_coeffs S ?v)"
  have nc: "ncols c = 256" using c by (cases c) (auto simp: ncols_def row256_def)
  have enc: "encrypt_cnp_batch S c (ncols c) = Ret (save_ct S (enc_coeffs S ?v))"
    using n c(1,2) nc by (simp add: encrypt_cnp_batch_def)
  have dec: "decrypt_cnp_batch S (Some (save_ct S ?d)) ?n = Ret (decode_lane_outputs S ?d ?n)"
    using n c(1,2) by (simp add: decrypt_cnp_batch_def cload_save)
  have ans: "stub_run (vendor_stub S rnd tm) \<lparr>rq_ct = save_ct S (enc_coeffs S ?v), rq_id = u, rq_n = int ?n, rq_mode = CNP\<rparr> sv =
    (Ret (\<lparr>rs_status = ST_OK, rs_ct = Some (save_ct S ?d), rs_id = u\<rparr>, tm), recorded True sv)"
    using ready_cnp_answer [OF _ _ _ v n c(2), of sv rnd tm u] sv by (auto simp: ready_def)
  have "\<bar>decode_lane_outputs S ?d ?n ! k - (dot (c ! k) w + b)\<bar> \<le> e_enc * (\<Sum>v\<leftarrow>w. \<bar>v\<bar>) + e_mul + e_add" if k: "k < ?n" for k
  proof -
    have e: "(\<Sum>j<256. ?v ! (256 * k + j) * w ! j) = dot (c ! k) w"
      unfolding lane_dot [OF X(1) k w, unfolded X(2), symmetric] using pack_lanes_lane(2) [OF X(1) c(2) k] X(2) by (intro sum.cong) auto
    have "k < 32" using k c(2) by simp
    from cnp_circuit_lane [OF v w this, of b rnd] B(1) [of "c ! k"] B(2) k show ?thesis
      unfolding e by (simp add: decode_lane_outputs_def)
  qed
  then show ?thesis
    using sv by (simp add: request_batch_def enc ans dec decode_lane_outputs_def)
qed

lemma cnp_service:
  assumes "length w = 256" "\<bar>b\<bar> \<le> B"
  shows "batch_service (\<lambda>lo c. request_batch S (vendor_stub S rnd tm) (uuid lo) ''cnp'' c) 32 (ready CNP None w b)
    (\<lambda>r. row256 r \<and> \<bar>dot r w\<bar> + e_enc * (\<Sum>v\<leftarrow>w. \<bar>v\<bar>) + e_mul \<le> B)
    (\<lambda>r. dot r w + b) (e_enc * (\<Sum>v\<leftarrow>w. \<bar>v\<bar>) + e_mul + e_add)"
  using cnp_request [OF _ assms(1) _ _ _ _ assms(2)] by unfold_locales (auto simp: list_all_iff)

end

interpretation plain_slot_service: batch_service
    "\<lambda>lo c. request_batch plain_seal (vendor_stub plain_seal rnd tm) (uuid lo) ''slot'' c" 16
    "ready SLOT (Some ()) (replicate 256 2) 1" row256 "\<lambda>r. dot r (replicate 256 2) + 1" "lane_error 0 0 0 0 (replicate 256 2)"
  for rnd tm uuid
  by (rule plain_slots.slot_service) simp

section \<open>Properties of the harness\<close>

text \<open>Starting a server: \<^verbatim>\<open>launch_server\<close> returns an address exactly when it leaves a running process,
  and then that process answered one of the 80 connection attempts before any poll saw it exit; its
  environment carries the packing mode unless \<^verbatim>\<open>extra_env\<close> overrides it, and an explicitly requested
  port was neither accepting connections nor unbindable before. On every other path nothing is left
  running.\<close>

theorem launch_server_outcome:
  assumes "launch_server h mode bin ex port omp pin = (r, proc)"
  shows "((\<exists>a. r = Ret a) \<longleftrightarrow> (\<exists>p. proc = Some p \<and> sp_status p = Running))
    \<and> (\<forall>a n. r = Ret (a, n) \<longrightarrow> (\<exists>p. proc = Some p \<and> a = ''127.0.0.1'' \<and> n = (case port of None \<Rightarrow> h_free_port h | Some q \<Rightarrow> q)
         \<and> sp_env p ''PPFD_PACKING'' = (case ex ''PPFD_PACKING'' of None \<Rightarrow> Some mode | Some v \<Rightarrow> Some v)
         \<and> (\<exists>i<80. h_answers h i \<and> (\<forall>j<i. \<not> h_answers h j \<and> h_poll h j = None))
         \<and> (\<forall>q. port = Some q \<longrightarrow> \<not> h_accepts h q \<and> h_bindable h q)))"
proof (intro conjI allI impI)
  show "(\<exists>a. r = Ret a) \<longleftrightarrow> (\<exists>p. proc = Some p \<and> sp_status p = Running)"
    by (rule launch_running_iff [OF assms])
next
  fix a n assume "r = Ret (a, n)"
  with assms show "\<exists>p. proc = Some p \<and> a = ''127.0.0.1'' \<and> n = (case port of None \<Rightarrow> h_free_port h | Some q \<Rightarrow> q)
         \<and> sp_env p ''PPFD_PACKING'' = (case ex ''PPFD_PACKING'' of None \<Rightarrow> Some mode | Some v \<Rightarrow> Some v)
         \<and> (\<exists>i<80. h_answers h i \<and> (\<forall>j<i. \<not> h_answers h j \<and> h_poll h j = None))
         \<and> (\<forall>q. port = Some q \<longrightarrow> \<not> h_accepts h q \<and> h_bindable h q)"
    using wait_port_Up [of h 80 0]
    by (auto simp: launch_server_def Let_def ensure_port_free_def map_add_def res_simps
        split: sum.splits option.splits if_splits wait_result.splits)
qed

definition demo_host :: host where
  "demo_host = \<lparr>h_environ = Map.empty, h_free_port = 40000, h_accepts = (\<lambda>_. False), h_bindable = (\<lambda>_. True),
     h_exists = (\<lambda>_. True), h_answers = (\<lambda>i. i = 2), h_poll = (\<lambda>_. None)\<rparr>"

theorem launch_server_outcome_witness:
  "\<exists>p. launch_server demo_host ''cnp'' ''prod'' Map.empty (Some 50052) None None = (Ret (''127.0.0.1'', 50052), Some p)
     \<and> sp_env p ''PPFD_PACKING'' = Some ''cnp'' \<and> sp_status p = Running"
proof -
  have "wait_port demo_host 80 0 = Up" unfolding wait_port_Up
    by (rule exI [of _ 2]) (simp add: demo_host_def)
  then obtain p where r: "launch_server demo_host ''cnp'' ''prod'' Map.empty (Some 50052) None None = (Ret (''127.0.0.1'', 50052), Some p)"
    by (simp add: launch_server_def server_binaries_def ensure_port_free_def demo_host_def Let_def)
  from launch_server_outcome [OF r] r show ?thesis by auto
qed

text \<open>A parity run leaves no server behind: whatever happens (missing artifacts, a client that cannot be
  constructed, a failing request, an unusable report), a process the run started is not running when it
  returns, a server it was given an address of is not touched, and a report file is written only by a
  successful run.\<close>

theorem parity_leaves_no_server:
  assumes "run_parity S expit M N st mode ms out addr srv = (r, proc, srv', fl)"
  shows "(\<forall>p. proc = Some p \<longrightarrow> sp_status p \<noteq> Running) \<and> (addr \<noteq> None \<longrightarrow> proc = None)
    \<and> (fl \<noteq> None \<longrightarrow> (\<exists>rep. r = Ret rep) \<and> fl = out)"
proof -
  let ?l = "launch_server (nt_host N) mode ''prod'' Map.empty None None None"
  obtain r0 p0 where l: "?l = (r0, p0)" by (cases ?l)
  have "sp_status p \<noteq> Running" if "r0 = Inl e" "p0 = Some p" for e p
    using launch_running_iff [OF l] that by auto
  then show ?thesis
    using assms by (auto simp: run_parity_def l Let_def stop_server_stopped
        split: sum.splits option.splits if_splits prod.splits)
qed

theorem parity_leaves_no_server_witness:
  "\<exists>r p srv' fl. run_parity plain_seal (\<lambda>z. z) \<lparr>roc_auc_score = \<lambda>_ _. 0, average_precision_score = \<lambda>_ _. 0\<rparr>
      \<lparr>nt_host = demo_host, nt_stops = False, nt_connect = (\<lambda>_. vendor_stub plain_seal (\<lambda>_. 0) demo_timing), nt_import = (\<lambda>_. Ret True),
       nt_init_seal = (\<lambda>_ _. Ret ()), nt_clock = (\<lambda>_. 0), nt_uuid = (\<lambda>_. ''u''), nt_junk = (\<lambda>_. 0)\<rparr>
      demo_store ''cnp'' None None None (demo_server CNP) = (r, Some p, srv', fl) \<and> sp_status p \<noteq> Running"
proof -
  let ?M = "\<lparr>roc_auc_score = \<lambda>_ _. 0, average_precision_score = \<lambda>_ _. 0\<rparr>"
  let ?N = "\<lparr>nt_host = demo_host, nt_stops = False, nt_connect = (\<lambda>_. vendor_stub plain_seal (\<lambda>_. 0) demo_timing), nt_import = (\<lambda>_. Ret True),
       nt_init_seal = (\<lambda>_ _. Ret ()), nt_clock = (\<lambda>_. 0), nt_uuid = (\<lambda>_. ''u''), nt_junk = (\<lambda>_. 0)\<rparr>"
  have "wait_port demo_host 80 0 = Up" unfolding wait_port_Up
    by (rule exI [of _ 2]) (simp add: demo_host_def)
  then obtain p0 where l: "launch_server demo_host ''cnp'' ''prod'' Map.empty None None None = (Ret (''127.0.0.1'', 40000), Some p0)"
    by (simp add: launch_server_def server_binaries_def demo_host_def Let_def)
  obtain r srv' fl where r: "run_parity plain_seal (\<lambda>z. z) ?M ?N demo_store ''cnp'' None None None (demo_server CNP)
      = (r, Some (stop_server False p0), srv', fl)"
    by (simp add: run_parity_def l load_model_def np_load_vec_def np_load_f_def load_test_set_def np_load_mat_def np_load_i_def
        read_bytes_def demo_store_def ncols_def client_and_logits_def make_client_def make_client_args_def client_init_def
        load_wrapper_module_def weights_image_def Let_def)
  from parity_leaves_no_server [OF r] r show ?thesis by blast
qed

lemma enc_slot_eq:
  "encrypted_logits S stub uuid junk ''slot'' X srv =
     enc_loop (\<lambda>lo c. request_batch S stub (uuid lo) ''slot'' c) 16 X 0 (map junk [0..<length X]) srv"
  "encrypted_logits S stub uuid junk ''cnp'' X srv =
     enc_loop (\<lambda>lo c. request_batch S stub (uuid lo) ''cnp'' c) 32 X 0 (map junk [0..<length X]) srv"
  by (simp_all add: encrypted_logits_def SLOT_BATCH_def CNP_BATCH_def)

lemma error_report_bound:
  assumes "length plain = length zs" "zs \<noteq> []" "\<And>k. k < length zs \<Longrightarrow> \<bar>zs ! k - plain ! k\<bar> \<le> e"
  shows "\<exists>rep. error_report M plain zs y = Ret rep \<and> n_samples rep = length zs \<and> max_abs_error rep \<le> e"
proof -
  let ?e = "map2 (\<lambda>p c. \<bar>p - c\<bar>) plain zs"
  have "?e \<noteq> []" using assms(1,2) by (cases plain; cases zs) auto
  then have "lmax ?e \<in> set ?e" by (rule lmax_in)
  then have "lmax ?e \<le> e" using assms by (auto simp: in_set_conv_nth abs_minus_commute)
  then show ?thesis using assms(1,2) by (simp add: error_report_def Let_def)
qed



section \<open>The parity gate\<close>

lemma pf_abs_sub_lt: "pf_lt (pf_abs (pf_sub p (Fin e))) (Fin t) \<longleftrightarrow> (\<exists>x. p = Fin x \<and> \<bar>x - e\<bar> < t)"
  by (cases p) (auto simp: pf_sub_def)

lemma verify_2d:
  assumes "shape fv = [n, length w]"
  shows "verify_encrypted_output expit ps fv w b tol =
    (if n \<noteq> length ps \<or> n = 0 then Raise ValueError
     else rbind (np_max (map (\<lambda>k. pf_abs (pf_sub (ps ! k) (Fin (expit (dot (take (length w) (drop (length w * k) (elems fv))) w + b))))) [0..<n]))
       (\<lambda>m. Ret (pf_lt m tol, m)))"
proof -
  have "map2 (\<lambda>p e. pf_abs (pf_sub p (Fin e))) ps (map f [0..<n]) = map (\<lambda>k. pf_abs (pf_sub (ps ! k) (Fin (f k)))) [0..<n]"
    if "n = length ps" for f :: "nat \<Rightarrow> real"
    using that by (intro nth_equalityI) simp_all
  then show ?thesis using assms by (auto simp: verify_encrypted_output_def Let_def comp_def)
qed

text \<open>C24. The parity gate decides exactly the claim it stands for, and fails closed: on a batch of \<open>n\<close> rows with
  one probability per row it returns, and passes if and only if every probability is a finite number within
  the tolerance of the plaintext model's probability for its row; a NaN or infinite probability never passes.
  A row count that differs from the number of probabilities, and an empty batch, raise \<^verbatim>\<open>ValueError\<close>.\<close>

theorem parity_gate_exact:
  assumes "shape fv = [n, length w]"
  shows "(n = length ps \<and> n > 0 \<longrightarrow> (\<exists>m. verify_encrypted_output expit ps fv w b (Fin tol) =
        Ret (\<forall>k<n. \<exists>p. ps ! k = Fin p \<and> \<bar>p - expit (dot (take (length w) (drop (length w * k) (elems fv))) w + b)\<bar> < tol, m)))
    \<and> (n \<noteq> length ps \<or> n = 0 \<longrightarrow> verify_encrypted_output expit ps fv w b (Fin tol) = Raise ValueError)"
proof -
  let ?xs = "map (\<lambda>k. pf_abs (pf_sub (ps ! k) (Fin (expit (dot (take (length w) (drop (length w * k) (elems fv))) w + b))))) [0..<n]"
  have "\<exists>m. np_max ?xs = Inr m" if "n > 0" using that by (simp add: np_max_Ret_iff)
  then show ?thesis
    unfolding verify_2d [OF assms] by (auto simp: np_max_lt_iff pf_abs_sub_lt)
qed

theorem parity_gate_exact_witness:
  "\<exists>m. verify_encrypted_output (\<lambda>z. z) [Fin 8, NaN] \<lparr>shape = [2, 1], elems = [3, 3]\<rparr> [2] 1 (Fin 2) = Ret (False, m)"
proof -
  have s: "shape \<lparr>shape = [2, 1], elems = [3, 3]\<rparr> = [2, length [2::real]]" by simp
  obtain m where m: "verify_encrypted_output (\<lambda>z. z) [Fin 8, NaN] \<lparr>shape = [2, 1], elems = [3, 3]\<rparr> [2] 1 (Fin 2) =
      Ret (\<forall>k<2. \<exists>p. [Fin 8, NaN] ! k = Fin p \<and> \<bar>p - (dot (take (length [2::real]) (drop (length [2::real] * k) [3, 3])) [2] + 1)\<bar> < 2, m)"
    using parity_gate_exact [OF s, of "[Fin 8, NaN]" "\<lambda>z. z" 1 2] by auto
  have "\<not> (\<forall>k<2. \<exists>p. [Fin 8, NaN] ! k = Fin p \<and> \<bar>p - (dot (take (length [2::real]) (drop (length [2::real] * k) [3, 3])) [2] + 1)\<bar> < 2)"
    by (auto intro!: exI [of _ 1])
  with m show ?thesis by simp
qed

section \<open>The self test\<close>

lemma single_row:
  assumes "batch 1 X"
  shows "chunks 256 (elems X) = [elems X]"
proof -
  have "length (elems X) = 256" "elems X \<noteq> []" using assms by (auto simp: batch_def)
  then show ?thesis by (simp add: chunks_step)
qed

context ckks_slots
begin

lemma slot_run_once:
  assumes sv: "ready SLOT (Some gk) w b sv" "length w = 256"
    and cl: "client_wf cl" "cl_packing cl = SLOT" and X: "batch 1 X"
  shows "\<exists>r z cl' sv'. run_inference S expit (vendor_stub S rnd tm) clk u X cl sv = (Ret r, cl', sv')
    \<and> ready SLOT (Some gk) w b sv' \<and> client_wf cl' \<and> cl_packing cl' = SLOT \<and> fraud_probabilities r = [expit z]
    \<and> \<bar>z - (dot (elems X) w + b)\<bar> \<le> lane_error e_enc e_mul e_rot e_add w"
proof -
  let ?v = "slot_vector 1 X"
  have v: "length ?v = 4096" using length_slot_vector [OF X] by simp
  obtain d where d: "slot_circuit S gk w b (enc_slots S ?v) = Ret d"
    using slot_circuit_lane [OF v sv(2), of 0 b] by auto
  have dec: "decrypt_batch S (Some (save_ct S d)) (Suc 0) = Ret [dec_slots S d ! 0]"
    by (simp add: decrypt_batch_def load_save)
  have pk: "cl_packing (pad_after 1 X cl) = SLOT" using cl(2) by (simp add: pad_after_def)
  have ans: "stub_run (vendor_stub S rnd tm) \<lparr>rq_ct = save_ct S (enc_slots S ?v), rq_id = u, rq_n = int 1, rq_mode = SLOT\<rparr> sv =
    (Ret (\<lparr>rs_status = ST_OK, rs_ct = Some (save_ct S d), rs_id = u\<rparr>, tm), (recorded True sv)\<lparr>sv_rotations := sv_rotations sv + 8\<rparr>)"
    using ready_slot_answer [OF _ _ _ v, of sv d rnd tm u "int 1"] sv d by (auto simp: ready_def)
  have "(\<Sum>j<256. ?v ! (256 * 0 + j) * w ! j) = dot (elems X) w"
    using lane_dot [OF X, of 0 w] slot_vector_lane [OF X, of 0] sv(2) single_row [OF X] by simp
  then have "\<bar>dec_slots S d ! 0 - (dot (elems X) w + b)\<bar> \<le> lane_error e_enc e_mul e_rot e_add w"
    using slot_circuit_lane [OF v sv(2), of 0 b] d by simp
  then show ?thesis
    using run_inference_slot [OF cl X, of S expit "vendor_stub S rnd tm" clk u sv] pad_after_wf [OF cl X] pk sv(1)
    unfolding ans by (simp add: dec) blast
qed

lemma slot_client_init:
  assumes sv: "sv_mode sv = SLOT" "pstate (sv_sm sv) = PROV_AWAITING_KEYS" "length (sv_w sv) = 256"
    and g: "fs ''artifacts/galois_keys_160.bin'' = Some k" "keys_accepted S k gk" "256 * e_enc + 255 * e_rot < 1 / 1000"
    and a: "fs ''artifacts/public_key_160.bin'' = Some pk" "fs ''artifacts/secret_key_160.bin'' = Some sk"
      "import_module ''seal_wrapper_160'' = Ret c" "init_seal pk sk = Ret ()"
  shows "\<exists>cl sv'. client_init S expit (vendor_stub S rnd tm) clk u import_module init_seal fs self_test_args sv = (Ret cl, sv')
    \<and> ready SLOT (Some gk) (sv_w sv) (sv_b sv) sv' \<and> client_wf cl \<and> cl_packing cl = SLOT"
proof -
  let ?fs = "fs" and ?cl = "\<lparr>cl_packing = SLOT, cl_max_lanes = 16, cl_pad_buffer = replicate 16 (replicate 256 0)\<rparr>"
  let ?sv1 = "sv\<lparr>sv_gk := Some gk, sv_sm := (sv_sm sv)\<lparr>pstate := PROV_READY\<rparr>, sv_rotations := sv_rotations sv + 8\<rparr>"
  have st: "PROV_READY = (if canary_passed (canary_result S gk) then PROV_READY else PROV_FAULT)"
    using consistent_canary [OF g(3)] by simp
  have fr: "first_level S (enc_slots S (replicate 4096 (1 / 100)))"
    "wire_size S (save_ct S (enc_slots S (replicate 4096 (1 / 100)))) \<le> CT_BUF"
    using fresh [of "replicate 4096 (1 / 100)"] by simp_all
  have hs: "provision_and_validate S (vendor_stub S rnd tm) fs ''artifacts/galois_keys_160.bin'' sv = (Ret PROV_READY, ?sv1)"
    using handshake_accept [where p = "''artifacts/galois_keys_160.bin''" and fs = fs, OF sv(1,2) g(1) load_save fr g(2) st] by blast
  have rdy: "ready SLOT (Some gk) (sv_w sv) (sv_b sv) ?sv1" using sv(1) by (simp add: ready_def)
  have wf: "client_wf ?cl" by (simp add: client_wf_def)
  have b: "batch 1 warmup_input" by (simp add: batch_def warmup_input_def)
  obtain r cl' sv' where w: "run_inference S expit (vendor_stub S rnd tm) clk u warmup_input ?cl ?sv1 = (Ret r, cl', sv')"
    "ready SLOT (Some gk) (sv_w sv) (sv_b sv) sv'" "client_wf cl'" "cl_packing cl' = SLOT"
    using slot_run_once [OF rdy sv(3) wf _ b, of expit rnd tm clk u] by auto
  have "client_init S expit (vendor_stub S rnd tm) clk u import_module init_seal fs self_test_args sv = (Ret cl', sv')"
    using a by (simp add: client_init_def self_test_args_def load_wrapper_module_def read_bytes_def tls_setup_def hs warmup_def w(1))
  with w show ?thesis by blast
qed

end

text \<open>The self test of the parity gate passes, end to end. Start a slot server from the weight file; give the
  bank keys that validate against a backend whose noise stays below the canary and gate tolerances; then
  \<^verbatim>\<open>_self_test\<close> constructs the client (import, key loading, handshake, canary, warm-up), runs the first test
  row through the encrypted path and returns 0. Of the sigmoid only that it does not expand distances is
  used.\<close>

theorem self_test_passes:
  assumes "ckks_slots S gk ok e_enc e_mul e_rot e_add"
    and "vendor_init SLOT (bins st) ''artifacts/model_weights.bin'' = Ret sv"
    and "bins st ''artifacts/galois_keys_160.bin'' = Some k" "keys_accepted S k gk" "256 * e_enc + 255 * e_rot < 1 / 1000"
    and "bins st ''artifacts/public_key_160.bin'' = Some pk" "bins st ''artifacts/secret_key_160.bin'' = Some sk"
    and "nt_import N ''seal_wrapper_160'' = Ret c" "nt_init_seal N pk sk = Ret ()" "nt_connect N = (\<lambda>_. vendor_stub S rnd tm)"
    and "arrs st ''artifacts/X_test.npy'' = Some (Mat (x # X))" "length x = 256"
    and "lane_error e_enc e_mul e_rot e_add (sv_w sv) < 1 / 10000" "\<And>u v. \<bar>expit u - expit v\<bar> \<le> \<bar>u - v\<bar>"
  shows "\<exists>sv'. self_test S expit N st sv = (Ret 0, sv') \<and> pstate (sv_sm sv') = PROV_READY"
proof -
  from assms(2) obtain w b where l: "load_raw_weights (bins st) ''artifacts/model_weights.bin'' = Ret (w, b)"
    and sv: "sv_mode sv = SLOT" "pstate (sv_sm sv) = PROV_AWAITING_KEYS" "sv_w sv = map f64_real w" "sv_b sv = f64_real b"
    by (auto simp: vendor_init_def res_simps psm_init_def Let_def)
  have img: "bins st ''artifacts/model_weights.bin'' = Some (weights_image 256 w b)" "length w = 256"
    using vendor_reader.rd_only [OF l] by simp_all
  have lm: "load_model_weights (bins st) None = Ret (w, b)"
    using parity_reader.rd_image [of "bins st" "''artifacts/model_weights.bin''" w b] img by (simp add: load_model_weights_def DEFAULT_MODEL_WEIGHTS_PATH_def)
  have w: "length (sv_w sv) = 256" using img sv by simp
  obtain cl sv1 where ci: "client_init S expit (vendor_stub S rnd tm) (nt_clock N) (nt_uuid N 0) (nt_import N) (nt_init_seal N)
      (bins st) self_test_args sv = (Ret cl, sv1)" "ready SLOT (Some gk) (sv_w sv) (sv_b sv) sv1" "client_wf cl" "cl_packing cl = SLOT"
    using ckks_slots.slot_client_init [where fs = "bins st" and import_module = "nt_import N" and init_seal = "nt_init_seal N" and pk = pk and sk = sk, OF assms(1) sv(1,2) w assms(3-9)] by blast
  let ?X = "\<lparr>shape = [1, 256], elems = x\<rparr>"
  have X: "batch 1 ?X" using assms(12) by (simp add: batch_def)
  obtain r z cl' sv' where r: "run_inference S expit (vendor_stub S rnd tm) (nt_clock N) (nt_uuid N 1) ?X cl sv1 = (Ret r, cl', sv')"
    "ready SLOT (Some gk) (sv_w sv) (sv_b sv) sv'" "fraud_probabilities r = [expit z]"
    "\<bar>z - (dot x (sv_w sv) + sv_b sv)\<bar> \<le> lane_error e_enc e_mul e_rot e_add (sv_w sv)"
    using ckks_slots.slot_run_once [OF assms(1) ci(2) w ci(3,4) X, of expit rnd tm "nt_clock N" "nt_uuid N 1"] by auto
  have "\<bar>expit z - expit (dot x (sv_w sv) + sv_b sv)\<bar> < 1 / 10000"
    using assms(14) [of z "dot x (sv_w sv) + sv_b sv"] r(4) assms(13) by linarith
  then obtain m where v: "verify_encrypted_output expit [Fin (expit z)] ?X (sv_w sv) (sv_b sv) DEFAULT_TOLERANCE = Ret (True, m)"
    using assms(12) w verify_2d [of ?X 1 "sv_w sv" expit "[Fin (expit z)]" "sv_b sv" DEFAULT_TOLERANCE]
    by (simp add: DEFAULT_TOLERANCE_def)
  have "self_test S expit N st sv = (Ret 0, sv')"
    unfolding self_test_def Let_def assms(10) ci(1)
    by (simp add: np_load_mat_def assms(11,12) lm r(1) r(3) v [unfolded sv(3,4)] flip: One_nat_def)
  with r(2) show ?thesis by (auto simp: ready_def)
qed

definition demo_bank :: store where
  "demo_bank = demo_store\<lparr>bins := (bins demo_store)(''artifacts/galois_keys_160.bin'' \<mapsto> [],
     ''artifacts/public_key_160.bin'' \<mapsto> [1], ''artifacts/secret_key_160.bin'' \<mapsto> [2])\<rparr>"

definition demo_net :: "(unit server, real list) net" where
  "demo_net = \<lparr>nt_host = demo_host, nt_stops = True, nt_connect = (\<lambda>_. vendor_stub plain_seal (\<lambda>_. 0) demo_timing),
     nt_import = (\<lambda>_. Ret True), nt_init_seal = (\<lambda>_ _. Ret ()), nt_clock = (\<lambda>_. 0), nt_uuid = (\<lambda>_. ''u''), nt_junk = (\<lambda>_. 0)\<rparr>"

theorem self_test_passes_witness:
  "\<exists>sv sv'. vendor_init SLOT (bins demo_bank) ''artifacts/model_weights.bin'' = Ret sv
     \<and> self_test plain_seal (\<lambda>z. z / 4) demo_net demo_bank sv = (Ret 0, sv')"
proof -
  have "load_raw_weights (bins demo_bank) ''artifacts/model_weights.bin'' = Ret (replicate 256 0, 0)"
    by (rule vendor_reader.rd_image) (simp_all add: demo_bank_def demo_store_def)
  then obtain sv :: "unit server" where sv: "vendor_init SLOT (bins demo_bank) ''artifacts/model_weights.bin'' = Ret sv"
    by (simp add: vendor_init_def)
  have k: "keys_accepted plain_seal [] ()" by (simp add: keys_accepted_def plain_seal_def list_all_iff)
  have "\<exists>sv'. self_test plain_seal (\<lambda>z. z / 4) demo_net demo_bank sv = (Ret 0, sv') \<and> pstate (sv_sm sv') = PROV_READY"
    by (rule self_test_passes [where k = "[]" and pk = "[1]" and sk = "[2]" and c = True and x = "replicate 256 0" and X = "[]"
          and rnd = "\<lambda>_. 0" and tm = demo_timing, OF plain_slots.ckks_slots_axioms sv _ k])
      (simp_all add: demo_bank_def demo_store_def demo_net_def lane_error_def)
  with sv show ?thesis by blast
qed

end
