(* ===== verification/Workers.thy ===== *)
theory Workers
  imports Harness
begin

text \<open>
  The client threads of \<^verbatim>\<open>scripts/build_execution_matrix.py\<close>: each constructs a client without Galois keys and sends
  requests until the deadline. The threads share the server; a schedule lists whose turn it is, whether the deadline lies
  ahead at that turn, and the latency the thread measures when its turn is a request. One turn is at most one remote call,
  so every interleaving of the calls is a schedule. An exception ends its thread only, as in Python.
\<close>

section \<open>Threads\<close>

datatype worker = Fresh | Looping client | Finished | Died pyexc

record 's pool =
  pl_srv :: 's
  pl_workers :: "worker list"
  pl_lat :: "real list list"

type_synonym turn = "nat \<times> bool \<times> real"

definition worker_turn ::
  "('s \<Rightarrow> client res \<times> 's) \<Rightarrow> (client \<Rightarrow> 's \<Rightarrow> 'r res \<times> client \<times> 's) \<Rightarrow> turn \<Rightarrow> 's pool \<Rightarrow> 's pool" where
  "worker_turn ini req turn P =
     (case turn of (i, early, lat) \<Rightarrow>
      if length (pl_workers P) \<le> i then P else
      case pl_workers P ! i of
        Fresh \<Rightarrow>
          (case ini (pl_srv P) of
             (Inl e, s) \<Rightarrow> P\<lparr>pl_srv := s, pl_workers := (pl_workers P)[i := Died e]\<rparr>
           | (Inr cl, s) \<Rightarrow> P\<lparr>pl_srv := s, pl_workers := (pl_workers P)[i := Looping cl]\<rparr>)
      | Looping cl \<Rightarrow>
          if \<not> early then P\<lparr>pl_workers := (pl_workers P)[i := Finished]\<rparr>
          else (case req cl (pl_srv P) of
             (Inl e, cl', s) \<Rightarrow> P\<lparr>pl_srv := s, pl_workers := (pl_workers P)[i := Died e]\<rparr>
           | (Inr r, cl', s) \<Rightarrow> P\<lparr>pl_srv := s, pl_workers := (pl_workers P)[i := Looping cl'],
                                  pl_lat := (pl_lat P)[i := pl_lat P ! i @ [lat]]\<rparr>)
      | _ \<Rightarrow> P)"

definition start_pool :: "nat \<Rightarrow> 's \<Rightarrow> 's pool" where
  "start_pool n srv = \<lparr>pl_srv = srv, pl_workers = replicate n Fresh, pl_lat = replicate n []\<rparr>"

definition run_workers ::
  "('s \<Rightarrow> client res \<times> 's) \<Rightarrow> (client \<Rightarrow> 's \<Rightarrow> 'r res \<times> client \<times> 's) \<Rightarrow> turn list \<Rightarrow> 's pool \<Rightarrow> 's pool" where
  "run_workers ini req sched P = fold (worker_turn ini req) sched P"

text \<open>\<^verbatim>\<open>join\<close> returns for a thread that finished or died.\<close>

definition ended :: "worker \<Rightarrow> bool" where
  "ended w = (case w of Finished \<Rightarrow> True | Died e \<Rightarrow> True | _ \<Rightarrow> False)"

section \<open>What a schedule does to one thread\<close>

text \<open>The turns of thread \<open>i\<close>, the requests among them: after its first turn, up to the first turn past the deadline.\<close>

definition turns_of :: "nat \<Rightarrow> turn list \<Rightarrow> (bool \<times> real) list" where
  "turns_of i sched = map snd (filter (\<lambda>t. fst t = i) sched)"

definition requests_of :: "nat \<Rightarrow> turn list \<Rightarrow> real list" where
  "requests_of i sched = map snd (takeWhile fst (tl (turns_of i sched)))"

locale worker_pool =
  fixes ini :: "'s \<Rightarrow> client res \<times> 's" and req :: "client \<Rightarrow> 's \<Rightarrow> 'r res \<times> client \<times> 's"
    and I :: "'s \<Rightarrow> bool" and J :: "client \<Rightarrow> bool"
  assumes ini_ok: "I s \<Longrightarrow> \<exists>cl s'. ini s = (Ret cl, s') \<and> I s' \<and> J cl"
    and req_ok: "I s \<Longrightarrow> J cl \<Longrightarrow> \<exists>r cl' s'. req cl s = (Ret r, cl', s') \<and> I s' \<and> J cl'"
begin

definition thread_ok :: "(bool \<times> real) list \<Rightarrow> worker \<Rightarrow> real list \<Rightarrow> bool" where
  "thread_ok ts w lat \<longleftrightarrow> lat = map snd (takeWhile fst (tl ts)) \<and>
     (if ts = [] then w = Fresh else if \<forall>t \<in> set (tl ts). fst t then \<exists>cl. w = Looping cl \<and> J cl else w = Finished)"

lemma takeWhile_snoc: "takeWhile P (xs @ [x]) = (if \<forall>y \<in> set xs. P y then xs @ takeWhile P [x] else takeWhile P xs)"
  by (induction xs) auto

lemma turn_ok:
  assumes "I (pl_srv P)" "length (pl_lat P) = length (pl_workers P)"
    and "\<And>i. i < length (pl_workers P) \<Longrightarrow> thread_ok (turns_of i sched) (pl_workers P ! i) (pl_lat P ! i)"
    and P': "P' = worker_turn ini req t P"
  shows "I (pl_srv P') \<and> length (pl_lat P') = length (pl_workers P') \<and> length (pl_workers P') = length (pl_workers P)
    \<and> (\<forall>i < length (pl_workers P). thread_ok (turns_of i (sched @ [t])) (pl_workers P' ! i) (pl_lat P' ! i))"
proof -
  obtain k early lat where t: "t = (k, early, lat)" by (cases t)
  have other: "turns_of i (sched @ [t]) = turns_of i sched" if "i \<noteq> k" for i
    using that by (simp add: turns_of_def t)
  have own: "turns_of k (sched @ [t]) = turns_of k sched @ [(early, lat)]" by (simp add: turns_of_def t)
  have rest: ?thesis if "I (pl_srv P')" "length (pl_lat P') = length (pl_workers P')" "length (pl_workers P') = length (pl_workers P)"
    "\<And>i. i \<noteq> k \<Longrightarrow> pl_workers P' ! i = pl_workers P ! i \<and> pl_lat P' ! i = pl_lat P ! i"
    "k < length (pl_workers P) \<Longrightarrow> thread_ok (turns_of k sched @ [(early, lat)]) (pl_workers P' ! k) (pl_lat P' ! k)"
    using that assms(3) other own by metis
  show ?thesis
  proof (cases "k < length (pl_workers P)")
    case False
    then have "P' = P" by (simp add: P' worker_turn_def t)
    then show ?thesis using False assms(1,2) by (intro rest) auto
  next
    case True
    note ok = assms(3) [OF True]
    show ?thesis
    proof (cases "pl_workers P ! k")
      case Fresh
      with ok have ts: "turns_of k sched = []" "pl_lat P ! k = []"
        by (auto simp: thread_ok_def split: if_splits)
      obtain cl s' where "ini (pl_srv P) = (Ret cl, s')" "I s'" "J cl" using ini_ok [OF assms(1)] by blast
      then show ?thesis
        using True Fresh assms(2) ts by (intro rest) (simp_all add: P' worker_turn_def t thread_ok_def)
    next
      case (Looping cl)
      with ok have ts: "turns_of k sched \<noteq> []" "\<forall>t \<in> set (tl (turns_of k sched)). fst t" "J cl"
        by (auto simp: thread_ok_def split: if_splits)
      obtain r cl' s' where rq: "req cl (pl_srv P) = (Ret r, cl', s')" "I s'" "J cl'" using req_ok [OF assms(1) ts(3)] by blast
      have tw: "takeWhile fst (tl (turns_of k sched)) = tl (turns_of k sched)" using ts(2) by (simp add: takeWhile_eq_all_conv)
      have lt: "pl_lat P ! k = map snd (tl (turns_of k sched))" using ok tw by (simp add: thread_ok_def)
      show ?thesis
        using True Looping assms(1,2) ts rq lt
        by (intro rest) (auto simp: P' worker_turn_def t thread_ok_def takeWhile_snoc)
    next
      case Finished
      with ok have ts: "turns_of k sched \<noteq> []" "\<not> (\<forall>t \<in> set (tl (turns_of k sched)). fst t)"
        by (auto simp: thread_ok_def split: if_splits)
      have "P' = P" using True Finished by (simp add: P' worker_turn_def t)
      moreover have "thread_ok (turns_of k sched @ [(early, lat)]) (pl_workers P ! k) (pl_lat P ! k)"
        using ok ts Finished by (auto simp: thread_ok_def takeWhile_snoc)
      ultimately show ?thesis using assms(1,2) by (intro rest) auto
    next
      case (Died e)
      with ok show ?thesis by (auto simp: thread_ok_def split: if_splits)
    qed
  qed
qed

lemma pool_run_ok:
  assumes "I srv" and P: "P = run_workers ini req sched (start_pool n srv)"
  shows "I (pl_srv P) \<and> length (pl_lat P) = length (pl_workers P) \<and> length (pl_workers P) = n
    \<and> (\<forall>i < n. thread_ok (turns_of i sched) (pl_workers P ! i) (pl_lat P ! i))"
  unfolding P
proof (induction sched rule: rev_induct)
  case Nil
  then show ?case using assms(1) by (simp add: run_workers_def start_pool_def thread_ok_def turns_of_def)
next
  case (snoc t sched)
  let ?Q = "run_workers ini req sched (start_pool n srv)"
  show ?case
    using turn_ok [of ?Q sched "worker_turn ini req t ?Q" t] snoc by (simp add: run_workers_def)
qed

text \<open>No thread dies; each records one latency per request; a thread with a later turn past the deadline has finished.\<close>

lemma served:
  assumes "I srv" "P = run_workers ini req sched (start_pool n srv)" "i < n"
  shows "pl_lat P ! i = requests_of i sched" "pl_workers P ! i \<noteq> Died e"
    and "\<exists>t \<in> set (tl (turns_of i sched)). \<not> fst t \<Longrightarrow> pl_workers P ! i = Finished"
  using pool_run_ok [OF assms(1,2)] assms(3) by (auto simp: thread_ok_def requests_of_def split: if_splits)

end

section \<open>Clients of a ready server\<close>

text \<open>The arguments of a worker's client: the 160-bit keys, no Galois keys.\<close>

definition worker_args :: client_args where
  "worker_args = self_test_args\<lparr>a_galois_keys_path := None\<rparr>"

definition slot_client :: "client \<Rightarrow> bool" where
  "slot_client cl \<longleftrightarrow> client_wf cl \<and> cl_packing cl = SLOT"

context ckks_slots
begin

lemma slot_run_batch:
  assumes sv: "ready SLOT (Some gk) w b sv" "length w = 256"
    and cl: "client_wf cl" "cl_packing cl = SLOT" and X: "batch n X" "1 \<le> n" "n \<le> 16"
  shows "\<exists>r cl' sv'. run_inference S expit (vendor_stub S rnd tm) clk u X cl sv = (Ret r, cl', sv')
    \<and> ready SLOT (Some gk) w b sv' \<and> slot_client cl'"
proof -
  let ?v = "slot_vector n X"
  have v: "length ?v = 4096" using length_slot_vector [OF X(1,3)] .
  obtain d where d: "slot_circuit S gk w b (enc_slots S ?v) = Ret d"
    using slot_circuit_lane [OF v sv(2), of 0 b] by auto
  have dec: "\<exists>raw. decrypt_batch S (Some (save_ct S d)) n = Ret raw"
    using X(2,3) by (simp add: decrypt_batch_def load_save)
  have pk: "cl_packing (pad_after n X cl) = SLOT" using cl(2) by (simp add: pad_after_def)
  have ans: "stub_run (vendor_stub S rnd tm) \<lparr>rq_ct = save_ct S (enc_slots S ?v), rq_id = u, rq_n = int n, rq_mode = SLOT\<rparr> sv =
    (Ret (\<lparr>rs_status = ST_OK, rs_ct = Some (save_ct S d), rs_id = u\<rparr>, tm), (recorded True sv)\<lparr>sv_rotations := sv_rotations sv + 8\<rparr>)"
    using ready_slot_answer [OF _ _ _ v, of sv d rnd tm u "int n"] sv d by (auto simp: ready_def)
  from dec show ?thesis
    using run_inference_slot [OF cl X, of S expit "vendor_stub S rnd tm" clk u sv] pad_after_wf [OF cl X(1)] pk sv(1)
    unfolding ans slot_client_def by auto
qed

lemma worker_client_init:
  assumes sv: "ready SLOT (Some gk) w b sv" "length w = 256"
    and a: "fs ''artifacts/public_key_160.bin'' = Some pk" "fs ''artifacts/secret_key_160.bin'' = Some sk"
      "import_module ''seal_wrapper_160'' = Ret c" "init_seal pk sk = Ret ()"
  shows "\<exists>cl sv'. client_init S expit (vendor_stub S rnd tm) clk u import_module init_seal fs worker_args sv = (Ret cl, sv')
    \<and> ready SLOT (Some gk) w b sv' \<and> slot_client cl"
proof -
  let ?cl = "\<lparr>cl_packing = SLOT, cl_max_lanes = 16, cl_pad_buffer = replicate 16 (replicate 256 0)\<rparr>"
  have wf: "client_wf ?cl" by (simp add: client_wf_def)
  have b: "batch 1 warmup_input" by (simp add: batch_def warmup_input_def)
  obtain r cl' sv' where w: "run_inference S expit (vendor_stub S rnd tm) clk u warmup_input ?cl sv = (Ret r, cl', sv')"
    "ready SLOT (Some gk) w b sv'" "slot_client cl'"
    using slot_run_batch [OF sv wf _ b, of expit rnd tm clk u] by auto
  have "client_init S expit (vendor_stub S rnd tm) clk u import_module init_seal fs worker_args sv = (Ret cl', sv')"
    using a by (simp add: client_init_def worker_args_def self_test_args_def load_wrapper_module_def read_bytes_def tls_setup_def warmup_def w(1))
  with w show ?thesis by blast
qed

lemma slot_pool:
  assumes "length w = 256" "batch n X" "1 \<le> n" "n \<le> 16"
    and "fs ''artifacts/public_key_160.bin'' = Some pk" "fs ''artifacts/secret_key_160.bin'' = Some sk"
      "import_module ''seal_wrapper_160'' = Ret c" "init_seal pk sk = Ret ()"
  shows "worker_pool (client_init S expit (vendor_stub S rnd tm) clk u import_module init_seal fs worker_args)
    (run_inference S expit (vendor_stub S rnd tm) clk' u' X) (ready SLOT (Some gk) w b) slot_client"
proof (unfold_locales, goal_cases)
  case (1 s)
  from worker_client_init [OF 1 assms(1), of fs pk sk import_module c init_seal] assms(5-8) show ?case by blast
next
  case (2 s cl)
  then show ?case using slot_run_batch [OF 2(1) assms(1) _ _ assms(2-4)] by (simp add: slot_client_def)
qed

end

interpretation plain_pool: worker_pool
    "client_init plain_seal expit (vendor_stub plain_seal rnd tm) clk u (\<lambda>_. Ret True) (\<lambda>_ _. Ret ()) (\<lambda>_. Some []) worker_args"
    "run_inference plain_seal expit (vendor_stub plain_seal rnd tm) clk' u' demo_batch"
    "ready SLOT (Some ()) (replicate 256 2) 1" slot_client
  for expit rnd tm clk u clk' u'
  by (rule plain_slots.slot_pool [of _ 1]) simp_all

end
