(* ===== verification/Json.thy ===== *)
theory Json
  imports Prelude
begin

text \<open>
  JSON documents as the scripts handle them after \<^verbatim>\<open>json.loads\<close>: dictionaries keep their order, numbers are
  Python floats (integers are the finite ones), subscripting and arithmetic raise what Python raises. A file
  system of reports maps a path to its content, which may be no JSON at all. Text layout of JSON is not
  modelled.
\<close>

section \<open>Documents\<close>

datatype json = JNull | JBool bool | JNum pyfloat | JStr string | JArr "json list" | JObj "(string \<times> json) list"

abbreviation JInt :: "int \<Rightarrow> json" where
  "JInt i \<equiv> JNum (Fin (of_int i))"

abbreviation JReal :: "real \<Rightarrow> json" where
  "JReal x \<equiv> JNum (Fin x)"

text \<open>\<^verbatim>\<open>d[k]\<close>, \<^verbatim>\<open>d.get(k)\<close> (with \<^verbatim>\<open>None\<close> as JSON null) and \<^verbatim>\<open>k in d\<close>.\<close>

fun jget :: "json \<Rightarrow> string \<Rightarrow> json res" where
  "jget (JObj kvs) k = (case map_of kvs k of None \<Rightarrow> Raise KeyError | Some v \<Rightarrow> Ret v)"
| "jget _ k = Raise TypeError"

fun jget_opt :: "json \<Rightarrow> string \<Rightarrow> json res" where
  "jget_opt (JObj kvs) k = (case map_of kvs k of None \<Rightarrow> Ret JNull | Some v \<Rightarrow> Ret v)"
| "jget_opt _ k = Raise AttributeError"

fun jpath :: "json \<Rightarrow> string list \<Rightarrow> json res" where
  "jpath j [] = Ret j"
| "jpath j (k # ks) = rbind (jget j k) (\<lambda>v. jpath v ks)"

fun jnum :: "json \<Rightarrow> pyfloat res" where
  "jnum (JNum x) = Ret x"
| "jnum (JBool b) = Ret (Fin (if b then 1 else 0))"
| "jnum _ = Raise TypeError"

definition jnum_at :: "json \<Rightarrow> string list \<Rightarrow> pyfloat res" where
  "jnum_at j ks = rbind (jpath j ks) jnum"

text \<open>Truth value of a document.\<close>

fun jtruthy :: "json \<Rightarrow> bool" where
  "jtruthy JNull = False"
| "jtruthy (JBool b) = b"
| "jtruthy (JNum x) = (x \<noteq> Fin 0)"
| "jtruthy (JStr s) = (s \<noteq> [])"
| "jtruthy (JArr xs) = (xs \<noteq> [])"
| "jtruthy (JObj kvs) = (kvs \<noteq> [])"

text \<open>\<^verbatim>\<open>d[k] = v\<close> keeps the position of an existing key and appends a new one.\<close>

fun kv_set :: "string \<Rightarrow> 'v \<Rightarrow> (string \<times> 'v) list \<Rightarrow> (string \<times> 'v) list" where
  "kv_set k v [] = [(k, v)]"
| "kv_set k v ((k', v') # r) = (if k = k' then (k, v) # r else (k', v') # kv_set k v r)"

lemma map_of_kv_set [simp]: "map_of (kv_set k v kvs) = (map_of kvs)(k \<mapsto> v)"
  by (induction kvs) (auto simp: fun_eq_iff)

lemma keys_kv_set: "fst ` set (kv_set k v kvs) = insert k (fst ` set kvs)"
  by (simp flip: dom_map_of_conv_image_fst)

lemma distinct_kv_set: "distinct (map fst kvs) \<Longrightarrow> distinct (map fst (kv_set k v kvs))"
proof (induction kvs)
  case (Cons kv kvs)
  then show ?case by (cases kv) (auto simp: keys_kv_set)
qed simp

section \<open>Python division\<close>

text \<open>Division of Python floats: a zero divisor raises.\<close>

fun pf_inv :: "pyfloat \<Rightarrow> pyfloat" where
  "pf_inv NaN = NaN"
| "pf_inv PInf = Fin 0"
| "pf_inv NInf = Fin 0"
| "pf_inv (Fin x) = Fin (1 / x)"

definition py_div :: "pyfloat \<Rightarrow> pyfloat \<Rightarrow> pyfloat res" where
  "py_div x y = (if y = Fin 0 then Raise ZeroDivisionError else Ret (pf_mul x (pf_inv y)))"

lemma py_div_Fin [simp]: "y \<noteq> 0 \<Longrightarrow> py_div (Fin x) (Fin y) = Ret (Fin (x / y))"
  by (simp add: py_div_def)

section \<open>Report files\<close>

type_synonym jfs = "path \<rightharpoonup> json option"

text \<open>\<^verbatim>\<open>json.loads(path.read_text())\<close>; \<^verbatim>\<open>JSONDecodeError\<close> is a \<^verbatim>\<open>ValueError\<close>.\<close>

definition load_json :: "jfs \<Rightarrow> path \<Rightarrow> json res" where
  "load_json fs p =
     (case fs p of None \<Rightarrow> Raise FileNotFoundError | Some None \<Rightarrow> Raise ValueError | Some (Some j) \<Rightarrow> Ret j)"

definition save_json :: "path \<Rightarrow> json \<Rightarrow> jfs \<Rightarrow> jfs" where
  "save_json p j fs = fs(p \<mapsto> Some j)"

lemma load_save_json [simp]: "load_json (save_json p j fs) q = (if q = p then Ret j else load_json fs q)"
  by (simp add: load_json_def save_json_def)

definition ends_with :: "string \<Rightarrow> string \<Rightarrow> bool" where
  "ends_with suf s \<longleftrightarrow> length suf \<le> length s \<and> drop (length s - length suf) s = suf"

lemma ends_with_append [simp]: "ends_with suf (s @ suf)"
  by (simp add: ends_with_def)

end
