(* ===== verification/PyText.thy ===== *)
theory PyText
  imports Prelude "HOL-Library.Char_ord"
begin

text \<open>
  The string operations of Python the scripts use on ASCII text: \<^verbatim>\<open>split\<close> on a separator character, \<^verbatim>\<open>strip\<close>,
  \<^verbatim>\<open>removeprefix\<close>, \<^verbatim>\<open>startswith\<close> and the conversion \<^verbatim>\<open>int\<close> from a decimal literal, with its sign, its surrounding
  white space and its underscores between digits.
\<close>

section \<open>Splitting and trimming\<close>

fun split_on :: "char \<Rightarrow> string \<Rightarrow> string list" where
  "split_on c [] = [[]]"
| "split_on c (x # xs) = (if x = c then [] # split_on c xs
     else case split_on c xs of [] \<Rightarrow> [[x]] | y # ys \<Rightarrow> (x # y) # ys)"

text \<open>Space, and the control characters tab to carriage return and 0x1C to 0x1F.\<close>

definition is_space :: "char \<Rightarrow> bool" where
  "is_space c \<longleftrightarrow> (let n = of_char c :: nat in n = 32 \<or> (9 \<le> n \<and> n \<le> 13) \<or> (28 \<le> n \<and> n \<le> 31))"

definition strip :: "string \<Rightarrow> string" where
  "strip s = rev (dropWhile is_space (rev (dropWhile is_space s)))"

definition starts_with :: "string \<Rightarrow> string \<Rightarrow> bool" where
  "starts_with p s \<longleftrightarrow> take (length p) s = p"

definition removeprefix :: "string \<Rightarrow> string \<Rightarrow> string" where
  "removeprefix p s = (if starts_with p s then drop (length p) s else s)"

lemma split_on_not_Nil [simp]: "split_on c s \<noteq> []"
  by (induction s) (auto split: list.splits)

lemma split_on_id: "c \<notin> set s \<Longrightarrow> split_on c s = [s]"
  by (induction s) auto

lemma split_on_append: "c \<notin> set a \<Longrightarrow> split_on c (a @ c # b) = a # split_on c b"
  by (induction a) auto

lemma split_on_chars: "p \<in> set (split_on c s) \<Longrightarrow> c \<notin> set p \<and> set p \<subseteq> set s"
proof (induction s arbitrary: p)
  case (Cons x s)
  obtain y ys where s: "split_on c s = y # ys" by (cases "split_on c s") auto
  have y: "c \<notin> set y \<and> set y \<subseteq> set s" using Cons.IH [of y] s by simp
  show ?case
  proof (cases "x = c")
    case True
    then have "p = [] \<or> p \<in> set (split_on c s)" using Cons.prems by simp
    then show ?thesis using Cons.IH [of p] by auto
  next
    case False
    then have "p = x # y \<or> p \<in> set (split_on c s)" using Cons.prems s by auto
    then show ?thesis using Cons.IH [of p] y False by auto
  qed
qed simp

lemma length_split_on: "length (split_on c s) = Suc (count_list s c)"
  by (induction s) (auto split: list.splits)

lemma removeprefix_append [simp]: "removeprefix p (p @ s) = s"
  by (simp add: removeprefix_def starts_with_def)

section \<open>Decimal literals\<close>

definition digit_value :: "char \<Rightarrow> nat option" where
  "digit_value c = (let n = of_char c :: nat in if 48 \<le> n \<and> n \<le> 57 then Some (n - 48) else None)"

text \<open>Digits, a single underscore allowed between two of them.\<close>

fun digits_value :: "nat \<Rightarrow> string \<Rightarrow> nat option" where
  "digits_value acc [] = None"
| "digits_value acc [c] = map_option (\<lambda>d. 10 * acc + d) (digit_value c)"
| "digits_value acc (c # e # s) =
     (case digit_value c of
        None \<Rightarrow> None
      | Some d \<Rightarrow> if e = CHR ''_'' then digits_value (10 * acc + d) s else digits_value (10 * acc + d) (e # s))"

definition py_int :: "string \<Rightarrow> int res" where
  "py_int s =
     (let t = strip s;
          neg = starts_with ''-'' t;
          body = (if neg \<or> starts_with ''+'' t then tl t else t)
      in case digits_value 0 body of
           None \<Rightarrow> Raise ValueError
         | Some n \<Rightarrow> Ret (if neg then - int n else int n))"

lemma py_int_nonneg:
  assumes "py_int s = Ret n" "CHR ''-'' \<notin> set s"
  shows "0 \<le> n"
proof -
  have "set (strip s) \<subseteq> set s" by (auto simp: strip_def dest!: set_dropWhileD)
  then have "\<not> starts_with ''-'' (strip s)" using assms(2) by (cases "strip s") (auto simp: starts_with_def)
  then show ?thesis using assms(1) by (auto simp: py_int_def Let_def split: option.splits)
qed

text \<open>The decimal rendering \<^verbatim>\<open>str\<close> of a natural number, which \<open>py_int\<close> reads back.\<close>

abbreviation digit_char :: "nat \<Rightarrow> char" where
  "digit_char d \<equiv> char_of (48 + d)"

lemma digit_value_char: "d < 10 \<Longrightarrow> digit_value (digit_char d) = Some d"
  by (simp add: digit_value_def)

lemma digit_char_plain:
  assumes "d < 10"
  shows "digit_char d \<noteq> CHR ''_'' \<and> digit_char d \<noteq> CHR ''-'' \<and> digit_char d \<noteq> CHR ''+''
    \<and> digit_char d \<noteq> CHR '','' \<and> \<not> is_space (digit_char d)"
proof -
  have n: "of_char (digit_char d) = 48 + d" using assms by simp
  have "digit_char d \<noteq> c" if "of_char c < (48::nat) \<or> 57 < (of_char c :: nat)" for c
    using n that assms by (auto dest: arg_cong [where f = "of_char :: char \<Rightarrow> nat"])
  then show ?thesis using n by (simp add: is_space_def Let_def)
qed

lemma digits_value_snoc:
  assumes "digits_value acc s = Some n" "d < 10"
  shows "digits_value acc (s @ [digit_char d]) = Some (10 * n + d)"
  using assms
proof (induction acc s rule: digits_value.induct)
  case (2 acc c)
  then show ?case using digit_char_plain [of d] by (auto simp: digit_value_char)
next
  case (3 acc c e s)
  show ?case
  proof (cases "digit_value c")
    case (Some v)
    then show ?thesis using 3 by (cases "e = CHR ''_''") auto
  qed (use 3 in auto)
qed simp

lemma py_str_digits: "digits_value 0 (py_str n) = Some n"
proof (induction n rule: py_str.induct)
  case (1 n)
  show ?case
  proof (cases "n < 10")
    case False
    then have "digits_value 0 (py_str (n div 10) @ [digit_char (n mod 10)]) = Some (10 * (n div 10) + n mod 10)"
      using 1 by (intro digits_value_snoc) auto
    then show ?thesis using False by (subst py_str.simps) simp
  qed (simp add: py_str.simps [of n] digit_value_char)
qed

lemma py_str_chars: "c \<in> set (py_str n) \<Longrightarrow> \<exists>d<10. c = digit_char d"
proof (induction n rule: py_str.induct)
  case (1 n)
  have "n mod 10 < 10" by simp
  then have "\<exists>d<10. digit_char (n mod 10) = digit_char d" by blast
  then show ?case using 1 by (cases "n < 10") (auto simp: py_str.simps [of n])
qed

lemma py_str_char_plain:
  assumes "c \<in> set (py_str n)"
  shows "c \<noteq> CHR ''_'' \<and> c \<noteq> CHR ''-'' \<and> c \<noteq> CHR ''+'' \<and> c \<noteq> CHR '','' \<and> \<not> is_space c"
proof -
  obtain d where "d < 10" "c = digit_char d" using py_str_chars [OF assms] by blast
  then show ?thesis using digit_char_plain [of d] by simp
qed

lemma py_str_plain:
  "CHR ''-'' \<notin> set (py_str n)" "CHR '','' \<notin> set (py_str n)" "py_str n \<noteq> []"
  using py_str_char_plain [of _ n] by (blast, blast, simp add: py_str.simps [of n])

lemma dropWhile_none: "(\<And>c. c \<in> set s \<Longrightarrow> \<not> P c) \<Longrightarrow> dropWhile P s = s"
  by (cases s) auto

lemma py_int_py_str [simp]: "py_int (py_str n) = Ret (int n)"
proof -
  have sp: "\<not> is_space c" "c \<noteq> CHR ''-''" "c \<noteq> CHR ''+''" if "c \<in> set (py_str n)" for c
    using py_str_char_plain [OF that] by simp_all
  have "strip s = s" if "\<And>c. c \<in> set s \<Longrightarrow> \<not> is_space c" for s
    using that dropWhile_none [of s is_space] dropWhile_none [of "rev s" is_space] by (simp add: strip_def)
  then have "strip (py_str n) = py_str n" using sp(1) by blast
  moreover have "\<not> starts_with ''-'' (py_str n)" "\<not> starts_with ''+'' (py_str n)"
    using sp(2,3) by (cases "py_str n"; auto simp: starts_with_def)+
  ultimately show ?thesis by (simp add: py_int_def py_str_digits Let_def)
qed

end
