(* ===== verification/Governor.thy ===== *)
theory Governor
  imports Json PyText CnpGate "HOL-Library.List_Lexorder" "HOL-Library.Char_ord"
begin

text \<open>
  The governor revalidation tools: \<^verbatim>\<open>governor_harness/revalidate_under_performance.py\<close> (re-runs every
  measurement under the performance governor, snapshots the previous artifacts, stamps each copied artifact
  with a manifest, checks for drift), \<^verbatim>\<open>governor_harness/diff_revalidation.py\<close> (compares the two snapshots field by
  field) and \<^verbatim>\<open>c3_client_server_comparison.py\<close> (reads a snapshot only through its manifests). Scripts that are
  run, governor readings and clocks are arguments; printed text is left out, the tables of the comparison apart, which are in \<open>Tables\<close>.
\<close>

section \<open>Targets and readings\<close>

definition TARGETS :: "(string \<times> path \<times> path) list" where
  "TARGETS =
    [(''comparison'', ''tests/benchmark_comparison.py'', ''artifacts/comparison_results.json''),
     (''throughput'', ''tests/benchmark_throughput.py'', ''artifacts/throughput_results.json''),
     (''rotation_strategy'', ''scripts/rotation_strategy_comparison.py'', ''artifacts/rotation_strategy_comparison.json''),
     (''amortization'', ''scripts/generate_amortization_table.py'', ''artifacts/amortization_table.json''),
     (''matched_pair'', ''scripts/privacy_cost_matched_pair.py'', ''artifacts/privacy_cost_matched_pair.json''),
     (''privacy_cost'', ''scripts/privacy_cost_analysis.py'', ''artifacts/privacy_cost_analysis.json''),
     (''ablation'', ''scripts/generate_ablation.py'', ''results/ablation_methodology.json''),
     (''execution_matrix'', ''scripts/build_execution_matrix.py'', ''artifacts/execution_matrix.json''),
     (''e2e_breakdown'', ''scripts/e2e_latency_breakdown.py'', ''artifacts/e2e_latency_breakdown.json''),
     (''bandwidth_ladder'', ''scripts/bandwidth_ladder.py'', ''artifacts/bandwidth_ladder.json''),
     (''hhe_breakeven'', ''scripts/hhe_breakeven.py'', ''artifacts/hhe_breakeven.json'')]"

definition HERA_LANES :: "nat list" where "HERA_LANES = [1, 4, 8, 16]"

definition BASELINE_DIR :: path where "BASELINE_DIR = ''artifacts/performance_revalidation/baseline_powersave/''"
definition PERFORMANCE_DIR :: path where "PERFORMANCE_DIR = ''artifacts/performance_revalidation/performance/''"

text \<open>\<^verbatim>\<open>path.name\<close> and \<^verbatim>\<open>path.stem\<close>.\<close>

definition base_name :: "path \<Rightarrow> string" where
  "base_name p = rev (takeWhile (\<lambda>c. c \<noteq> CHR ''/'') (rev p))"

definition stem_of :: "string \<Rightarrow> string" where
  "stem_of n = (let r = rev n; suf = takeWhile (\<lambda>c. c \<noteq> CHR ''.'') r
                in if length suf + 1 < length n then rev (drop (length suf + 1) r) else n)"

definition hera_name :: "nat \<Rightarrow> string" where
  "hera_name n = ''hera_bench_lane'' @ py_str n @ ''.json''"

definition hera_existing :: "path list" where
  "hera_existing = map (\<lambda>n. ''tools/transciphering/results/'' @ hera_name n) HERA_LANES"

text \<open>\<^verbatim>\<open>_read_governor\<close> on the (stripped) governor of every CPU; \<open>render_list\<close> is \<^verbatim>\<open>str\<close> of a list of strings
  without quotes in them.\<close>

fun join_with :: "string \<Rightarrow> string list \<Rightarrow> string" where
  "join_with s [] = []"
| "join_with s [x] = x"
| "join_with s (x # y # xs) = x @ s @ join_with s (y # xs)"

definition render_list :: "string list \<Rightarrow> string" where
  "render_list xs = ''['' @ join_with '', '' (map (\<lambda>x. CHR 0x27 # x @ [CHR 0x27]) xs) @ '']''"

definition read_governor :: "string list \<Rightarrow> string" where
  "read_governor cpus =
     (let govs = sort (remdups cpus)
      in if length govs \<noteq> 1 then ''MIXED:'' @ render_list govs else hd govs)"

definition read_turbo_disabled :: "string option \<Rightarrow> string option \<Rightarrow> json" where
  "read_turbo_disabled no_turbo boost =
     (case no_turbo of
        Some v \<Rightarrow> JBool (v = ''1'')
      | None \<Rightarrow> (case boost of Some v \<Rightarrow> JBool (v = ''0'')
                 | None \<Rightarrow> JStr ''UNKNOWN (no intel_pstate/no_turbo or cpufreq/boost file found)''))"

definition SNAPSHOT_EXPECTED_GOVERNOR :: "(string \<times> string) list" where
  "SNAPSHOT_EXPECTED_GOVERNOR = [(''baseline_powersave'', ''powersave''), (''performance'', ''performance'')]"

text \<open>\<^verbatim>\<open>round(x, k)\<close>, to even, on the exact value.\<close>

fun py_round :: "nat \<Rightarrow> pyfloat \<Rightarrow> pyfloat" where
  "py_round k (Fin x) = Fin (of_int (round_half_even (x * 10 ^ k)) / 10 ^ k)"
| "py_round k x = x"

section \<open>Snapshot and re-measurement\<close>

text \<open>The state: the files and the number of governor readings made. What is observed from outside: the governors
  and turbo files at each reading, the clock then and the seconds the last command took, what a command returns
  and writes, whether \<^verbatim>\<open>go\<close> is installed. Snapshot directories are taken to exist.\<close>

record rstate =
  rs_files :: jfs
  rs_reads :: nat

record renv =
  re_gov :: "nat \<Rightarrow> string list"
  re_turbo :: "nat \<Rightarrow> json"
  re_now :: "nat \<Rightarrow> string"
  re_wall :: "nat \<Rightarrow> pyfloat"
  re_run :: "string list \<Rightarrow> jfs \<Rightarrow> int \<times> jfs"
  re_has_go :: bool

definition sidecar_path :: "path \<Rightarrow> string \<Rightarrow> path" where
  "sidecar_path dir name = dir @ stem_of name @ ''.governor_manifest.json''"

definition snapshot_one :: "string \<Rightarrow> path \<Rightarrow> jfs \<Rightarrow> jfs" where
  "snapshot_one now src fs =
     (if fs src = None then fs
      else if fs (BASELINE_DIR @ base_name src) \<noteq> None then fs
      else fs(BASELINE_DIR @ base_name src := fs src,
              sidecar_path BASELINE_DIR (base_name src) \<mapsto> Some (JObj
                [(''cpu_governor'', JStr ''powersave''),
                 (''source'', JStr ''pre-existing artifact, snapshotted not regenerated by this harness invocation''),
                 (''snapshotted_from'', JStr src), (''snapshotted_at_utc'', JStr now)])))"

definition snapshot_baseline :: "string \<Rightarrow> jfs \<Rightarrow> jfs" where
  "snapshot_baseline now fs = fold (snapshot_one now) (map (\<lambda>(k, s, a). a) TARGETS @ hera_existing) fs"

text \<open>\<^verbatim>\<open>_live_manifest_fields\<close>: the governor is read again at the moment of writing.\<close>

definition live_manifest_fields :: "renv \<Rightarrow> (string \<times> json) list \<Rightarrow> rstate \<Rightarrow> (string \<times> json) list \<times> rstate" where
  "live_manifest_fields E static st =
     (kv_set ''stamped_at_utc'' (JStr (re_now E (rs_reads st)))
       (kv_set ''turbo_disabled'' (re_turbo E (rs_reads st))
         (kv_set ''cpu_governor'' (JStr (read_governor (re_gov E (rs_reads st)))) static)),
      st\<lparr>rs_reads := Suc (rs_reads st)\<rparr>)"

definition pin :: "string option \<Rightarrow> string list \<Rightarrow> string list" where
  "pin cpus cmd = (case cpus of Some c \<Rightarrow> if c = [] then cmd else [''taskset'', ''-c'', c] @ cmd | None \<Rightarrow> cmd)"

text \<open>Copy an artifact into the performance snapshot and stamp it.\<close>

definition copy_and_stamp :: "renv \<Rightarrow> (string \<times> json) list \<Rightarrow> path \<Rightarrow> string \<Rightarrow> rstate \<Rightarrow> rstate" where
  "copy_and_stamp E static src name st =
     (let st1 = st\<lparr>rs_files := (rs_files st)(PERFORMANCE_DIR @ name := rs_files st src)\<rparr>;
          (live, st2) = live_manifest_fields E static st1
      in st2\<lparr>rs_files := (rs_files st2)(sidecar_path PERFORMANCE_DIR name \<mapsto>
           Some (JObj (kv_set ''wall_seconds'' (JNum (py_round 1 (re_wall E (rs_reads st)))) live)))\<rparr>)"

definition run_one :: "renv \<Rightarrow> path \<Rightarrow> path \<Rightarrow> string option \<Rightarrow> (string \<times> json) list \<Rightarrow> rstate \<Rightarrow> bool \<times> rstate" where
  "run_one E script artifact cpus static st =
     (let (rc, fs) = re_run E (pin cpus [''python3'', script]) (rs_files st);
          st1 = st\<lparr>rs_files := fs\<rparr>
      in if rc \<noteq> 0 then (False, st1)
         else if fs artifact = None then (False, st1)
         else (True, copy_and_stamp E static artifact (base_name artifact) st1))"

definition HERA_PRODUCED :: path where "HERA_PRODUCED = ''tools/transciphering/results/hera_bench.json''"

definition run_hera_one :: "renv \<Rightarrow> string option \<Rightarrow> (string \<times> json) list \<Rightarrow> nat \<Rightarrow> rstate \<Rightarrow> bool \<times> rstate" where
  "run_hera_one E cpus static lanes st =
     (let (rc, fs) = re_run E (pin cpus [''go'', ''run'', ''./bench'', ''--features=256'', ''--lanes='' @ py_str lanes, ''--rounds=100'']) (rs_files st);
          st1 = st\<lparr>rs_files := fs\<rparr>
      in if rc \<noteq> 0 then (False, st1)
         else if fs HERA_PRODUCED = None then (False, st1)
         else (True, copy_and_stamp E static HERA_PRODUCED (hera_name lanes) st1))"

fun run_hera_loop :: "renv \<Rightarrow> string option \<Rightarrow> (string \<times> json) list \<Rightarrow> nat list \<Rightarrow> rstate \<Rightarrow> bool \<times> rstate" where
  "run_hera_loop E cpus static [] st = (True, st)"
| "run_hera_loop E cpus static (l # ls) st =
     (let (ok, st1) = run_hera_one E cpus static l st; (ok', st2) = run_hera_loop E cpus static ls st1
      in (ok \<and> ok', st2))"

definition run_hera_benches :: "renv \<Rightarrow> string option \<Rightarrow> (string \<times> json) list \<Rightarrow> rstate \<Rightarrow> bool \<times> rstate" where
  "run_hera_benches E cpus static st =
     (if \<not> re_has_go E then (True, st) else run_hera_loop E cpus static HERA_LANES st)"

fun run_targets :: "renv \<Rightarrow> string option \<Rightarrow> (string \<times> json) list \<Rightarrow> (string \<times> path \<times> path) list \<Rightarrow> rstate \<Rightarrow> string list \<times> rstate" where
  "run_targets E cpus static [] st = ([], st)"
| "run_targets E cpus static ((key, script, artifact) # ts) st =
     (let (ok, st1) = run_one E script artifact cpus static st;
          (fails, st2) = run_targets E cpus static ts st1
      in (if ok then fails else key # fails, st2))"

record reval_args =
  ra_cpus :: "string option"
  ra_only :: "string option"
  ra_allow :: bool

definition INVALID_MARKER :: path where
  "INVALID_MARKER = PERFORMANCE_DIR @ ''RUN_INVALID_governor_drift.json''"

text \<open>\<^verbatim>\<open>args.only\<close>: absent or empty selects everything, otherwise it is split at commas.\<close>

definition split_comma :: "string \<Rightarrow> string list" where
  "split_comma s = split_on CHR '','' s"

lemma split_comma_simps [simp]:
  "split_comma [] = [[]]"
  "split_comma (c # cs) = (if c = CHR '','' then [] # split_comma cs
     else (case split_comma cs of [] \<Rightarrow> [[c]] | w # ws \<Rightarrow> (c # w) # ws))"
  by (simp_all add: split_comma_def)

definition wanted :: "reval_args \<Rightarrow> string set option" where
  "wanted a = (case ra_only a of None \<Rightarrow> None | Some s \<Rightarrow> if s = [] then None else Some (set (split_comma s)))"

definition selected_targets :: "reval_args \<Rightarrow> (string \<times> path \<times> path) list" where
  "selected_targets a = (case wanted a of None \<Rightarrow> TARGETS | Some w \<Rightarrow> filter (\<lambda>t. fst t \<in> w) TARGETS)"

definition static_fields :: "renv \<Rightarrow> reval_args \<Rightarrow> (string \<times> json) list" where
  "static_fields E a =
     [(''governor_at_run_start'', JStr (read_governor (re_gov E 0))),
      (''taskset_cpus'', case ra_cpus a of None \<Rightarrow> JNull | Some c \<Rightarrow> JStr c),
      (''run_started_at_utc'', JStr (re_now E 0)),
      (''allow_non_performance_override'', JBool (ra_allow a))]"

text \<open>The measurements of \<^verbatim>\<open>main\<close>: the keys that failed and the state after the last one.\<close>

definition measure_all :: "renv \<Rightarrow> reval_args \<Rightarrow> jfs \<Rightarrow> string list \<times> rstate" where
  "measure_all E a fs =
     (let (fails, st1) = run_targets E (ra_cpus a) (static_fields E a) (selected_targets a)
                           \<lparr>rs_files = snapshot_baseline (re_now E 0) fs, rs_reads = 1\<rparr>;
          (hera_ok, st2) = (if (case wanted a of None \<Rightarrow> True | Some w \<Rightarrow> ''hera_bench'' \<in> w)
                            then run_hera_benches E (ra_cpus a) (static_fields E a) st1 else (True, st1))
      in (if hera_ok then fails else fails @ [''hera_bench''], st2))"

text \<open>\<^verbatim>\<open>main\<close>.\<close>

definition revalidate_main :: "renv \<Rightarrow> reval_args \<Rightarrow> jfs \<Rightarrow> int \<times> jfs" where
  "revalidate_main E a fs =
     (let governor = read_governor (re_gov E 0) in
      if governor \<noteq> ''performance'' \<and> \<not> ra_allow a then (1, fs)
      else if (case wanted a of None \<Rightarrow> False | Some w \<Rightarrow> \<not> w \<subseteq> insert ''hera_bench'' (fst ` set TARGETS)) then (1, fs)
      else
        let (failures, st) = measure_all E a fs;
            at_end = read_governor (re_gov E (rs_reads st));
            drifted = (at_end \<noteq> ''performance'' \<and> \<not> ra_allow a)
        in if failures \<noteq> [] then (1, rs_files st)
           else if drifted then
             (1, (rs_files st)(INVALID_MARKER \<mapsto> Some (JObj [(''invalid'', JBool True),
                (''reason'', JStr (''cpu_governor no longer '' @ [CHR 0x27] @ ''performance'' @ [CHR 0x27] @
                   '' after the run completed -- likely thermal throttle or a power-profile override mid-run.'')),
                (''governor_at_run_start'', JStr governor), (''governor_at_run_end'', JStr at_end),
                (''run_started_at_utc'', JStr (re_now E 0)), (''checked_at_utc'', JStr (re_now E (rs_reads st)))])))
           else (0, rs_files st))"

section \<open>Field-by-field comparison\<close>

definition HEADLINE_PATTERNS :: "string list" where
  "HEADLINE_PATTERNS = [''pct_delta'', ''pct_reduction'', ''amortization_factor'', ''delta'']"

definition RAW_SAMPLE_KEYS :: "string list" where "RAW_SAMPLE_KEYS = [''raw_results'', ''raw_samples'']"

definition kv_update :: "(string \<times> 'v) list \<Rightarrow> (string \<times> 'v) list \<Rightarrow> (string \<times> 'v) list" where
  "kv_update new old = fold (\<lambda>(k, v) kvs. kv_set k v kvs) new old"

definition sub_prefix :: "string \<Rightarrow> string \<Rightarrow> string" where
  "sub_prefix pre k = (if pre = [] then k else pre @ ''.'' @ k)"

fun flatten :: "string \<Rightarrow> json \<Rightarrow> (string \<times> pyfloat) list"
  and flatten_obj :: "string \<Rightarrow> (string \<times> json) list \<Rightarrow> (string \<times> pyfloat) list \<Rightarrow> (string \<times> pyfloat) list"
  and flatten_arr :: "string \<Rightarrow> nat \<Rightarrow> json list \<Rightarrow> (string \<times> pyfloat) list \<Rightarrow> (string \<times> pyfloat) list" where
  "flatten pre (JObj kvs) = flatten_obj pre kvs []"
| "flatten pre (JArr xs) = flatten_arr pre 0 xs []"
| "flatten pre (JNum x) = [(pre, x)]"
| "flatten pre _ = []"
| "flatten_obj pre [] out = out"
| "flatten_obj pre ((k, v) # kvs) out = flatten_obj pre kvs (kv_update (flatten (sub_prefix pre k) v) out)"
| "flatten_arr pre i [] out = out"
| "flatten_arr pre i (v # vs) out = flatten_arr pre (Suc i) vs (kv_update (flatten (pre @ ''['' @ py_str i @ '']'') v) out)"

fun strip_raw_samples :: "json \<Rightarrow> json" where
  "strip_raw_samples (JObj kvs) = JObj (filter (\<lambda>(k, v). k \<notin> set RAW_SAMPLE_KEYS) kvs)"
| "strip_raw_samples j = j"

text \<open>\<^verbatim>\<open>p in s\<close> for strings.\<close>

fun contains :: "string \<Rightarrow> string \<Rightarrow> bool" where
  "contains p [] = (p = [])"
| "contains p (c # cs) = (take (length p) (c # cs) = p \<or> contains p cs)"

definition pct_change :: "pyfloat \<Rightarrow> pyfloat \<Rightarrow> pyfloat" where
  "pct_change ov nv =
     (if ov = Fin 0 then (if nv \<noteq> Fin 0 then PInf else Fin 0)
      else pf_mul (pf_mul (pf_sub nv ov) (pf_inv (pf_abs ov))) (Fin 100))"

record diff_row =
  dr_artifact :: string
  dr_path :: string
  dr_old :: pyfloat
  dr_new :: pyfloat
  dr_pct :: pyfloat
  dr_flagged :: bool
  dr_headline :: bool

definition diff_pair :: "string \<Rightarrow> json \<Rightarrow> json \<Rightarrow> pyfloat \<Rightarrow> diff_row list" where
  "diff_pair name old new threshold =
     (let old_flat = flatten [] (strip_raw_samples old); new_flat = flatten [] (strip_raw_samples new);
          paths = sort (filter (\<lambda>p. p \<in> set (map fst new_flat)) (remdups (map fst old_flat)));
          row = (\<lambda>p. let ov = the (map_of old_flat p); nv = the (map_of new_flat p); pct = pct_change ov nv
                     in \<lparr>dr_artifact = name, dr_path = p, dr_old = ov, dr_new = nv, dr_pct = pct,
                         dr_flagged = pf_lt threshold (pf_abs pct),
                         dr_headline = list_ex (\<lambda>h. contains h p) HEADLINE_PATTERNS\<rparr>)
      in filter (\<lambda>r. dr_flagged r \<or> dr_headline r) (map row paths))"

text \<open>\<open>base\<close> and \<open>perf\<close> list the file names of the two snapshot directories that match \<^verbatim>\<open>*.json\<close>, if the
  directories exist.\<close>

definition data_names :: "string list \<Rightarrow> string list" where
  "data_names ns = sort (filter (\<lambda>n. \<not> contains ''governor_manifest'' n) ns)"

definition diff_main :: "jfs \<Rightarrow> string list option \<Rightarrow> string list option \<Rightarrow> pyfloat \<Rightarrow> int res" where
  "diff_main fs base perf threshold =
     (case (base, perf) of
        (Some bs, Some ps) \<Rightarrow>
          let common = sort (filter (\<lambda>n. n \<in> set (data_names ps)) (remdups (data_names bs))) in
          rbind (rmap (\<lambda>n. rbind (load_json fs (BASELINE_DIR @ n)) (\<lambda>old.
                           rbind (load_json fs (PERFORMANCE_DIR @ n)) (\<lambda>new. Ret (diff_pair n old new threshold)))) common) (\<lambda>rows.
          Ret (if filter dr_flagged (concat rows) \<noteq> [] then 1 else 0))
      | _ \<Rightarrow> Ret 1)"

section \<open>Reading a snapshot\<close>

definition snapshot_dir :: "string \<Rightarrow> path" where
  "snapshot_dir label = ''artifacts/performance_revalidation/'' @ label @ ''/''"

definition assert_manifest_consistent :: "jfs \<Rightarrow> string \<Rightarrow> string \<Rightarrow> unit res" where
  "assert_manifest_consistent fs label name =
     (case map_of SNAPSHOT_EXPECTED_GOVERNOR label of
        None \<Rightarrow> Raise KeyError
      | Some expected \<Rightarrow>
        if fs (sidecar_path (snapshot_dir label) name) = None then Raise (SystemExit 1)
        else rbind (load_json fs (sidecar_path (snapshot_dir label) name)) (\<lambda>m.
             rbind (jget_opt m ''cpu_governor'') (\<lambda>actual.
             if actual \<noteq> JStr expected then Raise (SystemExit 1) else Ret ())))"

definition c3_load :: "jfs \<Rightarrow> string \<Rightarrow> string \<Rightarrow> json res" where
  "c3_load fs label name =
     (if fs (snapshot_dir label @ name) = None then Raise (SystemExit 1)
      else rbind (assert_manifest_consistent fs label name) (\<lambda>_. load_json fs (snapshot_dir label @ name)))"

definition table_a_row :: "json \<Rightarrow> string \<Rightarrow> json res" where
  "table_a_row e2e chain =
     rbind (jget e2e chain) (\<lambda>d.
     rbind (jnum_at d [''client_stage_us'', ''encode_encrypt_us'', ''median_us'']) (\<lambda>client_us.
     rbind (jnum_at d [''server_stage_us'', ''total_inference_us'', ''median_us'']) (\<lambda>server_us.
     rbind (py_div client_us server_us) (\<lambda>q.
     Ret (JObj [(''chain'', JStr chain), (''client_encode_encrypt_median_us'', JNum (py_round 1 client_us)),
                (''server_total_inference_median_us'', JNum (py_round 1 server_us)),
                (''client_minus_server_us'', JNum (py_round 1 (pf_sub client_us server_us))),
                (''client_over_server_ratio'', JNum (py_round 3 q)),
                (''which_is_larger'', JStr (if pf_gt client_us server_us then ''client'' else ''server''))])))))"

definition table_a :: "json \<Rightarrow> json list res" where
  "table_a e2e = rmap (table_a_row e2e) [''160bit'', ''200bit'']"

definition client_us_160 :: "json \<Rightarrow> pyfloat res" where
  "client_us_160 e2e = jnum_at e2e [''160bit'', ''client_stage_us'', ''encode_encrypt_us'', ''median_us'']"

text \<open>\<^verbatim>\<open>by_lanes\<close>: the last row with a lane count wins.\<close>

definition by_lanes :: "json list \<Rightarrow> nat \<Rightarrow> json option res" where
  "by_lanes rows lanes =
     rbind (rmap (\<lambda>r. rbind (jget r ''lanes'') (\<lambda>l. Ret (l = JInt (int lanes), r))) rows) (\<lambda>ms.
     Ret (map_option snd (find fst (rev ms))))"

definition table_b_row :: "pyfloat \<Rightarrow> json list \<Rightarrow> nat \<Rightarrow> json list res" where
  "table_b_row client_us rows lanes =
     rbind (by_lanes rows lanes) (\<lambda>mr. case mr of
       None \<Rightarrow> Ret []
     | Some r \<Rightarrow>
       rbind (rbind (jget r ''per_tx_us'') jnum) (\<lambda>server_us.
       rbind (jget r ''amortization_factor'') (\<lambda>af.
       rbind (py_div client_us server_us) (\<lambda>q.
       Ret [JObj [(''lanes'', JInt (int lanes)), (''client_encrypt_us_fixed_per_request'', JNum (py_round 1 client_us)),
                  (''server_amortized_per_tx_us'', JNum (py_round 1 server_us)), (''amortization_factor_server'', af),
                  (''client_over_server_ratio'', JNum (py_round 3 q)),
                  (''which_is_larger'', JStr (if pf_gt client_us server_us then ''client'' else ''server''))]]))))"

definition table_b :: "json \<Rightarrow> json \<Rightarrow> json list res" where
  "table_b e2e amort =
     rbind (client_us_160 e2e) (\<lambda>cu.
     rbind (jget amort ''amortization'') (\<lambda>a. case a of
       JArr rows \<Rightarrow> rbind (rmap (table_b_row cu rows) [1, 4, 8, 16]) (\<lambda>rs. Ret (concat rs))
     | _ \<Rightarrow> Raise TypeError))"

definition table_c_row :: "pyfloat \<Rightarrow> jfs \<Rightarrow> string \<Rightarrow> nat \<Rightarrow> json res" where
  "table_c_row cu fs label lanes =
     (if fs (snapshot_dir label @ hera_name lanes) = None
      then Ret (JObj [(''lanes'', JInt (int lanes)), (''ckks_encrypt_median_us'', JNum (py_round 1 cu)), (''hera_encrypt_median_us'', JStr ''MISSING''),
                       (''note'', JStr (snapshot_dir label @ hera_name lanes @ '' not found in this snapshot''))])
      else
        rbind (c3_load fs label (hera_name lanes)) (\<lambda>hera.
        rbind (jnum_at hera [''online_encrypt_median_ms'']) (\<lambda>ms.
        let hera_us = pf_mul ms (Fin 1000) in
        rbind (py_div cu hera_us) (\<lambda>q.
        rbind (jget_opt hera ''upload_symmetric_bytes'') (\<lambda>ub.
        rbind (jget_opt hera ''upload_ckks_standard_bytes'') (\<lambda>cb.
        Ret (JObj [(''lanes'', JInt (int lanes)), (''ckks_encrypt_median_us'', JNum (py_round 1 cu)),
                   (''hera_encrypt_median_us'', JNum (py_round 1 hera_us)), (''ckks_minus_hera_us'', JNum (py_round 1 (pf_sub cu hera_us))),
                   (''ckks_over_hera_ratio'', JNum (py_round 3 q)),
                   (''which_is_larger'', JStr (if pf_gt cu hera_us then ''ckks'' else ''hera'')),
                   (''hera_upload_bytes'', ub), (''ckks_upload_bytes'', cb)])))))))"

definition table_c :: "json \<Rightarrow> jfs \<Rightarrow> string \<Rightarrow> json list res" where
  "table_c e2e fs label = rbind (client_us_160 e2e) (\<lambda>cu. rmap (table_c_row cu fs label) HERA_LANES)"

definition c3_main :: "jfs \<Rightarrow> bool \<Rightarrow> string \<Rightarrow> path option \<Rightarrow> int res \<times> jfs" where
  "c3_main fs dir_exists label json_out =
     (if label \<notin> {''baseline_powersave'', ''performance''} then (Raise (SystemExit 2), fs)
      else if \<not> dir_exists then (Raise (SystemExit 1), fs)
      else case
        rbind (c3_load fs label ''e2e_latency_breakdown.json'') (\<lambda>e2e.
        rbind (c3_load fs label ''amortization_table.json'') (\<lambda>amort.
        rbind (table_a e2e) (\<lambda>ta.
        rbind (table_b e2e amort) (\<lambda>tb.
        rbind (table_c e2e fs label) (\<lambda>tc. Ret (ta, tb, tc)))))) of
        Inl e \<Rightarrow> (Inl e, fs)
      | Inr (ta, tb, tc) \<Rightarrow>
        (Ret 0, case json_out of
           None \<Rightarrow> fs
         | Some p \<Rightarrow> if p = [] then fs else save_json p (JObj
             [(''snapshot'', JStr label), (''is_plumbing_only'', JBool (label = ''baseline_powersave'')),
              (''table_a_single_request'', JArr ta), (''table_b_amortized_occupancy'', JArr tb),
              (''table_c_lane_for_lane_hera'', JArr tc)]) fs))"

section \<open>What a run leaves in the snapshot\<close>

text \<open>A data file of the performance snapshot with its sidecar, stamped with a governor read during the run.\<close>

definition stamped :: "renv \<Rightarrow> string \<Rightarrow> rstate \<Rightarrow> bool" where
  "stamped E name st \<longleftrightarrow> rs_files st (PERFORMANCE_DIR @ name) \<noteq> None \<and>
     (\<exists>k kvs. 0 < k \<and> k < rs_reads st \<and> rs_files st (sidecar_path PERFORMANCE_DIR name) = Some (Some (JObj kvs)) \<and>
        map_of kvs ''cpu_governor'' = Some (JStr (read_governor (re_gov E k))))"

text \<open>The measured programs leave the performance snapshot alone.\<close>

definition keeps_snapshot :: "renv \<Rightarrow> bool" where
  "keeps_snapshot E \<longleftrightarrow> (\<forall>cmd fs p. take (length PERFORMANCE_DIR) p = PERFORMANCE_DIR \<longrightarrow> snd (re_run E cmd fs) p = fs p)"

text \<open>Two snapshot names whose data files and sidecars are four different paths.\<close>

definition separate :: "string \<Rightarrow> string \<Rightarrow> bool" where
  "separate n m \<longleftrightarrow> n \<noteq> m \<and> n \<noteq> stem_of m @ ''.governor_manifest.json'' \<and> m \<noteq> stem_of n @ ''.governor_manifest.json'' \<and>
     stem_of n \<noteq> stem_of m"

definition snapshot_names :: "string list" where
  "snapshot_names = map (\<lambda>(k, s, a). base_name a) TARGETS @ map hera_name HERA_LANES"

lemma separate_sym: "separate n m \<Longrightarrow> separate m n"
  by (auto simp: separate_def)

lemma snapshot_names_separate: "sorted_wrt separate snapshot_names"
  by code_simp

lemma snapshot_names_no_sidecar: "list_all (\<lambda>n. n \<noteq> stem_of n @ ''.governor_manifest.json'') snapshot_names"
  by code_simp

lemma copy_and_stamp_reads [simp]: "rs_reads (copy_and_stamp E static src name st) = Suc (rs_reads st)"
  by (simp add: copy_and_stamp_def live_manifest_fields_def)

lemma copy_and_stamp_other:
  "q \<noteq> PERFORMANCE_DIR @ name \<Longrightarrow> q \<noteq> sidecar_path PERFORMANCE_DIR name \<Longrightarrow>
     rs_files (copy_and_stamp E static src name st) q = rs_files st q"
  by (simp add: copy_and_stamp_def live_manifest_fields_def)

lemma copy_and_stamp_stamped:
  assumes "rs_files st src \<noteq> None" "0 < rs_reads st" "name \<noteq> stem_of name @ ''.governor_manifest.json''"
  shows "stamped E name (copy_and_stamp E static src name st)"
  using assms by (auto simp: stamped_def copy_and_stamp_def live_manifest_fields_def sidecar_path_def)

lemma copy_and_stamp_keeps:
  assumes "stamped E n st" "separate n name"
  shows "stamped E n (copy_and_stamp E static src name st)"
proof -
  have q: "PERFORMANCE_DIR @ n \<noteq> PERFORMANCE_DIR @ name" "PERFORMANCE_DIR @ n \<noteq> sidecar_path PERFORMANCE_DIR name"
    "sidecar_path PERFORMANCE_DIR n \<noteq> PERFORMANCE_DIR @ name" "sidecar_path PERFORMANCE_DIR n \<noteq> sidecar_path PERFORMANCE_DIR name"
    using assms(2) by (auto simp: separate_def sidecar_path_def)
  obtain k kvs where "0 < k" "k < rs_reads st" "rs_files st (sidecar_path PERFORMANCE_DIR n) = Some (Some (JObj kvs))"
    "map_of kvs ''cpu_governor'' = Some (JStr (read_governor (re_gov E k)))" "rs_files st (PERFORMANCE_DIR @ n) \<noteq> None"
    using assms(1) by (auto simp: stamped_def)
  then show ?thesis unfolding stamped_def copy_and_stamp_other [OF q(1,2)] copy_and_stamp_other [OF q(3,4)] copy_and_stamp_reads
    by (intro conjI exI [of _ k] exI [of _ kvs] less_SucI)
qed

lemma script_keeps:
  assumes "keeps_snapshot E" "stamped E n st" "re_run E cmd (rs_files st) = (rc, fs)"
  shows "stamped E n (st\<lparr>rs_files := fs\<rparr>)"
proof -
  have "fs p = rs_files st p" if "take (length PERFORMANCE_DIR) p = PERFORMANCE_DIR" for p
    using that assms(1,3) unfolding keeps_snapshot_def by (metis snd_conv)
  then show ?thesis using assms(2) by (simp add: stamped_def sidecar_path_def)
qed

text \<open>One measurement, of either kind.\<close>

definition measured :: "renv \<Rightarrow> string \<Rightarrow> rstate \<Rightarrow> bool \<times> rstate \<Rightarrow> bool" where
  "measured E name st r \<longleftrightarrow> rs_reads st \<le> rs_reads (snd r) \<and> (fst r \<longrightarrow> stamped E name (snd r)) \<and>
     (\<forall>n. stamped E n st \<longrightarrow> separate n name \<longrightarrow> stamped E n (snd r))"

lemma measured_step:
  assumes "keeps_snapshot E" "0 < rs_reads st" "name \<noteq> stem_of name @ ''.governor_manifest.json''"
    and run: "re_run E cmd (rs_files st) = (rc, fs)"
  shows "measured E name st
     (if rc \<noteq> 0 then (False, st\<lparr>rs_files := fs\<rparr>) else if fs src = None then (False, st\<lparr>rs_files := fs\<rparr>)
      else (True, copy_and_stamp E static src name (st\<lparr>rs_files := fs\<rparr>)))"
  using assms copy_and_stamp_stamped [of "st\<lparr>rs_files := fs\<rparr>" src name]
  by (auto simp: measured_def intro: copy_and_stamp_keeps script_keeps [OF assms(1) _ run])

lemma run_one_measured:
  assumes "keeps_snapshot E" "0 < rs_reads st" "base_name artifact \<noteq> stem_of (base_name artifact) @ ''.governor_manifest.json''"
  shows "measured E (base_name artifact) st (run_one E script artifact cpus static st)"
proof -
  obtain rc fs where run: "re_run E (pin cpus [''python3'', script]) (rs_files st) = (rc, fs)" by force
  show ?thesis using measured_step [OF assms run, of artifact static] by (simp add: run_one_def run Let_def)
qed

lemma run_hera_one_measured:
  assumes "keeps_snapshot E" "0 < rs_reads st" "hera_name l \<noteq> stem_of (hera_name l) @ ''.governor_manifest.json''"
  shows "measured E (hera_name l) st (run_hera_one E cpus static l st)"
proof -
  obtain rc fs where run: "re_run E (pin cpus [''go'', ''run'', ''./bench'', ''--features=256'',
      ''--lanes='' @ py_str l, ''--rounds=100'']) (rs_files st) = (rc, fs)" by force
  show ?thesis unfolding run_hera_one_def run Let_def prod.case by (rule measured_step [OF assms run])
qed

lemma run_targets_stamps:
  assumes "keeps_snapshot E" "0 < rs_reads st"
    and "list_all (\<lambda>n. n \<noteq> stem_of n @ ''.governor_manifest.json'') (map (\<lambda>(k, s, a). base_name a) ts)"
    and "sorted_wrt separate (map (\<lambda>(k, s, a). base_name a) ts)"
    and "run_targets E cpus static ts st = (fails, st')"
  shows "0 < rs_reads st' \<and> (fails = [] \<longrightarrow> (\<forall>(k, s, a) \<in> set ts. stamped E (base_name a) st')) \<and>
     (\<forall>n. stamped E n st \<longrightarrow> (\<forall>(k, s, a) \<in> set ts. separate n (base_name a)) \<longrightarrow> stamped E n st')"
  using assms
proof (induction ts arbitrary: st fails st')
  case (Cons t ts)
  obtain key script artifact where t: "t = (key, script, artifact)" by (cases t)
  obtain ok st1 where r: "run_one E script artifact cpus static st = (ok, st1)" by force
  obtain fs2 st2 where rs: "run_targets E cpus static ts st1 = (fs2, st2)" by force
  have M: "measured E (base_name artifact) st (ok, st1)"
    using run_one_measured [of E st artifact script cpus static] Cons.prems by (simp add: t r)
  have eq: "st' = st2" "fails = (if ok then fs2 else key # fs2)" using Cons.prems(5) by (auto simp: t r rs)
  have IH: "0 < rs_reads st2 \<and> (fs2 = [] \<longrightarrow> (\<forall>(k, s, a) \<in> set ts. stamped E (base_name a) st2)) \<and>
     (\<forall>n. stamped E n st1 \<longrightarrow> (\<forall>(k, s, a) \<in> set ts. separate n (base_name a)) \<longrightarrow> stamped E n st2)"
    using Cons.prems M by (intro Cons.IH [OF _ _ _ _ rs]) (auto simp: t measured_def)
  have sep: "\<forall>(k, s, a) \<in> set ts. separate (base_name artifact) (base_name a)" using Cons.prems(4) by (auto simp: t)
  show ?case using IH M sep by (auto simp: eq t measured_def split: if_splits)
qed simp

lemma run_hera_loop_keeps:
  assumes "keeps_snapshot E" "0 < rs_reads st" "list_all (\<lambda>n. n \<noteq> stem_of n @ ''.governor_manifest.json'') (map hera_name ls)"
    and "stamped E n st" "\<forall>l \<in> set ls. separate n (hera_name l)"
  shows "stamped E n (snd (run_hera_loop E cpus static ls st))"
  using assms
proof (induction ls arbitrary: st)
  case (Cons l ls)
  obtain ok st1 where r: "run_hera_one E cpus static l st = (ok, st1)" by force
  have "measured E (hera_name l) st (ok, st1)"
    using run_hera_one_measured [of E st l cpus static] Cons.prems by (simp add: r)
  then have "stamped E n (snd (run_hera_loop E cpus static ls st1))"
    using Cons.prems by (intro Cons.IH) (auto simp: measured_def)
  then show ?case by (auto simp: r split: prod.splits)
qed simp

lemma targets_separate: "sorted_wrt separate (map (\<lambda>(k, s, a). base_name a) TARGETS)"
  using snapshot_names_separate by (simp add: snapshot_names_def sorted_wrt_append)

lemma measure_all_stamps:
  assumes "keeps_snapshot E" "measure_all E a fs = ([], st)" "(key, script, artifact) \<in> set (selected_targets a)"
  shows "stamped E (base_name artifact) st"
proof -
  have sub: "selected_targets a = filter (\<lambda>t. case wanted a of None \<Rightarrow> True | Some w \<Rightarrow> fst t \<in> w) TARGETS"
    by (simp add: selected_targets_def split: option.splits)
  obtain fails st1 where r: "run_targets E (ra_cpus a) (static_fields E a) (selected_targets a)
      \<lparr>rs_files = snapshot_baseline (re_now E 0) fs, rs_reads = Suc 0\<rparr> = (fails, st1)" by force
  have sep: "sorted_wrt separate (map (\<lambda>(k, s, a). base_name a) (selected_targets a))"
    using targets_separate by (simp add: sub sorted_wrt_map sorted_wrt_filter)
  have no: "list_all (\<lambda>n. n \<noteq> stem_of n @ ''.governor_manifest.json'') (map (\<lambda>(k, s, a). base_name a) (selected_targets a))"
    using snapshot_names_no_sidecar by (auto simp: sub snapshot_names_def list_all_iff)
  have nf: "fails = []" using assms(2) by (auto simp: measure_all_def r split: prod.splits if_splits)
  have S1: "0 < rs_reads st1" "stamped E (base_name artifact) st1"
    using run_targets_stamps [OF assms(1) _ no sep r] nf assms(3) by auto
  have "\<forall>l \<in> set HERA_LANES. separate (base_name artifact) (hera_name l)"
    using snapshot_names_separate assms(3) by (auto simp: sub snapshot_names_def sorted_wrt_append)
  then have "stamped E (base_name artifact) (snd (run_hera_loop E (ra_cpus a) (static_fields E a) HERA_LANES st1))"
    using snapshot_names_no_sidecar S1 by (intro run_hera_loop_keeps assms(1)) (auto simp: snapshot_names_def)
  then show ?thesis using S1(2) assms(2)
    by (auto simp: measure_all_def r run_hera_benches_def split: prod.splits if_splits)
qed

section \<open>Properties\<close>

lemma performance_dir: "PERFORMANCE_DIR = snapshot_dir ''performance''"
  by code_simp

text \<open>C33. Without the override, a run whose first governor reading is not \<^verbatim>\<open>performance\<close> exits with 1 and touches no
  file; a run that exits with 0 measured every selected target without a failure and read \<^verbatim>\<open>performance\<close> on all
  CPUs both at the start and after the last measurement; a run that failed nowhere but ends under another
  governor exits with 1 and leaves the invalid marker beside its outputs.\<close>
theorem revalidation_gated:
  assumes "\<not> ra_allow a"
  shows "(read_governor (re_gov E 0) \<noteq> ''performance'' \<longrightarrow> revalidate_main E a fs = (1, fs)) \<and>
    (\<forall>fs'. revalidate_main E a fs = (0, fs') \<longrightarrow>
      (\<exists>st. measure_all E a fs = ([], st) \<and> fs' = rs_files st \<and>
        read_governor (re_gov E 0) = ''performance'' \<and> read_governor (re_gov E (rs_reads st)) = ''performance'')) \<and>
    (\<forall>st. measure_all E a fs = ([], st) \<longrightarrow> read_governor (re_gov E 0) = ''performance'' \<longrightarrow>
      (case wanted a of None \<Rightarrow> True | Some w \<Rightarrow> w \<subseteq> insert ''hera_bench'' (fst ` set TARGETS)) \<longrightarrow>
      read_governor (re_gov E (rs_reads st)) \<noteq> ''performance'' \<longrightarrow>
      (\<exists>j. revalidate_main E a fs = (1, (rs_files st)(INVALID_MARKER \<mapsto> Some j))))"
  using assms
  by (auto simp: revalidate_main_def Let_def split: prod.splits if_splits option.splits)

definition demo_renv :: "string \<Rightarrow> renv" where
  "demo_renv g = \<lparr>re_gov = (\<lambda>_. [g, g]), re_turbo = (\<lambda>_. JBool True), re_now = (\<lambda>_. ''now''), re_wall = (\<lambda>_. NaN),
     re_run = (\<lambda>cmd fs. (0, fs)), re_has_go = False\<rparr>"

definition demo_reval_args :: reval_args where
  "demo_reval_args = \<lparr>ra_cpus = Some ''2,3'', ra_only = Some ''amortization,hera_bench'', ra_allow = False\<rparr>"

definition demo_artifacts :: jfs where
  "demo_artifacts = [''artifacts/amortization_table.json'' \<mapsto> Some (JObj [(''amortization'', JArr [])])]"

lemma demo_revalidation:
  "fst (revalidate_main (demo_renv ''performance'') demo_reval_args demo_artifacts) = 0"
  "(''amortization'', ''scripts/generate_amortization_table.py'', ''artifacts/amortization_table.json'')
     \<in> set (selected_targets demo_reval_args)"
  by code_simp+

lemma demo_renv_keeps: "keeps_snapshot (demo_renv g)"
  by (simp add: keeps_snapshot_def demo_renv_def)

theorem revalidation_gated_witness:
  "revalidate_main (demo_renv ''powersave'') demo_reval_args demo_artifacts = (1, demo_artifacts) \<and>
   (\<exists>st. measure_all (demo_renv ''performance'') demo_reval_args demo_artifacts = ([], st))"
proof -
  have a: "\<not> ra_allow demo_reval_args" by (simp add: demo_reval_args_def)
  have p: "read_governor (re_gov (demo_renv ''powersave'') 0) \<noteq> ''performance''" by code_simp
  obtain fs' where "revalidate_main (demo_renv ''performance'') demo_reval_args demo_artifacts = (0, fs')"
    using demo_revalidation(1) by (metis prod.collapse)
  then show ?thesis
    using revalidation_gated [OF a, of "demo_renv ''powersave''" demo_artifacts] p
      revalidation_gated [OF a, of "demo_renv ''performance''" demo_artifacts] by blast
qed

text \<open>C34. After a run that exits with 0, every selected target has its data file in the performance snapshot, stamped
  with a governor that was read after the run started, and the comparison script accepts the file exactly when
  that reading was \<^verbatim>\<open>performance\<close>; otherwise it exits with status 1. The measured programs are assumed not to write
  into the snapshot themselves.\<close>
theorem revalidated_snapshot_readable:
  assumes "keeps_snapshot E" "revalidate_main E a fs = (0, fs')" "(key, script, artifact) \<in> set (selected_targets a)"
  shows "\<exists>k>0. fs' (PERFORMANCE_DIR @ base_name artifact) \<noteq> None \<and>
     c3_load fs' ''performance'' (base_name artifact) =
       (if read_governor (re_gov E k) = ''performance'' then load_json fs' (PERFORMANCE_DIR @ base_name artifact)
        else Raise (SystemExit 1))"
proof -
  obtain st where st: "measure_all E a fs = ([], st)" "fs' = rs_files st"
    using assms(2) by (auto simp: revalidate_main_def Let_def split: prod.splits if_splits option.splits)
  obtain k kvs where k: "0 < k" "fs' (sidecar_path PERFORMANCE_DIR (base_name artifact)) = Some (Some (JObj kvs))"
    "map_of kvs ''cpu_governor'' = Some (JStr (read_governor (re_gov E k)))" "fs' (PERFORMANCE_DIR @ base_name artifact) \<noteq> None"
    using measure_all_stamps [OF assms(1) st(1) assms(3)] by (auto simp: stamped_def st(2))
  have exp: "map_of SNAPSHOT_EXPECTED_GOVERNOR ''performance'' = Some ''performance''"
    by (simp add: SNAPSHOT_EXPECTED_GOVERNOR_def)
  have "c3_load fs' ''performance'' (base_name artifact) =
       (if read_governor (re_gov E k) = ''performance'' then load_json fs' (PERFORMANCE_DIR @ base_name artifact)
        else Raise (SystemExit 1))"
    using k(2-4) unfolding c3_load_def assert_manifest_consistent_def exp performance_dir [symmetric]
    by (auto simp: load_json_def)
  then show ?thesis using k(1,4) by blast
qed

theorem revalidated_snapshot_readable_witness:
  "\<exists>k>0. c3_load (snd (revalidate_main (demo_renv ''performance'') demo_reval_args demo_artifacts)) ''performance''
      (base_name ''artifacts/amortization_table.json'') =
    (if read_governor (re_gov (demo_renv ''performance'') k) = ''performance''
     then load_json (snd (revalidate_main (demo_renv ''performance'') demo_reval_args demo_artifacts))
            (PERFORMANCE_DIR @ base_name ''artifacts/amortization_table.json'')
     else Raise (SystemExit 1))"
proof -
  obtain fs' where fs': "revalidate_main (demo_renv ''performance'') demo_reval_args demo_artifacts = (0, fs')"
    using demo_revalidation(1) by (metis prod.collapse)
  from revalidated_snapshot_readable [OF demo_renv_keeps fs' demo_revalidation(2)] show ?thesis
    unfolding fs' snd_conv by blast
qed

subsection \<open>Comparison of the two snapshots\<close>

text \<open>The intended test on one field, with what the code does on values that are not finite.\<close>

fun within_pct :: "real \<Rightarrow> pyfloat \<Rightarrow> pyfloat \<Rightarrow> bool" where
  "within_pct t (Fin x) (Fin y) = (if x = 0 then y = 0 else \<bar>y - x\<bar> \<le> t / 100 * \<bar>x\<bar>)"
| "within_pct t (Fin x) NaN = (x \<noteq> 0)"
| "within_pct t (Fin x) _ = False"
| "within_pct t _ _ = True"

lemma pct_change_Fin: "x \<noteq> 0 \<Longrightarrow> pct_change (Fin x) (Fin y) = Fin ((y - x) / \<bar>x\<bar> * 100)"
  by (simp add: pct_change_def)

lemma flagged_iff_not_within:
  assumes "0 \<le> t"
  shows "pf_lt (Fin t) (pf_abs (pct_change ov nv)) \<longleftrightarrow> \<not> within_pct t ov nv"
proof (cases ov)
  case (Fin x)
  show ?thesis
  proof (cases nv)
    fix y assume nv: "nv = Fin y"
    show ?thesis
    proof (cases "x = 0")
      case False
      have "pf_abs (pct_change ov nv) = Fin (\<bar>y - x\<bar> / \<bar>x\<bar> * 100)"
        unfolding Fin nv pct_change_Fin [OF False] pf_abs.simps abs_mult abs_divide abs_idempotent abs_numeral ..
      moreover have "t < \<bar>y - x\<bar> / \<bar>x\<bar> * 100 \<longleftrightarrow> t / 100 * \<bar>x\<bar> < \<bar>y - x\<bar>"
        using False by (simp add: field_simps)
      ultimately show ?thesis using False by (simp add: Fin nv not_le)
    qed (use assms in \<open>simp add: Fin nv pct_change_def\<close>)
  qed (auto simp: Fin pct_change_def pf_sub_def)
qed (cases nv; simp add: pct_change_def pf_sub_def)+

abbreviation fields :: "json \<Rightarrow> string \<rightharpoonup> pyfloat" where
  "fields j \<equiv> map_of (flatten [] (strip_raw_samples j))"

lemma diff_pair_flagged:
  assumes "0 \<le> t"
  shows "filter dr_flagged (diff_pair name old new (Fin t)) = [] \<longleftrightarrow>
     (\<forall>p ov nv. fields old p = Some ov \<longrightarrow> fields new p = Some nv \<longrightarrow> within_pct t ov nv)"
proof -
  have in_fst: "p \<in> set (map fst xs) \<longleftrightarrow> (\<exists>v. map_of xs p = Some v)" for p and xs :: "(string \<times> pyfloat) list"
    by (metis domIff dom_map_of_conv_image_fst not_Some_eq set_map)
  define row where "row p = (let ov = the (fields old p); nv = the (fields new p); pct = pct_change ov nv
      in \<lparr>dr_artifact = name, dr_path = p, dr_old = ov, dr_new = nv, dr_pct = pct, dr_flagged = pf_lt (Fin t) (pf_abs pct),
          dr_headline = list_ex (\<lambda>h. contains h p) HEADLINE_PATTERNS\<rparr>)" for p
  have fl: "dr_flagged (row p) \<longleftrightarrow> \<not> within_pct t (the (fields old p)) (the (fields new p))" for p
    by (simp add: row_def Let_def flagged_iff_not_within [OF assms])
  have set_rows: "set (diff_pair name old new (Fin t)) =
      {r \<in> row ` {p. (\<exists>v. fields old p = Some v) \<and> (\<exists>v. fields new p = Some v)}. dr_flagged r \<or> dr_headline r}"
    unfolding diff_pair_def Let_def row_def by (auto simp flip: in_fst)
  have "filter dr_flagged (diff_pair name old new (Fin t)) = [] \<longleftrightarrow>
      (\<forall>p. (\<exists>v. fields old p = Some v) \<longrightarrow> (\<exists>v. fields new p = Some v) \<longrightarrow> \<not> dr_flagged (row p))"
    unfolding filter_empty_conv set_rows by blast
  then show ?thesis unfolding fl by (metis option.sel)
qed

text \<open>The comparison of the two snapshots exits with 0 exactly when every numeric field that both versions of a
  common artifact have stayed within the threshold: relative to the old value, and unchanged where that is zero.
  The sense on values that are not finite is the code's: a field that became NaN passes unless it was zero, a
  field whose old value was NaN or infinite always passes.\<close>
theorem diff_verdict_exact:
  assumes "0 \<le> t"
    and "\<forall>n \<in> set (data_names bs) \<inter> set (data_names ps).
      load_json fs (BASELINE_DIR @ n) = Ret (old n) \<and> load_json fs (PERFORMANCE_DIR @ n) = Ret (new n)"
  shows "diff_main fs (Some bs) (Some ps) (Fin t) =
    Ret (if \<forall>n \<in> set (data_names bs) \<inter> set (data_names ps). \<forall>p ov nv.
              fields (old n) p = Some ov \<longrightarrow> fields (new n) p = Some nv \<longrightarrow> within_pct t ov nv
         then 0 else 1)"
proof -
  let ?common = "sort (filter (\<lambda>n. n \<in> set (data_names ps)) (remdups (data_names bs)))"
  have "rmap (\<lambda>n. rbind (load_json fs (BASELINE_DIR @ n)) (\<lambda>o1. rbind (load_json fs (PERFORMANCE_DIR @ n)) (\<lambda>o2.
      Ret (diff_pair n o1 o2 (Fin t))))) ?common = Ret (map (\<lambda>n. diff_pair n (old n) (new n) (Fin t)) ?common)"
    using assms(2) by (intro rmap_Ret) simp
  moreover have "filter dr_flagged (concat (map (\<lambda>n. diff_pair n (old n) (new n) (Fin t)) ?common)) = [] \<longleftrightarrow>
      (\<forall>n \<in> set (data_names bs) \<inter> set (data_names ps). \<forall>p ov nv.
         fields (old n) p = Some ov \<longrightarrow> fields (new n) p = Some nv \<longrightarrow> within_pct t ov nv)"
    by (simp add: filter_concat diff_pair_flagged [OF assms(1)]) blast
  ultimately show ?thesis by (simp add: diff_main_def Let_def)
qed

definition demo_diff_fs :: jfs where
  "demo_diff_fs = [BASELINE_DIR @ ''a.json'' \<mapsto> Some (JObj [(''x'', JReal 100)]),
                   PERFORMANCE_DIR @ ''a.json'' \<mapsto> Some (JObj [(''x'', JReal 110)])]"

theorem diff_verdict_exact_witness:
  "diff_main demo_diff_fs (Some [''a.json'', ''a.governor_manifest.json'']) (Some [''a.json'']) (Fin 15) = Ret 0 \<and>
   diff_main demo_diff_fs (Some [''a.json'', ''a.governor_manifest.json'']) (Some [''a.json'']) (Fin 5) = Ret 1"
proof -
  let ?old = "\<lambda>n :: string. JObj [(''x'', JReal 100)]" and ?new = "\<lambda>n :: string. JObj [(''x'', JReal 110)]"
  have ns: "data_names [''a.json'', ''a.governor_manifest.json''] = [''a.json'']" "data_names [''a.json''] = [''a.json'']"
    by code_simp+
  have dir: "PERFORMANCE_DIR @ ''a.json'' \<noteq> BASELINE_DIR @ ''a.json''" by code_simp
  have L: "\<forall>n \<in> set (data_names [''a.json'', ''a.governor_manifest.json'']) \<inter> set (data_names [''a.json'']).
      load_json demo_diff_fs (BASELINE_DIR @ n) = Ret (?old n) \<and> load_json demo_diff_fs (PERFORMANCE_DIR @ n) = Ret (?new n)"
    unfolding ns load_json_def demo_diff_fs_def using dir by simp
  have F: "flatten [] (strip_raw_samples (JObj [(''x'', JReal r)])) = [(''x'', Fin r)]" for r
    by (simp add: RAW_SAMPLE_KEYS_def sub_prefix_def kv_update_def)
  have W: "within_pct 15 (Fin 100) (Fin 110)" "\<not> within_pct 5 (Fin 100) (Fin 110)" by simp_all
  show ?thesis
    using diff_verdict_exact [OF _ L, of 15] diff_verdict_exact [OF _ L, of 5] W unfolding F ns
    by (simp del: within_pct.simps)
qed

subsection \<open>Reading a snapshot\<close>

lemma c3_load_Ret:
  assumes "c3_load fs label name = Ret j"
  shows "\<exists>g m. map_of SNAPSHOT_EXPECTED_GOVERNOR label = Some g \<and>
     load_json fs (sidecar_path (snapshot_dir label) name) = Ret m \<and> jget_opt m ''cpu_governor'' = Ret (JStr g)"
  using assms
  by (auto simp: c3_load_def assert_manifest_consistent_def res_simps split: if_splits option.splits)

lemma rmap_Ret_mem: "rmap f xs = Ret ys \<Longrightarrow> x \<in> set xs \<Longrightarrow> \<exists>y. f x = Ret y"
  by (induction xs arbitrary: ys) (auto simp: rbind_Ret_iff)

lemma table_c_loads:
  assumes "table_c e2e fs label = Ret rows" "l \<in> set HERA_LANES" "fs (snapshot_dir label @ hera_name l) \<noteq> None"
  shows "\<exists>j. c3_load fs label (hera_name l) = Ret j"
proof -
  obtain cu where "rmap (table_c_row cu fs label) HERA_LANES = Ret rows"
    using assms(1) unfolding table_c_def rbind_Ret_iff by blast
  from rmap_Ret_mem [OF this assms(2)] obtain r where "table_c_row cu fs label l = Ret r" by (elim exE)
  then show ?thesis using assms(3) unfolding table_c_row_def
    by (cases "c3_load fs label (hera_name l)") simp_all
qed

lemma c3_main_Ret:
  assumes "c3_main fs dir_exists label json_out = (Ret 0, fs')"
  shows "\<exists>e2e amort tc. c3_load fs label ''e2e_latency_breakdown.json'' = Ret e2e \<and>
     c3_load fs label ''amortization_table.json'' = Ret amort \<and> table_c e2e fs label = Ret tc"
proof -
  let ?body = "rbind (c3_load fs label ''e2e_latency_breakdown.json'') (\<lambda>e2e.
        rbind (c3_load fs label ''amortization_table.json'') (\<lambda>amort.
        rbind (table_a e2e) (\<lambda>ta. rbind (table_b e2e amort) (\<lambda>tb. rbind (table_c e2e fs label) (\<lambda>tc. Ret (ta, tb, tc))))))"
  obtain x where "?body = Ret x"
    using assms unfolding c3_main_def by (cases ?body) (simp_all split: if_splits)
  then show ?thesis unfolding rbind_Ret_iff by blast
qed

text \<open>When the client/server comparison ends normally, every file it used (the latency breakdown, the amortization
  table and each HERA result present in the snapshot) has a sidecar that names the governor of the requested
  snapshot; when it does not end normally it writes nothing.\<close>
theorem c3_reads_only_matching_governor:
  assumes "c3_main fs dir_exists label json_out = (r, fs')"
  shows "(r = Ret 0 \<longrightarrow> (\<exists>g. map_of SNAPSHOT_EXPECTED_GOVERNOR label = Some g \<and>
      (\<forall>name \<in> {''e2e_latency_breakdown.json'', ''amortization_table.json''} \<union>
               hera_name ` {l \<in> set HERA_LANES. fs (snapshot_dir label @ hera_name l) \<noteq> None}.
         \<exists>m. load_json fs (sidecar_path (snapshot_dir label) name) = Ret m \<and> jget_opt m ''cpu_governor'' = Ret (JStr g)))) \<and>
    (r \<noteq> Ret 0 \<longrightarrow> fs' = fs)"
proof (cases "r = Ret 0")
  case True
  obtain e2e amort tc where L: "c3_load fs label ''e2e_latency_breakdown.json'' = Ret e2e"
      "c3_load fs label ''amortization_table.json'' = Ret amort" "table_c e2e fs label = Ret tc"
    using c3_main_Ret assms True by blast
  obtain g where g: "map_of SNAPSHOT_EXPECTED_GOVERNOR label = Some g" using c3_load_Ret [OF L(1)] by blast
  have S: "\<exists>m. load_json fs (sidecar_path (snapshot_dir label) n) = Ret m \<and> jget_opt m ''cpu_governor'' = Ret (JStr g)"
    if "\<exists>j. c3_load fs label n = Ret j" for n using c3_load_Ret g that by fastforce
  show ?thesis using S L(1,2) table_c_loads [OF L(3)] g True by blast
next
  case False
  then show ?thesis using assms by (auto simp: c3_main_def split: if_splits sum.splits prod.splits)
qed

definition demo_c3_fs :: jfs where
  "demo_c3_fs =
    (let stage = JObj [(''client_stage_us'', JObj [(''encode_encrypt_us'', JObj [(''median_us'', JReal 2)])]),
                       (''server_stage_us'', JObj [(''total_inference_us'', JObj [(''median_us'', JReal 4)])])];
         dir = snapshot_dir ''performance''; perf = JObj [(''cpu_governor'', JStr ''performance'')]
     in [dir @ ''e2e_latency_breakdown.json'' \<mapsto> Some (JObj [(''160bit'', stage), (''200bit'', stage)]),
         dir @ ''e2e_latency_breakdown.governor_manifest.json'' \<mapsto> Some perf,
         dir @ ''amortization_table.json'' \<mapsto> Some (JObj [(''amortization'', JArr [])]),
         dir @ ''amortization_table.governor_manifest.json'' \<mapsto> Some perf])"

lemma demo_c3_ends: "fst (c3_main demo_c3_fs True ''performance'' None) = Ret 0"
  by code_simp

theorem c3_reads_only_matching_governor_witness:
  "\<exists>g m. map_of SNAPSHOT_EXPECTED_GOVERNOR ''performance'' = Some g \<and>
     load_json demo_c3_fs (sidecar_path (snapshot_dir ''performance'') ''amortization_table.json'') = Ret m \<and>
     jget_opt m ''cpu_governor'' = Ret (JStr g)"
proof -
  obtain fs' where "c3_main demo_c3_fs True ''performance'' None = (Ret 0, fs')"
    using demo_c3_ends by (metis prod.collapse)
  from c3_reads_only_matching_governor [OF this] show ?thesis by blast
qed

end
