(* ===== verification/CnpBench.thy ===== *)
theory CnpBench
  imports Harness Governor
begin

text \<open>
  The benchmark driver \<^verbatim>\<open>scripts/cnp_bench.py\<close>: instrumented requests against a launched server, the parity gate in
  front of every timing, the in-process circuit benchmark, the matrix over strategies and the exit status. A row is
  the dictionary the script builds. Clocks, key generation, the benchmark executable, random choices and the machine
  description are arguments; the core lists and the machine description are in \<open>BenchHost\<close>, the printed table is in \<open>Tables\<close>, and prose fields are left out.
\<close>

section \<open>Statistics\<close>

type_synonym row = "(string \<times> json) list"

definition PARITY_TOL :: real where "PARITY_TOL = 1 / 1000"
definition ALL_STRATEGIES :: "string list" where "ALL_STRATEGIES = [''fold'', ''bsgs'', ''naive'', ''cnp'']"
definition GATE_N :: nat where "GATE_N = 64"
definition DEFAULT_PORT :: nat where "DEFAULT_PORT = 50052"

definition pct :: "real list \<Rightarrow> real \<Rightarrow> json" where
  "pct a q = JReal (np_percentile a q)"

text \<open>The minimum of an empty array raises.\<close>

definition stat :: "real list \<Rightarrow> json res" where
  "stat a =
     (if a = [] then Raise ValueError
      else Ret (JObj [(''mean_us'', JReal (mean a)), (''median_us'', pct a 50), (''p50_us'', pct a 50), (''p95_us'', pct a 95),
        (''p99_us'', pct a 99), (''min_us'', JReal (lmin a)), (''max_us'', JReal (lmax a)), (''n'', JInt (int (length a)))]))"

section \<open>Gate sample and requests\<close>

text \<open>\<open>choice i xs k\<close> is the \<open>i\<close>-th draw of \<open>k\<close> elements without replacement.\<close>

definition gate_sample :: "(nat \<Rightarrow> nat list \<Rightarrow> nat \<Rightarrow> nat list) \<Rightarrow> (nat list \<Rightarrow> nat list) \<Rightarrow> int list \<Rightarrow> nat list res" where
  "gate_sample choice shuffle y =
     (let pos = filter (\<lambda>i. y ! i = 1) [0..<length y]; neg = filter (\<lambda>i. y ! i = 0) [0..<length y]
      in if length pos < GATE_N div 2 \<or> length neg < GATE_N div 2 then Raise ValueError
         else Ret (shuffle (choice 0 pos (GATE_N div 2) @ choice 1 neg (GATE_N div 2))))"

record bench_rec =
  be_raw :: "real list"
  be_client :: "(string \<times> real) list"
  be_server :: "(string \<times> real) list"
  be_up :: nat
  be_down :: nat

definition server_fields :: "timing \<Rightarrow> (string \<times> real) list" where
  "server_fields td =
     [(''deserialization_us'', of_int (deserialization_us td)), (''multiply_plain_us'', of_int (multiply_plain_us td)),
      (''rotation_hoisting_us'', of_int (rotation_hoisting_us td)), (''mask_us'', of_int (mask_us td)),
      (''serialization_us'', of_int (serialization_us td)), (''total_inference_us'', of_int (total_inference_us td))]"

text \<open>\<open>t\<close> are the six clock readings of the request, in seconds.\<close>

definition run_one_request ::
  "('c, 'w, 'g) seal \<Rightarrow> ('s, 'w) stub \<Rightarrow> (nat \<Rightarrow> real) \<Rightarrow> string \<Rightarrow> string \<Rightarrow> real list list \<Rightarrow> 's \<Rightarrow> bench_rec res \<times> 's" where
  "run_one_request S stub t uuid mode chunk srv =
     (let n = length chunk in
      case (if mode = ''cnp'' then encrypt_cnp_batch S chunk (ncols chunk)
            else rbind (slot_buffer chunk) (\<lambda>buf. encrypt_batch S (concat buf))) of
        Inl e \<Rightarrow> (Inl e, srv)
      | Inr ct \<Rightarrow>
        (case stub_run stub \<lparr>rq_ct = ct, rq_id = uuid, rq_n = int n, rq_mode = (if mode = ''cnp'' then CNP else SLOT)\<rparr> srv of
           (Inl e, srv1) \<Rightarrow> (Inl e, srv1)
         | (Inr (resp, td), srv1) \<Rightarrow>
           if rs_status resp \<noteq> ST_OK then (Raise RuntimeError, srv1)
           else (case (if mode = ''cnp'' then decrypt_cnp_batch S (rs_ct resp) n
                       else rbind (decrypt_batch S (rs_ct resp) SLOT_BATCH) (\<lambda>raw. Ret (take n raw))) of
               Inl e \<Rightarrow> (Inl e, srv1)
             | Inr raw \<Rightarrow>
               (Ret \<lparr>be_raw = raw,
                  be_client =
                    [(''encode_encrypt_us'', (t 1 - t 0) * 1000000), (''grpc_roundtrip_us'', (t 3 - t 2) * 1000000),
                     (''network_and_grpc_overhead_us'', (t 3 - t 2) * 1000000 - of_int (total_inference_us td)),
                     (''decode_decrypt_us'', (t 4 - t 3) * 1000000), (''sigmoid_us'', (t 5 - t 4) * 1000000),
                     (''e2e_us'', (t 5 - t 0) * 1000000)],
                  be_server = server_fields td, be_up = wire_size S ct,
                  be_down = (case rs_ct resp of None \<Rightarrow> 0 | Some c \<Rightarrow> wire_size S c)\<rparr>, srv1))))"

text \<open>Requests in order; \<open>i\<close> numbers the requests of a configuration.\<close>

fun run_requests :: "(nat \<Rightarrow> real list list \<Rightarrow> 's \<Rightarrow> 'r res \<times> 's) \<Rightarrow> nat \<Rightarrow> real list list list \<Rightarrow> 's \<Rightarrow> 'r list res \<times> 's" where
  "run_requests rq i [] srv = (Ret [], srv)"
| "run_requests rq i (c # cs) srv =
     (case rq i c srv of
        (Inl e, srv1) \<Rightarrow> (Inl e, srv1)
      | (Inr r, srv1) \<Rightarrow>
        (case run_requests rq (Suc i) cs srv1 of
           (Inl e, srv2) \<Rightarrow> (Inl e, srv2)
         | (Inr rs, srv2) \<Rightarrow> (Ret (r # rs), srv2)))"

section \<open>One gRPC configuration\<close>

definition field :: "string \<Rightarrow> (string \<times> real) list \<Rightarrow> real" where
  "field k kvs = (case map_of kvs k of None \<Rightarrow> 0 | Some v \<Rightarrow> v)"

definition stage_stats :: "string list \<Rightarrow> (bench_rec \<Rightarrow> (string \<times> real) list) \<Rightarrow> bench_rec list \<Rightarrow> row res" where
  "stage_stats ks f recs = rmap (\<lambda>k. rbind (stat (map (\<lambda>r. field k (f r)) recs)) (\<lambda>j. Ret (k, j))) ks"

definition int_median :: "nat list \<Rightarrow> json" where
  "int_median xs = JInt \<lfloor>np_median (map real xs)\<rfloor>"

definition CLIENT_STAGES :: "string list" where
  "CLIENT_STAGES = [''encode_encrypt_us'', ''grpc_roundtrip_us'', ''network_and_grpc_overhead_us'', ''decode_decrypt_us'',
     ''sigmoid_us'', ''e2e_us'']"

definition SERVER_STAGES :: "string list" where
  "SERVER_STAGES = [''deserialization_us'', ''multiply_plain_us'', ''rotation_hoisting_us'', ''mask_us'', ''serialization_us'',
     ''total_inference_us'']"

text \<open>The timed part of a row.\<close>

definition timing_fields :: "bench_rec list \<Rightarrow> row res" where
  "timing_fields recs =
     rbind (stage_stats CLIENT_STAGES be_client recs) (\<lambda>cs.
     rbind (stage_stats SERVER_STAGES be_server recs) (\<lambda>ss.
     rbind (stat (map (\<lambda>r. field ''multiply_plain_us'' (be_server r) + field ''rotation_hoisting_us'' (be_server r)
                           + field ''mask_us'' (be_server r)) recs)) (\<lambda>co.
     let tot = map (\<lambda>r. field ''total_inference_us'' (be_server r)) recs; e2e = map (\<lambda>r. field ''e2e_us'' (be_client r)) recs in
     Ret [(''client_stage_us'', JObj cs), (''server_stage_us'', JObj (ss @ [(''compute_only_us'', co)])),
          (''bytes_up'', int_median (map be_up recs)), (''bytes_down'', int_median (map be_down recs)),
          (''summary_us'', JObj [(''server_p50'', pct tot 50), (''server_p99'', pct tot 99),
             (''client_p50'', JReal (np_percentile e2e 50 - np_percentile tot 50)), (''e2e_p50'', pct e2e 50), (''e2e_p99'', pct e2e 99)]),
          (''status'', JStr ''OK'')])))"

text \<open>\<open>rq\<close> issues one request; the request counter continues through gate, warm-up and timed requests.\<close>

definition timed_requests ::
  "(nat \<Rightarrow> real list list \<Rightarrow> 's \<Rightarrow> bench_rec res \<times> 's) \<Rightarrow> nat \<Rightarrow> nat \<Rightarrow> nat \<Rightarrow> nat \<Rightarrow> real list list \<Rightarrow> row \<Rightarrow> 's \<Rightarrow> row res \<times> 's" where
  "timed_requests rq i lanes n_requests warm X row srv =
     (let pool = take (max (lanes * (n_requests + warm)) lanes) X;
          reqs = map (\<lambda>i. take lanes (drop (i * lanes) pool)) [0..<n_requests + warm] in
      case run_requests rq i (take warm reqs) srv of
        (Inl e, srv1) \<Rightarrow> (Inl e, srv1)
      | (Inr ws, srv1) \<Rightarrow>
        (case run_requests rq (i + warm) (drop warm reqs) srv1 of
           (Inl e, srv2) \<Rightarrow> (Inl e, srv2)
         | (Inr recs, srv2) \<Rightarrow> (rbind (timing_fields recs) (\<lambda>tf. Ret (row @ tf)), srv2)))"

definition gate_fields :: "(int list \<Rightarrow> real list \<Rightarrow> real) \<Rightarrow> int list \<Rightarrow> real list \<Rightarrow> real list \<Rightarrow> real \<Rightarrow> row" where
  "gate_fields roc gy plain enc err =
     [(''parity_gate'', JObj [(''n'', JInt (int (length plain))), (''max_abs_error'', JReal err),
         (''tolerance'', JReal PARITY_TOL), (''passed'', JBool (err < PARITY_TOL))]),
      (''max_abs_score_error'', JReal err), (''auc_gate_sample'', JReal (roc gy enc)),
      (''auc_gate_sample_plaintext'', JReal (roc gy plain))]"

definition after_gate ::
  "(nat \<Rightarrow> real list list \<Rightarrow> 's \<Rightarrow> bench_rec res \<times> 's) \<Rightarrow> (int list \<Rightarrow> real list \<Rightarrow> real) \<Rightarrow> nat \<Rightarrow> nat \<Rightarrow> nat \<Rightarrow> real list list
   \<Rightarrow> int list \<Rightarrow> real list \<Rightarrow> bench_rec list \<Rightarrow> row \<Rightarrow> 's \<Rightarrow> row res \<times> 's" where
  "after_gate rq roc lanes n_requests warm X gy plain gs row srv =
     (let enc = concat (map be_raw gs); err = lmax (map2 (\<lambda>a b. \<bar>a - b\<bar>) enc plain);
          row1 = row @ gate_fields roc gy plain enc err in
      if length enc \<noteq> length plain \<or> enc = [] then (Raise ValueError, srv)
      else if err \<ge> PARITY_TOL then (Ret (row1 @ [(''status'', JStr ''PARITY_GATE_FAILED -- no timings recorded'')]), srv)
      else timed_requests rq (length gs) lanes n_requests warm X row1 srv)"

definition grpc_config ::
  "(nat \<Rightarrow> real list list \<Rightarrow> 's \<Rightarrow> bench_rec res \<times> 's) \<Rightarrow> (int list \<Rightarrow> real list \<Rightarrow> real) \<Rightarrow> string \<Rightarrow> nat \<Rightarrow> nat \<Rightarrow> nat
   \<Rightarrow> real list list \<Rightarrow> int list \<Rightarrow> real list \<Rightarrow> real \<Rightarrow> nat list \<Rightarrow> 's \<Rightarrow> row res \<times> 's" where
  "grpc_config rq roc strategy lanes n_requests warm X y w bias gate_idx srv =
     (let row = [(''strategy'', JStr strategy), (''scope'', JStr ''e2e_grpc''), (''lanes'', JInt (int lanes)),
                 (''requests'', JInt (int n_requests)), (''warmup'', JInt (int warm))];
          gX = map (\<lambda>i. X ! i) gate_idx; gy = map (\<lambda>i. y ! i) gate_idx;
          plain = map (\<lambda>r. dot r w + bias) gX in
      if lanes = 0 then (Raise ValueError, srv)
      else case run_requests rq 0 (chunks lanes gX) srv of
        (Inl e, srv1) \<Rightarrow> (Inl e, srv1)
      | (Inr gs, srv1) \<Rightarrow> after_gate rq roc lanes n_requests warm X gy plain gs row srv1)"

section \<open>One strategy over gRPC\<close>

record ('s, 'w) bench_world =
  bw_net :: "string \<Rightarrow> ('s, 'w) net"
  bw_fresh :: "string \<Rightarrow> 's"
  bw_roc :: "int list \<Rightarrow> real list \<Rightarrow> real"
  bw_choice :: "nat \<Rightarrow> nat list \<Rightarrow> nat \<Rightarrow> nat list"
  bw_shuffle :: "nat list \<Rightarrow> nat list"
  bw_keygen :: "string \<Rightarrow> real"
  bw_setup :: "string \<Rightarrow> real"
  bw_clock :: "nat \<Rightarrow> nat \<Rightarrow> nat \<Rightarrow> real"
  bw_uuid :: "nat \<Rightarrow> nat \<Rightarrow> string"
  bw_local :: "string list \<Rightarrow> (string \<rightharpoonup> string) \<Rightarrow> json option option"

fun lane_rows :: "(nat \<Rightarrow> 's \<Rightarrow> row res \<times> 's) \<Rightarrow> string \<Rightarrow> string \<Rightarrow> row \<Rightarrow> nat list \<Rightarrow> 's \<Rightarrow> row list res" where
  "lane_rows cfg mode strategy extra [] srv = Ret []"
| "lane_rows cfg mode strategy extra (l # ls) srv =
     (if mode = ''slot'' \<and> l > SLOT_BATCH
      then rbind (lane_rows cfg mode strategy extra ls srv) (\<lambda>rs.
        Ret ([(''strategy'', JStr strategy), (''scope'', JStr ''e2e_grpc''), (''lanes'', JInt (int l)),
              (''status'', JStr ''SKIPPED: slot packing holds at most 16 lanes'')] # rs))
      else case cfg l srv of
        (Inl e, srv1) \<Rightarrow> Inl e
      | (Inr row, srv1) \<Rightarrow> rbind (lane_rows cfg mode strategy extra ls srv1) (\<lambda>rs. Ret (kv_update extra row # rs)))"

definition file_size :: "fs \<Rightarrow> path \<Rightarrow> nat res" where
  "file_size fs p = rbind (read_bytes fs p) (\<lambda>b. Ret (length b))"

text \<open>The rows or the exception, and the process started, with its final status.\<close>

definition run_grpc_strategy ::
  "('c, 'w, 'g) seal \<Rightarrow> (real \<Rightarrow> real) \<Rightarrow> ('s, 'w) bench_world \<Rightarrow> fs \<Rightarrow> string \<Rightarrow> nat list \<Rightarrow> nat \<Rightarrow> nat \<Rightarrow> nat set option
   \<Rightarrow> nat option \<Rightarrow> nat \<Rightarrow> real list list \<Rightarrow> int list \<Rightarrow> real list \<Rightarrow> real \<Rightarrow> row list res \<times> sproc option" where
  "run_grpc_strategy S expit W fs strategy lanes_list n_requests warm server_cores omp port X y w bias =
     (let N = bw_net W strategy; mode = (if strategy = ''cnp'' then ''cnp'' else ''slot'') in
      case rbind (if strategy = ''cnp'' then Ret 0 else file_size fs ''artifacts/galois_keys_160.bin'') (\<lambda>gk.
           rbind (file_size fs ''artifacts/public_key_160.bin'') (\<lambda>pk. Ret (gk, pk))) of
        Inl e \<Rightarrow> (Inl e, None)
      | Inr (gk_bytes, pk_bytes) \<Rightarrow>
        (case launch_server (nt_host N) mode ''prod'' Map.empty (Some port) omp server_cores of
           (Inl e, proc) \<Rightarrow> (Inl e, proc)
         | (Inr addr, proc) \<Rightarrow>
           let extra = [(''key_bytes'', JObj [(''galois_keys'', JInt (int gk_bytes)), (''public_key'', JInt (int pk_bytes))]),
                        (''keygen_us'', JReal (bw_keygen W strategy)), (''client_setup_us'', JReal (bw_setup W strategy)),
                        (''rotations_per_request'', JInt (if strategy = ''fold'' then 8 else 0))];
               rq = (\<lambda>l i chunk s. run_one_request S (nt_connect N addr) (bw_clock W l i) (bw_uuid W l i) mode chunk s);
               out = (case make_client S expit N fs addr mode (bw_fresh W mode) of
                   (Inl e, srv1) \<Rightarrow> Inl e
                 | (Inr cl, srv1) \<Rightarrow>
                   rbind (gate_sample (bw_choice W) (bw_shuffle W) y) (\<lambda>idx.
                   lane_rows (\<lambda>l s. grpc_config (rq l) (bw_roc W) strategy l n_requests warm X y w bias idx s) mode strategy extra
                     lanes_list srv1))
           in (out, map_option (stop_server (nt_stops N)) proc)))"

section \<open>The circuit benchmark\<close>

definition local_env :: "(string \<rightharpoonup> string) \<Rightarrow> nat \<Rightarrow> nat option \<Rightarrow> string \<rightharpoonup> string" where
  "local_env environ n_requests omp =
     (let env = environ(''PPFD_BENCHMARK_ROUNDS'' \<mapsto> py_str n_requests);
          env = (if env ''PPFDAAS_ALLOW_LOCAL_GALOIS'' = None then env(''PPFDAAS_ALLOW_LOCAL_GALOIS'' \<mapsto> ''1'') else env)
      in case omp of None \<Rightarrow> env | Some t \<Rightarrow> env(''OMP_NUM_THREADS'' \<mapsto> py_str t))"

definition gate_part :: "json \<Rightarrow> row res" where
  "gate_part r =
     rbind (jget r ''stages'') (\<lambda>stages.
     rbind (jget r ''correctness_max_abs_error'') (\<lambda>err.
     rbind (jget r ''correctness_passed'') (\<lambda>passed.
     rbind (jget r ''galois_keys'') (\<lambda>gks.
     rbind (jget r ''galois_keygen_us'') (\<lambda>kg.
     rbind (jget r ''rotations'') (\<lambda>rot.
     Ret [(''stages'', stages),
          (''parity_gate'', JObj [(''max_abs_error'', err), (''passed'', JBool (jtruthy passed)),
             (''note'', JStr ''benchmark_160 in-band gate (synthetic random oracle, includes bias)'')]),
          (''max_abs_score_error'', err), (''auc_gate_sample'', JNull),
          (''key_bytes'', JObj [(''galois_key_count'', gks), (''galois_keys'', JStr ''not measured in this scope'')]),
          (''keygen_us'', kg), (''rotations_per_request'', rot)]))))))"

definition latency_part :: "json \<Rightarrow> row res" where
  "latency_part r =
     rbind (jget r ''latency_us'') (\<lambda>lat.
     rbind (rmap (\<lambda>(k, f). rbind (jget lat f) (\<lambda>v. Ret (k, v)))
       [(''mean_us'', ''mean''), (''p50_us'', ''p50''), (''median_us'', ''p50''), (''p95_us'', ''p95''), (''p99_us'', ''p99''),
        (''min_us'', ''min''), (''max_us'', ''max'')]) (\<lambda>ls.
     rbind (jget r ''n'') (\<lambda>n.
     Ret [(''circuit_us'', JObj (ls @ [(''n'', n)])), (''status'', JStr ''OK'')])))"

definition circuit_row :: "row \<Rightarrow> json \<Rightarrow> row res" where
  "circuit_row row r =
     rbind (gate_part r) (\<lambda>g.
     rbind (jget r ''correctness_passed'') (\<lambda>passed.
     if \<not> jtruthy passed then Ret (row @ g @ [(''status'', JStr ''PARITY_GATE_FAILED -- no timings recorded'')])
     else rbind (latency_part r) (\<lambda>l. Ret (row @ g @ l))))"

definition circuit_head :: "string \<Rightarrow> nat \<Rightarrow> nat \<Rightarrow> row" where
  "circuit_head strategy lanes n_requests =
     [(''strategy'', JStr strategy), (''scope'', JStr ''server_compute_only''),
      (''lanes'', JInt (int (if strategy \<noteq> ''cnp'' then SLOT_BATCH else lanes))), (''requests'', JInt (int n_requests)),
      (''client_stage_us'', JNull), (''server_stage_us'', JNull), (''bytes_up'', JNull), (''bytes_down'', JNull),
      (''bytes_note'', JStr ''no gRPC / serialization in this scope'')]
     @ (if strategy \<noteq> ''cnp''
        then [(''lanes_note'', JStr ''slot circuit always processes all 16 lane slots; not a per-lane measurement'')] else [])"

text \<open>\<open>bw_local args env\<close> is what follows from standard output: \<open>None\<close> without a closing brace, then \<open>Some None\<close> when the
  part up to it is no JSON. The tail of standard error in the failure status is not rendered.\<close>

definition run_local_circuit :: "('s, 'w) bench_world \<Rightarrow> string \<Rightarrow> nat \<Rightarrow> nat \<Rightarrow> nat option \<Rightarrow> row res" where
  "run_local_circuit W strategy lanes n_requests omp =
     (let h = nt_host (bw_net W strategy); exe = build_dir h @ ''/vendor_server/benchmark_160'';
          row = circuit_head strategy lanes n_requests in
      if \<not> h_exists h exe then Ret (row @ [(''status'', JStr (''SKIPPED: '' @ exe @ '' not built''))])
      else case bw_local W ([exe, ''--strategy='' @ strategy] @ (if strategy \<noteq> ''cnp'' then [] else [''--lanes='' @ py_str lanes]))
                  (local_env (h_environ h) n_requests omp) of
          None \<Rightarrow> Ret (row @ [(''status'', JStr ''FAILED: no JSON from benchmark_160'')])
        | Some None \<Rightarrow> Raise ValueError
        | Some (Some r) \<Rightarrow> circuit_row row r)"

section \<open>The matrix and the command\<close>

record bench_args =
  ba_strategies :: string
  ba_lanes :: "nat list"
  ba_requests :: nat
  ba_warmup :: nat
  ba_port :: nat
  ba_omp :: "nat option"
  ba_server_cores :: "nat set option"
  ba_out :: "path option"
  ba_smoke :: bool

definition strategy_rows ::
  "('c, 'w, 'g) seal \<Rightarrow> (real \<Rightarrow> real) \<Rightarrow> ('s, 'w) bench_world \<Rightarrow> fs \<Rightarrow> bench_args \<Rightarrow> nat \<Rightarrow> nat \<Rightarrow> real list list \<Rightarrow> int list
   \<Rightarrow> real list \<Rightarrow> real \<Rightarrow> string \<Rightarrow> row list res \<times> sproc option" where
  "strategy_rows S expit W fs a n_requests warm X y w bias s =
     (case (if s = ''cnp'' then rmap (\<lambda>ln. run_local_circuit W s ln n_requests (ba_omp a)) (ba_lanes a)
            else rbind (run_local_circuit W s SLOT_BATCH n_requests (ba_omp a)) (\<lambda>r. Ret [r])) of
        Inl e \<Rightarrow> (Inl e, None)
      | Inr rows \<Rightarrow>
        if s = ''fold'' \<or> s = ''cnp'' then
          (case run_grpc_strategy S expit W fs s (ba_lanes a) n_requests warm (ba_server_cores a) (ba_omp a) (ba_port a) X y w bias of
             (r, proc) \<Rightarrow> (rbind r (\<lambda>rows2. Ret (rows @ rows2)), proc))
        else (Ret rows, None))"

fun matrix_rows :: "(string \<Rightarrow> row list res \<times> sproc option) \<Rightarrow> string list \<Rightarrow> row list res \<times> sproc option list" where
  "matrix_rows f [] = (Ret [], [])"
| "matrix_rows f (s # ss) =
     (case f s of
        (Inl e, p) \<Rightarrow> (Inl e, [p])
      | (Inr rows, p) \<Rightarrow> (case matrix_rows f ss of (r, ps) \<Rightarrow> (rbind r (\<lambda>rest. Ret (rows @ rest)), p # ps)))"

definition run_matrix ::
  "('c, 'w, 'g) seal \<Rightarrow> (real \<Rightarrow> real) \<Rightarrow> ('s, 'w) bench_world \<Rightarrow> store \<Rightarrow> bench_args \<Rightarrow> string list \<Rightarrow> nat \<Rightarrow> nat
   \<Rightarrow> row list res \<times> sproc option list" where
  "run_matrix S expit W st a strategies n_requests warm =
     (case rbind (load_test_set st) (\<lambda>(X, y). rbind (load_model (np_load_vec st) (bins st)) (\<lambda>(w, bias).
           Ret (X, y, map f64_real w, f64_real bias))) of
        Inl e \<Rightarrow> (Inl e, [])
      | Inr (X, y, w, bias) \<Rightarrow> matrix_rows (strategy_rows S expit W (bins st) a n_requests warm X y w bias) strategies)"

definition row_failed :: "row \<Rightarrow> bool" where
  "row_failed row = (case map_of row ''status'' of Some (JStr s) \<Rightarrow> starts_with ''PARITY'' s \<or> starts_with ''FAILED'' s | _ \<Rightarrow> False)"

text \<open>The exit status, the processes started, the file written and its rows.\<close>

definition cli ::
  "('c, 'w, 'g) seal \<Rightarrow> (real \<Rightarrow> real) \<Rightarrow> ('s, 'w) bench_world \<Rightarrow> store \<Rightarrow> bench_args \<Rightarrow> int res \<times> sproc option list \<times> (path \<times> row list) option" where
  "cli S expit W st a =
     (let strategies = filter (\<lambda>s. s \<noteq> []) (split_comma (ba_strategies a));
          bad = filter (\<lambda>s. s \<notin> set ALL_STRATEGIES) strategies;
          (n, warm) = (if ba_smoke a then (10, 2) else (ba_requests a, ba_warmup a));
          out = (if (case ba_out a of None \<Rightarrow> False | Some p \<Rightarrow> p \<noteq> []) \<or> ba_smoke a then ba_out a else Some ''artifacts/cnp_bench.json'')
      in if bad \<noteq> [] then (Raise (SystemExit 2), [], None)
         else case run_matrix S expit W st a strategies n warm of
           (Inl e, ps) \<Rightarrow> (Inl e, ps, None)
         | (Inr rows, ps) \<Rightarrow>
           (Ret (if filter row_failed rows \<noteq> [] then 1 else 0), ps,
            case out of None \<Rightarrow> None | Some p \<Rightarrow> if p = [] then None else Some (p, rows)))"

section \<open>No timing without a passed gate\<close>

definition gate_passed :: "row \<Rightarrow> bool" where
  "gate_passed row \<longleftrightarrow> (\<exists>g. map_of row ''parity_gate'' = Some (JObj g) \<and> map_of g ''passed'' = Some (JBool True) \<and>
     (map_of row ''scope'' = Some (JStr ''e2e_grpc'') \<longrightarrow> (\<exists>e. map_of g ''max_abs_error'' = Some (JReal e) \<and> e < PARITY_TOL)))"

definition row_sound :: "row \<Rightarrow> bool" where
  "row_sound row \<longleftrightarrow> (map_of row ''summary_us'' \<noteq> None \<or> map_of row ''circuit_us'' \<noteq> None \<longrightarrow>
     map_of row ''status'' = Some (JStr ''OK'') \<and> gate_passed row)"

lemma timing_fields_keys:
  assumes "timing_fields recs = Ret tf"
  shows "map_of tf ''status'' = Some (JStr ''OK'')" "map_of tf ''parity_gate'' = None" "map_of tf ''scope'' = None"
    "map_of tf ''circuit_us'' = None"
  using assms by (auto simp: timing_fields_def Let_def rbind_Ret_iff)

lemma timed_requests_Ret:
  assumes "timed_requests rq i lanes n warm X row srv = (Ret row', srv')"
  shows "\<exists>recs tf. timing_fields recs = Ret tf \<and> row' = row @ tf"
  using assms by (auto simp: timed_requests_def Let_def rbind_Ret_iff split: prod.splits sum.splits)

lemma after_gate_Ret:
  assumes "after_gate rq roc lanes n warm X gy plain gs row srv = (Ret row', srv')"
  shows "\<exists>enc err. row' = row @ gate_fields roc gy plain enc err @ [(''status'', JStr ''PARITY_GATE_FAILED -- no timings recorded'')]
    \<or> (err < PARITY_TOL \<and> (\<exists>recs tf. timing_fields recs = Ret tf \<and> row' = row @ gate_fields roc gy plain enc err @ tf))"
proof -
  let ?enc = "concat (map be_raw gs)"
  let ?err = "lmax (map2 (\<lambda>a b. \<bar>a - b\<bar>) ?enc plain)"
  have ok: "\<not> (length ?enc \<noteq> length plain \<or> ?enc = [])"
    using assms unfolding after_gate_def Let_def by (metis Inl_Inr_False Pair_inject)
  show ?thesis
  proof (cases "?err \<ge> PARITY_TOL")
    case True
    with assms show ?thesis unfolding after_gate_def Let_def if_not_P [OF ok] by auto
  next
    case False
    then have "timed_requests rq (length gs) lanes n warm X (row @ gate_fields roc gy plain ?enc ?err) srv = (Ret row', srv')"
      using assms unfolding after_gate_def Let_def if_not_P [OF ok] if_not_P [OF False] by simp
    from timed_requests_Ret [OF this] False show ?thesis
      by (intro exI [of _ ?enc] exI [of _ ?err]) (auto simp: not_le)
  qed
qed

lemma after_gate_sound:
  assumes "after_gate rq roc lanes n warm X gy plain gs row srv = (Ret row', srv')"
    and "map_of row ''summary_us'' = None" "map_of row ''circuit_us'' = None" "map_of row ''status'' = None"
      "map_of row ''parity_gate'' = None" "map_of row ''scope'' = Some (JStr ''e2e_grpc'')"
  shows "row_sound row'"
proof -
  obtain enc err where "row' = row @ gate_fields roc gy plain enc err @ [(''status'', JStr ''PARITY_GATE_FAILED -- no timings recorded'')]
    \<or> (err < PARITY_TOL \<and> (\<exists>recs tf. timing_fields recs = Ret tf \<and> row' = row @ gate_fields roc gy plain enc err @ tf))"
    using after_gate_Ret [OF assms(1)] by blast
  then show ?thesis
  proof (elim disjE conjE exE)
    assume "row' = row @ gate_fields roc gy plain enc err @ [(''status'', JStr ''PARITY_GATE_FAILED -- no timings recorded'')]"
    with assms(2,3) show ?thesis by (simp add: row_sound_def gate_fields_def map_add_def)
  next
    fix recs tf
    assume "err < PARITY_TOL" "timing_fields recs = Ret tf" "row' = row @ gate_fields roc gy plain enc err @ tf"
    with timing_fields_keys [OF this(2)] assms(2-6) show ?thesis
      by (simp add: row_sound_def gate_passed_def map_add_def gate_fields_def)
  qed
qed

lemma grpc_config_sound:
  assumes "grpc_config rq roc strategy lanes n warm X y w bias idx srv = (Ret row, srv')"
  shows "row_sound row"
proof -
  obtain gs srv1 gy plain row0 where "after_gate rq roc lanes n warm X gy plain gs row0 srv1 = (Ret row, srv')"
      "row0 = [(''strategy'', JStr strategy), (''scope'', JStr ''e2e_grpc''), (''lanes'', JInt (int lanes)),
                 (''requests'', JInt (int n)), (''warmup'', JInt (int warm))]"
    using assms by (auto simp: grpc_config_def Let_def split: if_splits sum.splits prod.splits)
  from after_gate_sound [OF this(1)] this(2) show ?thesis by simp
qed

lemma map_of_kv_update_other: "k \<notin> fst ` set new \<Longrightarrow> map_of (kv_update new old) k = map_of old k"
  unfolding kv_update_def by (induction new arbitrary: old) auto

lemma row_sound_kv_update:
  assumes "fst ` set extra \<inter> {''summary_us'', ''circuit_us'', ''status'', ''parity_gate'', ''scope''} = {}"
  shows "row_sound (kv_update extra row) = row_sound row"
proof -
  have "map_of (kv_update extra row) k = map_of row k"
    if "k \<in> {''summary_us'', ''circuit_us'', ''status'', ''parity_gate'', ''scope''}" for k
    using assms that by (intro map_of_kv_update_other) blast
  then show ?thesis by (simp add: row_sound_def gate_passed_def)
qed

lemma row_sound_untimed:
  "map_of row ''summary_us'' = None \<Longrightarrow> map_of row ''circuit_us'' = None \<Longrightarrow> row_sound row"
  by (simp add: row_sound_def)

lemma lane_rows_sound:
  assumes "lane_rows cfg mode strategy extra ls srv = Ret rows" "row \<in> set rows"
    and "\<And>l s row s'. cfg l s = (Ret row, s') \<Longrightarrow> row_sound row"
    and "fst ` set extra \<inter> {''summary_us'', ''circuit_us'', ''status'', ''parity_gate'', ''scope''} = {}"
  shows "row_sound row"
  using assms(1,2)
proof (induction ls arbitrary: srv rows)
  case (Cons l ls)
  show ?case
  proof (cases "mode = ''slot'' \<and> l > SLOT_BATCH")
    case True
    with Cons show ?thesis by (auto simp: rbind_Ret_iff row_sound_untimed)
  next
    case False
    obtain r srv1 where c: "cfg l srv = (r, srv1)" by (cases "cfg l srv")
    with Cons.prems(1) False obtain row0 rs where "r = Ret row0" "lane_rows cfg mode strategy extra ls srv1 = Ret rs"
        "rows = kv_update extra row0 # rs"
      by (cases r) (auto simp: rbind_Ret_iff)
    with Cons.IH Cons.prems(2) assms(3) [of l srv row0 srv1] c row_sound_kv_update [OF assms(4)] show ?thesis by auto
  qed
qed simp

lemma gate_part_Ret:
  assumes "gate_part r = Ret g" "jget r ''correctness_passed'' = Ret passed"
  shows "\<exists>ob. map_of g ''parity_gate'' = Some (JObj ob) \<and> map_of ob ''passed'' = Some (JBool (jtruthy passed))"
    "map_of g ''scope'' = None" "map_of g ''status'' = None" "map_of g ''summary_us'' = None" "map_of g ''circuit_us'' = None"
  using assms by (auto simp: gate_part_def rbind_Ret_iff)

lemma latency_part_Ret:
  assumes "latency_part r = Ret l"
  shows "map_of l ''status'' = Some (JStr ''OK'')" "map_of l ''parity_gate'' = None" "map_of l ''scope'' = None"
  using assms by (auto simp: latency_part_def rbind_Ret_iff)

lemma circuit_head_fields:
  "map_of (circuit_head strategy lanes n) ''summary_us'' = None" "map_of (circuit_head strategy lanes n) ''circuit_us'' = None"
  "map_of (circuit_head strategy lanes n) ''status'' = None" "map_of (circuit_head strategy lanes n) ''parity_gate'' = None"
  "map_of (circuit_head strategy lanes n) ''scope'' = Some (JStr ''server_compute_only'')"
  by (simp_all add: circuit_head_def)

lemma circuit_row_sound:
  assumes "circuit_row (circuit_head strategy lanes n) r = Ret row"
  shows "row_sound row"
proof -
  obtain g passed where g: "gate_part r = Ret g" "jget r ''correctness_passed'' = Ret passed"
    using assms by (auto simp: circuit_row_def rbind_Ret_iff)
  obtain ob where ob: "map_of g ''parity_gate'' = Some (JObj ob)" "map_of ob ''passed'' = Some (JBool (jtruthy passed))"
    using gate_part_Ret(1) [OF g] by blast
  show ?thesis
  proof (cases "jtruthy passed")
    case True
    with assms g obtain l where l: "latency_part r = Ret l" "row = circuit_head strategy lanes n @ g @ l"
      by (auto simp: circuit_row_def rbind_Ret_iff)
    with True latency_part_Ret [OF l(1)] ob gate_part_Ret(2-) [OF g] circuit_head_fields show ?thesis
      by (simp add: row_sound_def gate_passed_def map_add_def)
  next
    case False
    with assms g have "row = circuit_head strategy lanes n @ g @ [(''status'', JStr ''PARITY_GATE_FAILED -- no timings recorded'')]"
      by (auto simp: circuit_row_def rbind_Ret_iff)
    with gate_part_Ret(2-) [OF g] circuit_head_fields show ?thesis
      by (intro row_sound_untimed) (simp_all add: map_add_def)
  qed
qed

lemma run_local_circuit_sound:
  assumes "run_local_circuit W strategy lanes n omp = Ret row"
  shows "row_sound row"
  using assms circuit_row_sound row_sound_untimed circuit_head_fields unfolding run_local_circuit_def Let_def
  by (auto split: if_splits option.splits)

lemma run_grpc_strategy_sound:
  assumes "run_grpc_strategy S expit W fs strategy ls n warm cores omp port X y w bias = (r, proc)"
  shows "r = Ret rows \<Longrightarrow> row \<in> set rows \<Longrightarrow> row_sound row" "proc = Some p \<Longrightarrow> sp_status p \<noteq> Running"
proof -
  obtain a pr where l: "launch_server (nt_host (bw_net W strategy)) (if strategy = ''cnp'' then ''cnp'' else ''slot'') ''prod''
      Map.empty (Some port) omp cores = (a, pr)" by fastforce
  show "row_sound row" if "r = Ret rows" "row \<in> set rows"
    using assms that unfolding run_grpc_strategy_def Let_def l
    by (auto simp: rbind_Ret_iff split: sum.splits prod.splits elim!: lane_rows_sound intro: grpc_config_sound)
  have "sp_status p \<noteq> Running" if "a = Inl e" "pr = Some p" for e
    using launch_running_iff [OF l] that by auto
  then show "sp_status p \<noteq> Running" if "proc = Some p"
    using assms that unfolding run_grpc_strategy_def Let_def l
    by (auto simp: stop_server_stopped split: sum.splits prod.splits)
qed

lemma strategy_rows_sound:
  assumes "strategy_rows S expit W fs a n warm X y w bias s = (r, proc)"
  shows "r = Ret rows \<Longrightarrow> row \<in> set rows \<Longrightarrow> row_sound row" "proc = Some p \<Longrightarrow> sp_status p \<noteq> Running"
proof -
  obtain r2 p2 where g: "run_grpc_strategy S expit W fs s (ba_lanes a) n warm (ba_server_cores a) (ba_omp a) (ba_port a) X y w bias
      = (r2, p2)" by fastforce
  have loc: "row_sound row" if "rmap (\<lambda>ln. run_local_circuit W s ln n (ba_omp a)) ls = Ret rs" "row \<in> set rs" for ls rs row
    using that run_local_circuit_sound by (fastforce simp: rmap_Ret_iff list_all2_conv_all_nth in_set_conv_nth)
  show "row_sound row" if "r = Ret rows" "row \<in> set rows"
    using assms that loc run_local_circuit_sound run_grpc_strategy_sound(1) [OF g] unfolding strategy_rows_def g
    by (fastforce simp: rbind_Ret_iff split: sum.splits if_splits)
  show "sp_status p \<noteq> Running" if "proc = Some p"
    using assms that run_grpc_strategy_sound(2) [OF g] unfolding strategy_rows_def g
    by (auto split: sum.splits if_splits)
qed

lemma matrix_rows_sound:
  assumes "matrix_rows f ss = (r, ps)"
    and rows: "\<And>s r p rows row. f s = (r, p) \<Longrightarrow> r = Ret rows \<Longrightarrow> row \<in> set rows \<Longrightarrow> row_sound row"
    and procs: "\<And>s r p q. f s = (r, p) \<Longrightarrow> p = Some q \<Longrightarrow> sp_status q \<noteq> Running"
  shows "(\<forall>rows. r = Ret rows \<longrightarrow> list_all row_sound rows) \<and> (\<forall>q. Some q \<in> set ps \<longrightarrow> sp_status q \<noteq> Running)"
  using assms(1)
proof (induction ss arbitrary: r ps)
  case (Cons s ss)
  obtain r1 p1 where f: "f s = (r1, p1)" by fastforce
  obtain r2 ps2 where m: "matrix_rows f ss = (r2, ps2)" by fastforce
  show ?case
    using Cons.prems Cons.IH [OF m] rows [OF f] procs [OF f] f m
    by (auto simp: rbind_Ret_iff list_all_iff split: sum.splits)
qed simp

lemma run_matrix_sound:
  assumes "run_matrix S expit W st a ss n warm = (r, ps)"
  shows "(\<forall>rows. r = Ret rows \<longrightarrow> list_all row_sound rows) \<and> (\<forall>q. Some q \<in> set ps \<longrightarrow> sp_status q \<noteq> Running)"
proof (cases "rbind (load_test_set st) (\<lambda>(X, y). rbind (load_model (np_load_vec st) (bins st)) (\<lambda>(w, bias).
           Ret (X, y, map f64_real w, f64_real bias)))")
  case (Inl e)
  with assms show ?thesis by (auto simp: run_matrix_def)
next
  case (Inr d)
  obtain X y w bias where d: "d = (X, y, w, bias)" by (cases d)
  have m: "matrix_rows (strategy_rows S expit W (bins st) a n warm X y w bias) ss = (r, ps)"
    using assms Inr d unfolding run_matrix_def by simp
  show ?thesis
    by (rule matrix_rows_sound [OF m]) (fact strategy_rows_sound)+
qed

text \<open>C26. No timing without a passed gate. Whatever the servers, clocks and benchmark binary do: a run that ends has a row list
  of the whole matrix in which every row with timings (\<^verbatim>\<open>summary_us\<close> of a gRPC row, \<^verbatim>\<open>circuit_us\<close> of a circuit row) has status
  OK and a passed parity gate, for a gRPC row with the measured error below the tolerance; the exit status is 1 exactly
  when a row failed, and the file written holds exactly these rows. A run that raises writes no file, and in either case no
  started server is left running.\<close>

theorem bench_no_timing_without_gate:
  assumes "cli S expit W st a = (r, ps, out)"
  shows "(\<forall>q. Some q \<in> set ps \<longrightarrow> sp_status q \<noteq> Running) \<and> (\<forall>e. r = Raise e \<longrightarrow> out = None)
    \<and> (\<forall>code. r = Ret code \<longrightarrow> (\<exists>n warm rows.
        run_matrix S expit W st a (filter (\<lambda>s. s \<noteq> []) (split_comma (ba_strategies a))) n warm = (Ret rows, ps)
        \<and> (\<forall>row \<in> set rows. map_of row ''summary_us'' \<noteq> None \<or> map_of row ''circuit_us'' \<noteq> None \<longrightarrow>
              map_of row ''status'' = Some (JStr ''OK'') \<and> gate_passed row)
        \<and> code = (if \<exists>row \<in> set rows. row_failed row then 1 else 0)
        \<and> (\<forall>p rows'. out = Some (p, rows') \<longrightarrow> rows' = rows)))"
proof (intro conjI allI impI)
  obtain n warm where nw: "(if ba_smoke a then (10, 2) else (ba_requests a, ba_warmup a)) = (n, warm)" by fastforce
  let ?ss = "filter (\<lambda>s. s \<noteq> []) (split_comma (ba_strategies a))"
  obtain rr pp where rm: "run_matrix S expit W st a ?ss n warm = (rr, pp)" by fastforce
  note sound = run_matrix_sound [OF rm]
  note cl = assms [unfolded cli_def nw Let_def prod.case rm]
  show "sp_status q \<noteq> Running" if "Some q \<in> set ps" for q
    using cl sound that by (auto split: if_splits sum.splits)
  show "out = None" if "r = Raise e" for e
    using cl that by (auto split: if_splits sum.splits)
  show "\<exists>n warm rows. run_matrix S expit W st a ?ss n warm = (Ret rows, ps)
        \<and> (\<forall>row \<in> set rows. map_of row ''summary_us'' \<noteq> None \<or> map_of row ''circuit_us'' \<noteq> None \<longrightarrow>
              map_of row ''status'' = Some (JStr ''OK'') \<and> gate_passed row)
        \<and> code = (if \<exists>row \<in> set rows. row_failed row then 1 else 0)
        \<and> (\<forall>p rows'. out = Some (p, rows') \<longrightarrow> rows' = rows)" if ret: "r = Ret code" for code
  proof -
    from cl ret obtain rows where rows: "rr = Ret rows" "pp = ps" "code = (if filter row_failed rows \<noteq> [] then 1 else 0)"
        "\<forall>p rows'. out = Some (p, rows') \<longrightarrow> rows' = rows"
      by (cases rr) (auto split: if_splits option.splits)
    with sound have "list_all row_sound rows" by blast
    with rows rm show ?thesis
      by (intro exI [of _ n] exI [of _ warm] exI [of _ rows]) (simp add: list_all_iff row_sound_def filter_empty_conv)
  qed
qed

definition demo_report :: json where
  "demo_report = JObj [(''stages'', JArr []), (''correctness_max_abs_error'', JReal 0), (''correctness_passed'', JBool True),
     (''galois_keys'', JInt 30), (''galois_keygen_us'', JReal 1), (''rotations'', JInt 30), (''n'', JInt 10),
     (''latency_us'', JObj (map (\<lambda>k. (k, JReal 1)) [''mean'', ''p50'', ''p95'', ''p99'', ''min'', ''max'']))]"

definition demo_world :: "(unit server, real list) bench_world" where
  "demo_world = \<lparr>bw_net = (\<lambda>_. demo_net),
     bw_fresh = (\<lambda>_. demo_server CNP), bw_roc = (\<lambda>_ _. 0), bw_choice = (\<lambda>_ xs k. take k xs), bw_shuffle = (\<lambda>xs. xs),
     bw_keygen = (\<lambda>_. 0), bw_setup = (\<lambda>_. 0), bw_clock = (\<lambda>_ _ _. 0), bw_uuid = (\<lambda>_ _. ''u''), bw_local = (\<lambda>_ _. Some (Some demo_report))\<rparr>"

definition demo_args :: bench_args where
  "demo_args = \<lparr>ba_strategies = ''bsgs'', ba_lanes = [1, 4], ba_requests = 100, ba_warmup = 2, ba_port = 50052, ba_omp = None,
     ba_server_cores = None, ba_out = None, ba_smoke = False\<rparr>"

lemma demo_circuit:
  "\<exists>row. run_local_circuit demo_world s lanes n omp = Ret row \<and> map_of row ''circuit_us'' \<noteq> None"
  by (simp add: run_local_circuit_def demo_world_def demo_net_def demo_host_def circuit_row_def gate_part_def latency_part_def
      demo_report_def circuit_head_def Let_def map_add_def)

lemma bench_loads: "\<exists>d. rbind (load_test_set demo_store) (\<lambda>(X, y). rbind (load_model (np_load_vec demo_store) (bins demo_store)) (\<lambda>(w, bias).
           Ret (X, y, map f64_real w, f64_real bias))) = Ret d"
  by (simp add: load_model_def np_load_vec_def np_load_f_def load_test_set_def np_load_mat_def np_load_i_def
        read_bytes_def demo_store_def ncols_def weights_image_def Let_def)

theorem bench_no_timing_without_gate_witness:
  "\<exists>code ps rows. cli plain_seal (\<lambda>z. z) demo_world demo_store demo_args = (Ret code, ps, Some (''artifacts/cnp_bench.json'', rows))
     \<and> code = (0::int) \<and> (\<exists>row \<in> set rows. map_of row ''circuit_us'' \<noteq> None \<and> gate_passed row)"
proof -
  obtain d where d: "rbind (load_test_set demo_store) (\<lambda>(X, y). rbind (load_model (np_load_vec demo_store) (bins demo_store))
       (\<lambda>(w, bias). Ret (X, y, map f64_real w, f64_real bias))) = Ret d" using bench_loads by blast
  obtain row where row: "run_local_circuit demo_world ''bsgs'' SLOT_BATCH 100 None = Ret row" "map_of row ''circuit_us'' \<noteq> None"
    using demo_circuit by blast
  have ss: "filter (\<lambda>s. s \<noteq> []) (split_comma (ba_strategies demo_args)) = [''bsgs'']"
    by (simp add: demo_args_def)
  have m: "run_matrix plain_seal (\<lambda>z. z) demo_world demo_store demo_args [''bsgs''] 100 2 = (Ret [row], [None])"
    using row(1) unfolding run_matrix_def d by (simp add: strategy_rows_def demo_args_def split: prod.splits)
  obtain code where c: "cli plain_seal (\<lambda>z. z) demo_world demo_store demo_args
      = (Ret code, [None], Some (''artifacts/cnp_bench.json'', [row]))"
    unfolding cli_def Let_def ss using m by (simp add: demo_args_def ALL_STRATEGIES_def)
  from bench_no_timing_without_gate [OF c] obtain n warm rows where
      rm: "run_matrix plain_seal (\<lambda>z. z) demo_world demo_store demo_args [''bsgs''] n warm = (Ret rows, [None])"
    and tm: "\<forall>row \<in> set rows. map_of row ''summary_us'' \<noteq> None \<or> map_of row ''circuit_us'' \<noteq> None \<longrightarrow>
        map_of row ''status'' = Some (JStr ''OK'') \<and> gate_passed row"
    and code: "code = (if \<exists>row \<in> set rows. row_failed row then 1 else 0)" and eq: "rows = [row]"
    unfolding ss by fastforce
  from tm eq row(2) have st: "map_of row ''status'' = Some (JStr ''OK'')" "gate_passed row" by auto
  then have "code = 0" using code eq by (simp add: row_failed_def starts_with_def)
  with c st row(2) show ?thesis by auto
qed

end
