(* ===== verification/Reports.thy ===== *)
theory Reports
  imports Governor
begin

text \<open>
  What the report generators share: default lookups, iteration over a parsed value, conversion to a float, Python's
  two-argument maximum, and report cells that hold a number or are pending.
\<close>

section \<open>Reading documents\<close>

text \<open>\<^verbatim>\<open>d.get(k, default)\<close>.\<close>

fun jget_default :: "json \<Rightarrow> string \<Rightarrow> json \<Rightarrow> json res" where
  "jget_default (JObj kvs) k d = (case map_of kvs k of None \<Rightarrow> Ret d | Some v \<Rightarrow> Ret v)"
| "jget_default _ k d = Raise AttributeError"

text \<open>Iterating over a document: elements, keys or characters.\<close>

fun jiter :: "json \<Rightarrow> json list res" where
  "jiter (JArr xs) = Ret xs"
| "jiter (JObj kvs) = Ret (map (JStr \<circ> fst) kvs)"
| "jiter (JStr s) = Ret (map (\<lambda>c. JStr [c]) s)"
| "jiter _ = Raise TypeError"

text \<open>\<^verbatim>\<open>float(v)\<close>; \<open>parse\<close> reads a string.\<close>

fun jfloat :: "(string \<Rightarrow> pyfloat res) \<Rightarrow> json \<Rightarrow> pyfloat res" where
  "jfloat parse (JNum x) = Ret x"
| "jfloat parse (JBool b) = Ret (Fin (if b then 1 else 0))"
| "jfloat parse (JStr s) = parse s"
| "jfloat parse _ = Raise TypeError"

text \<open>\<^verbatim>\<open>max(a, b)\<close> keeps \<open>a\<close> unless \<open>b > a\<close>.\<close>

definition py_max2 :: "pyfloat \<Rightarrow> pyfloat \<Rightarrow> pyfloat" where
  "py_max2 a b = (if pf_lt a b then b else a)"

lemma py_max2_Fin [simp]: "py_max2 (Fin a) (Fin b) = Fin (max a b)"
  by (simp add: py_max2_def max_def)

lemma jget_default_eq_Ret [res_simps]:
  "jget_default j k d = Inr v \<longleftrightarrow> (\<exists>kvs. j = JObj kvs \<and> v = (case map_of kvs k of None \<Rightarrow> d | Some w \<Rightarrow> w))"
  by (cases j) (auto split: option.splits)

lemma jget_eq_Ret [res_simps]: "jget j k = Inr v \<longleftrightarrow> (\<exists>kvs. j = JObj kvs \<and> map_of kvs k = Some v)"
  by (cases j) (auto split: option.splits)

lemma py_round_near: "\<exists>y. py_round k (Fin x) = Fin y \<and> \<bar>y - x\<bar> \<le> 1 / (2 * 10 ^ k)"
proof -
  have "\<bar>of_int (round_half_even (x * 10 ^ k)) / 10 ^ k - x\<bar> = \<bar>of_int (round_half_even (x * 10 ^ k)) - x * 10 ^ k\<bar> / 10 ^ k"
    by (simp add: field_simps abs_divide flip: diff_divide_distrib)
  also have "\<dots> \<le> (1 / 2) / 10 ^ k" by (intro divide_right_mono rhe_half_step) simp
  finally show ?thesis by simp
qed

end
