(* ===== verification/Breakeven.thy ===== *)
theory Breakeven
  imports WeightFile Reports
begin

text \<open>
  The break-even map \<^verbatim>\<open>scripts/hhe_breakeven.py\<close>: its parity gate, the CKKS and HERA measurements it reads, the 36
  cells and the heat map. A cell is a record; an entry the script writes as \<^verbatim>\<open>"PENDING"\<close> is \<open>None\<close>. Running the Go
  benchmark and reading a float from a string are arguments. Prose fields and the drawing are left out; the labels of the picture and the printed summary are in \<open>Tables\<close>.
\<close>

section \<open>Parity gate\<close>

text \<open>A missing or unreadable input skips the gate.\<close>

definition run_parity_gate :: "(string \<Rightarrow> pyfloat res) \<Rightarrow> fs \<Rightarrow> jfs \<Rightarrow> unit res" where
  "run_parity_gate parse fs rep =
     (case load_model_weights fs (Some ''artifacts/model_weights.bin'') of
        Inl e \<Rightarrow> Ret ()
      | Inr _ \<Rightarrow>
        if rep ''artifacts/errors.json'' = None then Ret () else
        rbind (load_json rep ''artifacts/errors.json'') (\<lambda>err.
        rbind (jget_default err ''error_stats'' (JObj [])) (\<lambda>es.
        rbind (jget_default es ''max'' (JReal 1)) (\<lambda>mx.
        rbind (jget_default err ''max_abs_error'' mx) (\<lambda>max_ae.
        rbind (jfloat parse max_ae) (\<lambda>x.
        if \<not> pf_lt x (Fin (1 / 1000)) then Raise RuntimeError else Ret ()))))))"

section \<open>CKKS measurements\<close>

text \<open>Keys of the occupancy table are compared as numbers; a boolean key equals 0 or 1, an unhashable one raises.\<close>

fun jkey :: "json \<Rightarrow> json res" where
  "jkey (JBool b) = Ret (JInt (if b then 1 else 0))"
| "jkey (JArr xs) = Raise TypeError"
| "jkey (JObj kvs) = Raise TypeError"
| "jkey j = Ret j"

type_synonym occupancy = "(json \<times> json) list"

text \<open>Later rows override earlier ones, so the table is searched from its end.\<close>

definition occ_get :: "occupancy \<Rightarrow> nat \<Rightarrow> json option" where
  "occ_get occ lanes = map_of (rev occ) (JInt (int lanes))"

definition occupancy_table :: "json \<Rightarrow> occupancy res" where
  "occupancy_table tp =
     rbind (jget tp ''occupancy_sweep'') (\<lambda>sw.
     rbind (jiter sw) (\<lambda>rows.
     rmap (\<lambda>row. rbind (jget row ''lanes'') (\<lambda>l. rbind (jkey l) (\<lambda>k. Ret (k, row)))) rows))"

definition overhead_ms :: "json \<Rightarrow> occupancy \<Rightarrow> pyfloat res" where
  "overhead_ms cmp occ =
     rbind (jget_default cmp ''reduced_160bit'' JNull) (\<lambda>a.
     rbind (if jtruthy a then Ret a
            else rbind (jget_default cmp ''summary'' (JObj [])) (\<lambda>s. jget_default s ''reduced_160bit'' (JObj []))) (\<lambda>r160.
     rbind (jnum_at r160 [''mean_us'']) (\<lambda>mean.
     rbind (jget_default (case occ_get occ 16 of None \<Rightarrow> JObj [] | Some row \<Rightarrow> row) ''batch_latency_us''
              (JNum (pf_mul mean (Fin (6 / 10))))) (\<lambda>b.
     rbind (jnum b) (\<lambda>lat.
     Ret (py_max2 (pf_mul (pf_sub mean lat) (Fin (1 / 1000))) (Fin (1 / 2))))))))"

definition load_ckks_data :: "jfs \<Rightarrow> (occupancy \<times> json \<times> pyfloat) res" where
  "load_ckks_data rep =
     rbind (load_json rep ''artifacts/throughput_results.json'') (\<lambda>tp.
     rbind (load_json rep ''artifacts/wire_sizes.json'') (\<lambda>ws.
     rbind (load_json rep ''artifacts/comparison_results.json'') (\<lambda>cmp.
     rbind (occupancy_table tp) (\<lambda>occ.
     rbind (jpath ws [''chains'', ''160bit'', ''standard_bytes'']) (\<lambda>up.
     rbind (overhead_ms cmp occ) (\<lambda>ov. Ret (occ, up, ov)))))))"

section \<open>HERA measurements\<close>

text \<open>\<open>bench lanes\<close> is what \<^verbatim>\<open>run_hera_bench\<close> returns; it catches every exception and then returns \<open>None\<close>.\<close>

definition run_hera_bench :: "(nat \<Rightarrow> int \<times> json option) \<Rightarrow> nat \<Rightarrow> json" where
  "run_hera_bench bench lanes =
     (case bench lanes of (rc, out) \<Rightarrow> if rc \<noteq> 0 then JNull else (case out of None \<Rightarrow> JNull | Some j \<Rightarrow> j))"

definition hera_path :: "nat \<Rightarrow> path" where
  "hera_path lanes = ''tools/transciphering/results/hera_bench_lane'' @ py_str lanes @ ''.json''"

definition LANES :: "nat list" where "LANES = [1, 4, 8, 16]"

definition hhe_row :: "(nat \<Rightarrow> int \<times> json option) \<Rightarrow> jfs \<Rightarrow> nat \<Rightarrow> nat \<Rightarrow> json res" where
  "hhe_row bench rep features lanes =
     rbind (if rep (hera_path lanes) = None then Ret JNull else load_json rep (hera_path lanes)) (\<lambda>c0.
     let cached = (if c0 = JNull then run_hera_bench bench lanes else c0) in
     Ret (if cached \<noteq> JNull then cached
          else JObj [(''status'', JStr ''PENDING''), (''online_encrypt_mean_ms'', JNull),
                     (''upload_symmetric_bytes'', JInt (int (features * lanes * 4 + 28)))]))"

definition load_hhe_data :: "(nat \<Rightarrow> int \<times> json option) \<Rightarrow> jfs \<Rightarrow> (nat \<times> json) list res" where
  "load_hhe_data bench rep = rmap (\<lambda>l. rbind (hhe_row bench rep 256 l) (\<lambda>j. Ret (l, j))) LANES"

section \<open>Cells\<close>

definition DEPTH_SCALE :: "nat \<Rightarrow> real" where
  "DEPTH_SCALE d = (if d = 1 then 1 else if d = 2 then 14 / 10 else 18 / 10)"

definition N_AMORTIZE :: real where "N_AMORTIZE = 1000"
definition CKKS_UPLOAD_BYTES :: nat where "CKKS_UPLOAD_BYTES = 262257"
definition DEPTHS :: "nat list" where "DEPTHS = [1, 2, 3]"
definition BANDWIDTHS :: "nat list" where "BANDWIDTHS = [1000, 10000, 100000]"

definition upload_ms :: "nat \<Rightarrow> nat \<Rightarrow> real" where
  "upload_ms n_bytes bandwidth_kbps = real (n_bytes * 8) / real (bandwidth_kbps * 1000) * 1000"

definition hhe_bytes :: "nat \<Rightarrow> nat" where
  "hhe_bytes lanes = lanes * 256 * 4 + 28"

record be_cell =
  c_depth :: nat
  c_lanes :: nat
  c_bandwidth :: nat
  c_scale :: real
  ck_upload_bytes :: nat
  ck_upload_ms :: pyfloat
  ck_he_eval_ms :: pyfloat
  ck_overhead_ms :: pyfloat
  ck_total_ms :: pyfloat
  ck_status :: string
  hh_upload_bytes :: nat
  hh_upload_ms :: pyfloat
  hh_online_encrypt_ms :: "pyfloat option"
  hh_keygen_amortized_ms :: "pyfloat option"
  hh_he_eval_ms :: pyfloat
  hh_status :: string
  c_headroom_ms :: "pyfloat option"
  c_winner :: "string option"

text \<open>Is the lane count measured: its encryption and amortised key expansion times.\<close>

definition hhe_measured :: "json \<Rightarrow> (json \<times> json) option res" where
  "hhe_measured row =
     rbind (jget_default row ''status'' JNull) (\<lambda>st.
     if st = JStr ''PENDING'' then Ret None else
     rbind (jget_default row ''online_encrypt_mean_ms'' JNull) (\<lambda>enc.
     if enc = JNull then Ret None
     else rbind (jget_default row ''key_expansion_mean_ms'' (JReal (5 / 100))) (\<lambda>kx. Ret (Some (enc, kx)))))"

definition make_cell :: "pyfloat \<Rightarrow> pyfloat \<Rightarrow> (pyfloat \<times> pyfloat) option \<Rightarrow> nat \<Rightarrow> nat \<Rightarrow> nat \<Rightarrow> be_cell" where
  "make_cell overhead he_eval meas depth lanes bw =
     (let up = Fin (upload_ms CKKS_UPLOAD_BYTES bw); sym = Fin (upload_ms (hhe_bytes lanes) bw) in
      \<lparr>c_depth = depth, c_lanes = lanes, c_bandwidth = bw, c_scale = DEPTH_SCALE depth,
       ck_upload_bytes = CKKS_UPLOAD_BYTES, ck_upload_ms = py_round 4 up, ck_he_eval_ms = py_round 4 he_eval,
       ck_overhead_ms = py_round 4 overhead, ck_total_ms = py_round 4 (pf_add (pf_add overhead up) he_eval),
       ck_status = (if depth = 1 then ''MEASURED'' else ''MODELED''),
       hh_upload_bytes = hhe_bytes lanes, hh_upload_ms = py_round 6 sym,
       hh_online_encrypt_ms = map_option (\<lambda>(enc, kx). py_round 4 enc) meas,
       hh_keygen_amortized_ms = map_option (\<lambda>(enc, kx). py_round 6 (pf_mul kx (Fin (1 / N_AMORTIZE)))) meas,
       hh_he_eval_ms = py_round 4 he_eval, hh_status = (if meas = None then ''PENDING'' else ''PARTIAL''),
       c_headroom_ms = map_option (\<lambda>(enc, kx). py_round 4 (pf_sub (pf_sub up sym) enc)) meas, c_winner = None\<rparr>)"

text \<open>The cells of one depth and lane count.\<close>

definition lane_cells :: "occupancy \<Rightarrow> pyfloat \<Rightarrow> (nat \<times> json) list \<Rightarrow> nat \<Rightarrow> nat \<Rightarrow> be_cell list res" where
  "lane_cells occ overhead hhe depth lanes =
     (let occ_row = (case occ_get occ lanes of Some r \<Rightarrow> if jtruthy r then Some r else occ_get occ 16 | None \<Rightarrow> occ_get occ 16) in
      rbind (case occ_row of None \<Rightarrow> Raise TypeError | Some r \<Rightarrow> jnum_at r [''batch_latency_us'']) (\<lambda>us.
      let he_eval = pf_mul (pf_mul us (Fin (1 / 1000))) (Fin (DEPTH_SCALE depth)) in
      rbind (hhe_measured (case map_of hhe lanes of None \<Rightarrow> JObj [] | Some r \<Rightarrow> r)) (\<lambda>m.
      rbind (case m of None \<Rightarrow> Ret None
             | Some (enc, kx) \<Rightarrow> rbind (jnum kx) (\<lambda>k. rbind (jnum enc) (\<lambda>x. Ret (Some (x, k))))) (\<lambda>meas.
      Ret (map (make_cell overhead he_eval meas depth lanes) BANDWIDTHS)))))"

definition compute_breakeven :: "occupancy \<Rightarrow> pyfloat \<Rightarrow> (nat \<times> json) list \<Rightarrow> be_cell list res" where
  "compute_breakeven occ overhead hhe =
     rbind (rmap (\<lambda>depth. rbind (rmap (lane_cells occ overhead hhe depth) LANES) (\<lambda>css. Ret (concat css))) DEPTHS)
       (\<lambda>css. Ret (concat css))"

section \<open>Heat map and main\<close>

text \<open>Rows are lane counts, columns bandwidths, of depth 1 only; an entry without headroom is NaN.\<close>

definition heat_matrix :: "be_cell list \<Rightarrow> pyfloat list list" where
  "heat_matrix cells =
     (let d1 = filter (\<lambda>c. c_depth c = 1) cells;
          bws = sorted_list_of_set (set (map c_bandwidth d1)); ls = sorted_list_of_set (set (map c_lanes d1)) in
      map (\<lambda>l. map (\<lambda>b. fold (\<lambda>c v. if c_lanes c = l \<and> c_bandwidth c = b
                                  then (case c_headroom_ms c of None \<Rightarrow> v | Some h \<Rightarrow> h) else v) d1 NaN) bws) ls)"

record breakeven_report =
  br_cells :: "be_cell list"
  br_headroom_measured :: nat

definition breakeven_main ::
  "(string \<Rightarrow> pyfloat res) \<Rightarrow> (nat \<Rightarrow> int \<times> json option) \<Rightarrow> fs \<Rightarrow> jfs \<Rightarrow> breakeven_report res" where
  "breakeven_main parse bench fs rep =
     rbind (run_parity_gate parse fs rep) (\<lambda>_.
     rbind (load_ckks_data rep) (\<lambda>(occ, up, overhead).
     rbind (py_assert (up = JInt (int CKKS_UPLOAD_BYTES))) (\<lambda>_.
     rbind (load_hhe_data bench rep) (\<lambda>hhe.
     rbind (compute_breakeven occ overhead hhe) (\<lambda>cells.
     Ret \<lparr>br_cells = cells, br_headroom_measured = length (filter (\<lambda>c. c_headroom_ms c \<noteq> None) cells)\<rparr>)))))"

section \<open>What the map says\<close>

text \<open>Totals of the two uploads for a server-side transciphering cost \<open>s\<close>; \<open>g\<close> is the fixed overhead, \<open>he\<close> the evaluation.\<close>

definition ckks_total :: "real \<Rightarrow> real \<Rightarrow> nat \<Rightarrow> real" where
  "ckks_total g he bw = g + upload_ms CKKS_UPLOAD_BYTES bw + he"

definition hhe_total :: "real \<Rightarrow> real \<Rightarrow> real \<Rightarrow> real \<Rightarrow> nat \<Rightarrow> nat \<Rightarrow> real" where
  "hhe_total g he enc s lanes bw = g + upload_ms (hhe_bytes lanes) bw + enc + s + he"

lemma run_parity_gate_Ret:
  assumes "run_parity_gate parse fs rep = Ret u" "load_model_weights fs (Some ''artifacts/model_weights.bin'') = Ret wb"
    "rep ''artifacts/errors.json'' = Some (Some (JObj kvs))" "map_of kvs ''max_abs_error'' = Some v"
  shows "\<exists>x. jfloat parse v = Ret x \<and> pf_lt x (Fin (1 / 1000))"
  using assms by (auto simp: run_parity_gate_def load_json_def rbind_Ret_iff res_simps split: if_splits option.splits)

lemma run_parity_gate_skips:
  "rep ''artifacts/errors.json'' = None \<Longrightarrow> run_parity_gate parse fs rep = Ret ()"
  by (simp add: run_parity_gate_def split: sum.split)

lemma lane_cells_Ret:
  assumes "lane_cells occ g hhe d l = Ret cs"
  shows "\<exists>he meas. cs = map (make_cell g he meas d l) BANDWIDTHS \<and> (\<forall>x k. meas = Some (x, k) \<longrightarrow> (\<exists>enc kx.
       hhe_measured (case map_of hhe l of None \<Rightarrow> JObj [] | Some r \<Rightarrow> r) = Ret (Some (enc, kx)) \<and> jnum enc = Ret x))"
  using assms unfolding lane_cells_def Let_def
  by (auto simp: rbind_Ret_iff split: option.splits prod.splits)

definition cell_of :: "pyfloat \<Rightarrow> (nat \<times> json) list \<Rightarrow> nat \<Rightarrow> nat \<Rightarrow> nat \<Rightarrow> be_cell \<Rightarrow> bool" where
  "cell_of g hhe d l bw c \<longleftrightarrow> (\<exists>he meas. c = make_cell g he meas d l bw \<and> (\<forall>x k. meas = Some (x, k) \<longrightarrow> (\<exists>enc kx.
       hhe_measured (case map_of hhe l of None \<Rightarrow> JObj [] | Some r \<Rightarrow> r) = Ret (Some (enc, kx)) \<and> jnum enc = Ret x)))"

lemma rmap_product:
  assumes "rmap f xs = Ret css" "\<And>x cs. f x = Ret cs \<Longrightarrow> list_all2 (P x) ys cs"
  shows "list_all2 (\<lambda>(x, y) c. P x y c) (List.product xs ys) (concat css)"
  using assms(1)
proof (induction xs arbitrary: css)
  case (Cons x xs)
  then obtain cs css' where c: "f x = Ret cs" "rmap f xs = Ret css'" "css = cs # css'" by (auto simp: rbind_Ret_iff)
  have "list_all2 (\<lambda>(x, y) c. P x y c) (map (Pair x) ys) cs"
    using assms(2) [OF c(1)] by (simp add: list_all2_map1)
  with Cons.IH [OF c(2)] c(3) show ?case by (simp add: list_all2_appendI)
qed simp

lemma compute_breakeven_Ret:
  assumes "compute_breakeven occ g hhe = Ret cells"
  shows "list_all2 (\<lambda>(d, l, bw) c. cell_of g hhe d l bw c) (List.product DEPTHS (List.product LANES BANDWIDTHS)) cells"
proof -
  have lane: "list_all2 (cell_of g hhe d l) BANDWIDTHS cs" if "lane_cells occ g hhe d l = Ret cs" for d l cs
    using lane_cells_Ret [OF that] by (auto simp: list_all2_map2 cell_of_def intro!: list_all2_refl) blast
  have dep: "list_all2 (\<lambda>(l, bw) c. cell_of g hhe d l bw c) (List.product LANES BANDWIDTHS) cs"
    if "rbind (rmap (lane_cells occ g hhe d) LANES) (\<lambda>css. Ret (concat css)) = Ret cs" for d cs
    using that rmap_product [OF _ lane] by (auto simp: rbind_Ret_iff)
  obtain css where css: "rmap (\<lambda>depth. rbind (rmap (lane_cells occ g hhe depth) LANES) (\<lambda>css. Ret (concat css))) DEPTHS = Ret css"
      "cells = concat css"
    using assms by (auto simp: compute_breakeven_def rbind_Ret_iff)
  show ?thesis
    using rmap_product [OF css(1) dep] unfolding css(2) by (simp add: case_prod_unfold)
qed

lemma cell_of_headroom:
  assumes "cell_of g hhe d l bw c"
  shows "c_depth c = d" "c_lanes c = l" "c_bandwidth c = bw" "c_winner c = None"
    and "c_headroom_ms c = Some (Fin h) \<Longrightarrow> \<exists>enc kx x. hhe_measured (case map_of hhe l of None \<Rightarrow> JObj [] | Some r \<Rightarrow> r) = Ret (Some (enc, kx))
      \<and> jnum enc = Ret (Fin x) \<and> \<bar>h - (upload_ms CKKS_UPLOAD_BYTES bw - upload_ms (hhe_bytes l) bw - x)\<bar> \<le> 1 / 20000"
proof -
  obtain he meas where c: "c = make_cell g he meas d l bw"
    and m: "\<forall>x k. meas = Some (x, k) \<longrightarrow> (\<exists>enc kx.
       hhe_measured (case map_of hhe l of None \<Rightarrow> JObj [] | Some r \<Rightarrow> r) = Ret (Some (enc, kx)) \<and> jnum enc = Ret x)"
    using assms unfolding cell_of_def by blast
  show "c_depth c = d" "c_lanes c = l" "c_bandwidth c = bw" "c_winner c = None" by (simp_all add: c make_cell_def)
  assume h: "c_headroom_ms c = Some (Fin h)"
  then obtain x k where xk: "meas = Some (x, k)"
      "py_round 4 (pf_sub (Fin (upload_ms CKKS_UPLOAD_BYTES bw - upload_ms (hhe_bytes l) bw)) x) = Fin h"
    by (auto simp: c make_cell_def Let_def)
  then obtain r where x: "x = Fin r" by (cases x) (auto simp: pf_sub_def)
  with xk(2) py_round_near [of 4 "upload_ms CKKS_UPLOAD_BYTES bw - upload_ms (hhe_bytes l) bw - r"]
  have near: "\<bar>h - (upload_ms CKKS_UPLOAD_BYTES bw - upload_ms (hhe_bytes l) bw - r)\<bar> \<le> 1 / 20000" by simp
  from m xk(1) x obtain enc kx where "hhe_measured (case map_of hhe l of None \<Rightarrow> JObj [] | Some r \<Rightarrow> r) = Ret (Some (enc, kx))"
      "jnum enc = Ret (Fin r)" by blast
  with near show "\<exists>enc kx x. hhe_measured (case map_of hhe l of None \<Rightarrow> JObj [] | Some r \<Rightarrow> r) = Ret (Some (enc, kx))
      \<and> jnum enc = Ret (Fin x) \<and> \<bar>h - (upload_ms CKKS_UPLOAD_BYTES bw - upload_ms (hhe_bytes l) bw - x)\<bar> \<le> 1 / 20000" by blast
qed

definition cell_key :: "be_cell \<Rightarrow> nat \<times> nat \<times> nat" where
  "cell_key c = (c_depth c, c_lanes c, c_bandwidth c)"

lemma fold_lookup:
  assumes "distinct (map key xs)" "c \<in> set xs"
  shows "fold (\<lambda>x v. if key x = key c then f x v else v) xs v0 = f c v0"
proof -
  have other: "fold (\<lambda>x v. if key x = k then f x v else v) ys v = v" if "k \<notin> key ` set ys" for k ys v
    using that by (induction ys arbitrary: v) auto
  show ?thesis using assms by (induction xs arbitrary: v0) (auto simp: other image_iff)
qed

lemma heat_matrix_entry:
  assumes keys: "map cell_key cells = List.product DEPTHS (List.product LANES BANDWIDTHS)"
    and c: "c \<in> set cells" "c_depth c = 1"
  shows "\<exists>i j. i < 4 \<and> j < 3 \<and> c_lanes c = LANES ! i \<and> c_bandwidth c = BANDWIDTHS ! j
    \<and> heat_matrix cells ! i ! j = (case c_headroom_ms c of None \<Rightarrow> NaN | Some h \<Rightarrow> h)"
proof -
  let ?d1 = "filter (\<lambda>c. c_depth c = 1) cells"
  have "map cell_key ?d1 = filter (\<lambda>k. fst k = 1) (map cell_key cells)"
    by (simp add: filter_map comp_def cell_key_def)
  also have "\<dots> = List.product [1] (List.product LANES BANDWIDTHS)"
    unfolding keys by (simp add: DEPTHS_def LANES_def BANDWIDTHS_def)
  finally have k1: "map cell_key ?d1 = List.product [1] (List.product LANES BANDWIDTHS)" .
  have ls: "set (map c_lanes ?d1) = (fst \<circ> snd) ` set (map cell_key ?d1)"
    by (force simp: cell_key_def image_image)
  have bs: "set (map c_bandwidth ?d1) = (snd \<circ> snd) ` set (map cell_key ?d1)"
    by (force simp: cell_key_def image_image)
  have l: "sorted_list_of_set (set (map c_lanes ?d1)) = LANES" and b: "sorted_list_of_set (set (map c_bandwidth ?d1)) = BANDWIDTHS"
    unfolding ls bs k1 by (simp_all add: LANES_def BANDWIDTHS_def insert_commute)
  have cd: "c \<in> set ?d1" using c by simp
  then have "cell_key c \<in> set (List.product [1] (List.product LANES BANDWIDTHS))"
    unfolding k1 [symmetric] set_map by (rule imageI)
  then have "c_lanes c \<in> set LANES" "c_bandwidth c \<in> set BANDWIDTHS" by (auto simp: cell_key_def)
  then obtain i j where "i < length LANES" "j < length BANDWIDTHS" and nth: "c_lanes c = LANES ! i" "c_bandwidth c = BANDWIDTHS ! j"
    by (metis in_set_conv_nth)
  moreover from this have ij: "i < 4" "j < 3" by (simp_all add: LANES_def BANDWIDTHS_def)
  ultimately have len: "i < length LANES" "j < length BANDWIDTHS" by blast+
  have "distinct (map cell_key ?d1)" unfolding k1 by (simp add: LANES_def BANDWIDTHS_def)
  from fold_lookup [OF this cd, of "\<lambda>c v. case c_headroom_ms c of None \<Rightarrow> v | Some h \<Rightarrow> h" NaN]
  have f: "fold (\<lambda>x v. if cell_key x = cell_key c then (case c_headroom_ms x of None \<Rightarrow> v | Some h \<Rightarrow> h) else v) ?d1 NaN
      = (case c_headroom_ms c of None \<Rightarrow> NaN | Some h \<Rightarrow> h)" .
  have "heat_matrix cells ! i ! j = fold (\<lambda>x v. if c_lanes x = c_lanes c \<and> c_bandwidth x = c_bandwidth c
      then (case c_headroom_ms x of None \<Rightarrow> v | Some h \<Rightarrow> h) else v) ?d1 NaN"
    unfolding heat_matrix_def Let_def l b nth using len by (simp only: nth_map)
  also have "\<dots> = (case c_headroom_ms c of None \<Rightarrow> NaN | Some h \<Rightarrow> h)"
    unfolding f [symmetric] by (rule fold_cong) (auto simp: cell_key_def c(2))
  finally show ?thesis using ij nth by blast
qed

text \<open>C18. The break-even map means what it says. A run that finishes has one cell for each depth, lane count and bandwidth, in
  that order, and names no winner. Where a cell has a headroom, it is the server-side budget of transciphering: for every
  overhead and evaluation time, a transciphering cost below it makes the HERA upload faster end to end than the CKKS
  upload, a cost above it slower, up to the rounding to four digits; the client's encryption time in it is the one of
  that lane count's benchmark. The heat map shows exactly the headrooms of depth 1, at their lane count and bandwidth.\<close>

theorem breakeven_map_sound:
  assumes "breakeven_main parse bench fs rep = Ret r"
  shows "map (\<lambda>c. (c_depth c, c_lanes c, c_bandwidth c)) (br_cells r) = List.product DEPTHS (List.product LANES BANDWIDTHS)
    \<and> (\<exists>hhe. load_hhe_data bench rep = Ret hhe \<and> (\<forall>c \<in> set (br_cells r). c_winner c = None \<and>
        (\<forall>h. c_headroom_ms c = Some (Fin h) \<longrightarrow> (\<exists>enc kx x.
           hhe_measured (case map_of hhe (c_lanes c) of None \<Rightarrow> JObj [] | Some r \<Rightarrow> r) = Ret (Some (enc, kx)) \<and> jnum enc = Ret (Fin x)
           \<and> (\<forall>g he s. (s < h - 1 / 20000 \<longrightarrow> hhe_total g he x s (c_lanes c) (c_bandwidth c) < ckks_total g he (c_bandwidth c))
                   \<and> (s > h + 1 / 20000 \<longrightarrow> hhe_total g he x s (c_lanes c) (c_bandwidth c) > ckks_total g he (c_bandwidth c)))))))
    \<and> (\<forall>c \<in> set (br_cells r). c_depth c = 1 \<longrightarrow> (\<exists>i j. i < 4 \<and> j < 3 \<and> c_lanes c = LANES ! i \<and> c_bandwidth c = BANDWIDTHS ! j
        \<and> heat_matrix (br_cells r) ! i ! j = (case c_headroom_ms c of None \<Rightarrow> NaN | Some h \<Rightarrow> h)))"
proof -
  obtain occ g hhe cells where hhe: "load_hhe_data bench rep = Ret hhe" and cells: "compute_breakeven occ g hhe = Ret cells"
      "br_cells r = cells"
    using assms by (auto simp: breakeven_main_def rbind_Ret_iff split: prod.splits)
  have grid: "list_all2 (\<lambda>(d, l, bw) c. cell_of g hhe d l bw c) (List.product DEPTHS (List.product LANES BANDWIDTHS)) cells"
    by (rule compute_breakeven_Ret [OF cells(1)])
  have keys: "map cell_key cells = List.product DEPTHS (List.product LANES BANDWIDTHS)"
  proof (rule nth_equalityI)
    show "length (map cell_key cells) = length (List.product DEPTHS (List.product LANES BANDWIDTHS))"
      using list_all2_lengthD [OF grid] by (simp only: length_map)
    show "map cell_key cells ! i = List.product DEPTHS (List.product LANES BANDWIDTHS) ! i" if "i < length (map cell_key cells)" for i
      using list_all2_nthD2 [OF grid, of i] that
      by (auto simp: cell_key_def cell_of_headroom(1-3) split: prod.splits)
  qed
  have cell: "cell_of g hhe (c_depth c) (c_lanes c) (c_bandwidth c) c" if "c \<in> set cells" for c
  proof -
    from that obtain i where i: "i < length cells" "c = cells ! i" by (auto simp: in_set_conv_nth)
    with list_all2_nthD2 [OF grid, of i] show ?thesis
      by (auto split: prod.splits dest: cell_of_headroom(1-3))
  qed
  have budget: "\<exists>enc kx x. hhe_measured (case map_of hhe (c_lanes c) of None \<Rightarrow> JObj [] | Some r \<Rightarrow> r) = Ret (Some (enc, kx)) \<and> jnum enc = Ret (Fin x)
      \<and> (\<forall>g he s. (s < h - 1 / 20000 \<longrightarrow> hhe_total g he x s (c_lanes c) (c_bandwidth c) < ckks_total g he (c_bandwidth c))
              \<and> (s > h + 1 / 20000 \<longrightarrow> hhe_total g he x s (c_lanes c) (c_bandwidth c) > ckks_total g he (c_bandwidth c)))"
    if c: "c \<in> set cells" "c_headroom_ms c = Some (Fin h)" for c h
  proof -
    obtain enc kx x where x: "hhe_measured (case map_of hhe (c_lanes c) of None \<Rightarrow> JObj [] | Some r \<Rightarrow> r) = Ret (Some (enc, kx))"
        "jnum enc = Ret (Fin x)"
        "\<bar>h - (upload_ms CKKS_UPLOAD_BYTES (c_bandwidth c) - upload_ms (hhe_bytes (c_lanes c)) (c_bandwidth c) - x)\<bar> \<le> 1 / 20000"
      using cell_of_headroom(5) [OF cell [OF c(1)] c(2)] by blast
    have "(s < h - 1 / 20000 \<longrightarrow> hhe_total g he x s (c_lanes c) (c_bandwidth c) < ckks_total g he (c_bandwidth c))
        \<and> (s > h + 1 / 20000 \<longrightarrow> hhe_total g he x s (c_lanes c) (c_bandwidth c) > ckks_total g he (c_bandwidth c))" for g he s
      using x(3) unfolding hhe_total_def ckks_total_def by linarith
    with x(1,2) show ?thesis by blast
  qed
  show ?thesis
    unfolding cells(2)
    using keys hhe budget cell_of_headroom(4) [OF cell] heat_matrix_entry [OF keys] by (simp add: cell_key_def [abs_def])
qed

definition demo_hera :: jfs where
  "demo_hera = Map.empty
     (''artifacts/throughput_results.json'' \<mapsto> Some (JObj [(''occupancy_sweep'', JArr [JObj [(''lanes'', JInt 16), (''batch_latency_us'', JReal 9000)]])]),
      ''artifacts/wire_sizes.json'' \<mapsto> Some (JObj [(''chains'', JObj [(''160bit'', JObj [(''standard_bytes'', JInt 262257)])])]),
      ''artifacts/comparison_results.json'' \<mapsto> Some (JObj [(''reduced_160bit'', JObj [(''mean_us'', JReal 12000)])]))"

lemma demo_hera_simps [simp]:
  "demo_hera ''artifacts/throughput_results.json'' = Some (Some (JObj [(''occupancy_sweep'', JArr [JObj [(''lanes'', JInt 16), (''batch_latency_us'', JReal 9000)]])]))"
  "demo_hera ''artifacts/wire_sizes.json'' = Some (Some (JObj [(''chains'', JObj [(''160bit'', JObj [(''standard_bytes'', JInt 262257)])])]))"
  "demo_hera ''artifacts/comparison_results.json'' = Some (Some (JObj [(''reduced_160bit'', JObj [(''mean_us'', JReal 12000)])]))"
  "demo_hera ''artifacts/errors.json'' = None" "demo_hera (hera_path l) = None"
  by (simp_all add: demo_hera_def hera_path_def)

definition demo_bench :: "nat \<Rightarrow> int \<times> json option" where
  "demo_bench lanes = (0, Some (JObj [(''online_encrypt_mean_ms'', JReal (1 / 2)), (''key_expansion_mean_ms'', JReal (1 / 10))]))"

theorem breakeven_map_sound_witness:
  "\<exists>r c h. breakeven_main (\<lambda>_. Raise ValueError) demo_bench Map.empty demo_hera = Ret r \<and> c \<in> set (br_cells r) \<and> c_depth c = 1
     \<and> c_headroom_ms c = Some (Fin h) \<and> hhe_total 3 9 (1 / 2) (h - 1) (c_lanes c) (c_bandwidth c) < ckks_total 3 9 (c_bandwidth c)
     \<and> (\<exists>i j. heat_matrix (br_cells r) ! i ! j = Fin h)"
proof -
  have ck: "load_ckks_data demo_hera = Ret ([(JInt 16, JObj [(''lanes'', JInt 16), (''batch_latency_us'', JReal 9000)])], JInt 262257, Fin 3)"
    by (simp add: load_ckks_data_def load_json_def occupancy_table_def overhead_ms_def occ_get_def jnum_at_def)
  let ?row = "JObj [(''online_encrypt_mean_ms'', JReal (1 / 2)), (''key_expansion_mean_ms'', JReal (1 / 10))]"
  have hh: "load_hhe_data demo_bench demo_hera = Ret (map (\<lambda>l. (l, ?row)) LANES)"
    by (simp add: load_hhe_data_def hhe_row_def run_hera_bench_def demo_bench_def LANES_def Let_def)
  have cc: "\<exists>cells. compute_breakeven [(JInt 16, JObj [(''lanes'', JInt 16), (''batch_latency_us'', JReal 9000)])] (Fin 3)
      (map (\<lambda>l. (l, ?row)) LANES) = Ret cells \<and> c_headroom_ms (cells ! 0) = Some (py_round 4 (Fin (upload_ms 262257 1000 - upload_ms 1052 1000 - 1 / 2)))"
    by (simp add: compute_breakeven_def DEPTHS_def LANES_def BANDWIDTHS_def lane_cells_def occ_get_def jnum_at_def hhe_measured_def Let_def
        make_cell_def CKKS_UPLOAD_BYTES_def hhe_bytes_def)
  then obtain cells where cells: "compute_breakeven [(JInt 16, JObj [(''lanes'', JInt 16), (''batch_latency_us'', JReal 9000)])] (Fin 3)
      (map (\<lambda>l. (l, ?row)) LANES) = Ret cells" and hd: "c_headroom_ms (cells ! 0) = Some (py_round 4 (Fin (upload_ms 262257 1000 - upload_ms 1052 1000 - 1 / 2)))"
    by blast
  obtain h where h: "c_headroom_ms (cells ! 0) = Some (Fin h)" using hd by (simp only: py_round.simps)
  obtain r where m: "breakeven_main (\<lambda>_. Raise ValueError) demo_bench Map.empty demo_hera = Ret r" and r: "br_cells r = cells"
    unfolding breakeven_main_def ck hh using cells by (simp add: run_parity_gate_skips py_assert_def CKKS_UPLOAD_BYTES_def)
  note sound = breakeven_map_sound [OF m, unfolded r]
  then have keys: "map cell_key cells = List.product DEPTHS (List.product LANES BANDWIDTHS)" by (simp add: cell_key_def [abs_def])
  then have "length cells = length (List.product DEPTHS (List.product LANES BANDWIDTHS))" by (metis length_map)
  then have len: "0 < length cells" by (simp add: DEPTHS_def LANES_def BANDWIDTHS_def)
  then have "cell_key (cells ! 0) = map cell_key cells ! 0" by simp
  also have "\<dots> = (1, 1, 1000)" unfolding keys by (simp add: DEPTHS_def LANES_def BANDWIDTHS_def)
  finally have k0: "c_depth (cells ! 0) = 1" "c_lanes (cells ! 0) = 1" "c_bandwidth (cells ! 0) = 1000" by (simp_all add: cell_key_def)
  have mem: "cells ! 0 \<in> set cells" using len by simp
  from sound [THEN conjunct2, THEN conjunct1] obtain hhe enc kx x where "load_hhe_data demo_bench demo_hera = Ret hhe"
      and e: "hhe_measured (case map_of hhe (c_lanes (cells ! 0)) of None \<Rightarrow> JObj [] | Some r \<Rightarrow> r) = Ret (Some (enc, kx))" "jnum enc = Ret (Fin x)"
      and wins: "h - 1 < h - 1 / 20000 \<longrightarrow> hhe_total 3 9 x (h - 1) (c_lanes (cells ! 0)) (c_bandwidth (cells ! 0)) < ckks_total 3 9 (c_bandwidth (cells ! 0))"
    using mem h by blast
  then have "hhe = map (\<lambda>l. (l, ?row)) LANES" using hh by simp
  with e have "x = 1 / 2" by (auto simp: k0 LANES_def hhe_measured_def)
  with wins have w: "hhe_total 3 9 (1 / 2) (h - 1) (c_lanes (cells ! 0)) (c_bandwidth (cells ! 0)) < ckks_total 3 9 (c_bandwidth (cells ! 0))"
    by simp
  from sound [THEN conjunct2, THEN conjunct2] mem k0(1) h obtain i j where "heat_matrix cells ! i ! j = Fin h" by force
  with m r mem k0(1) h w show ?thesis by blast
qed

end
