(* ===== verification/ExecMatrix.thy ===== *)
theory ExecMatrix
  imports Workers CnpBench Breakeven
begin

text \<open>
  The execution matrix \<^verbatim>\<open>scripts/build_execution_matrix.py\<close>: twelve cells of reduction strategy, modulus chain and library,
  each measured or pending, the thread-pool axis measured with concurrent clients (theory \<open>Workers\<close>), and the occupancy
  axis. Cells are JSON objects. The runs of binaries, random permutations, schedules and clocks are arguments; long prose
  texts are shortened and the printed summary is left out.
\<close>

section \<open>Cells from other artifacts\<close>

definition pending :: "string \<Rightarrow> json" where
  "pending reason = JObj [(''status'', JStr ''PENDING''), (''reason'', JStr reason)]"

text \<open>Fields copied from a document under new names, in order.\<close>

definition jfields :: "json \<Rightarrow> (string \<times> string) list \<Rightarrow> (string \<times> json) list res" where
  "jfields d ks = rmap (\<lambda>(k, f). rbind (jget d f) (\<lambda>v. Ret (k, v))) ks"

definition measured_cell :: "string \<Rightarrow> string \<Rightarrow> (string \<times> json) list \<Rightarrow> json" where
  "measured_cell source scope kvs = JObj ([(''status'', JStr ''MEASURED''), (''source'', JStr source), (''scope'', JStr scope)] @ kvs)"

definition LOCAL_SCOPE :: string where "LOCAL_SCOPE = ''local circuit only''"

definition ABLATION :: path where "ABLATION = ''results/ablation_methodology.json''"
definition ROTATION :: path where "ROTATION = ''artifacts/rotation_strategy_comparison.json''"
definition OPENFHE :: path where "OPENFHE = ''tools/openfhe_benchmark/results/openfhe_results.json''"
definition THROUGHPUT :: path where "THROUGHPUT = ''artifacts/throughput_results.json''"

definition ablation_cell :: "json \<Rightarrow> string \<Rightarrow> string \<Rightarrow> json res" where
  "ablation_cell d strategy pre =
     rbind (jfields d [(''rotations'', pre @ ''_rotations''), (''critical_path_steps'', pre @ ''_critical_path''),
         (''galois_keygen_us'', pre @ ''_galois_keygen_us''), (''correctness_max_abs_error'', pre @ ''_correctness_max_abs_error''),
         (''n'', ''measure_rounds''), (''latency_us'', pre @ ''_latency_us'')]) (\<lambda>kvs.
     Ret (measured_cell (''vendor_server/build/benchmark_160 --strategy='' @ strategy) LOCAL_SCOPE kvs))"

definition from_ablation_methodology :: "jfs \<Rightarrow> (json \<times> json) res" where
  "from_ablation_methodology rep =
     (if rep ABLATION = None then Ret (pending (ABLATION @ '' missing''), pending (ABLATION @ '' missing''))
      else rbind (load_json rep ABLATION) (\<lambda>d.
           rbind (ablation_cell d ''fold'' ''hoisted'') (\<lambda>fold.
           rbind (ablation_cell d ''naive'' ''naive'') (\<lambda>naive. Ret (fold, naive)))))"

text \<open>\<^verbatim>\<open>"..." in v\<close>.\<close>

fun jin :: "string \<Rightarrow> json \<Rightarrow> bool res" where
  "jin pat (JStr s) = Ret (contains pat s)"
| "jin pat (JArr xs) = Ret (JStr pat \<in> set xs)"
| "jin pat (JObj kvs) = Ret (pat \<in> fst ` set kvs)"
| "jin pat _ = Raise TypeError"

text \<open>\<^verbatim>\<open>{k: v * 1000.0 for k, v in d.items()}\<close>.\<close>

fun scale_items :: "json \<Rightarrow> json res" where
  "scale_items (JObj kvs) = rbind (rmap (\<lambda>(k, v). rbind (jnum v) (\<lambda>x. Ret (k, JNum (pf_mul x (Fin 1000))))) kvs) (\<lambda>r. Ret (JObj r))"
| "scale_items _ = Raise AttributeError"

text \<open>The first local-circuit BSGS entry.\<close>

definition is_bsgs :: "json \<Rightarrow> bool res" where
  "is_bsgs entry =
     rbind (jget entry ''name'') (\<lambda>nm. rbind (jin ''BSGS'' nm) (\<lambda>b.
     if \<not> b then Ret False else rbind (jget entry ''scope'') (\<lambda>sc. jin ''local circuit'' sc)))"

definition bsgs_cell :: "json \<Rightarrow> json res" where
  "bsgs_cell entry =
     rbind (jfields entry [(''source'', ''source''), (''scope'', ''scope''), (''rotations'', ''rotations''),
              (''critical_path_steps'', ''critical_path_steps'')]) (\<lambda>kvs.
     rbind (jget_opt entry ''correctness_max_abs_error'') (\<lambda>err.
     rbind (jget entry ''n'') (\<lambda>n.
     rbind (jget entry ''latency_ms'') (\<lambda>lat.
     rbind (scale_items lat) (\<lambda>us.
     rbind (jget_opt entry ''note'') (\<lambda>note.
     Ret (JObj ((''status'', JStr ''MEASURED'') # kvs @ [(''correctness_max_abs_error'', err), (''n'', n), (''latency_us'', us), (''note'', note)]))))))))"

fun find_bsgs :: "json list \<Rightarrow> json res" where
  "find_bsgs [] = Ret (pending (''no local-circuit BSGS row found in '' @ ROTATION))"
| "find_bsgs (entry # entries) = rbind (is_bsgs entry) (\<lambda>b. if b then bsgs_cell entry else find_bsgs entries)"

definition from_rotation_strategy_comparison :: "jfs \<Rightarrow> json res" where
  "from_rotation_strategy_comparison rep =
     (if rep ROTATION = None then Ret (pending (ROTATION @ '' missing''))
      else rbind (load_json rep ROTATION) (\<lambda>d. rbind (jget d ''strategies'') (\<lambda>ss. rbind (jiter ss) find_bsgs)))"

definition openfhe_measured_or_pending :: "jfs \<Rightarrow> json res" where
  "openfhe_measured_or_pending rep =
     (if rep OPENFHE = None then Ret (pending ''OpenFHE not installed in this environment'')
      else rbind (load_json rep OPENFHE) (\<lambda>d.
        rbind (jget_opt d ''status'') (\<lambda>st.
        if st \<noteq> JStr ''MEASURED'' then
          rbind (jget_default d ''reason'' (JStr ''OpenFHE benchmark not run'')) (\<lambda>rs.
          Ret (JObj [(''status'', JStr ''PENDING''), (''reason'', rs)]))
        else
          rbind (jfields d [(''rotations'', ''rotations''), (''critical_path_steps'', ''critical_path'')]) (\<lambda>kvs.
          rbind (jget_opt d ''ring_dim'') (\<lambda>ring.
          rbind (jfields d [(''correctness_max_abs_error'', ''correctness_max_abs_error''), (''n'', ''n'')]) (\<lambda>kvs2.
          rbind (jpath d [''latency_us'', ''total'']) (\<lambda>lat.
          Ret (measured_cell OPENFHE LOCAL_SCOPE (kvs @ [(''ring_dim'', ring)] @ kvs2 @ [(''latency_us'', lat)])))))))))"

section \<open>The 200-bit run\<close>

text \<open>\<^verbatim>\<open>s.split()\<close>.\<close>

definition split_ws :: "string \<Rightarrow> string list" where
  "split_ws s = filter (\<lambda>t. t \<noteq> [])
     (foldr (\<lambda>c ws. if is_space c then [] # ws else (case ws of [] \<Rightarrow> [[c]] | w # ws' \<Rightarrow> (c # w) # ws')) s [[]])"

text \<open>The last token \<^verbatim>\<open>avg_us=...\<close> counts; every such token must be a number.\<close>

definition parse_avg_us :: "(string \<Rightarrow> pyfloat res) \<Rightarrow> string \<Rightarrow> pyfloat option res" where
  "parse_avg_us parse out =
     rbind (rmap (\<lambda>tok. parse (drop 7 tok)) (filter (starts_with ''avg_us='') (split_ws out))) (\<lambda>xs.
     Ret (if xs = [] then None else Some (last xs)))"

text \<open>\<open>outcome\<close> is the exit code and standard output, or what \<^verbatim>\<open>subprocess.run\<close> raises.\<close>

definition run_benchmark_200_fold :: "(string \<Rightarrow> pyfloat res) \<Rightarrow> store \<Rightarrow> (int \<times> string) res \<Rightarrow> json res" where
  "run_benchmark_200_fold parse st outcome =
     (if \<not> file_exists st ''vendor_server/build/benchmark'' then Ret (pending ''vendor_server/build/benchmark not built'')
      else rbind outcome (\<lambda>(rc, out).
        if rc \<noteq> 0 then Ret (pending ''benchmark failed'')
        else rbind (parse_avg_us parse out) (\<lambda>avg.
          case avg of None \<Rightarrow> Ret (pending ''could not parse benchmark output'')
          | Some x \<Rightarrow> Ret (measured_cell ''vendor_server/build/benchmark'' LOCAL_SCOPE [(''latency_us'', JObj [(''mean'', JNum x)])]))))"

section \<open>The thread-pool axis\<close>

definition PARALLELISM_SWEEP_THREADS :: "nat list" where "PARALLELISM_SWEEP_THREADS = [1, 2, 8]"
definition PARALLELISM_SWEEP_N_CLIENTS :: nat where "PARALLELISM_SWEEP_N_CLIENTS = 8"

text \<open>One measured point per thread count: port and process answers, server state after the start, the permutation drawn, the
  schedule of the client threads and the wall time. \<open>em_no_latency\<close> is the percentile of an empty array.\<close>

record 's em_env =
  em_port_open :: "nat \<Rightarrow> bool"
  em_poll :: "nat \<Rightarrow> int option"
  em_stops :: "nat \<Rightarrow> bool"
  em_fresh :: "nat \<Rightarrow> 's"
  em_perm :: "nat \<Rightarrow> nat \<Rightarrow> nat list"
  em_sched :: "nat \<Rightarrow> turn list"
  em_wall :: "nat \<Rightarrow> real"
  em_no_latency :: "pyfloat res"
  em_text :: "pyexc \<Rightarrow> string"

definition launch_threads :: "(string \<rightharpoonup> string) \<Rightarrow> nat \<Rightarrow> sproc" where
  "launch_threads environ threads =
     \<lparr>sp_argv = [''vendor_server/build/vendor_server_160'', ''artifacts/model_weights.bin'', ''50052''],
      sp_env = environ(''PPFD_GRPC_THREADS'' \<mapsto> py_str threads), sp_pin = None, sp_status = Running\<rparr>"

definition sweep_batch :: "(nat \<Rightarrow> nat \<Rightarrow> nat list) \<Rightarrow> nat \<Rightarrow> real list list \<Rightarrow> real ndarray" where
  "sweep_batch perm threads X =
     (let rows = map (\<lambda>i. X ! i) (take 16 (perm (9000 + threads) (length X))) in \<lparr>shape = [length rows, ncols X], elems = concat rows\<rparr>)"

definition sweep_pool ::
  "('c, 'w, 'g) seal \<Rightarrow> (real \<Rightarrow> real) \<Rightarrow> ('s, 'w) net \<Rightarrow> fs \<Rightarrow> turn list \<Rightarrow> nat \<Rightarrow> real ndarray \<Rightarrow> 's \<Rightarrow> 's pool" where
  "sweep_pool S expit N fs sched n_clients X srv =
     run_workers (client_init S expit (nt_connect N (''127.0.0.1'', 50052)) (nt_clock N) (nt_uuid N 1) (nt_import N) (nt_init_seal N) fs worker_args)
       (run_inference S expit (nt_connect N (''127.0.0.1'', 50052)) (nt_clock N) (nt_uuid N 2) X) sched (start_pool n_clients srv)"

definition point_stats :: "pyfloat res \<Rightarrow> nat \<Rightarrow> nat \<Rightarrow> real \<Rightarrow> real list \<Rightarrow> json res" where
  "point_stats no_latency threads n_clients wall lats =
     rbind (py_div (Fin (real (length lats))) (Fin wall)) (\<lambda>rate.
     rbind (if lats = [] then no_latency else Ret (Fin (np_percentile lats 99))) (\<lambda>p99.
     Ret (JObj [(''status'', JStr ''MEASURED''), (''source'', JStr ''scripts/build_execution_matrix.py''),
        (''ppfd_grpc_threads'', JInt (int threads)), (''n_clients'', JInt (int n_clients)), (''lanes_per_request'', JInt 16),
        (''duration_s'', JReal wall), (''n_requests'', JInt (int (length lats))), (''req_per_sec'', JNum rate),
        (''mean_latency_ms'', JNum (if lats = [] then NaN else Fin (mean lats))), (''p99_latency_ms'', JNum p99)])))"

definition measure_threads_point ::
  "('c, 'w, 'g) seal \<Rightarrow> (real \<Rightarrow> real) \<Rightarrow> ('s, 'w) net \<Rightarrow> fs \<Rightarrow> 's em_env \<Rightarrow> nat \<Rightarrow> real list list \<Rightarrow> nat \<Rightarrow> json res \<times> sproc option" where
  "measure_threads_point S expit N fs E n_clients X threads =
     (if em_port_open E threads then (Raise RuntimeError, None)
      else let proc = launch_threads (h_environ (nt_host N)) threads in
      case em_poll E threads of
        Some code \<Rightarrow> (Raise RuntimeError, Some (proc\<lparr>sp_status := Exited code\<rparr>))
      | None \<Rightarrow>
        (case client_init S expit (nt_connect N (''127.0.0.1'', 50052)) (nt_clock N) (nt_uuid N 0) (nt_import N) (nt_init_seal N) fs
                self_test_args (em_fresh E threads) of
           (Inl e, srv1) \<Rightarrow> Inl e
         | (Inr cl, srv1) \<Rightarrow>
           point_stats (em_no_latency E) threads n_clients (em_wall E threads)
             (concat (pl_lat (sweep_pool S expit N fs (em_sched E threads) n_clients (sweep_batch (em_perm E) threads X) srv1))),
         Some (stop_server (em_stops E threads) proc)))"

definition is_exception :: "pyexc \<Rightarrow> bool" where
  "is_exception e = (case e of SystemExit _ \<Rightarrow> False | _ \<Rightarrow> True)"

definition pending_point :: "nat \<Rightarrow> string \<Rightarrow> json" where
  "pending_point threads reason = JObj [(''status'', JStr ''PENDING''), (''ppfd_grpc_threads'', JInt (int threads)), (''reason'', JStr reason)]"

fun sweep_points :: "(nat \<Rightarrow> json res \<times> sproc option) \<Rightarrow> (pyexc \<Rightarrow> string) \<Rightarrow> nat list \<Rightarrow> json list res \<times> sproc option list" where
  "sweep_points f txt [] = (Ret [], [])"
| "sweep_points f txt (t # ts) =
     (case f t of (r, p) \<Rightarrow>
      (case r of
         Inl e \<Rightarrow> if is_exception e then
             (case sweep_points f txt ts of (rs, ps) \<Rightarrow> (rbind rs (\<lambda>xs. Ret (pending_point t (txt e) # xs)), p # ps))
           else (Inl e, [p])
       | Inr j \<Rightarrow> (case sweep_points f txt ts of (rs, ps) \<Rightarrow> (rbind rs (\<lambda>xs. Ret (j # xs)), p # ps))))"

text \<open>The first row for eight clients.\<close>

fun client_row :: "json \<Rightarrow> json list \<Rightarrow> json list res" where
  "client_row d [] = Ret []"
| "client_row d (row # rows) =
     rbind (jget row ''n_clients'') (\<lambda>n.
     if n = JInt (int PARALLELISM_SWEEP_N_CLIENTS) then
       rbind (jget d ''ppfd_grpc_threads'') (\<lambda>t.
       rbind (jfields row (map (\<lambda>k. (k, k)) [''n_clients'', ''lanes_per_request'', ''duration_s'', ''n_requests'', ''req_per_sec'',
                ''mean_latency_ms'', ''p99_latency_ms''])) (\<lambda>kvs.
       Ret [JObj ([(''status'', JStr ''MEASURED''), (''source'', JStr ''artifacts/throughput_results.json: client_sweep''), (''ppfd_grpc_threads'', t)] @ kvs)]))
     else client_row d rows)"

text \<open>A stable sort by a numeric key; comparing anything else raises. (With NaN keys Python's order is unspecified.)\<close>

fun ins_by :: "(pyfloat \<times> json) \<Rightarrow> (pyfloat \<times> json) list \<Rightarrow> (pyfloat \<times> json) list" where
  "ins_by x [] = [x]"
| "ins_by x (y # ys) = (if pf_lt (fst x) (fst y) then x # y # ys else y # ins_by x ys)"

definition sort_points :: "json list \<Rightarrow> json list res" where
  "sort_points ps =
     rbind (rmap (\<lambda>p. jget p ''ppfd_grpc_threads'') ps) (\<lambda>ks.
     if length ps \<le> 1 then Ret ps
     else rbind (rmap jnum ks) (\<lambda>xs. Ret (map snd (foldl (\<lambda>acc x. ins_by x acc) [] (zip xs ps)))))"

definition parallelism_axis ::
  "('c, 'w, 'g) seal \<Rightarrow> (real \<Rightarrow> real) \<Rightarrow> ('s, 'w) net \<Rightarrow> store \<Rightarrow> jfs \<Rightarrow> 's em_env \<Rightarrow> json list res \<times> sproc option list" where
  "parallelism_axis S expit N st rep E =
     (case (if rep THROUGHPUT = None then Ret []
            else rbind (load_json rep THROUGHPUT) (\<lambda>d. rbind (jget d ''client_sweep'') (\<lambda>sw. rbind (jiter sw) (client_row d)))) of
        Inl e \<Rightarrow> (Inl e, [])
      | Inr ps0 \<Rightarrow>
        if \<not> list_all (file_exists st) [''vendor_server/build/vendor_server_160'', ''artifacts/galois_keys_160.bin'', ''artifacts/public_key_160.bin'']
        then (Ret (ps0 @ map (\<lambda>t. pending_point t ''vendor_server_160 or 160-bit key artifacts missing'') PARALLELISM_SWEEP_THREADS), [])
        else case np_load_mat st ''artifacts/X_test.npy'' of
          Inl e \<Rightarrow> (Inl e, [])
        | Inr X \<Rightarrow>
          (case sweep_points (measure_threads_point S expit N (bins st) E PARALLELISM_SWEEP_N_CLIENTS X) (em_text E) PARALLELISM_SWEEP_THREADS of
             (r, procs) \<Rightarrow> (rbind r (\<lambda>ps. sort_points (ps0 @ ps)), procs)))"

section \<open>Occupancy axis and main\<close>

definition occupancy_axis :: "jfs \<Rightarrow> json list res" where
  "occupancy_axis rep =
     (if rep THROUGHPUT = None then Ret [pending (THROUGHPUT @ '' missing'')]
      else rbind (load_json rep THROUGHPUT) (\<lambda>d. rbind (jget d ''occupancy_sweep'') (\<lambda>sw. rbind (jiter sw) (\<lambda>rows.
        rmap (\<lambda>row. rbind (jget d ''ppfd_grpc_threads'') (\<lambda>t.
                    rbind (jfields row (map (\<lambda>k. (k, k)) [''lanes'', ''batch_latency_us'', ''per_tx_us''])) (\<lambda>kvs.
                    Ret (JObj ([(''status'', JStr ''MEASURED''), (''source'', JStr ''artifacts/throughput_results.json: occupancy_sweep''),
                                (''ppfd_grpc_threads'', t)] @ kvs))))) rows))))"

definition cell_matrix :: "json \<Rightarrow> json \<Rightarrow> json \<Rightarrow> json \<Rightarrow> json \<Rightarrow> json" where
  "cell_matrix fold160 bsgs160 naive160 fold200 openfhe =
     (let none200 = pending ''the 200-bit benchmark has no --strategy dispatch'';
          noneFhe = pending ''tools/openfhe_benchmark implements only hoisted_flat'';
          fhe = JObj [(''fold'', noneFhe), (''bsgs'', openfhe), (''naive'', noneFhe)] in
      JObj [(''SEAL'', JObj [(''160bit'', JObj [(''fold'', fold160), (''bsgs'', bsgs160), (''naive'', naive160)]),
                             (''200bit'', JObj [(''fold'', fold200), (''bsgs'', none200), (''naive'', none200)])]),
            (''OpenFHE'', JObj [(''160bit'', fhe), (''200bit'', fhe)])])"

text \<open>The matrix, the two axes and the server processes started.\<close>

record em_report =
  er_cells :: json
  er_parallelism :: "json list"
  er_occupancy :: "json list"

definition execution_matrix_main ::
  "('c, 'w, 'g) seal \<Rightarrow> (real \<Rightarrow> real) \<Rightarrow> ('s, 'w) net \<Rightarrow> (string \<Rightarrow> pyfloat res) \<Rightarrow> store \<Rightarrow> jfs \<Rightarrow> (int \<times> string) res \<Rightarrow> 's em_env
   \<Rightarrow> em_report res \<times> sproc option list" where
  "execution_matrix_main S expit N parse st rep run200 E =
     (case rbind (from_ablation_methodology rep) (\<lambda>(fold160, naive160).
           rbind (from_rotation_strategy_comparison rep) (\<lambda>bsgs160.
           rbind (run_benchmark_200_fold parse st run200) (\<lambda>fold200.
           rbind (openfhe_measured_or_pending rep) (\<lambda>openfhe.
           Ret (cell_matrix fold160 bsgs160 naive160 fold200 openfhe))))) of
        Inl e \<Rightarrow> (Inl e, [])
      | Inr cells \<Rightarrow>
        (case parallelism_axis S expit N st rep E of (par, procs) \<Rightarrow>
          (rbind par (\<lambda>ps. rbind (occupancy_axis rep) (\<lambda>os.
             Ret \<lparr>er_cells = cells, er_parallelism = ps, er_occupancy = os\<rparr>)), procs)))"

section \<open>Concurrent clients\<close>

lemma sweep_batch_16:
  assumes "list_all row256 X" "16 \<le> length X" "set (perm (9000 + t) (length X)) \<subseteq> {..<length X}" "length (perm (9000 + t) (length X)) = length X"
  shows "batch 16 (sweep_batch perm t X)"
proof -
  let ?rows = "map (\<lambda>i. X ! i) (take 16 (perm (9000 + t) (length X)))"
  have "list_all row256 ?rows"
    using assms(1,3) set_take_subset [of 16 "perm (9000 + t) (length X)"] by (force simp: list_all_iff)
  moreover have "length ?rows = 16" using assms(2,4) by simp
  moreover have "ncols X = 256" using assms(1,2) by (cases X) (auto simp: ncols_def row256_def)
  ultimately show ?thesis using mat_nd_batch(1) [of ?rows] by (simp add: sweep_batch_def mat_nd_def batch_def Let_def)
qed

lemma concat_lat:
  "length ls = n \<Longrightarrow> (\<And>i. i < n \<Longrightarrow> ls ! i = f i) \<Longrightarrow> concat ls = concat (map f [0..<n])"
  by (rule arg_cong [of _ _ concat], rule nth_equalityI) simp_all

text \<open>C9. Concurrent clients are served in every interleaving. A slot server is started and provisioned by a client whose keys
  validate; then \<open>n\<close> threads share it. For every order of their calls in which each thread gets a turn after the deadline,
  every thread finishes and none dies, the server is still READY, and the reported point is measured over exactly the requests
  the threads sent before the deadline: their number, rate, mean and 99th percentile. The process started for the point is
  not left running.\<close>

theorem concurrent_clients_served:
  assumes "ckks_slots S gk ok e_enc e_mul e_rot e_add"
    and "\<not> em_port_open E t" "em_poll E t = None" "nt_connect N = (\<lambda>_. vendor_stub S rnd tm)"
    and "sv_mode (em_fresh E t) = SLOT" "pstate (sv_sm (em_fresh E t)) = PROV_AWAITING_KEYS" "length (sv_w (em_fresh E t)) = 256"
    and "fs ''artifacts/galois_keys_160.bin'' = Some k" "keys_accepted S k gk" "256 * e_enc + 255 * e_rot < 1 / 1000"
    and "fs ''artifacts/public_key_160.bin'' = Some pk" "fs ''artifacts/secret_key_160.bin'' = Some sk"
      "nt_import N ''seal_wrapper_160'' = Ret c" "nt_init_seal N pk sk = Ret ()"
    and "list_all row256 X" "16 \<le> length X" "set (em_perm E (9000 + t) (length X)) \<subseteq> {..<length X}"
      "length (em_perm E (9000 + t) (length X)) = length X"
    and "em_wall E t > 0" "\<forall>i<n. \<exists>x \<in> set (tl (turns_of i (em_sched E t))). \<not> fst x"
    and "lats = concat (map (\<lambda>i. requests_of i (em_sched E t)) [0..<n])" "lats \<noteq> []"
  shows "\<exists>j p srv1. measure_threads_point S expit N fs E n X t = (Ret j, Some p) \<and> sp_status p \<noteq> Running
    \<and> (let P = sweep_pool S expit N fs (em_sched E t) n (sweep_batch (em_perm E) t X) srv1 in
         (\<forall>i<n. pl_workers P ! i = Finished) \<and> pstate (sv_sm (pl_srv P)) = PROV_READY)
    \<and> jget j ''status'' = Ret (JStr ''MEASURED'') \<and> jget j ''n_requests'' = Ret (JInt (int (length lats)))
    \<and> jget j ''req_per_sec'' = Ret (JReal (real (length lats) / em_wall E t))
    \<and> jget j ''mean_latency_ms'' = Ret (JReal (mean lats)) \<and> jget j ''p99_latency_ms'' = Ret (JReal (np_percentile lats 99))"
proof -
  let ?sv = "em_fresh E t"
  obtain cl srv1 where prov: "client_init S expit (vendor_stub S rnd tm) (nt_clock N) (nt_uuid N 0) (nt_import N) (nt_init_seal N) fs
        self_test_args ?sv = (Ret cl, srv1)" and rdy: "ready SLOT (Some gk) (sv_w ?sv) (sv_b ?sv) srv1"
    using ckks_slots.slot_client_init [where fs = fs and import_module = "nt_import N" and init_seal = "nt_init_seal N" and pk = pk and sk = sk,
        OF assms(1,5-14)] by blast
  let ?X = "sweep_batch (em_perm E) t X"
  have b: "batch 16 ?X" using sweep_batch_16 [of X "em_perm E" t] assms(15-18) by blast
  have pool: "worker_pool (client_init S expit (vendor_stub S rnd tm) (nt_clock N) (nt_uuid N 1) (nt_import N) (nt_init_seal N) fs worker_args)
    (run_inference S expit (vendor_stub S rnd tm) (nt_clock N) (nt_uuid N 2) ?X) (ready SLOT (Some gk) (sv_w ?sv) (sv_b ?sv)) slot_client"
    using assms(11-14) by (intro ckks_slots.slot_pool [OF assms(1,7) b]) simp_all
  define P where "P = sweep_pool S expit N fs (em_sched E t) n ?X srv1"
  have P: "P = run_workers (client_init S expit (vendor_stub S rnd tm) (nt_clock N) (nt_uuid N 1) (nt_import N) (nt_init_seal N) fs worker_args)
    (run_inference S expit (vendor_stub S rnd tm) (nt_clock N) (nt_uuid N 2) ?X) (em_sched E t) (start_pool n srv1)"
    by (simp add: P_def sweep_pool_def assms(4))
  note run = worker_pool.pool_run_ok [OF pool rdy P]
  note served = worker_pool.served [OF pool rdy P]
  have lat: "concat (pl_lat P) = lats"
    unfolding assms(21) using run served(1) by (intro concat_lat) auto
  have fin: "\<forall>i<n. pl_workers P ! i = Finished" using served(3) assms(20) by blast
  have st: "pstate (sv_sm (pl_srv P)) = PROV_READY" using run by (simp add: ready_def)
  have "\<exists>j. measure_threads_point S expit N fs E n X t = (Ret j, Some (stop_server (em_stops E t) (launch_threads (h_environ (nt_host N)) t)))
    \<and> jget j ''status'' = Ret (JStr ''MEASURED'') \<and> jget j ''n_requests'' = Ret (JInt (int (length lats)))
    \<and> jget j ''req_per_sec'' = Ret (JReal (real (length lats) / em_wall E t))
    \<and> jget j ''mean_latency_ms'' = Ret (JReal (mean lats)) \<and> jget j ''p99_latency_ms'' = Ret (JReal (np_percentile lats 99))"
    unfolding measure_threads_point_def Let_def assms(4) prov sum.case prod.case assms(3) option.case P_def [symmetric] lat point_stats_def
    using assms(2,19,22) by simp
  then show ?thesis using fin st P_def stop_server_stopped by (metis (no_types, lifting))
qed

definition demo_em :: "unit server em_env" where
  "demo_em = \<lparr>em_port_open = (\<lambda>_. False), em_poll = (\<lambda>_. None), em_stops = (\<lambda>_. True),
     em_fresh = (\<lambda>_. (demo_server SLOT)\<lparr>sv_sm := psm_init, sv_gk := None\<rparr>), em_perm = (\<lambda>_ n. [0..<n]),
     em_sched = (\<lambda>_. [(0, True, 0), (1, True, 0), (1, True, 5), (0, True, 3), (1, True, 7), (0, False, 0), (1, False, 0)]),
     em_wall = (\<lambda>_. 3), em_no_latency = Raise IndexError, em_text = (\<lambda>_. ''error'')\<rparr>"

theorem concurrent_clients_served_witness:
  "\<exists>j p. measure_threads_point plain_seal (\<lambda>z. z) demo_net (bins demo_bank) demo_em 2 (replicate 16 (replicate 256 3)) 4 = (Ret j, Some p)
     \<and> jget j ''n_requests'' = Ret (JInt 3) \<and> jget j ''mean_latency_ms'' = Ret (JReal 5)"
proof -
  have k: "keys_accepted plain_seal [] ()" by (simp add: keys_accepted_def plain_seal_def list_all_iff)
  have rq: "requests_of 0 (em_sched demo_em 4) = [3]" "requests_of (Suc 0) (em_sched demo_em 4) = [5, 7]"
    by (simp_all add: demo_em_def requests_of_def turns_of_def)
  have fin: "\<forall>i<2. \<exists>x \<in> set (tl (turns_of i (em_sched demo_em 4))). \<not> fst x"
    by (simp add: demo_em_def turns_of_def All_less_Suc2 numeral_2_eq_2)
  have lats: "[3, 5, 7] = concat (map (\<lambda>i. requests_of i (em_sched demo_em 4)) [0..<2])"
    by (simp add: upt_rec numeral_2_eq_2 rq)
  have "\<exists>j p srv1. measure_threads_point plain_seal (\<lambda>z. z) demo_net (bins demo_bank) demo_em 2 (replicate 16 (replicate 256 3)) 4 = (Ret j, Some p)
    \<and> sp_status p \<noteq> Running
    \<and> (let P = sweep_pool plain_seal (\<lambda>z. z) demo_net (bins demo_bank) (em_sched demo_em 4) 2 (sweep_batch (em_perm demo_em) 4 (replicate 16 (replicate 256 3))) srv1 in
         (\<forall>i<2. pl_workers P ! i = Finished) \<and> pstate (sv_sm (pl_srv P)) = PROV_READY)
    \<and> jget j ''status'' = Ret (JStr ''MEASURED'') \<and> jget j ''n_requests'' = Ret (JInt (int (length [3, 5, 7 :: real])))
    \<and> jget j ''req_per_sec'' = Ret (JReal (real (length [3, 5, 7 :: real]) / em_wall demo_em 4))
    \<and> jget j ''mean_latency_ms'' = Ret (JReal (mean [3, 5, 7])) \<and> jget j ''p99_latency_ms'' = Ret (JReal (np_percentile [3, 5, 7] 99))"
    by (rule concurrent_clients_served [where k = "[]" and pk = "[1]" and sk = "[2]" and c = True and rnd = "\<lambda>_. 0" and tm = demo_timing,
          OF plain_slots.ckks_slots_axioms _ _ _ _ _ _ _ k _ _ _ _ _ _ _ _ _ _ fin lats])
      (simp_all add: demo_bank_def demo_em_def demo_net_def psm_init_def row256_def list_all_iff atLeast0LessThan)
  then show ?thesis by (auto simp: mean_def)
qed

section \<open>Every measured cell has a measurement\<close>

definition is_measured :: "json \<Rightarrow> bool" where
  "is_measured j \<longleftrightarrow> jget j ''status'' = Ret (JStr ''MEASURED'')"

definition is_pending :: "json \<Rightarrow> bool" where
  "is_pending j \<longleftrightarrow> jget j ''status'' = Ret (JStr ''PENDING'') \<and> (\<exists>v. jget j ''reason'' = Ret v)"

text \<open>Where the latency of each measured cell comes from; the combinations not listed have no measurement.\<close>

definition traced :: "(string \<Rightarrow> pyfloat res) \<Rightarrow> jfs \<Rightarrow> (int \<times> string) res \<Rightarrow> string \<times> string \<times> string \<Rightarrow> json \<Rightarrow> bool" where
  "traced parse rep outcome key lat \<longleftrightarrow>
     key = (''SEAL'', ''160bit'', ''fold'') \<and> (\<exists>d. load_json rep ABLATION = Ret d \<and> jget d ''hoisted_latency_us'' = Ret lat)
   \<or> key = (''SEAL'', ''160bit'', ''naive'') \<and> (\<exists>d. load_json rep ABLATION = Ret d \<and> jget d ''naive_latency_us'' = Ret lat)
   \<or> key = (''SEAL'', ''160bit'', ''bsgs'') \<and> (\<exists>d ss es entry ms. load_json rep ROTATION = Ret d \<and> jget d ''strategies'' = Ret ss \<and> jiter ss = Ret es
        \<and> entry \<in> set es \<and> is_bsgs entry = Ret True \<and> jget entry ''latency_ms'' = Ret ms \<and> scale_items ms = Ret lat)
   \<or> key = (''SEAL'', ''200bit'', ''fold'') \<and> (\<exists>out x. outcome = Ret (0, out) \<and> parse_avg_us parse out = Ret (Some x) \<and> lat = JObj [(''mean'', JNum x)])
   \<or> snd (snd key) = ''bsgs'' \<and> fst key = ''OpenFHE'' \<and> (\<exists>d. load_json rep OPENFHE = Ret d \<and> jget d ''status'' = Ret (JStr ''MEASURED'')
        \<and> jpath d [''latency_us'', ''total''] = Ret lat)"

definition cell_ok :: "(json \<Rightarrow> bool) \<Rightarrow> json \<Rightarrow> bool" where
  "cell_ok tr c \<longleftrightarrow> is_pending c \<or> is_measured c \<and> (\<exists>lat. jget c ''latency_us'' = Ret lat \<and> tr lat)"

lemma pending_ok [simp]: "is_pending (pending s)" "cell_ok tr (pending s)"
  by (simp_all add: pending_def is_pending_def cell_ok_def)

lemma ablation_cell_ok:
  assumes "ablation_cell d strategy pre = Ret c" "\<And>lat. jget d (pre @ ''_latency_us'') = Ret lat \<Longrightarrow> tr lat"
  shows "cell_ok tr c"
  using assms by (auto simp: ablation_cell_def measured_cell_def jfields_def cell_ok_def is_measured_def rbind_Ret_iff simp del: jget_eq_Ret)

lemma from_ablation_ok:
  assumes "from_ablation_methodology rep = Ret (c1, c2)"
  shows "cell_ok (traced parse rep out (''SEAL'', ''160bit'', ''fold'')) c1 \<and> cell_ok (traced parse rep out (''SEAL'', ''160bit'', ''naive'')) c2"
proof (cases "rep ABLATION = None")
  case True
  with assms show ?thesis by (auto simp: from_ablation_methodology_def)
next
  case False
  with assms obtain d where d: "load_json rep ABLATION = Ret d" and c1: "ablation_cell d ''fold'' ''hoisted'' = Ret c1"
      and c2: "ablation_cell d ''naive'' ''naive'' = Ret c2"
    by (auto simp: from_ablation_methodology_def rbind_Ret_iff)
  show ?thesis
    using ablation_cell_ok [OF c1, of "traced parse rep out (''SEAL'', ''160bit'', ''fold'')"]
      ablation_cell_ok [OF c2, of "traced parse rep out (''SEAL'', ''160bit'', ''naive'')"] d by (simp add: traced_def)
qed

lemma bsgs_cell_ok:
  assumes "bsgs_cell entry = Ret c" "\<And>ms lat. jget entry ''latency_ms'' = Ret ms \<Longrightarrow> scale_items ms = Ret lat \<Longrightarrow> tr lat"
  shows "cell_ok tr c"
  using assms by (auto simp: bsgs_cell_def jfields_def cell_ok_def is_measured_def rbind_Ret_iff)

lemma find_bsgs_ok:
  assumes "find_bsgs es = Ret c"
    "\<And>entry ms lat. entry \<in> set es \<Longrightarrow> is_bsgs entry = Ret True \<Longrightarrow> jget entry ''latency_ms'' = Ret ms \<Longrightarrow> scale_items ms = Ret lat \<Longrightarrow> tr lat"
  shows "cell_ok tr c"
  using assms by (induction es) (auto simp: rbind_Ret_iff split: if_splits intro: bsgs_cell_ok)

lemma from_rotation_ok:
  assumes "from_rotation_strategy_comparison rep = Ret c"
  shows "cell_ok (traced parse rep out (''SEAL'', ''160bit'', ''bsgs'')) c"
proof (cases "rep ROTATION = None")
  case True
  with assms show ?thesis by (auto simp: from_rotation_strategy_comparison_def)
next
  case False
  with assms obtain d ss es where d: "load_json rep ROTATION = Ret d" "jget d ''strategies'' = Ret ss" "jiter ss = Ret es"
      and c: "find_bsgs es = Ret c"
    by (auto simp: from_rotation_strategy_comparison_def rbind_Ret_iff)
  from d show ?thesis
    by (intro find_bsgs_ok [OF c]) (simp add: traced_def, blast)
qed

lemma run_200_ok:
  assumes "run_benchmark_200_fold parse st outcome = Ret c"
  shows "cell_ok (traced parse rep outcome (''SEAL'', ''200bit'', ''fold'')) c"
proof (cases "file_exists st ''vendor_server/build/benchmark''")
  case False
  with assms show ?thesis by (auto simp: run_benchmark_200_fold_def)
next
  case True
  with assms obtain rc out where o: "outcome = Ret (rc, out)"
    by (auto simp: run_benchmark_200_fold_def rbind_Ret_iff)
  show ?thesis
  proof (cases "rc = 0")
    case False
    with assms True o show ?thesis by (auto simp: run_benchmark_200_fold_def)
  next
    case rc: True
    with assms True o obtain avg where a: "parse_avg_us parse out = Ret avg"
      by (auto simp: run_benchmark_200_fold_def rbind_Ret_iff)
    show ?thesis
    proof (cases avg)
      case None
      with assms True o rc a show ?thesis by (auto simp: run_benchmark_200_fold_def)
    next
      case (Some x)
      with assms True o rc a have c: "c = measured_cell ''vendor_server/build/benchmark'' LOCAL_SCOPE [(''latency_us'', JObj [(''mean'', JNum x)])]"
        by (simp add: run_benchmark_200_fold_def)
      show ?thesis using o rc a Some unfolding c by (simp add: cell_ok_def is_measured_def measured_cell_def traced_def)
    qed
  qed
qed

lemma openfhe_ok:
  assumes "openfhe_measured_or_pending rep = Ret c"
  shows "cell_ok (traced parse rep out (''OpenFHE'', chain, ''bsgs'')) c"
proof (cases "rep OPENFHE = None")
  case True
  with assms show ?thesis by (auto simp: openfhe_measured_or_pending_def)
next
  case False
  with assms obtain d st where d: "load_json rep OPENFHE = Ret d" and st: "jget_opt d ''status'' = Ret st"
    by (auto simp: openfhe_measured_or_pending_def rbind_Ret_iff)
  show ?thesis
  proof (cases "st = JStr ''MEASURED''")
    case False
    with assms d st \<open>rep OPENFHE \<noteq> None\<close> show ?thesis
      by (auto simp: openfhe_measured_or_pending_def rbind_Ret_iff cell_ok_def is_pending_def)
  next
    case True
    with assms d st \<open>rep OPENFHE \<noteq> None\<close> obtain kvs ring kvs2 lat where lat: "jpath d [''latency_us'', ''total''] = Ret lat"
      and c: "c = measured_cell OPENFHE LOCAL_SCOPE (kvs @ [(''ring_dim'', ring)] @ kvs2 @ [(''latency_us'', lat)])"
      and k: "jfields d [(''rotations'', ''rotations''), (''critical_path_steps'', ''critical_path'')] = Ret kvs"
        "jfields d [(''correctness_max_abs_error'', ''correctness_max_abs_error''), (''n'', ''n'')] = Ret kvs2"
      by (auto simp: openfhe_measured_or_pending_def rbind_Ret_iff simp del: jpath.simps)
    have s: "jget d ''status'' = Ret (JStr ''MEASURED'')" using st True by (cases d) (auto split: option.splits)
    have "cell_ok (\<lambda>l. l = lat) c"
      using k unfolding c by (auto simp: cell_ok_def is_measured_def measured_cell_def jfields_def rbind_Ret_iff)
    then show ?thesis using d s lat by (auto simp: cell_ok_def traced_def simp del: jpath.simps)
  qed
qed

lemma cell_matrix_ok:
  assumes "\<And>s. s \<in> {''fold'', ''bsgs'', ''naive''} \<Longrightarrow> cell_ok (tr (''SEAL'', ''160bit'', s)) (if s = ''fold'' then f1 else if s = ''bsgs'' then b1 else n1)"
    and "cell_ok (tr (''SEAL'', ''200bit'', ''fold'')) f2" "\<And>ch. cell_ok (tr (''OpenFHE'', ch, ''bsgs'')) fhe"
    and "lib \<in> {''SEAL'', ''OpenFHE''}" "chain \<in> {''160bit'', ''200bit''}" "strat \<in> {''fold'', ''bsgs'', ''naive''}"
  shows "\<exists>c. jpath (cell_matrix f1 b1 n1 f2 fhe) [lib, chain, strat] = Ret c \<and> cell_ok (tr (lib, chain, strat)) c"
  using assms(1) [of "''fold''"] assms(1) [of "''bsgs''"] assms(1) [of "''naive''"] assms(2-6)
  by (auto simp: cell_matrix_def Let_def)

lemma sweep_points_stopped:
  assumes "sweep_points f txt ts = (r, ps)" "\<And>t r p q. f t = (r, p) \<Longrightarrow> p = Some q \<Longrightarrow> sp_status q \<noteq> Running"
  shows "Some q \<in> set ps \<Longrightarrow> sp_status q \<noteq> Running"
  using assms by (induction ts arbitrary: r ps) (auto split: prod.splits sum.splits if_splits)

lemma measure_threads_point_stopped:
  "measure_threads_point S expit N fs E n X t = (r, Some q) \<Longrightarrow> sp_status q \<noteq> Running"
  by (auto simp: measure_threads_point_def Let_def stop_server_stopped split: if_splits option.splits)

lemma parallelism_axis_stopped:
  assumes "parallelism_axis S expit N st rep E = (r, ps)" "Some q \<in> set ps"
  shows "sp_status q \<noteq> Running"
proof -
  obtain X r' where "sweep_points (measure_threads_point S expit N (bins st) E PARALLELISM_SWEEP_N_CLIENTS X) (em_text E)
      PARALLELISM_SWEEP_THREADS = (r', ps)"
    using assms by (auto simp: parallelism_axis_def split: sum.splits if_splits prod.splits)
  from sweep_points_stopped [OF this _ assms(2)] show ?thesis using measure_threads_point_stopped by fastforce
qed

text \<open>C19. Every measured cell has a measurement. In a matrix that is written, each of the twelve cells is pending with a reason or
  measured, and a measured one carries the latencies of its source: the ablation file for SEAL fold and naive at 160 bits,
  the first local-circuit BSGS entry (scaled to microseconds), the successful run of the 200-bit binary, the OpenFHE file
  when that says MEASURED. The five combinations nobody implements are pending. No server of the sweep is left running.\<close>

theorem execution_matrix_provenance:
  assumes "execution_matrix_main S expit N parse st rep outcome E = (Ret r, procs)"
    and "lib \<in> {''SEAL'', ''OpenFHE''}" "chain \<in> {''160bit'', ''200bit''}" "strat \<in> {''fold'', ''bsgs'', ''naive''}"
  shows "(\<exists>c. jpath (er_cells r) [lib, chain, strat] = Ret c
      \<and> (is_pending c \<or> is_measured c \<and> (\<exists>lat. jget c ''latency_us'' = Ret lat \<and> traced parse rep outcome (lib, chain, strat) lat)))
    \<and> (\<forall>q. Some q \<in> set procs \<longrightarrow> sp_status q \<noteq> Running)"
proof -
  obtain f1 n1 b1 f2 fhe par where c: "from_ablation_methodology rep = Ret (f1, n1)" "from_rotation_strategy_comparison rep = Ret b1"
      "run_benchmark_200_fold parse st outcome = Ret f2" "openfhe_measured_or_pending rep = Ret fhe"
      and r: "er_cells r = cell_matrix f1 b1 n1 f2 fhe" and p: "parallelism_axis S expit N st rep E = (par, procs)"
    using assms(1) by (auto simp: execution_matrix_main_def rbind_Ret_iff split: sum.splits prod.splits)
  let ?tr = "traced parse rep outcome"
  have "\<exists>c. jpath (cell_matrix f1 b1 n1 f2 fhe) [lib, chain, strat] = Ret c \<and> cell_ok (?tr (lib, chain, strat)) c"
    using from_ablation_ok [OF c(1), of parse outcome] from_rotation_ok [OF c(2), of parse outcome]
    by (intro cell_matrix_ok run_200_ok [OF c(3)] openfhe_ok [OF c(4)] assms(2-4)) auto
  then show ?thesis using parallelism_axis_stopped [OF p] unfolding r cell_ok_def by blast
qed

theorem execution_matrix_provenance_witness:
  "\<exists>r. execution_matrix_main plain_seal (\<lambda>z. z) demo_net (\<lambda>_. Ret (Fin 9531)) (demo_store\<lparr>others := {''vendor_server/build/benchmark''}\<rparr>)
       Map.empty (Ret (0, ''avg_us=9531 avg_ms=9'')) demo_em = (Ret r, [])
     \<and> jpath (er_cells r) [''SEAL'', ''200bit'', ''fold'', ''latency_us'', ''mean''] = Ret (JReal 9531)"
proof -
  obtain r where r: "execution_matrix_main plain_seal (\<lambda>z. z) demo_net (\<lambda>_. Ret (Fin 9531)) (demo_store\<lparr>others := {''vendor_server/build/benchmark''}\<rparr>)
       Map.empty (Ret (0, ''avg_us=9531 avg_ms=9'')) demo_em = (Ret r, [])"
    by (simp add: execution_matrix_main_def from_ablation_methodology_def from_rotation_strategy_comparison_def run_benchmark_200_fold_def
        openfhe_measured_or_pending_def file_exists_def parse_avg_us_def split_ws_def is_space_def starts_with_def parallelism_axis_def
        occupancy_axis_def demo_store_def)
  then have "\<exists>c. jpath (er_cells r) [''SEAL'', ''200bit'', ''fold''] = Ret c \<and> is_measured c"
    by (auto simp: execution_matrix_main_def from_ablation_methodology_def from_rotation_strategy_comparison_def run_benchmark_200_fold_def
        openfhe_measured_or_pending_def file_exists_def parse_avg_us_def split_ws_def is_space_def starts_with_def parallelism_axis_def
        occupancy_axis_def demo_store_def cell_matrix_def Let_def is_measured_def measured_cell_def)
  then obtain c where c: "jpath (er_cells r) [''SEAL'', ''200bit'', ''fold''] = Ret c" "is_measured c" by blast
  from execution_matrix_provenance [OF r, of "''SEAL''" "''200bit''" "''fold''"] c obtain lat where
    lat: "jget c ''latency_us'' = Ret lat" "traced (\<lambda>_. Ret (Fin 9531)) Map.empty (Ret (0, ''avg_us=9531 avg_ms=9'')) (''SEAL'', ''200bit'', ''fold'') lat"
    by (auto simp: is_measured_def is_pending_def)
  then have "lat = JObj [(''mean'', JReal 9531)]"
    by (auto simp: traced_def parse_avg_us_def split_ws_def is_space_def starts_with_def)
  with c(1) lat(1) have "jpath (er_cells r) [''SEAL'', ''200bit'', ''fold'', ''latency_us'', ''mean''] = Ret (JReal 9531)"
    by (auto simp: rbind_Ret_iff)
  with r show ?thesis by blast
qed

end
