(* ===== verification/ReportGen.thy ===== *)
theory ReportGen
  imports ExecMatrix
begin

text \<open>
  The generators of the reports other scripts read: rotation-strategy comparison, ablation, wire sizes, amortization and
  bandwidth ladder. What a run of a benchmark binary prints is an argument: \<open>None\<close> when there is no closing brace, \<open>Some
  None\<close> when the text up to the last one is no JSON. Prose is shortened; the printed strategy table is in \<open>Tables\<close>.
\<close>

section \<open>Rotation strategy comparison\<close>

definition rot_run_benchmark :: "bool \<Rightarrow> json option option \<Rightarrow> json res" where
  "rot_run_benchmark built out =
     (if \<not> built then Raise (SystemExit 1)
      else case out of
        None \<Rightarrow> Raise (SystemExit 1)
      | Some None \<Rightarrow> Raise ValueError
      | Some (Some r) \<Rightarrow>
        rbind (jget_default r ''correctness_passed'' (JBool False)) (\<lambda>p.
        if \<not> jtruthy p then Raise (SystemExit 1) else Ret r))"

text \<open>An existing file with content \<^verbatim>\<open>null\<close> counts as absent afterwards.\<close>

definition load_optional :: "jfs \<Rightarrow> path \<Rightarrow> json option res" where
  "load_optional rep p =
     (if rep p = None then Ret None else rbind (load_json rep p) (\<lambda>j. Ret (if j = JNull then None else Some j)))"

text \<open>Microsecond fields as milliseconds; \<open>pre\<close> and \<open>suf\<close> name the field.\<close>

definition to_ms :: "(string \<Rightarrow> string) \<Rightarrow> json \<Rightarrow> json res" where
  "to_ms f d =
     rbind (rmap (\<lambda>k. rbind (jget d (f k)) (\<lambda>v. rbind (jnum v) (\<lambda>x. Ret (k, JNum (pf_mul x (Fin (1 / 1000)))))))
       [''mean'', ''p50'', ''p95'', ''p99'']) (\<lambda>kvs. Ret (JObj kvs))"

definition e2e_row :: "json \<Rightarrow> json res" where
  "e2e_row cmp =
     rbind (jpath cmp [''summary'', ''reduced_160bit'']) (\<lambda>r.
     rbind (jget r ''n'') (\<lambda>n.
     rbind (to_ms (\<lambda>k. k @ ''_us'') r) (\<lambda>ms.
     Ret (JObj [(''name'', JStr ''SEAL sequential fold (e2e gRPC, Phase 3)''),
        (''source'', JStr ''artifacts/comparison_results.json: summary.reduced_160bit''), (''scope'', JStr ''full gRPC round trip''),
        (''rotations'', JInt 8), (''critical_path_steps'', JInt 8), (''galois_keys'', JInt 8), (''n'', n), (''latency_ms'', ms),
        (''correctness_passed'', JNull)]))))"

definition local_row :: "string \<Rightarrow> string \<Rightarrow> (string \<times> json) list \<Rightarrow> json \<Rightarrow> json res" where
  "local_row name strategy extra r =
     rbind (jfields r [(''rotations'', ''rotations''), (''critical_path_steps'', ''critical_path''), (''galois_keys'', ''galois_keys''), (''n'', ''n'')]) (\<lambda>kvs.
     rbind (jget r ''latency_us'') (\<lambda>lat.
     rbind (to_ms (\<lambda>k. k) lat) (\<lambda>ms.
     rbind (jfields r [(''correctness_max_abs_error'', ''correctness_max_abs_error''), (''correctness_passed'', ''correctness_passed'')]) (\<lambda>cs.
     Ret (JObj ([(''name'', JStr name), (''source'', JStr (''vendor_server/build/benchmark_160 --strategy='' @ strategy)),
                 (''scope'', JStr ''local circuit only: encrypt, multiply_plain, rescale, reduction, decrypt (no gRPC/serialization)'')]
                @ kvs @ [(''latency_ms'', ms)] @ cs @ extra))))))"

definition FOLD_NAME :: string where "FOLD_NAME = ''SEAL sequential fold (local circuit, Phase 4)''"
definition BSGS_NAME :: string where "BSGS_NAME = ''SEAL BSGS two-layer (local circuit, Phase 4)''"
definition OPENFHE_NAME :: string where "OPENFHE_NAME = ''OpenFHE hoisted flat (Phase 4)''"

definition openfhe_row :: "json \<Rightarrow> json res" where
  "openfhe_row d =
     rbind (jget_default d ''status'' (JStr ''PENDING'')) (\<lambda>st.
     rbind (jget_default d ''rotations'' (JInt 30)) (\<lambda>rot.
     rbind (jget_default d ''critical_path'' (JInt 2)) (\<lambda>cp.
     rbind (jget_default d ''galois_keys'' (JInt 30)) (\<lambda>gk.
     let row = [(''name'', JStr OPENFHE_NAME), (''source'', JStr OPENFHE), (''scope'', JStr ''local circuit only''), (''status'', st),
                (''rotations'', rot), (''critical_path_steps'', cp), (''galois_keys'', gk)] in
     if st = JStr ''PENDING'' then
       rbind (jget_default d ''reason'' (JStr ''OpenFHE benchmark not built/run in this environment.'')) (\<lambda>reason.
       Ret (JObj (row @ [(''latency_ms'', JObj (map (\<lambda>k. (k, JStr ''PENDING'')) [''mean'', ''p50'', ''p95'', ''p99''])),
                         (''correctness_passed'', JStr ''PENDING''), (''note'', reason)])))
     else
       rbind (jpath d [''latency_us'', ''total'']) (\<lambda>total.
       rbind (jget d ''n'') (\<lambda>n.
       rbind (to_ms (\<lambda>k. k) total) (\<lambda>ms.
       rbind (jfields d [(''correctness_max_abs_error'', ''correctness_max_abs_error''), (''correctness_passed'', ''correctness_passed'')]) (\<lambda>cs.
       rbind (jget_default d ''ring_dim'' (JStr ''unknown'')) (\<lambda>ring.
       Ret (JObj (row @ [(''n'', n), (''latency_ms'', ms)] @ cs @ [(''ring_dim'', ring)])))))))))))"

text \<open>\<open>bench s\<close> is what \<^verbatim>\<open>benchmark_160 --strategy=s\<close> prints.\<close>

definition rotation_rows :: "bool \<Rightarrow> (string \<Rightarrow> json option option) \<Rightarrow> jfs \<Rightarrow> json list res" where
  "rotation_rows built bench rep =
     rbind (rot_run_benchmark built (bench ''fold'')) (\<lambda>fold_local.
     rbind (rot_run_benchmark built (bench ''bsgs'')) (\<lambda>bsgs_local.
     rbind (load_optional rep ''artifacts/comparison_results.json'') (\<lambda>cmp.
     rbind (load_optional rep OPENFHE) (\<lambda>fhe.
     rbind (case cmp of None \<Rightarrow> Ret [] | Some c \<Rightarrow> rbind (e2e_row c) (\<lambda>r. Ret [r])) (\<lambda>r1.
     rbind (local_row FOLD_NAME ''fold'' [] fold_local) (\<lambda>r2.
     rbind (local_row BSGS_NAME ''bsgs'' [(''note'', JStr ''more rotations on a shorter critical path'')] bsgs_local) (\<lambda>r3.
     rbind (case fhe of None \<Rightarrow> Ret [] | Some d \<Rightarrow> rbind (openfhe_row d) (\<lambda>r. Ret [r])) (\<lambda>r4.
     Ret (r1 @ [r2, r3] @ r4)))))))))"

definition rotation_main :: "bool \<Rightarrow> (string \<Rightarrow> json option option) \<Rightarrow> jfs \<Rightarrow> unit res \<times> jfs" where
  "rotation_main built bench rep =
     (case rotation_rows built bench rep of
        Inl e \<Rightarrow> (Inl e, rep)
      | Inr rows \<Rightarrow> (Ret (), save_json ROTATION (JObj [(''methodology_note'', JStr ''''), (''strategies'', JArr rows)]) rep))"

text \<open>With any flag the script is the benchmark driver instead.\<close>

definition rotation_script :: "string list \<Rightarrow> 'a \<Rightarrow> 'a \<Rightarrow> 'a" where
  "rotation_script argv bench_cli main = (if list_ex (starts_with ''--'') argv then bench_cli else main)"

section \<open>Ablation\<close>

definition abl_run_benchmark :: "bool \<Rightarrow> int \<times> json option option \<Rightarrow> json res" where
  "abl_run_benchmark built outcome =
     (if \<not> built then Raise FileNotFoundError
      else case outcome of (rc, out) \<Rightarrow>
        if rc \<noteq> 0 then Raise RuntimeError
        else case out of
          None \<Rightarrow> Raise ValueError
        | Some None \<Rightarrow> Raise ValueError
        | Some (Some r) \<Rightarrow> rbind (jget_opt r ''correctness_passed'') (\<lambda>p. if \<not> jtruthy p then Raise RuntimeError else Ret r))"

text \<open>\<^verbatim>\<open>f"{v:.6f}"\<close>, as the number it shows.\<close>

fun fmt6 :: "json \<Rightarrow> pyfloat res" where
  "fmt6 (JNum x) = Ret (py_round 6 x)"
| "fmt6 (JBool b) = Ret (Fin (if b then 1 else 0))"
| "fmt6 (JStr s) = Raise ValueError"
| "fmt6 _ = Raise TypeError"

record csv_row =
  cv_method :: string
  cv_rotations :: json
  cv_critical_path :: json
  cv_latency :: "pyfloat list"

definition ablation_csv_row :: "string \<Rightarrow> json \<Rightarrow> csv_row res" where
  "ablation_csv_row name r =
     rbind (jget r ''rotations'') (\<lambda>rot.
     rbind (jget r ''critical_path'') (\<lambda>cp.
     rbind (rmap (\<lambda>k. rbind (jpath r [''latency_us'', k]) fmt6) [''mean'', ''std'', ''p99'']) (\<lambda>lat.
     Ret \<lparr>cv_method = name, cv_rotations = rot, cv_critical_path = cp, cv_latency = lat\<rparr>)))"

definition ablation_details :: "bool \<Rightarrow> json \<Rightarrow> json \<Rightarrow> pyfloat \<Rightarrow> json res" where
  "ablation_details fast hoisted naive ratio =
     rbind (jfields naive [(''measure_rounds'', ''n''), (''warmup_rounds'', ''warmup'')]) (\<lambda>ns.
     rbind (rmap (\<lambda>(k, d, f). rbind (jget d f) (\<lambda>v. Ret (k, v)))
       [(''hoisted_rotations'', hoisted, ''rotations''), (''naive_rotations'', naive, ''rotations''),
        (''hoisted_critical_path'', hoisted, ''critical_path''), (''naive_critical_path'', naive, ''critical_path''),
        (''hoisted_galois_keygen_us'', hoisted, ''galois_keygen_us''), (''naive_galois_keygen_us'', naive, ''galois_keygen_us''),
        (''hoisted_correctness_max_abs_error'', hoisted, ''correctness_max_abs_error''),
        (''naive_correctness_max_abs_error'', naive, ''correctness_max_abs_error''),
        (''naive_latency_us'', naive, ''latency_us''), (''hoisted_latency_us'', hoisted, ''latency_us'')]) (\<lambda>kvs.
     Ret (JObj ([(''methodology'', JStr ''measured''), (''fast_ablation'', JBool fast)] @ ns @ kvs @ [(''naive_to_hoisted_ratio'', JNum ratio)]))))"

text \<open>The CSV file is written before the details (a file cut short by an error while writing it is not represented); \<open>bench\<close> gets whether the short run was asked for.\<close>

definition ablation_main :: "bool \<Rightarrow> (bool \<Rightarrow> string \<Rightarrow> int \<times> json option option) \<Rightarrow> string list \<Rightarrow> jfs \<Rightarrow> int res \<times> csv_row list option \<times> jfs" where
  "ablation_main built bench argv rep =
     (let fast = (''--fast-ablation'' \<in> set argv) in
      case rbind (abl_run_benchmark built (bench fast ''fold'')) (\<lambda>hoisted.
           rbind (abl_run_benchmark built (bench fast ''naive'')) (\<lambda>naive.
           rbind (jnum_at hoisted [''latency_us'', ''mean'']) (\<lambda>hm.
           rbind (jpath naive [''latency_us'', ''mean'']) (\<lambda>nv.
           rbind (if pf_gt hm (Fin 0) then rbind (jnum nv) (\<lambda>nm. py_div nm hm) else Ret (Fin 0)) (\<lambda>ratio.
           rbind (ablation_csv_row ''naive'' naive) (\<lambda>c1.
           rbind (ablation_csv_row ''hoisted'' hoisted) (\<lambda>c2. Ret (hoisted, naive, ratio, [c1, c2])))))))) of
        Inl e \<Rightarrow> (Inl e, None, rep)
      | Inr (hoisted, naive, ratio, csv) \<Rightarrow>
        (case ablation_details fast hoisted naive ratio of
           Inl e \<Rightarrow> (Inl e, Some csv, rep)
         | Inr j \<Rightarrow> (Ret 0, Some csv, save_json ABLATION j rep)))"

section \<open>Wire sizes and amortization\<close>

text \<open>\<open>probe\<close>: what \<^verbatim>\<open>wire_size_probe\<close> printed, parsed; a failing run raises.\<close>

definition wire_size_main :: "bool \<Rightarrow> json res \<Rightarrow> jfs \<Rightarrow> int res \<times> jfs" where
  "wire_size_main built probe rep =
     (if \<not> built then (Ret 1, rep)
      else case probe of
        Inl e \<Rightarrow> (Inl e, rep)
      | Inr ch \<Rightarrow> (Ret 0, save_json ''artifacts/wire_sizes.json'' (JObj [(''chains'', ch)]) rep))"

fun first_lane1 :: "json list \<Rightarrow> json res" where
  "first_lane1 [] = Raise StopIteration"
| "first_lane1 (row # rows) = rbind (jget row ''lanes'') (\<lambda>l. if l = JInt 1 then Ret row else first_lane1 rows)"

definition amort_row :: "json \<Rightarrow> json \<Rightarrow> json res" where
  "amort_row base row =
     rbind (jget row ''per_tx_us'') (\<lambda>per.
     rbind (jfields row (map (\<lambda>k. (k, k)) [''lanes'', ''n'', ''batch_latency_us''])) (\<lambda>kvs.
     rbind (jnum base) (\<lambda>b. rbind (jnum per) (\<lambda>p. rbind (py_div b p) (\<lambda>f.
     Ret (JObj (kvs @ [(''per_tx_us'', per), (''amortization_factor'', JNum f)])))))))"

definition amortization_main :: "jfs \<Rightarrow> int res \<times> jfs" where
  "amortization_main rep =
     (if rep THROUGHPUT = None then (Ret 1, rep)
      else case rbind (load_json rep THROUGHPUT) (\<lambda>tp.
           rbind (jget tp ''occupancy_sweep'') (\<lambda>sw.
           rbind (jiter sw) (\<lambda>rows.
           rbind (first_lane1 rows) (\<lambda>b.
           rbind (jget b ''per_tx_us'') (\<lambda>base.
           rbind (rmap (amort_row base) rows) (\<lambda>out.
           rbind (jget tp ''ppfd_grpc_threads'') (\<lambda>_. Ret out))))))) of
        Inl e \<Rightarrow> (Inl e, rep)
      | Inr out \<Rightarrow> (Ret 0, save_json ''artifacts/amortization_table.json'' (JObj [(''amortization'', JArr out)]) rep))"

section \<open>Bandwidth ladder\<close>

definition ladder_gate :: "(string \<Rightarrow> pyfloat res) \<Rightarrow> fs \<Rightarrow> jfs \<Rightarrow> unit res" where
  "ladder_gate parse fs rep =
     (case load_model_weights fs (Some ''artifacts/model_weights.bin'') of
        Inl e \<Rightarrow> Ret ()
      | Inr _ \<Rightarrow>
        if rep ''artifacts/errors.json'' = None then Ret ()
        else rbind (load_json rep ''artifacts/errors.json'') (\<lambda>err.
             rbind (jget_default err ''max_abs_error'' (JReal 1)) (\<lambda>v.
             rbind (jfloat parse v) (\<lambda>max_ae.
             if pf_ge max_ae (Fin (1 / 1000)) then Raise RuntimeError else Ret ()))))"

definition round4_div :: "json \<Rightarrow> json \<Rightarrow> json res" where
  "round4_div a b = rbind (jnum a) (\<lambda>x. rbind (jnum b) (\<lambda>y. rbind (py_div x y) (\<lambda>q. Ret (JNum (py_round 4 q)))))"

definition ladder_rungs :: "json \<Rightarrow> json \<Rightarrow> json \<Rightarrow> json \<Rightarrow> json res" where
  "ladder_rungs standard seeded latency hera =
     rbind (round4_div standard seeded) (\<lambda>x2.
     rbind (jnum latency) (\<lambda>lat.
     rbind (jget hera ''upload_symmetric_bytes'') (\<lambda>up.
     rbind (round4_div seeded up) (\<lambda>x3.
     rbind (jnum_at hera [''online_encrypt_mean_ms'']) (\<lambda>enc.
     let rung = (\<lambda>status bytes factor more. JObj ([(''status'', JStr status), (''payload_bytes'', bytes), (''expansion_factor_vs_seeded'', factor)] @ more));
         cpu = (''client_cpu_ms'', JNum (py_round 4 enc)); pend = (''server_cost_ms'', JStr ''PENDING'') in
     Ret (JObj
       [(''rung_1_seal_seeded'', rung ''MEASURED (size only) / NOT DEPLOYED'' seeded (JReal 1) []),
        (''rung_2_seal_160bit_standard'', rung ''MEASURED'' standard x2 [(''online_latency_ms'', JNum (py_round 4 (pf_mul lat (Fin (1 / 1000)))))]),
        (''rung_3_hhe_online_upload'', rung ''MEASURED (client-side) / PENDING (server-side)'' up x3 [cpu, pend]),
        (''rung_4_full_rtf'', rung ''PENDING'' up x3 [cpu, pend])]))))))"

definition ladder_main :: "(string \<Rightarrow> pyfloat res) \<Rightarrow> fs \<Rightarrow> jfs \<Rightarrow> unit res \<times> jfs" where
  "ladder_main parse fs rep =
     (case rbind (ladder_gate parse fs rep) (\<lambda>_.
           rbind (load_json rep ''artifacts/wire_sizes.json'') (\<lambda>ws.
           rbind (load_json rep ''artifacts/comparison_results.json'') (\<lambda>cmp.
           rbind (load_json rep (hera_path 1)) (\<lambda>hera.
           rbind (jpath ws [''chains'', ''160bit'']) (\<lambda>chain.
           rbind (jget chain ''standard_bytes'') (\<lambda>standard.
           rbind (jget chain ''seeded_bytes'') (\<lambda>seeded.
           rbind (jget_default cmp ''summary'' (JObj [])) (\<lambda>s.
           rbind (jget_opt s ''reduced_160bit'') (\<lambda>r0.
           rbind (if jtruthy r0 then Ret r0 else jget_opt cmp ''reduced_160bit'') (\<lambda>r160.
           rbind (jget r160 ''median_us'') (\<lambda>lat. ladder_rungs standard seeded lat hera))))))))))) of
        Inl e \<Rightarrow> (Inl e, rep)
      | Inr rungs \<Rightarrow> (Ret (), save_json ''artifacts/bandwidth_ladder.json'' (JObj [(''rungs'', rungs)]) rep))"

section \<open>What the matrix reads\<close>

lemma to_ms_Ret:
  assumes "to_ms f d = Ret ms"
  shows "\<exists>a b c e. ms = JObj [(''mean'', JNum (pf_mul a (Fin (1 / 1000)))), (''p50'', JNum (pf_mul b (Fin (1 / 1000)))),
      (''p95'', JNum (pf_mul c (Fin (1 / 1000)))), (''p99'', JNum (pf_mul e (Fin (1 / 1000))))]
    \<and> jnum_at d [f ''mean''] = Ret a \<and> jnum_at d [f ''p50''] = Ret b \<and> jnum_at d [f ''p95''] = Ret c \<and> jnum_at d [f ''p99''] = Ret e"
  using assms unfolding to_ms_def by (auto simp: rbind_Ret_iff jnum_at_def)

lemma scale_back: "pf_mul (pf_mul x (Fin (1 / 1000))) (Fin 1000) = x"
  by (cases x) auto

lemma scale_items_to_ms:
  assumes "to_ms f d = Ret ms"
  shows "\<exists>us. scale_items ms = Ret us \<and> (\<forall>k \<in> {''mean'', ''p50'', ''p95'', ''p99''}. \<exists>x. jnum_at d [f k] = Ret x \<and> jget us k = Ret (JNum x))"
  using to_ms_Ret [OF assms] by (auto simp: scale_back)

lemma local_row_fields:
  assumes "local_row name strategy extra r = Ret row"
  shows "jget row ''name'' = Ret (JStr name)"
    "jget row ''scope'' = Ret (JStr ''local circuit only: encrypt, multiply_plain, rescale, reduction, decrypt (no gRPC/serialization)'')"
    "\<exists>lat ms. jget r ''latency_us'' = Ret lat \<and> to_ms (\<lambda>k. k) lat = Ret ms \<and> jget row ''latency_ms'' = Ret ms"
    "\<exists>kvs a b c d. row = JObj kvs \<and> map_of kvs ''source'' = Some a \<and> map_of kvs ''rotations'' = Some b \<and> map_of kvs ''critical_path_steps'' = Some c
       \<and> map_of kvs ''n'' = Some d"
proof -
  obtain kvs lat ms cs where k: "jfields r [(''rotations'', ''rotations''), (''critical_path_steps'', ''critical_path''), (''galois_keys'', ''galois_keys''), (''n'', ''n'')] = Ret kvs"
    and l: "jget r ''latency_us'' = Ret lat" "to_ms (\<lambda>k. k) lat = Ret ms"
    and row: "row = JObj ([(''name'', JStr name), (''source'', JStr (''vendor_server/build/benchmark_160 --strategy='' @ strategy)),
                 (''scope'', JStr ''local circuit only: encrypt, multiply_plain, rescale, reduction, decrypt (no gRPC/serialization)'')]
                @ kvs @ [(''latency_ms'', ms)] @ cs @ extra)"
    using assms unfolding local_row_def by (auto simp: rbind_Ret_iff)
  obtain a b c d where kvs: "kvs = [(''rotations'', a), (''critical_path_steps'', b), (''galois_keys'', c), (''n'', d)]"
    using k by (auto simp: jfields_def rbind_Ret_iff)
  show "jget row ''name'' = Ret (JStr name)"
    "jget row ''scope'' = Ret (JStr ''local circuit only: encrypt, multiply_plain, rescale, reduction, decrypt (no gRPC/serialization)'')"
    "\<exists>lat ms. jget r ''latency_us'' = Ret lat \<and> to_ms (\<lambda>k. k) lat = Ret ms \<and> jget row ''latency_ms'' = Ret ms"
    "\<exists>kvs a b c d. row = JObj kvs \<and> map_of kvs ''source'' = Some a \<and> map_of kvs ''rotations'' = Some b \<and> map_of kvs ''critical_path_steps'' = Some c
       \<and> map_of kvs ''n'' = Some d"
    using l unfolding row kvs by simp_all
qed

lemma names_bsgs:
  "contains ''BSGS'' BSGS_NAME" "\<not> contains ''BSGS'' FOLD_NAME" "\<not> contains ''BSGS'' ''SEAL sequential fold (e2e gRPC, Phase 3)''"
  "contains ''local circuit'' ''local circuit only: encrypt, multiply_plain, rescale, reduction, decrypt (no gRPC/serialization)''"
  by (simp_all add: BSGS_NAME_def FOLD_NAME_def)

lemma jget_opt_total: "\<exists>v. jget_opt (JObj kvs) k = Ret v"
  by (cases "map_of kvs k") auto

lemma bsgs_cell_local:
  assumes "local_row BSGS_NAME strategy extra r = Ret row"
  shows "\<exists>c. find_bsgs (row # rest) = Ret c \<and> is_measured c \<and> (\<forall>k \<in> {''mean'', ''p50'', ''p95'', ''p99''}.
     \<exists>x. jnum_at r [''latency_us'', k] = Ret x \<and> jpath c [''latency_us'', k] = Ret (JNum x))"
proof -
  note f = local_row_fields [OF assms]
  obtain lat ms where lat: "jget r ''latency_us'' = Ret lat" "to_ms (\<lambda>k. k) lat = Ret ms" "jget row ''latency_ms'' = Ret ms" using f(3) by (elim exE conjE)
  obtain us where us: "scale_items ms = Ret us"
    "\<forall>k \<in> {''mean'', ''p50'', ''p95'', ''p99''}. \<exists>x. jnum_at lat [k] = Ret x \<and> jget us k = Ret (JNum x)"
    using scale_items_to_ms [OF lat(2)] by blast
  obtain kvs a b c d where kvs: "row = JObj kvs" "map_of kvs ''source'' = Some a" "map_of kvs ''rotations'' = Some b"
      "map_of kvs ''critical_path_steps'' = Some c" "map_of kvs ''n'' = Some d" using f(4) by (elim exE conjE)
  have b: "is_bsgs row = Ret True" unfolding is_bsgs_def f(1,2) rbind.simps jin.simps names_bsgs(1,4) by (simp add: names_bsgs(1))
  obtain err where err: "jget_opt row ''correctness_max_abs_error'' = Ret err" unfolding kvs(1) using jget_opt_total by blast
  obtain note' where nt: "jget_opt row ''note'' = Ret note'" unfolding kvs(1) using jget_opt_total by blast
  obtain cell where cell: "bsgs_cell row = Ret cell" "is_measured cell" "jget cell ''latency_us'' = Ret us"
  proof -
    have "\<exists>sc. map_of kvs ''scope'' = Some sc" using f(2) kvs(1) by (auto split: option.splits)
    then obtain sc where sc: "map_of kvs ''scope'' = Some sc" by blast
    have fl: "jfields row [(''source'', ''source''), (''scope'', ''scope''), (''rotations'', ''rotations''), (''critical_path_steps'', ''critical_path_steps'')]
      = Ret [(''source'', a), (''scope'', sc), (''rotations'', b), (''critical_path_steps'', c)]"
      by (simp add: jfields_def kvs sc)
    have n: "jget row ''n'' = Ret d" by (simp add: kvs)
    show thesis
      by (rule that [of "JObj ([(''status'', JStr ''MEASURED''), (''source'', a), (''scope'', sc), (''rotations'', b), (''critical_path_steps'', c),
          (''correctness_max_abs_error'', err), (''n'', d), (''latency_us'', us), (''note'', note')])"])
        (simp_all add: bsgs_cell_def fl err n lat(3) us(1) nt is_measured_def)
  qed
  have "\<exists>x. jnum_at r [''latency_us'', k] = Ret x \<and> jpath cell [''latency_us'', k] = Ret (JNum x)"
    if k: "k \<in> {''mean'', ''p50'', ''p95'', ''p99''}" for k
  proof -
    from us(2) k obtain x where x: "jnum_at lat [k] = Ret x" "jget us k = Ret (JNum x)" by blast
    have "jnum_at r [''latency_us'', k] = jnum_at lat [k]" by (simp only: jnum_at_def jpath.simps lat(1) rbind.simps)
    moreover have "jpath cell [''latency_us'', k] = Ret (JNum x)" by (simp only: jpath.simps cell(3) x(2) rbind.simps)
    ultimately show ?thesis using x(1) by (intro exI [of _ x]) simp_all
  qed
  with b cell show ?thesis by (simp del: jpath.simps)
qed

lemma find_bsgs_skip:
  assumes "jget row ''name'' = Ret (JStr nm)" "\<not> contains ''BSGS'' nm"
  shows "find_bsgs (row # rest) = find_bsgs rest"
  using assms by (simp add: is_bsgs_def)

lemma rot_run_benchmark_Ret:
  "rot_run_benchmark built out = Ret r \<Longrightarrow> out = Some (Some r) \<and> (\<exists>v. jget r ''correctness_passed'' = Ret v \<and> jtruthy v)"
  by (auto simp: rot_run_benchmark_def rbind_Ret_iff jget_default_eq_Ret jget_eq_Ret split: if_splits option.splits)

lemma abl_run_benchmark_Ret:
  "abl_run_benchmark built out = Ret r \<Longrightarrow> out = (0, Some (Some r)) \<and> (\<exists>v. jget r ''correctness_passed'' = Ret v \<and> jtruthy v)"
  by (cases r) (auto simp: abl_run_benchmark_def rbind_Ret_iff split: if_splits option.splits prod.splits)

lemma rotation_main_Ret:
  assumes "rotation_main built bench rep = (Ret (), rep')"
  shows "\<exists>f b. rot_run_benchmark built (bench ''fold'') = Ret f \<and> rot_run_benchmark built (bench ''bsgs'') = Ret b
    \<and> (\<exists>c. from_rotation_strategy_comparison rep' = Ret c \<and> is_measured c \<and> (\<forall>k \<in> {''mean'', ''p50'', ''p95'', ''p99''}.
         \<exists>x. jnum_at b [''latency_us'', k] = Ret x \<and> jpath c [''latency_us'', k] = Ret (JNum x)))"
proof -
  obtain rows where rows: "rotation_rows built bench rep = Ret rows"
    and rep': "rep' = save_json ROTATION (JObj [(''methodology_note'', JStr []), (''strategies'', JArr rows)]) rep"
    using assms by (auto simp: rotation_main_def split: sum.splits)
  obtain f b cmp fhe r1 r2 r3 r4 where g: "rot_run_benchmark built (bench ''fold'') = Ret f" "rot_run_benchmark built (bench ''bsgs'') = Ret b"
    and r1: "(case cmp of None \<Rightarrow> Ret [] | Some c \<Rightarrow> rbind (e2e_row c) (\<lambda>r. Ret [r])) = Ret r1"
    and r2: "local_row FOLD_NAME ''fold'' [] f = Ret r2"
    and r3: "local_row BSGS_NAME ''bsgs'' [(''note'', JStr ''more rotations on a shorter critical path'')] b = Ret r3"
    and eq: "rows = r1 @ [r2, r3] @ r4"
    using rows unfolding rotation_rows_def rbind_Ret_iff by blast
  obtain c where c: "find_bsgs (r3 # r4) = Ret c" "is_measured c" "\<forall>k \<in> {''mean'', ''p50'', ''p95'', ''p99''}.
     \<exists>x. jnum_at b [''latency_us'', k] = Ret x \<and> jpath c [''latency_us'', k] = Ret (JNum x)"
    using bsgs_cell_local [OF r3] by blast
  have "find_bsgs (r2 # r3 # r4) = Ret c"
    using find_bsgs_skip [OF local_row_fields(1) [OF r2] names_bsgs(2)] c(1) by simp
  moreover have "find_bsgs (r1 @ rest) = find_bsgs rest" for rest
  proof (cases cmp)
    case None
    with r1 show ?thesis by simp
  next
    case (Some d)
    with r1 obtain r where r: "e2e_row d = Ret r" "r1 = [r]" by (auto simp: rbind_Ret_iff)
    then have "jget r ''name'' = Ret (JStr ''SEAL sequential fold (e2e gRPC, Phase 3)'')" by (auto simp: e2e_row_def rbind_Ret_iff)
    from find_bsgs_skip [OF this names_bsgs(3)] r(2) show ?thesis by simp
  qed
  ultimately have "from_rotation_strategy_comparison rep' = Ret c"
    unfolding from_rotation_strategy_comparison_def rep' eq by (simp add: save_json_def load_json_def)
  with g c(2,3) show ?thesis by blast
qed

lemma ablation_main_Ret:
  assumes "ablation_main built bench argv rep = (Ret 0, csv, rep')"
  shows "\<exists>h n c1 c2 l1 l2. abl_run_benchmark built (bench (''--fast-ablation'' \<in> set argv) ''fold'') = Ret h
    \<and> abl_run_benchmark built (bench (''--fast-ablation'' \<in> set argv) ''naive'') = Ret n
    \<and> from_ablation_methodology rep' = Ret (c1, c2) \<and> jget h ''latency_us'' = Ret l1 \<and> jget n ''latency_us'' = Ret l2
    \<and> is_measured c1 \<and> jget c1 ''latency_us'' = Ret l1 \<and> is_measured c2 \<and> jget c2 ''latency_us'' = Ret l2
    \<and> (\<forall>p. p \<noteq> ABLATION \<longrightarrow> rep' p = rep p)"
proof -
  obtain h n ratio j where g: "abl_run_benchmark built (bench (''--fast-ablation'' \<in> set argv) ''fold'') = Ret h"
      "abl_run_benchmark built (bench (''--fast-ablation'' \<in> set argv) ''naive'') = Ret n"
    and j: "ablation_details (''--fast-ablation'' \<in> set argv) h n ratio = Ret j" and rep': "rep' = save_json ABLATION j rep"
    using assms by (auto simp: ablation_main_def Let_def rbind_Ret_iff split: sum.splits prod.splits)
  have "\<exists>c1 c2 l1 l2. ablation_cell j ''fold'' ''hoisted'' = Ret c1 \<and> ablation_cell j ''naive'' ''naive'' = Ret c2
    \<and> jget h ''latency_us'' = Ret l1 \<and> jget n ''latency_us'' = Ret l2
    \<and> is_measured c1 \<and> jget c1 ''latency_us'' = Ret l1 \<and> is_measured c2 \<and> jget c2 ''latency_us'' = Ret l2"
    using j unfolding ablation_details_def
    by (auto simp: rbind_Ret_iff jfields_def ablation_cell_def measured_cell_def is_measured_def simp del: jget_eq_Ret)
  then show ?thesis using g unfolding rep' from_ablation_methodology_def
    by (auto simp: save_json_def load_json_def simp del: jget_eq_Ret)
qed

text \<open>C20. The reports round-trip into the execution matrix. When the rotation comparison and then the ablation script finish, the
  runs behind them passed their correctness gates, and the matrix built from the files shows, for SEAL at 160 bits, exactly
  what the binary printed: the BSGS latencies come back in microseconds after having been written in milliseconds (over exact
  reals, whatever other rows the comparison has), and fold and naive carry the printed latency objects.\<close>

theorem reports_feed_matrix:
  assumes "rotation_main built bench rep = (Ret (), rep1)" and "ablation_main built' bench' argv rep1 = (Ret 0, csv, rep2)"
  shows "\<exists>b h n c1 c2 c3. bench ''bsgs'' = Some (Some b) \<and> bench' (''--fast-ablation'' \<in> set argv) ''fold'' = (0, Some (Some h))
    \<and> bench' (''--fast-ablation'' \<in> set argv) ''naive'' = (0, Some (Some n))
    \<and> (\<forall>r \<in> {b, h, n}. \<exists>v. jget r ''correctness_passed'' = Ret v \<and> jtruthy v)
    \<and> from_rotation_strategy_comparison rep2 = Ret c3 \<and> from_ablation_methodology rep2 = Ret (c1, c2)
    \<and> is_measured c1 \<and> is_measured c2 \<and> is_measured c3
    \<and> (\<forall>k \<in> {''mean'', ''p50'', ''p95'', ''p99''}. \<exists>x. jnum_at b [''latency_us'', k] = Ret x \<and> jpath c3 [''latency_us'', k] = Ret (JNum x))
    \<and> jget c1 ''latency_us'' = jget h ''latency_us'' \<and> jget c2 ''latency_us'' = jget n ''latency_us''"
proof -
  obtain f b c3 where g: "rot_run_benchmark built (bench ''bsgs'') = Ret b"
    and c3: "from_rotation_strategy_comparison rep1 = Ret c3" "is_measured c3" "\<forall>k \<in> {''mean'', ''p50'', ''p95'', ''p99''}.
         \<exists>x. jnum_at b [''latency_us'', k] = Ret x \<and> jpath c3 [''latency_us'', k] = Ret (JNum x)"
    using rotation_main_Ret [OF assms(1)] by (elim exE conjE)
  obtain h n c1 c2 l1 l2 where a: "abl_run_benchmark built' (bench' (''--fast-ablation'' \<in> set argv) ''fold'') = Ret h"
      "abl_run_benchmark built' (bench' (''--fast-ablation'' \<in> set argv) ''naive'') = Ret n"
    and c: "from_ablation_methodology rep2 = Ret (c1, c2)" "jget h ''latency_us'' = Ret l1" "jget n ''latency_us'' = Ret l2"
      "is_measured c1" "jget c1 ''latency_us'' = Ret l1" "is_measured c2" "jget c2 ''latency_us'' = Ret l2"
    and keep: "\<forall>p. p \<noteq> ABLATION \<longrightarrow> rep2 p = rep1 p"
    using ablation_main_Ret [OF assms(2)] by (elim exE conjE)
  have same: "rep2 ROTATION = rep1 ROTATION" using keep by (simp add: ROTATION_def ABLATION_def)
  have load: "load_json rep2 ROTATION = load_json rep1 ROTATION" by (simp add: load_json_def same)
  have c3': "from_rotation_strategy_comparison rep2 = Ret c3"
    using c3(1) unfolding from_rotation_strategy_comparison_def load same .
  have passed: "\<forall>r \<in> {b, h, n}. \<exists>v. jget r ''correctness_passed'' = Ret v \<and> jtruthy v"
    using rot_run_benchmark_Ret [OF g] abl_run_benchmark_Ret [OF a(1)] abl_run_benchmark_Ret [OF a(2)] by simp
  show ?thesis
    apply (rule exI [of _ b], rule exI [of _ h], rule exI [of _ n], rule exI [of _ c1], rule exI [of _ c2], rule exI [of _ c3], intro conjI)
    subgoal by (rule rot_run_benchmark_Ret [OF g, THEN conjunct1])
    subgoal by (rule abl_run_benchmark_Ret [OF a(1), THEN conjunct1])
    subgoal by (rule abl_run_benchmark_Ret [OF a(2), THEN conjunct1])
    subgoal by (fact passed)
    by (fact c3' c c3 | simp only: c)+
qed

definition demo_bench_out :: "real \<Rightarrow> json" where
  "demo_bench_out m = JObj [(''rotations'', JInt 30), (''critical_path'', JInt 2), (''galois_keys'', JInt 30), (''n'', JInt 100), (''warmup'', JInt 10),
     (''galois_keygen_us'', JReal 1), (''latency_us'', JObj (map (\<lambda>k. (k, JReal m)) [''mean'', ''std'', ''p50'', ''p95'', ''p99''])),
     (''correctness_max_abs_error'', JReal 0), (''correctness_passed'', JBool True)]"

theorem reports_feed_matrix_witness:
  "\<exists>rep1 csv rep2 c3. rotation_main True (\<lambda>_. Some (Some (demo_bench_out 8000))) Map.empty = (Ret (), rep1)
     \<and> ablation_main True (\<lambda>_ _. (0, Some (Some (demo_bench_out 5000)))) [''x''] rep1 = (Ret 0, csv, rep2)
     \<and> from_rotation_strategy_comparison rep2 = Ret c3 \<and> jpath c3 [''latency_us'', ''mean''] = Ret (JReal 8000)"
proof -
  obtain rep1 where r1: "rotation_main True (\<lambda>_. Some (Some (demo_bench_out 8000))) Map.empty = (Ret (), rep1)"
    by (simp add: rotation_main_def rotation_rows_def rot_run_benchmark_def demo_bench_out_def load_optional_def local_row_def jfields_def to_ms_def)
  obtain csv rep2 where r2: "ablation_main True (\<lambda>_ _. (0, Some (Some (demo_bench_out 5000)))) [''x''] rep1 = (Ret 0, csv, rep2)"
    by (simp add: ablation_main_def abl_run_benchmark_def demo_bench_out_def ablation_csv_row_def ablation_details_def jfields_def jnum_at_def Let_def)
  from reports_feed_matrix [OF r1 r2] obtain b c3 where b: "Some (Some (demo_bench_out 8000)) = Some (Some b)"
      and c3: "from_rotation_strategy_comparison rep2 = Ret c3"
      "\<forall>k \<in> {''mean'', ''p50'', ''p95'', ''p99''}. \<exists>x. jnum_at b [''latency_us'', k] = Ret x \<and> jpath c3 [''latency_us'', k] = Ret (JNum x)"
    by (elim exE conjE)
  from c3(2) obtain x where x: "jnum_at b [''latency_us'', ''mean''] = Ret x" "jpath c3 [''latency_us'', ''mean''] = Ret (JNum x)" by blast
  have "b = demo_bench_out 8000" using b by simp
  then have "x = Fin 8000" using x(1) by (simp add: jnum_at_def demo_bench_out_def)
  with r1 r2 c3(1) x(2) show ?thesis by (intro exI [of _ rep1] exI [of _ csv] exI [of _ rep2] exI [of _ c3]) simp
qed

section \<open>Expansion factors of the ladder\<close>

text \<open>The expansion factors of the bandwidth ladder do not share a reference. Whenever the ladder is written for a
  standard ciphertext larger than the seeded one and a symmetric upload smaller than it, every rung has a factor above one
  under the same name (up to the rounding), although the standard rung is larger and the symmetric ones are smaller: the
  factor of rung 2 multiplies the seeded size to give the payload, that of rungs 3 and 4 divides it.\<close>

theorem ladder_factors_inverted:
  assumes "ladder_main parse fs rep = (Ret (), rep')"
    and "load_json rep ''artifacts/wire_sizes.json'' = Ret ws"
      "jpath ws [''chains'', ''160bit'', ''standard_bytes''] = Ret (JReal d)" "jpath ws [''chains'', ''160bit'', ''seeded_bytes''] = Ret (JReal s)"
    and "load_json rep (hera_path 1) = Ret hera" "jget hera ''upload_symmetric_bytes'' = Ret (JReal u)" "0 < u" "u < s" "s < d"
  shows "\<exists>rungs f2 f3. load_json rep' ''artifacts/bandwidth_ladder.json'' = Ret (JObj [(''rungs'', rungs)])
    \<and> jpath rungs [''rung_2_seal_160bit_standard'', ''expansion_factor_vs_seeded''] = Ret (JReal f2)
    \<and> jpath rungs [''rung_2_seal_160bit_standard'', ''payload_bytes''] = Ret (JReal d) \<and> \<bar>f2 - d / s\<bar> \<le> 1 / 20000
    \<and> (\<forall>r \<in> {''rung_3_hhe_online_upload'', ''rung_4_full_rtf''}. jpath rungs [r, ''expansion_factor_vs_seeded''] = Ret (JReal f3)
         \<and> jpath rungs [r, ''payload_bytes''] = Ret (JReal u)) \<and> \<bar>f3 - s / u\<bar> \<le> 1 / 20000
    \<and> f2 > 1 - 1 / 20000 \<and> f3 > 1 - 1 / 20000"
proof -
  obtain standard seeded lat rungs chain where w: "jpath ws [''chains'', ''160bit''] = Ret chain" "jget chain ''standard_bytes'' = Ret standard"
      "jget chain ''seeded_bytes'' = Ret seeded"
    and r: "ladder_rungs standard seeded lat hera = Ret rungs"
    and rep': "rep' = save_json ''artifacts/bandwidth_ladder.json'' (JObj [(''rungs'', rungs)]) rep"
    using assms(1) unfolding ladder_main_def
    by (auto simp: rbind_Ret_iff assms(2,5) simp del: jpath.simps One_nat_def split: sum.splits)
  have sizes: "standard = JReal d" "seeded = JReal s"
    using w assms(3,4) by (auto simp: rbind_Ret_iff)
  have pos: "d / s > 1" "s / u > 1" "s \<noteq> 0" "u \<noteq> 0" using assms(7-9) by simp_all
  obtain f2 where f2: "py_round 4 (Fin (d / s)) = Fin f2" "\<bar>f2 - d / s\<bar> \<le> 1 / 20000"
    using py_round_near [of 4 "d / s"] by auto
  obtain f3 where f3: "py_round 4 (Fin (s / u)) = Fin f3" "\<bar>f3 - s / u\<bar> \<le> 1 / 20000"
    using py_round_near [of 4 "s / u"] by auto
  have rd: "round4_div (JReal d) (JReal s) = Ret (JReal f2)" "round4_div (JReal s) (JReal u) = Ret (JReal f3)"
    using pos(3,4) f2(1) f3(1) by (simp_all add: round4_div_def del: py_round.simps)
  obtain l e where rungs: "rungs = JObj
       [(''rung_1_seal_seeded'', JObj [(''status'', JStr ''MEASURED (size only) / NOT DEPLOYED''), (''payload_bytes'', JReal s), (''expansion_factor_vs_seeded'', JReal 1)]),
        (''rung_2_seal_160bit_standard'', JObj [(''status'', JStr ''MEASURED''), (''payload_bytes'', JReal d), (''expansion_factor_vs_seeded'', JReal f2), l]),
        (''rung_3_hhe_online_upload'', JObj [(''status'', JStr ''MEASURED (client-side) / PENDING (server-side)''), (''payload_bytes'', JReal u), (''expansion_factor_vs_seeded'', JReal f3), e, (''server_cost_ms'', JStr ''PENDING'')]),
        (''rung_4_full_rtf'', JObj [(''status'', JStr ''PENDING''), (''payload_bytes'', JReal u), (''expansion_factor_vs_seeded'', JReal f3), e, (''server_cost_ms'', JStr ''PENDING'')])]"
    using r unfolding ladder_rungs_def sizes rd by (auto simp: rbind_Ret_iff rd assms(6) Let_def simp del: py_round.simps jget.simps)
  have "f2 > 1 - 1 / 20000" "f3 > 1 - 1 / 20000" using f2(2) f3(2) pos by linarith+
  then show ?thesis
    using f2(2) f3(2) unfolding rep'
    by (intro exI [of _ rungs] exI [of _ f2] exI [of _ f3]) (simp add: rungs)
qed

definition demo_ladder_fs :: jfs where
  "demo_ladder_fs = [''artifacts/wire_sizes.json'' \<mapsto> Some (JObj [(''chains'', JObj [(''160bit'',
       JObj [(''seeded_bytes'', JReal 131266), (''standard_bytes'', JReal 262257)])])]),
     ''artifacts/comparison_results.json'' \<mapsto> Some (JObj [(''summary'', JObj [(''reduced_160bit'', JObj [(''median_us'', JReal 9000)])])]),
     hera_path 1 \<mapsto> Some (JObj [(''upload_symmetric_bytes'', JReal 1052), (''online_encrypt_mean_ms'', JReal 2)])]"

lemma demo_ladder_loads:
  "load_json demo_ladder_fs ''artifacts/wire_sizes.json'' = Ret (JObj [(''chains'', JObj [(''160bit'',
       JObj [(''seeded_bytes'', JReal 131266), (''standard_bytes'', JReal 262257)])])])"
  "load_json demo_ladder_fs ''artifacts/comparison_results.json'' = Ret (JObj [(''summary'', JObj [(''reduced_160bit'', JObj [(''median_us'', JReal 9000)])])])"
  "load_json demo_ladder_fs (hera_path 1) = Ret (JObj [(''upload_symmetric_bytes'', JReal 1052), (''online_encrypt_mean_ms'', JReal 2)])"
  by (simp_all add: demo_ladder_fs_def load_json_def hera_path_def)

theorem ladder_factors_inverted_witness:
  "\<exists>rep' rungs f2 f3. ladder_main (\<lambda>_. Raise ValueError) Map.empty demo_ladder_fs = (Ret (), rep')
     \<and> load_json rep' ''artifacts/bandwidth_ladder.json'' = Ret (JObj [(''rungs'', rungs)])
     \<and> jpath rungs [''rung_2_seal_160bit_standard'', ''expansion_factor_vs_seeded''] = Ret (JReal f2) \<and> f2 > 1 - 1 / 20000
     \<and> jpath rungs [''rung_4_full_rtf'', ''expansion_factor_vs_seeded''] = Ret (JReal f3) \<and> f3 > 1 - 1 / 20000"
proof -
  have gate: "ladder_gate (\<lambda>_. Raise ValueError) Map.empty demo_ladder_fs = Ret ()"
    by (simp add: ladder_gate_def demo_ladder_fs_def hera_path_def split: sum.splits)
  obtain rep' where run: "ladder_main (\<lambda>_. Raise ValueError) Map.empty demo_ladder_fs = (Ret (), rep')"
    unfolding ladder_main_def gate demo_ladder_loads
    by (simp add: ladder_rungs_def round4_div_def jnum_at_def Let_def del: py_round.simps)
  show ?thesis
    using ladder_factors_inverted [OF run demo_ladder_loads(1) _ _ demo_ladder_loads(3), of 262257 131266 1052] run
    by (simp del: py_round.simps) blast
qed

end
