(* ===== verification/Tables.thy ===== *)
theory Tables
  imports ReportGen Governor Breakeven CnpBench
begin

text \<open>
  What the reports print: the strategy table of \<^verbatim>\<open>scripts/rotation_strategy_comparison.py\<close>, the tables of
  \<^verbatim>\<open>scripts/c3_client_server_comparison.py\<close>, the row table of \<^verbatim>\<open>scripts/cnp_bench.py\<close>, and the summary and the heat-map
  labels of \<^verbatim>\<open>scripts/hhe_breakeven.py\<close>. Printing is the list of lines. How Python renders a single value (\<^verbatim>\<open>str\<close>, a number of
  decimals, an exponent) is an argument; padding, column widths, missing keys and the types a format accepts are the code's.
\<close>

section \<open>Formats\<close>

definition ljust :: "nat \<Rightarrow> string \<Rightarrow> string" where
  "ljust w s = s @ replicate (w - length s) CHR '' ''"

definition rjust :: "nat \<Rightarrow> string \<Rightarrow> string" where
  "rjust w s = replicate (w - length s) CHR '' '' @ s"

text \<open>\<open>nf_str\<close> is \<^verbatim>\<open>str\<close> of a value that is no string, \<open>nf_cell\<close> three decimals for a float and \<^verbatim>\<open>str\<close> otherwise.\<close>

record numfmt =
  nf_str :: "json \<Rightarrow> string"
  nf_cell :: "json \<Rightarrow> string"
  nf_fixed :: "nat \<Rightarrow> pyfloat \<Rightarrow> string"
  nf_exp :: "nat \<Rightarrow> pyfloat \<Rightarrow> string"

fun text_of :: "numfmt \<Rightarrow> json \<Rightarrow> string" where
  "text_of F (JStr s) = s"
| "text_of F j = nf_str F j"

text \<open>\<^verbatim>\<open>f"{v:>w}"\<close> and \<^verbatim>\<open>f"{v:w}"\<close>: only strings, numbers and truth values (as numbers) take a width.\<close>

fun fmt_right :: "numfmt \<Rightarrow> nat \<Rightarrow> json \<Rightarrow> string res" where
  "fmt_right F w (JStr s) = Ret (rjust w s)"
| "fmt_right F w (JNum x) = Ret (rjust w (nf_str F (JNum x)))"
| "fmt_right F w (JBool b) = Ret (rjust w (if b then ''1'' else ''0''))"
| "fmt_right F w _ = Raise TypeError"

fun fmt_default :: "numfmt \<Rightarrow> nat \<Rightarrow> json \<Rightarrow> string res" where
  "fmt_default F w (JStr s) = Ret (ljust w s)"
| "fmt_default F w j = fmt_right F w j"

text \<open>\<^verbatim>\<open>f"{v:>w.df}"\<close> and \<^verbatim>\<open>f"{v:>w.de}"\<close>, by the rendering \<open>f\<close>; a string has no such format.\<close>

fun fmt_float :: "(pyfloat \<Rightarrow> string) \<Rightarrow> nat \<Rightarrow> json \<Rightarrow> string res" where
  "fmt_float f w (JNum x) = Ret (rjust w (f x))"
| "fmt_float f w (JBool b) = Ret (rjust w (f (Fin (if b then 1 else 0))))"
| "fmt_float f w (JStr s) = Raise ValueError"
| "fmt_float f w _ = Raise TypeError"

lemma length_just [simp]: "length (ljust w s) = max w (length s)" "length (rjust w s) = max w (length s)"
  by (simp_all add: ljust_def rjust_def)

lemma length_join_with: "length (join_with sep xs) = sum_list (map length xs) + length sep * (length xs - 1)"
  by (induction sep xs rule: join_with.induct) (auto simp: algebra_simps)

text \<open>Lines padded to the column widths have one length.\<close>

lemma length_padded:
  assumes "list_all2 (\<lambda>w c. length c \<le> w) ws cs"
  shows "length (join_with sep (map2 ljust ws cs)) = sum_list ws + length sep * (length ws - 1)"
proof -
  from assms have "map (length \<circ> (\<lambda>(w, c). ljust w c)) (zip ws cs) = ws"
    by (induction rule: list_all2_induct) auto
  with list_all2_lengthD [OF assms] show ?thesis by (simp add: length_join_with)
qed

text \<open>The width of column \<open>i\<close>: the longest of its entries.\<close>

definition col_width :: "string list list \<Rightarrow> nat \<Rightarrow> nat" where
  "col_width rows i = fold max (map (\<lambda>r. length (r ! i)) rows) 0"

lemma fold_max_ge: "x \<in> set xs \<Longrightarrow> x \<le> fold max xs (m :: nat)" "m \<le> fold max xs (m :: nat)"
  by (induction xs arbitrary: m) (auto intro: order_trans [OF max.cobounded1] order_trans [OF max.cobounded2])

lemma col_width_ge: "r \<in> set rows \<Longrightarrow> length (r ! i) \<le> col_width rows i"
  unfolding col_width_def by (rule fold_max_ge) auto

lemma widths_fit:
  assumes "r \<in> set rows" "length r = n"
  shows "list_all2 (\<lambda>w c. length c \<le> w) (map (col_width rows) [0..<n]) r"
  using assms col_width_ge by (auto simp: list_all2_conv_all_nth)

section \<open>The strategy table\<close>

definition STRATEGY_HEADERS :: "string list" where
  "STRATEGY_HEADERS = [''Strategy'', ''Rotations'', ''Critical Path'', ''Latency (ms)'', ''p99 (ms)'', ''Galois Keys'']"

text \<open>The cells of a strategy, its name as found.\<close>

definition strategy_cells :: "numfmt \<Rightarrow> json \<Rightarrow> (json \<times> string list) res" where
  "strategy_cells F s =
     rbind (jget_default s ''latency_ms'' (JObj [])) (\<lambda>lat.
     rbind (jget_default lat ''mean'' (JStr ''PENDING'')) (\<lambda>mean.
     rbind (jget_default lat ''p99'' (JStr ''PENDING'')) (\<lambda>p99.
     rbind (jget s ''name'') (\<lambda>name.
     rbind (rmap (jget s) [''rotations'', ''critical_path_steps'', ''galois_keys'']) (\<lambda>vs.
     let cell = (\<lambda>v. case v of JStr t \<Rightarrow> t | _ \<Rightarrow> nf_cell F v) in
     Ret (name, [cell (vs ! 0), cell (vs ! 1), cell mean, cell p99, cell (vs ! 2)]))))))"

text \<open>A name is measured and padded: only a string can be.\<close>

fun name_text :: "json \<Rightarrow> string res" where
  "name_text (JStr s) = Ret s"
| "name_text (JArr xs) = Raise AttributeError"
| "name_text (JObj kvs) = Raise AttributeError"
| "name_text _ = Raise TypeError"

definition bar_line :: "nat list \<Rightarrow> string list \<Rightarrow> string" where
  "bar_line widths cells = ''| '' @ join_with '' | '' (map2 ljust widths cells) @ '' |''"

definition bar_rule :: "nat list \<Rightarrow> string" where
  "bar_rule widths = ''|-'' @ join_with ''-|-'' (map (\<lambda>w. replicate w CHR ''-'') widths) @ ''-|''"

definition bar_table :: "string list \<Rightarrow> string list list \<Rightarrow> string list" where
  "bar_table headers rows =
     (let widths = map (col_width (headers # rows)) [0..<length headers] in
      [bar_line widths headers, bar_rule widths] @ map (bar_line widths) rows)"

definition note_lines :: "numfmt \<Rightarrow> json \<Rightarrow> string list" where
  "note_lines F s =
     (case s of
        JObj kvs \<Rightarrow> (case map_of kvs ''note'' of
            None \<Rightarrow> []
          | Some n \<Rightarrow> [''* '' @ (case map_of kvs ''name'' of None \<Rightarrow> [] | Some m \<Rightarrow> text_of F m) @ '':'', ''  '' @ text_of F n, []])
      | _ \<Rightarrow> [])"

text \<open>Without a strategy there is no maximum to take.\<close>

definition print_strategies :: "numfmt \<Rightarrow> json list \<Rightarrow> string list res" where
  "print_strategies F strategies =
     rbind (rmap (strategy_cells F) strategies) (\<lambda>cells.
     if cells = [] then Raise TypeError
     else rbind (rmap (name_text \<circ> fst) cells) (\<lambda>names.
     Ret ([[]] @ bar_table STRATEGY_HEADERS (map2 (\<lambda>n c. n # snd c) names cells) @ [[]] @ concat (map (note_lines F) strategies))))"

lemma bar_table_aligned:
  assumes "headers \<noteq> []" "\<And>r. r \<in> set rows \<Longrightarrow> length r = length headers" "l \<in> set (bar_table headers rows)"
  shows "length l = sum_list (map (col_width (headers # rows)) [0..<length headers]) + 3 * length headers + 1"
proof -
  let ?ws = "map (col_width (headers # rows)) [0..<length headers]"
  have line: "length (bar_line ?ws r) = sum_list ?ws + 3 * length headers + 1" if "r \<in> set (headers # rows)" for r
  proof -
    from that assms(2) have "length r = length headers" by auto
    then show ?thesis
      using length_padded [OF widths_fit [OF that], of "length headers" "'' | ''"] assms(1)
      by (cases headers) (simp_all add: bar_line_def)
  qed
  have "length (bar_rule ?ws) = sum_list ?ws + 3 * length headers + 1"
    using assms(1) by (cases headers) (simp_all add: bar_rule_def length_join_with comp_def)
  with line assms(3) show ?thesis unfolding bar_table_def Let_def by auto
qed

text \<open>Every list of strategies the comparison builds can be printed.\<close>

definition prints_as :: "numfmt \<Rightarrow> json \<Rightarrow> bool" where
  "prints_as F s \<longleftrightarrow> (\<exists>n cs. strategy_cells F s = Ret (JStr n, cs) \<and> length cs = 5)"

lemma prints_asI:
  assumes "map_of kvs ''name'' = Some (JStr n)" "\<exists>l. map_of kvs ''latency_ms'' = Some (JObj l)"
    and "list_all (\<lambda>k. map_of kvs k \<noteq> None) [''rotations'', ''critical_path_steps'', ''galois_keys'']"
  shows "prints_as F (JObj kvs)"
  using assms by (auto simp: prints_as_def strategy_cells_def Let_def split: option.split)

lemma to_ms_object: "to_ms f d = Ret j \<Longrightarrow> \<exists>l. j = JObj l"
  by (auto simp: to_ms_def rbind_Ret_iff)

lemma jfields_map_of: "jfields r ks = Ret kvs \<Longrightarrow> map fst kvs = map fst ks"
  by (induction ks arbitrary: kvs) (auto simp: jfields_def rbind_Ret_iff res_simps)

lemma e2e_row_prints: "e2e_row c = Ret r \<Longrightarrow> prints_as F r"
  by (auto simp: e2e_row_def rbind_Ret_iff dest!: to_ms_object intro!: prints_asI)

lemma local_row_prints: "local_row nm st ex d = Ret r \<Longrightarrow> prints_as F r"
  by (auto simp: local_row_def rbind_Ret_iff jfields_def res_simps dest!: to_ms_object intro!: prints_asI)

lemma openfhe_row_prints: "openfhe_row d = Ret r \<Longrightarrow> prints_as F r"
  by (auto simp: openfhe_row_def rbind_Ret_iff Let_def split: if_splits dest!: to_ms_object intro!: prints_asI)

lemma print_strategies_ok:
  assumes "ss \<noteq> []" "list_all (prints_as F) ss"
  shows "\<exists>ls. print_strategies F ss = Ret ls"
proof -
  have "\<exists>cells names. rmap (strategy_cells F) ss = Ret cells \<and> rmap (name_text \<circ> fst) cells = Ret names"
    using assms(2) by (induction ss) (auto simp: prints_as_def simp del: rmap_Ret_iff)
  then obtain cells names where "rmap (strategy_cells F) ss = Ret cells" "rmap (name_text \<circ> fst) cells = Ret names" by blast
  moreover from this(1) assms(1) have "cells \<noteq> []" by (auto simp: rmap_Ret_iff)
  ultimately show ?thesis by (simp add: print_strategies_def)
qed

lemma rotation_rows_print:
  assumes "rotation_rows built bench rep = Ret rows"
  shows "\<exists>ls. print_strategies F rows = Ret ls"
proof -
  have "rows \<noteq> [] \<and> list_all (prints_as F) rows"
    using assms by (auto simp: rotation_rows_def rbind_Ret_iff split: option.splits
        dest!: local_row_prints [where F = F] e2e_row_prints [where F = F] openfhe_row_prints [where F = F])
  then show ?thesis using print_strategies_ok by blast
qed

section \<open>The tables of the client/server comparison\<close>

text \<open>\<^verbatim>\<open>_print_table\<close>: the columns are the keys of the first row.\<close>

definition row_texts :: "numfmt \<Rightarrow> string list \<Rightarrow> json \<Rightarrow> string list res" where
  "row_texts F cols r = rmap (\<lambda>c. rbind (jget_default r c (JStr [])) (\<lambda>v. Ret (text_of F v))) cols"

definition padded_table :: "string list \<Rightarrow> string list list \<Rightarrow> string list" where
  "padded_table cols texts =
     (let widths = map (col_width (cols # texts)) [0..<length cols] in
      [join_with ''  '' (map2 ljust widths cols), join_with ''  '' (map (\<lambda>w. replicate w CHR ''-'') widths)]
      @ map (\<lambda>t. join_with ''  '' (map2 ljust widths t)) texts)"

definition print_rows :: "numfmt \<Rightarrow> string \<Rightarrow> json list \<Rightarrow> string list res" where
  "print_rows F title rows =
     (let head = [[], title, replicate (length title) CHR ''-''] in
      case rows of
        [] \<Rightarrow> Ret (head @ [''  (no rows)''])
      | r # _ \<Rightarrow>
        (case r of
           JObj kvs \<Rightarrow> rbind (rmap (row_texts F (map fst kvs)) rows) (\<lambda>texts. Ret (head @ padded_table (map fst kvs) texts))
         | _ \<Rightarrow> Raise AttributeError))"

lemma padded_table_aligned:
  assumes "\<And>t. t \<in> set texts \<Longrightarrow> length t = length cols" "l \<in> set (padded_table cols texts)"
  shows "length l = sum_list (map (col_width (cols # texts)) [0..<length cols]) + 2 * (length cols - 1)"
proof -
  let ?ws = "map (col_width (cols # texts)) [0..<length cols]"
  have "length (join_with ''  '' (map2 ljust ?ws t)) = sum_list ?ws + 2 * (length cols - 1)" if "t \<in> set (cols # texts)" for t
    using length_padded [OF widths_fit [OF that], of "length cols" "''  ''"] that assms(1) by auto
  moreover have "length (join_with ''  '' (map (\<lambda>w. replicate w CHR ''-'') ?ws)) = sum_list ?ws + 2 * (length cols - 1)"
    by (simp add: length_join_with comp_def)
  ultimately show ?thesis using assms(2) unfolding padded_table_def Let_def by auto
qed

lemma rmap_in_set: "rmap f xs = Ret ys \<Longrightarrow> y \<in> set ys \<Longrightarrow> \<exists>x \<in> set xs. f x = Ret y"
  by (fastforce simp: rmap_Ret_iff list_all2_conv_all_nth in_set_conv_nth)

lemma row_texts_length: "row_texts F cols r = Ret t \<Longrightarrow> length t = length cols"
  by (auto simp: row_texts_def rmap_Ret_iff dest: list_all2_lengthD)

text \<open>Below the title, the lines of a table have one length, and there are two more than rows.\<close>

lemma print_rows_aligned:
  assumes "print_rows F title (JObj kvs # rs) = Ret ls"
  shows "\<exists>w. list_all (\<lambda>l. length l = w) (drop 3 ls)" "length ls = length rs + 6"
proof -
  obtain texts where t: "rmap (row_texts F (map fst kvs)) (JObj kvs # rs) = Ret texts"
    and ls: "ls = [[], title, replicate (length title) CHR ''-''] @ padded_table (map fst kvs) texts"
    using assms by (auto simp: print_rows_def rbind_Ret_iff simp del: rmap.simps rmap_Ret_iff)
  have "length texts = Suc (length rs)" using t by (auto simp: rmap_Ret_iff dest: list_all2_lengthD simp del: rmap.simps)
  then show "length ls = length rs + 6" by (simp add: ls padded_table_def Let_def)
  have "length t = length (map fst kvs)" if "t \<in> set texts" for t
    using rmap_in_set [OF t that] row_texts_length by blast
  from padded_table_aligned [OF this]
  show "\<exists>w. list_all (\<lambda>l. length l = w) (drop 3 ls)" unfolding ls list_all_iff by auto
qed

text \<open>What \<^verbatim>\<open>main\<close> prints after building the tables.\<close>

definition c3_banner :: "string \<Rightarrow> string list" where
  "c3_banner label =
     [replicate 70 CHR ''='']
     @ (if label = ''baseline_powersave''
        then [''PLUMBING -- powersave, NOT a thesis verdict.'', ''These numbers are governor-sensitive and not valid for citation.'',
              ''Re-run with --snapshot performance after the governor harness pass.'']
        else [''C3 comparison tables -- snapshot: '' @ label, ''This script does not state which thesis the data supports.'',
              ''That call is made separately, by a human, after reviewing these tables.''])
     @ [replicate 70 CHR ''='']"

definition c3_printed :: "numfmt \<Rightarrow> string \<Rightarrow> json list \<Rightarrow> json list \<Rightarrow> json list \<Rightarrow> string list res" where
  "c3_printed F label ta tb tc =
     rbind (print_rows F ''(a) Single-request: client encode+encrypt vs server inference (per chain)'' ta) (\<lambda>la.
     rbind (print_rows F ''(b) Amortized-at-occupancy: fixed client encrypt vs amortized server compute (160-bit)'' tb) (\<lambda>lb.
     rbind (print_rows F ''(c) Lane-for-lane: CKKS client encrypt vs HERA-16 client encrypt (160-bit CKKS chain)'' tc) (\<lambda>lc.
     Ret (c3_banner label @ la @ lb @ lc))))"

lemma print_rows_ok:
  assumes "list_all (\<lambda>r. \<exists>kvs. r = JObj kvs) rows"
  shows "\<exists>ls. print_rows F title rows = Ret ls"
proof (cases rows)
  case (Cons r rs)
  have "\<exists>ts. rmap (row_texts F cols) xs = Ret ts" if "list_all (\<lambda>r. \<exists>kvs. r = JObj kvs) xs" for cols xs
    using that
  proof (induction xs)
    case (Cons x xs)
    have "\<exists>t. row_texts F cols x = Ret t" using Cons.prems unfolding row_texts_def by (induction cols) (auto split: option.split)
    with Cons show ?case by auto
  qed simp
  from this [OF assms] have ts: "\<exists>ts. rmap (row_texts F cols) rows = Ret ts" for cols .
  from assms Cons obtain kvs where "r = JObj kvs" by auto
  with ts [of "map fst kvs"] show ?thesis by (auto simp: print_rows_def Cons simp del: rmap.simps rmap_Ret_iff)
qed (simp add: print_rows_def)

lemma c3_tables_print:
  assumes "table_a e2e = Ret ta" "table_b e2e amort = Ret tb" "table_c e2e fs label = Ret tc"
  shows "\<exists>ls. c3_printed F label ta tb tc = Ret ls"
proof -
  have "list_all (\<lambda>r. \<exists>kvs. r = JObj kvs) ta"
    using rmap_in_set [OF assms(1) [unfolded table_a_def]] by (fastforce simp: list_all_iff table_a_row_def rbind_Ret_iff)
  moreover have "list_all (\<lambda>r. \<exists>kvs. r = JObj kvs) tb"
  proof -
    obtain cu a where body: "(case a of JArr rows \<Rightarrow> rbind (rmap (table_b_row cu rows) [1, 4, 8, 16]) (\<lambda>rs. Ret (concat rs))
        | _ \<Rightarrow> Raise TypeError) = Ret tb"
      using assms(2) unfolding table_b_def rbind_Ret_iff by blast
    then obtain rows where a: "a = JArr rows" by (cases a) simp_all
    with body obtain rs where rs: "rmap (table_b_row cu rows) [1, 4, 8, 16] = Ret rs" and tb: "tb = concat rs"
      unfolding a json.case rbind_Ret_iff by auto
    have "list_all (\<lambda>r. \<exists>kvs. r = JObj kvs) r" if "table_b_row cu rows l = Ret r" for l r
      using that by (auto simp: table_b_row_def rbind_Ret_iff split: option.splits)
    with rmap_in_set [OF rs] show ?thesis by (fastforce simp: tb list_all_iff)
  qed
  moreover have "list_all (\<lambda>r. \<exists>kvs. r = JObj kvs) tc"
  proof -
    obtain cu where tc: "rmap (table_c_row cu fs label) HERA_LANES = Ret tc"
      using assms(3) by (auto simp: table_c_def rbind_Ret_iff simp del: rmap.simps rmap_Ret_iff)
    have "\<exists>kvs. r = JObj kvs" if "table_c_row cu fs label l = Ret r" for l r
      using that by (auto simp: table_c_row_def rbind_Ret_iff Let_def split: if_splits)
    with rmap_in_set [OF tc] show ?thesis by (fastforce simp: list_all_iff)
  qed
  ultimately obtain la lb lc where "print_rows F ''(a) Single-request: client encode+encrypt vs server inference (per chain)'' ta = Ret la"
      "print_rows F ''(b) Amortized-at-occupancy: fixed client encrypt vs amortized server compute (160-bit)'' tb = Ret lb"
      "print_rows F ''(c) Lane-for-lane: CKKS client encrypt vs HERA-16 client encrypt (160-bit CKKS chain)'' tc = Ret lc"
    using print_rows_ok by meson
  then show ?thesis by (simp add: c3_printed_def)
qed

section \<open>The break-even summary and the labels of the map\<close>

text \<open>\<^verbatim>\<open>f"{n:,}"\<close>.\<close>

fun commas :: "nat \<Rightarrow> string" where
  "commas n =
     (if n < 1000 then py_str n
      else commas (n div 1000) @ '','' @ replicate (3 - length (py_str (n mod 1000))) CHR ''0'' @ py_str (n mod 1000))"

declare commas.simps [simp del]

text \<open>Sorting by a tuple is sorting by its last part first, since sorting is stable.\<close>

definition summary_cells :: "be_cell list \<Rightarrow> be_cell list" where
  "summary_cells cells =
     filter (\<lambda>c. c_depth c = 1) (sort_key c_depth (sort_key c_bandwidth (sort_key c_lanes cells)))"

definition summary_line :: "numfmt \<Rightarrow> be_cell \<Rightarrow> string" where
  "summary_line F c =
     join_with '' '' [rjust 12 (commas (c_bandwidth c)), rjust 6 (py_str (c_lanes c)), rjust 14 (nf_fixed F 2 (ck_total_ms c)),
       rjust 16 (case c_headroom_ms c of None \<Rightarrow> ''PENDING'' | Some h \<Rightarrow> nf_str F (JNum h)),
       rjust 10 (case c_winner c of None \<Rightarrow> ''PENDING'' | Some w \<Rightarrow> w)]"

definition breakeven_summary :: "numfmt \<Rightarrow> be_cell list \<Rightarrow> string list" where
  "breakeven_summary F cells =
     [[], ''=== Break-even map summary (depth=1) ==='',
      join_with '' '' [rjust 12 ''BW (kbps)'', rjust 6 ''Lanes'', rjust 14 ''CKKS total ms'', rjust 16 ''HHE headroom ms'', rjust 10 ''Winner''],
      replicate 65 CHR ''-'']
     @ map (summary_line F) (summary_cells cells)"

text \<open>Text and colour of an entry of the heat map, and the labels at their positions (column, row).\<close>

definition heat_label :: "numfmt \<Rightarrow> pyfloat \<Rightarrow> string \<times> string" where
  "heat_label F v =
     (if v = NaN then (''PEND'', ''gray'')
      else (nf_fixed F 1 v @ '' ms'', if pf_lt (pf_abs v) (Fin 200) then ''black'' else ''white''))"

definition heat_labels :: "numfmt \<Rightarrow> pyfloat list list \<Rightarrow> (nat \<times> nat \<times> string \<times> string) list" where
  "heat_labels F m = concat (map (\<lambda>i. map (\<lambda>j. (j, i, heat_label F (m ! i ! j))) [0..<length (m ! i)]) [0..<length m])"

lemma map_insort_key: "map k (insort_key (\<lambda>x. g (k x)) x xs) = insort_key g (k x) (map k xs)"
  by (induction xs) auto

lemma map_sort_key: "map k (sort_key (\<lambda>x. g (k x)) xs) = sort_key g (map k xs)"
  by (induction xs) (simp_all add: map_insort_key)

text \<open>The summary has the twelve cells of depth 1, by bandwidth and then by lane count.\<close>

lemma summary_order:
  assumes "map cell_key cells = List.product DEPTHS (List.product LANES BANDWIDTHS)"
  shows "map (\<lambda>c. (c_bandwidth c, c_lanes c)) (summary_cells cells) = List.product BANDWIDTHS LANES"
proof -
  have k: "c_depth = (\<lambda>c. fst (cell_key c))" "c_lanes = (\<lambda>c. fst (snd (cell_key c)))" "c_bandwidth = (\<lambda>c. snd (snd (cell_key c)))"
    by (auto simp: cell_key_def)
  have "map cell_key (summary_cells cells) =
      filter (\<lambda>t. fst t = 1) (sort_key fst (sort_key (\<lambda>t. snd (snd t)) (sort_key (\<lambda>t. fst (snd t)) (map cell_key cells))))"
    unfolding summary_cells_def k by (simp add: filter_map comp_def flip: map_sort_key)
  also have "\<dots> = [(1, 1, 1000), (1, 4, 1000), (1, 8, 1000), (1, 16, 1000), (1, 1, 10000), (1, 4, 10000), (1, 8, 10000), (1, 16, 10000),
      (1, 1, 100000), (1, 4, 100000), (1, 8, 100000), (1, 16, 100000)]"
    unfolding assms by (simp add: DEPTHS_def LANES_def BANDWIDTHS_def)
  finally have "map (\<lambda>t. (snd (snd t), fst (snd t))) (map cell_key (summary_cells cells)) = List.product BANDWIDTHS LANES"
    by (simp only: BANDWIDTHS_def LANES_def) simp
  then show ?thesis by (simp add: cell_key_def comp_def)
qed

lemma breakeven_summary_length:
  "map cell_key cells = List.product DEPTHS (List.product LANES BANDWIDTHS) \<Longrightarrow> length (breakeven_summary F cells) = 16"
  by (drule summary_order, drule arg_cong [of _ _ length]) (simp add: breakeven_summary_def BANDWIDTHS_def LANES_def)

text \<open>Without the separators it is the number.\<close>

lemma char_0: "char_of (48 :: nat) = CHR ''0''"
proof -
  have "char_of (of_char CHR ''0'' :: nat) = CHR ''0''" by (rule char_of_char)
  then show ?thesis by simp
qed

lemma py_str_three:
  assumes "m < 1000"
  shows "replicate (3 - length (py_str m)) CHR ''0'' @ py_str m
    = [char_of (48 + m div 100), char_of (48 + m div 10 mod 10), char_of (48 + m mod 10)]"
proof -
  have d: "m div 10 div 10 = m div 100" by (simp flip: div_mult2_eq)
  have one: "py_str m = [char_of (48 + m)]" if "m < 10" for m using that by (simp add: py_str.simps [of m])
  have two: "py_str m = [char_of (48 + m div 10), char_of (48 + m mod 10)]" if "10 \<le> m" "m < 100" for m
    using that one [of "m div 10"] by (simp add: py_str.simps [of m])
  have three: "py_str m = [char_of (48 + m div 100), char_of (48 + m div 10 mod 10), char_of (48 + m mod 10)]" if "100 \<le> m"
    using that assms two [of "m div 10"] d by (simp add: py_str.simps [of m])
  consider "m < 10" | "10 \<le> m" "m < 100" | "100 \<le> m" by linarith
  then show ?thesis
    by cases (simp_all add: one two three char_0 numeral_2_eq_2 numeral_3_eq_3)
qed

lemma py_str_split:
  assumes "1000 \<le> n"
  shows "py_str n = py_str (n div 1000) @ [char_of (48 + n div 100 mod 10), char_of (48 + n div 10 mod 10), char_of (48 + n mod 10)]"
proof -
  have d: "n div 10 div 10 = n div 100" "n div 100 div 10 = n div 1000" by (simp_all flip: div_mult2_eq)
  have step: "py_str k = py_str (k div 10) @ [char_of (48 + k mod 10)]" if "10 \<le> k" for k
    using that by (simp add: py_str.simps [of k])
  show ?thesis using assms step [of n] step [of "n div 10"] step [of "n div 100"] d by simp
qed

lemma py_str_no_comma: "CHR '','' \<notin> set (py_str n)"
  using py_str_chars digit_char_plain by metis

lemma mod_1000:
  "(n :: nat) mod 1000 div 100 = n div 100 mod 10" "n mod 1000 div 10 mod 10 = n div 10 mod 10" "n mod 1000 mod 10 = n mod 10"
proof -
  show "n mod 1000 div 100 = n div 100 mod 10" using arg_cong [OF mod_mult2_eq [of n 100 10], of "\<lambda>k. k div 100"] by simp
  show "n mod 1000 div 10 mod 10 = n div 10 mod 10"
    using arg_cong [OF mod_mult2_eq [of n 10 100], of "\<lambda>k. k div 10"] by (simp add: mod_mod_cancel)
qed (simp add: mod_mod_cancel)

lemma commas_value: "filter (\<lambda>c. c \<noteq> CHR '','') (commas n) = py_str n"
proof (induction n rule: commas.induct)
  case (1 n)
  show ?case
  proof (cases "n < 1000")
    case True
    then show ?thesis using py_str_no_comma [of n] by (auto simp: commas.simps [of n] filter_id_conv)
  next
    case False
    have f: "filter (\<lambda>c. c \<noteq> CHR '','') ds = ds" if "CHR '','' \<notin> set ds" for ds using that by (auto simp: filter_id_conv)
    have d: "CHR '','' \<notin> set [char_of (48 + n div 100 mod 10), char_of (48 + n div 10 mod 10), char_of (48 + n mod 10)]"
      using digit_char_plain [of "n div 100 mod 10"] digit_char_plain [of "n div 10 mod 10"] digit_char_plain [of "n mod 10"]
      by (auto dest: sym)
    have "commas n = commas (n div 1000) @ '','' @ [char_of (48 + n div 100 mod 10), char_of (48 + n div 10 mod 10), char_of (48 + n mod 10)]"
      using False py_str_three [of "n mod 1000"] by (subst commas.simps) (simp add: mod_1000)
    then show ?thesis using False 1 f [OF d] py_str_split [of n] by simp
  qed
qed

text \<open>Each cell of depth 1 is labelled at its place with its own headroom.\<close>

lemma heat_matrix_shape:
  assumes "map cell_key cells = List.product DEPTHS (List.product LANES BANDWIDTHS)"
  shows "length (heat_matrix cells) = 4" "\<And>r. r \<in> set (heat_matrix cells) \<Longrightarrow> length r = 3"
proof -
  let ?d1 = "filter (\<lambda>c. c_depth c = 1) cells"
  have k1: "map cell_key ?d1 = List.product [1] (List.product LANES BANDWIDTHS)"
  proof -
    have "map cell_key ?d1 = filter (\<lambda>k. fst k = 1) (map cell_key cells)" by (simp add: filter_map comp_def cell_key_def)
    then show ?thesis unfolding assms by (simp add: DEPTHS_def LANES_def BANDWIDTHS_def)
  qed
  have sets: "set (map c_lanes ?d1) = (fst \<circ> snd) ` set (map cell_key ?d1)" "set (map c_bandwidth ?d1) = (snd \<circ> snd) ` set (map cell_key ?d1)"
    by (force simp: cell_key_def image_image)+
  have "card (set (map c_lanes ?d1)) = 4" "card (set (map c_bandwidth ?d1)) = 3"
    unfolding sets k1 by (simp_all add: LANES_def BANDWIDTHS_def insert_commute)
  then show "length (heat_matrix cells) = 4" "\<And>r. r \<in> set (heat_matrix cells) \<Longrightarrow> length r = 3"
    unfolding heat_matrix_def Let_def by auto
qed

lemma heat_labels_cell:
  assumes "map cell_key cells = List.product DEPTHS (List.product LANES BANDWIDTHS)" "c \<in> set cells" "c_depth c = 1"
  shows "\<exists>i j. c_lanes c = LANES ! i \<and> c_bandwidth c = BANDWIDTHS ! j
    \<and> (j, i, heat_label F (case c_headroom_ms c of None \<Rightarrow> NaN | Some h \<Rightarrow> h)) \<in> set (heat_labels F (heat_matrix cells))"
proof -
  obtain i j where ij: "i < 4" "j < 3" "c_lanes c = LANES ! i" "c_bandwidth c = BANDWIDTHS ! j"
      "heat_matrix cells ! i ! j = (case c_headroom_ms c of None \<Rightarrow> NaN | Some h \<Rightarrow> h)"
    using heat_matrix_entry [OF assms] by blast
  note shape = heat_matrix_shape [OF assms(1)]
  from ij(1) shape have row: "length (heat_matrix cells ! i) = 3" by simp
  have "(j, i, heat_label F (heat_matrix cells ! i ! j)) \<in> set (heat_labels F (heat_matrix cells))"
    unfolding heat_labels_def using ij(1,2) shape(1) row by (auto simp: image_iff intro!: bexI [of _ i] simp del: upt_Suc)
  with ij show ?thesis by metis
qed

section \<open>The rows of the benchmark driver\<close>

text \<open>\<^verbatim>\<open>d.get(k)\<close> on a row, and the fields of a row by subscript.\<close>

definition rget :: "row \<Rightarrow> string \<Rightarrow> json res" where
  "rget r k = jget (JObj r) k"

definition bench_header :: string where
  "bench_header =
     join_with '' '' ([ljust 8 ''strategy'', ljust 20 ''scope'', rjust 5 ''lanes'', ljust 8 ''status'']
       @ map (rjust 9) [''srv p50'', ''srv p99'', ''e2e p50'', ''e2e p99''] @ map (rjust 8) [''up B'', ''down B''] @ [rjust 9 ''max err''])"

definition is_timed :: "row \<Rightarrow> string \<Rightarrow> bool" where
  "is_timed r k = (case map_of r k of None \<Rightarrow> False | Some v \<Rightarrow> jtruthy v)"

definition status_of :: "row \<Rightarrow> json" where
  "status_of r = (case map_of r ''status'' of None \<Rightarrow> JStr ''?'' | Some v \<Rightarrow> v)"

definition lanes_of_row :: "row \<Rightarrow> json" where
  "lanes_of_row r = (case map_of r ''lanes'' of None \<Rightarrow> JStr ''-'' | Some v \<Rightarrow> v)"

definition row_head :: "numfmt \<Rightarrow> row \<Rightarrow> string list res" where
  "row_head F r =
     rbind (rbind (rget r ''strategy'') (fmt_default F 8)) (\<lambda>s.
     rbind (rbind (rget r ''scope'') (fmt_default F 20)) (\<lambda>sc.
     rbind (fmt_right F 5 (lanes_of_row r)) (\<lambda>ln. Ret [s, sc, ln])))"

definition e2e_cells :: "numfmt \<Rightarrow> row \<Rightarrow> string list res" where
  "e2e_cells F r =
     rbind (rget r ''summary_us'') (\<lambda>s.
     rbind (rbind (rget r ''server_stage_us'') (\<lambda>d. jget d ''compute_only_us'')) (\<lambda>c.
     rbind (rmap (\<lambda>k. rbind (jget s k) (fmt_float (nf_fixed F 0) 9)) [''server_p50'', ''server_p99'', ''e2e_p50'', ''e2e_p99'']) (\<lambda>ts.
     rbind (rmap (\<lambda>k. rbind (rget r k) (fmt_right F 8)) [''bytes_up'', ''bytes_down'']) (\<lambda>bs.
     rbind (rbind (rget r ''max_abs_score_error'') (fmt_float (nf_exp F 1) 9)) (\<lambda>err.
     rbind (rbind (jget c ''p50_us'') (fmt_float (nf_fixed F 0) 0)) (\<lambda>co.
     Ret (ts @ bs @ [err @ ''   (compute-only p50 '' @ co @ '')''])))))))"

definition circuit_cells :: "numfmt \<Rightarrow> row \<Rightarrow> string list res" where
  "circuit_cells F r =
     rbind (rget r ''circuit_us'') (\<lambda>c.
     rbind (rmap (\<lambda>k. rbind (jget c k) (fmt_float (nf_fixed F 0) 9)) [''p50_us'', ''p99_us'']) (\<lambda>ts.
     rbind (rbind (rget r ''max_abs_score_error'') (fmt_float (nf_exp F 1) 9)) (\<lambda>err.
     Ret (ts @ map (rjust 9) [''-'', ''-''] @ map (rjust 8) [''-'', ''-''] @ [err]))))"

definition bench_line :: "numfmt \<Rightarrow> row \<Rightarrow> string res" where
  "bench_line F r =
     rbind (row_head F r) (\<lambda>hd.
     let st = ljust 8 (take 8 (text_of F (status_of r))) in
     if is_timed r ''summary_us'' then rbind (e2e_cells F r) (\<lambda>cs. Ret (join_with '' '' (hd @ [st] @ cs)))
     else if is_timed r ''circuit_us'' then rbind (circuit_cells F r) (\<lambda>cs. Ret (join_with '' '' (hd @ [st] @ cs)))
     else Ret (join_with '' '' (hd @ [text_of F (status_of r)])))"

definition print_bench :: "numfmt \<Rightarrow> row list \<Rightarrow> string list res" where
  "print_bench F rows = rbind (rmap (bench_line F) rows) (\<lambda>ls. Ret ([[], bench_header] @ ls))"

text \<open>A matrix whose benchmark reported numbers can be printed: the exit status of the driver does not depend on the table.\<close>

definition doc_numeric :: "json \<Rightarrow> bool" where
  "doc_numeric d \<longleftrightarrow> (\<forall>v. jget d ''correctness_max_abs_error'' = Ret v \<longrightarrow> (\<exists>x. v = JNum x)) \<and>
     (\<forall>k v. k \<in> {''p50'', ''p99''} \<and> jpath d [''latency_us'', k] = Ret v \<longrightarrow> (\<exists>x. v = JNum x))"

definition head_ok :: "row \<Rightarrow> bool" where
  "head_ok r \<longleftrightarrow> (\<exists>s sc n. map_of r ''strategy'' = Some (JStr s) \<and> map_of r ''scope'' = Some (JStr sc) \<and> map_of r ''lanes'' = Some (JNum n))"

definition e2e_ok :: "row \<Rightarrow> bool" where
  "e2e_ok r \<longleftrightarrow> (\<exists>s d c up dn e a1 a2 a3 a4 p. map_of r ''summary_us'' = Some (JObj s)
     \<and> map_of s ''server_p50'' = Some (JNum a1) \<and> map_of s ''server_p99'' = Some (JNum a2) \<and> map_of s ''e2e_p50'' = Some (JNum a3)
     \<and> map_of s ''e2e_p99'' = Some (JNum a4) \<and> map_of r ''server_stage_us'' = Some (JObj d) \<and> map_of d ''compute_only_us'' = Some (JObj c)
     \<and> map_of c ''p50_us'' = Some (JNum p) \<and> map_of r ''bytes_up'' = Some (JNum up) \<and> map_of r ''bytes_down'' = Some (JNum dn)
     \<and> map_of r ''max_abs_score_error'' = Some (JNum e))"

definition circuit_ok :: "row \<Rightarrow> bool" where
  "circuit_ok r \<longleftrightarrow> (\<exists>c a1 a2 e. map_of r ''circuit_us'' = Some (JObj c) \<and> map_of c ''p50_us'' = Some (JNum a1)
     \<and> map_of c ''p99_us'' = Some (JNum a2) \<and> map_of r ''max_abs_score_error'' = Some (JNum e))"

definition row_ok :: "row \<Rightarrow> bool" where
  "row_ok r \<longleftrightarrow> head_ok r \<and> (map_of r ''summary_us'' \<noteq> None \<longrightarrow> e2e_ok r) \<and> (map_of r ''circuit_us'' \<noteq> None \<longrightarrow> circuit_ok r)"

lemma row_ok_prints: "row_ok r \<Longrightarrow> \<exists>l. bench_line F r = Ret l"
proof -
  assume ok: "row_ok r"
  have "\<exists>h. row_head F r = Ret h" using ok by (auto simp: row_ok_def head_ok_def row_head_def rget_def lanes_of_row_def)
  moreover have "\<exists>cs. e2e_cells F r = Ret cs" if "is_timed r ''summary_us''"
    using ok that by (auto simp: row_ok_def e2e_ok_def e2e_cells_def rget_def is_timed_def split: option.splits)
  moreover have "\<exists>cs. circuit_cells F r = Ret cs" if "is_timed r ''circuit_us''"
    using ok that by (auto simp: row_ok_def circuit_ok_def circuit_cells_def rget_def is_timed_def split: option.splits)
  ultimately show ?thesis by (auto simp: bench_line_def Let_def)
qed

lemma print_bench_ok: "list_all row_ok rows \<Longrightarrow> \<exists>ls. print_bench F rows = Ret ls"
proof -
  assume "list_all row_ok rows"
  then have "\<exists>ls. rmap (bench_line F) rows = Ret ls"
  proof (induction rows)
    case (Cons r rows)
    with row_ok_prints [of r F] show ?case by auto
  qed simp
  then show ?thesis by (auto simp: print_bench_def simp del: rmap_Ret_iff)
qed

lemma stat_Ret: "stat xs = Ret j \<Longrightarrow> \<exists>kvs p. j = JObj kvs \<and> map_of kvs ''p50_us'' = Some (JNum p)"
  by (auto simp: stat_def pct_def split: if_splits)

lemma stage_stats_keys: "stage_stats ks f recs = Ret kvs \<Longrightarrow> map fst kvs = ks"
  by (induction ks arbitrary: kvs) (auto simp: stage_stats_def rbind_Ret_iff)

lemma timing_fields_ok:
  assumes "timing_fields recs = Ret tf" "map_of row ''max_abs_score_error'' = Some (JNum e)" "head_ok row"
    "list_all (\<lambda>k. map_of row k = None) [''circuit_us'', ''summary_us'', ''server_stage_us'', ''bytes_up'', ''bytes_down'']"
  shows "row_ok (row @ tf)"
proof -
  obtain cs ss co where ss: "stage_stats SERVER_STAGES be_server recs = Ret ss" and co: "stat (map (\<lambda>r. field ''multiply_plain_us'' (be_server r)
      + field ''rotation_hoisting_us'' (be_server r) + field ''mask_us'' (be_server r)) recs) = Ret co"
    and tf: "tf = (let tot = map (\<lambda>r. field ''total_inference_us'' (be_server r)) recs; e2e = map (\<lambda>r. field ''e2e_us'' (be_client r)) recs in
       [(''client_stage_us'', JObj cs), (''server_stage_us'', JObj (ss @ [(''compute_only_us'', co)])),
          (''bytes_up'', int_median (map be_up recs)), (''bytes_down'', int_median (map be_down recs)),
          (''summary_us'', JObj [(''server_p50'', pct tot 50), (''server_p99'', pct tot 99),
             (''client_p50'', JReal (np_percentile e2e 50 - np_percentile tot 50)), (''e2e_p50'', pct e2e 50), (''e2e_p99'', pct e2e 99)]),
          (''status'', JStr ''OK'')])"
    using assms(1) unfolding timing_fields_def rbind_Ret_iff Let_def by auto
  have "''compute_only_us'' \<notin> set (map fst ss)" unfolding stage_stats_keys [OF ss] by (simp add: SERVER_STAGES_def)
  then have ss': "map_of ss ''compute_only_us'' = None" by (simp add: map_of_eq_None_iff)
  obtain kvs p where "co = JObj kvs" "map_of kvs ''p50_us'' = Some (JNum p)" using stat_Ret [OF co] by blast
  with assms(2,4) ss' have "e2e_ok (row @ tf)" by (simp add: e2e_ok_def tf Let_def pct_def int_median_def map_add_def)
  moreover have "head_ok (row @ tf)" using assms(3) by (auto simp: head_ok_def tf Let_def map_add_def)
  moreover have "map_of (row @ tf) ''circuit_us'' = None" using assms(4) by (simp add: tf Let_def map_add_def)
  ultimately show ?thesis by (simp add: row_ok_def)
qed

lemma row_ok_untimed: "head_ok r \<Longrightarrow> map_of r ''summary_us'' = None \<Longrightarrow> map_of r ''circuit_us'' = None \<Longrightarrow> row_ok r"
  by (simp add: row_ok_def)

lemma head_ok_append: "head_ok r \<Longrightarrow> head_ok (r @ xs)"
  by (auto simp: head_ok_def map_add_def)

lemma after_gate_ok:
  assumes "after_gate rq roc lanes n warm X gy plain gs row srv = (Ret row', srv')" "head_ok row"
    "list_all (\<lambda>k. map_of row k = None) [''circuit_us'', ''summary_us'', ''server_stage_us'', ''bytes_up'', ''bytes_down'', ''max_abs_score_error'']"
  shows "row_ok row'"
proof -
  obtain enc err where cases: "row' = row @ gate_fields roc gy plain enc err @ [(''status'', JStr ''PARITY_GATE_FAILED -- no timings recorded'')]
    \<or> (err < PARITY_TOL \<and> (\<exists>recs tf. timing_fields recs = Ret tf \<and> row' = row @ gate_fields roc gy plain enc err @ tf))"
    using after_gate_Ret [OF assms(1)] by blast
  define g where "g = gate_fields roc gy plain enc err"
  have err: "map_of g ''max_abs_score_error'' = Some (JNum (Fin err))" by (simp add: g_def gate_fields_def)
  have fresh: "list_all (\<lambda>k. map_of g k = None) [''circuit_us'', ''summary_us'', ''server_stage_us'', ''bytes_up'', ''bytes_down'']"
    by (simp add: g_def gate_fields_def)
  from cases show ?thesis unfolding g_def [symmetric]
  proof (elim disjE conjE exE)
    assume "row' = row @ g @ [(''status'', JStr ''PARITY_GATE_FAILED -- no timings recorded'')]"
    with assms(2,3) fresh show ?thesis by (intro row_ok_untimed) (simp_all add: head_ok_append map_add_def)
  next
    fix recs tf assume tf: "timing_fields recs = Ret tf" "row' = row @ g @ tf"
    have "row_ok ((row @ g) @ tf)"
      by (rule timing_fields_ok [OF tf(1)]) (use assms(2,3) err fresh in \<open>simp_all add: head_ok_append map_add_def\<close>)
    with tf(2) show ?thesis by simp
  qed
qed

lemma grpc_config_ok:
  assumes "grpc_config rq roc strategy lanes n warm X y w bias idx srv = (Ret row, srv')"
  shows "row_ok row"
proof -
  obtain gs srv1 gy plain row0 where "after_gate rq roc lanes n warm X gy plain gs row0 srv1 = (Ret row, srv')"
      "row0 = [(''strategy'', JStr strategy), (''scope'', JStr ''e2e_grpc''), (''lanes'', JInt (int lanes)),
                 (''requests'', JInt (int n)), (''warmup'', JInt (int warm))]"
    using assms by (auto simp: grpc_config_def Let_def split: if_splits sum.splits prod.splits)
  from after_gate_ok [OF this(1)] this(2) show ?thesis by (simp add: head_ok_def)
qed

definition printed_keys :: "string set" where
  "printed_keys = {''strategy'', ''scope'', ''lanes'', ''summary_us'', ''circuit_us'', ''server_stage_us'', ''bytes_up'', ''bytes_down'',
     ''max_abs_score_error''}"

lemma row_ok_kv_update:
  assumes "fst ` set extra \<inter> printed_keys = {}"
  shows "row_ok (kv_update extra row) = row_ok row"
proof -
  have "map_of (kv_update extra row) k = map_of row k" if "k \<in> printed_keys" for k
    using assms that by (intro map_of_kv_update_other) blast
  then show ?thesis by (simp add: row_ok_def head_ok_def e2e_ok_def circuit_ok_def printed_keys_def)
qed

lemma lane_rows_ok:
  assumes "lane_rows cfg mode strategy extra ls srv = Ret rows" "\<And>l s row s'. cfg l s = (Ret row, s') \<Longrightarrow> row_ok row"
    and "fst ` set extra \<inter> printed_keys = {}"
  shows "list_all row_ok rows"
  using assms(1)
proof (induction ls arbitrary: srv rows)
  case (Cons l ls)
  show ?case
  proof (cases "mode = ''slot'' \<and> l > SLOT_BATCH")
    case True
    with Cons show ?thesis by (auto simp: rbind_Ret_iff head_ok_def intro!: row_ok_untimed)
  next
    case False
    obtain r srv1 where c: "cfg l srv = (r, srv1)" by (cases "cfg l srv")
    with Cons.prems False obtain row0 rs where "r = Ret row0" "lane_rows cfg mode strategy extra ls srv1 = Ret rs"
        "rows = kv_update extra row0 # rs"
      by (cases r) (auto simp: rbind_Ret_iff)
    with Cons.IH assms(2) [of l srv row0 srv1] c row_ok_kv_update [OF assms(3)] show ?thesis by auto
  qed
qed simp

lemma latency_part_numbers:
  assumes "latency_part r = Ret l" "doc_numeric r"
  shows "\<exists>c a1 a2. map_of l ''circuit_us'' = Some (JObj c) \<and> map_of c ''p50_us'' = Some (JNum a1) \<and> map_of c ''p99_us'' = Some (JNum a2)"
proof -
  obtain lat ls n where lat: "jget r ''latency_us'' = Ret lat" and ls: "rmap (\<lambda>(k, f). rbind (jget lat f) (\<lambda>v. Ret (k, v)))
       [(''mean_us'', ''mean''), (''p50_us'', ''p50''), (''median_us'', ''p50''), (''p95_us'', ''p95''), (''p99_us'', ''p99''),
        (''min_us'', ''min''), (''max_us'', ''max'')] = Ret ls"
    and l: "l = [(''circuit_us'', JObj (ls @ [(''n'', n)])), (''status'', JStr ''OK'')]"
    using assms(1) unfolding latency_part_def rbind_Ret_iff by auto
  obtain m p50 p95 p99 mn mx where v: "jget lat ''p50'' = Ret p50" "jget lat ''p99'' = Ret p99"
    and lsv: "ls = [(''mean_us'', m), (''p50_us'', p50), (''median_us'', p50), (''p95_us'', p95), (''p99_us'', p99), (''min_us'', mn), (''max_us'', mx)]"
    using ls by (auto simp: rbind_Ret_iff simp del: rmap_Ret_iff)
  have "jpath r [''latency_us'', ''p50''] = Ret p50" "jpath r [''latency_us'', ''p99''] = Ret p99" using v lat by simp_all
  moreover have num: "\<exists>x. v = JNum x" if "jpath r [''latency_us'', k] = Ret v" "k \<in> {''p50'', ''p99''}" for k v
    using assms(2) that unfolding doc_numeric_def by blast
  ultimately obtain x y where "p50 = JNum x" "p99 = JNum y" by blast
  then show ?thesis by (simp add: l lsv)
qed

lemma circuit_row_ok:
  assumes "circuit_row (circuit_head strategy lanes n) r = Ret row" "doc_numeric r"
  shows "row_ok row"
proof -
  let ?h = "circuit_head strategy lanes n"
  obtain g passed where g: "gate_part r = Ret g" "jget r ''correctness_passed'' = Ret passed"
    using assms by (auto simp: circuit_row_def rbind_Ret_iff)
  obtain x where err: "map_of g ''max_abs_score_error'' = Some (JNum x)"
    using g(1) assms(2) by (auto simp: gate_part_def rbind_Ret_iff doc_numeric_def)
  have gn: "list_all (\<lambda>k. map_of g k = None) [''strategy'', ''scope'', ''lanes'', ''summary_us'', ''circuit_us'']"
    using g(1) by (auto simp: gate_part_def rbind_Ret_iff)
  have hn: "map_of ?h ''max_abs_score_error'' = None" by (simp add: circuit_head_def)
  have hd: "head_ok (?h @ xs)" for xs by (simp add: head_ok_def circuit_head_def)
  show ?thesis
  proof (cases "jtruthy passed")
    case True
    with assms g obtain l where l: "latency_part r = Ret l" "row = ?h @ g @ l"
      by (auto simp: circuit_row_def rbind_Ret_iff)
    obtain c a1 a2 where "map_of l ''circuit_us'' = Some (JObj c)" "map_of c ''p50_us'' = Some (JNum a1)" "map_of c ''p99_us'' = Some (JNum a2)"
      using latency_part_numbers [OF l(1) assms(2)] by blast
    moreover have "map_of l ''summary_us'' = None" using l(1) by (auto simp: latency_part_def rbind_Ret_iff)
    ultimately show ?thesis using hd [of "g @ l"] gn err hn circuit_head_fields l(2)
      by (simp add: row_ok_def circuit_ok_def map_add_def)
  next
    case False
    with assms g have "row = ?h @ g @ [(''status'', JStr ''PARITY_GATE_FAILED -- no timings recorded'')]"
      by (auto simp: circuit_row_def rbind_Ret_iff)
    with gn hd circuit_head_fields show ?thesis by (intro row_ok_untimed) (simp_all add: map_add_def)
  qed
qed

lemma run_local_circuit_ok:
  assumes "run_local_circuit W strategy lanes n omp = Ret row" "\<And>args env d. bw_local W args env = Some (Some d) \<Longrightarrow> doc_numeric d"
  shows "row_ok row"
proof -
  have "head_ok (circuit_head strategy lanes n @ xs)" for xs by (simp add: head_ok_def circuit_head_def)
  then have "row_ok (circuit_head strategy lanes n @ [(''status'', st)])" for st
    using circuit_head_fields by (intro row_ok_untimed) (simp_all add: map_add_def)
  with assms circuit_row_ok show ?thesis unfolding run_local_circuit_def Let_def
    by (auto split: if_splits option.splits)
qed

lemma run_grpc_strategy_ok:
  assumes "run_grpc_strategy S expit W fs strategy ls n warm cores omp port X y w bias = (Ret rows, proc)"
  shows "list_all row_ok rows"
  using assms unfolding run_grpc_strategy_def Let_def
  by (auto simp: rbind_Ret_iff printed_keys_def split: sum.splits prod.splits elim!: lane_rows_ok intro: grpc_config_ok)

lemma strategy_rows_ok:
  assumes "strategy_rows S expit W fs a n warm X y w bias s = (Ret rows, proc)"
    and num: "\<And>args env d. bw_local W args env = Some (Some d) \<Longrightarrow> doc_numeric d"
  shows "list_all row_ok rows"
proof -
  obtain r2 p2 where g: "run_grpc_strategy S expit W fs s (ba_lanes a) n warm (ba_server_cores a) (ba_omp a) (ba_port a) X y w bias
      = (r2, p2)" by fastforce
  have loc: "list_all row_ok rs" if "rmap (\<lambda>ln. run_local_circuit W s ln n (ba_omp a)) ls = Ret rs" for ls rs
    using rmap_in_set [OF that] run_local_circuit_ok num unfolding list_all_iff by blast
  have one: "row_ok r" if "run_local_circuit W s SLOT_BATCH n (ba_omp a) = Ret r" for r using run_local_circuit_ok num that by blast
  have grpc: "list_all row_ok rs" if "r2 = Ret rs" for rs using run_grpc_strategy_ok g that by blast
  from assms(1) loc one grpc show ?thesis unfolding strategy_rows_def g
    by (auto simp: rbind_Ret_iff simp del: rmap_Ret_iff split: sum.splits if_splits)
qed

theorem matrix_prints:
  assumes "run_matrix S expit W st a strategies n warm = (Ret rows, ps)"
    and num: "\<And>args env d. bw_local W args env = Some (Some d) \<Longrightarrow> doc_numeric d"
  shows "\<exists>ls. print_bench F rows = Ret ls"
proof -
  obtain X y w bias where m: "matrix_rows (strategy_rows S expit W (bins st) a n warm X y w bias) strategies = (Ret rows, ps)"
    using assms(1) unfolding run_matrix_def by (auto split: sum.splits prod.splits)
  have "list_all row_ok rs" if "matrix_rows (strategy_rows S expit W (bins st) a n warm X y w bias) ss = (Ret rs, qs)" for ss rs qs
    using that
  proof (induction ss arbitrary: rs qs)
    case (Cons s ss)
    obtain r1 p1 where f: "strategy_rows S expit W (bins st) a n warm X y w bias s = (r1, p1)" by fastforce
    obtain r2 ps2 where mr: "matrix_rows (strategy_rows S expit W (bins st) a n warm X y w bias) ss = (r2, ps2)" by fastforce
    from Cons f mr strategy_rows_ok [OF _ num] show ?case by (auto simp: rbind_Ret_iff split: sum.splits)
  qed simp
  with m print_bench_ok show ?thesis by blast
qed

end
