(* ===== verification/RotationKeys.thy ===== *)
theory RotationKeys
  imports Prelude
begin

text \<open>
  The rotation-key count of the SlotToCoeff transform, \<^verbatim>\<open>scripts/bfv_slot_baseline/stc_rotation_keys.py\<close>: the
  diagonals of the decoding matrices, their products by pairs, the baby-step giant-step split of each product and
  the set of rotations the split needs. A Python set is a list without duplicates, in some order; the code uses
  only membership and sizes.
\<close>

section \<open>Diagonals\<close>

definition diag_decomp :: "nat \<Rightarrow> int list list" where
  "diag_decomp log_n =
     (let n = 2 ^ log_n;
          res = (replicate log_n [])[0 := remdups [0, 1, 2, 3, n div 2 - 1, n div 2 - 2, n div 2 - 3]];
          res = fold (\<lambda>ind res. let s = 2 ^ ind in res[ind := remdups [0, s, 2 * s, n div 2 - s, n div 2 - 2 * s]])
                  [1..<log_n - 2] res;
          s = n div 4
      in res[log_n - 2 := remdups [0, s], log_n - 1 := remdups [0, s]])"

definition mult :: "int list \<Rightarrow> int list \<Rightarrow> int \<Rightarrow> int list" where
  "mult a b n = remdups [(x + y) mod (n div 2). x \<leftarrow> a, y \<leftarrow> b]"

text \<open>\<^verbatim>\<open>d[i]\<close>, where a negative index counts from the end.\<close>

definition py_at :: "'a list \<Rightarrow> int \<Rightarrow> 'a" where
  "py_at d i = d ! nat (if i < 0 then i + int (length d) else i)"

text \<open>For \<open>log_n < 2\<close> an index is out of range. The list starts with empty entries where the code has \<^verbatim>\<open>None\<close>; each is
  overwritten.\<close>

definition rad2 :: "nat \<Rightarrow> int list list res" where
  "rad2 log_n =
     (if log_n < 2 then Raise IndexError
      else
        let n = 2 ^ log_n; d = diag_decomp log_n; depth = length d - 1;
            out = replicate ((depth + 1) div 2 + 1) [];
            out = (if even depth
                   then fold (\<lambda>i out. out[i div 2 := mult (d ! (i + 1)) (d ! i) n]) (filter even [0..<depth - 2]) out
                   else fold (\<lambda>i out. out[(i + 1) div 2 := mult (d ! (i + 1)) (d ! i) n]) (filter odd [1..<depth - 2]) (out[0 := d ! 0]))
        in Ret (out[(depth - 1) div 2 := mult (d ! (depth - 1)) (py_at d (int depth - 2)) n,
                    (depth + 1) div 2 := mult (d ! depth) (py_at d (int depth - 2)) n]))"

section \<open>Baby steps and giant steps\<close>

text \<open>\<^verbatim>\<open>index.setdefault(j, []).append(i)\<close>.\<close>

fun index_add :: "int \<Rightarrow> int \<Rightarrow> (int \<times> int list) list \<Rightarrow> (int \<times> int list) list" where
  "index_add j i [] = [(j, [i])]"
| "index_add j i ((j', row) # ix) = (if j = j' then (j', row @ [i]) # ix else (j', row) # index_add j i ix)"

definition bsgs_index :: "int list \<Rightarrow> int \<Rightarrow> int \<Rightarrow> (int \<times> int list) list" where
  "bsgs_index keys slots n1 =
     fold (\<lambda>k ix. let k = k AND (slots - 1) in index_add (k div n1) (k AND (n1 - 1)) ix) keys []"

text \<open>The inner loop of \<^verbatim>\<open>best_split\<close>; \<open>normal\<close> halves in every round.\<close>

function grow_split :: "int \<Rightarrow> nat \<Rightarrow> nat \<Rightarrow> int" where
  "grow_split n1 hoisted normal =
     (if real hoisted / real normal < 16
      then if normal div 2 = 0 then n1 else grow_split (n1 * 2) (hoisted * 2 + 1) (normal div 2)
      else n1)"
  by auto
termination
  by (relation "measure (\<lambda>(n1, hoisted, normal). normal)") auto

declare grow_split.simps [simp del]

text \<open>The outer loop, started at 1; the guard against \<open>n1 \<le> 0\<close> is never met.\<close>

function best_split_from :: "int list \<Rightarrow> int \<Rightarrow> int \<Rightarrow> int" where
  "best_split_from keys max_n n1 =
     (if \<not> n1 < max_n \<or> n1 \<le> 0 then 1
      else
        let index = bsgs_index keys max_n n1;
            row0 = (case map_of index 0 of None \<Rightarrow> [] | Some r \<Rightarrow> r);
            hoisted = length row0 - 1; normal = length index - 1
        in if row0 \<noteq> [] \<and> normal = 0 then n1 div 2
           else if row0 \<noteq> [] \<and> hoisted > normal then grow_split n1 hoisted normal
           else best_split_from keys max_n (n1 * 2))"
  by auto
termination
  by (relation "measure (\<lambda>(keys, max_n, n1). nat (max_n - n1))") auto

declare best_split_from.simps [simp del]

definition best_split :: "int list \<Rightarrow> int \<Rightarrow> int" where
  "best_split keys max_n = best_split_from keys max_n 1"

section \<open>Rotations\<close>

text \<open>The rotations of one matrix. With at most two diagonals \<^verbatim>\<open>vec\<close> has fewer than three elements, so \<^verbatim>\<open>n1\<close> is not used.\<close>

definition stc_matrix :: "int \<Rightarrow> int list \<Rightarrow> int list" where
  "stc_matrix slots keys =
     (if length keys > 2 then
        let n1 = best_split keys slots;
            vec = remdups [n1 * j + i. (j, row) \<leftarrow> bsgs_index keys slots n1, i \<leftarrow> row]
        in if length vec < 3 then vec
           else concat (map (\<lambda>j. filter (\<lambda>r. r \<noteq> 0) [(j div n1 * n1) AND (slots - 1), j AND (n1 - 1)]) vec)
      else remdups (map (\<lambda>k. if k < 0 then k + slots else k) keys))"

definition stc_rotations :: "nat \<Rightarrow> int list res" where
  "stc_rotations log_n = rbind (rad2 log_n) (\<lambda>ms. Ret (remdups (concat (map (stc_matrix (2 ^ log_n)) ms))))"

text \<open>One line of the report of \<^verbatim>\<open>main\<close>: the count including conjugation, bytes of a key, bytes in total.\<close>

record key_count =
  stc_keys_including_conjugation :: int
  bytes_each :: int
  bytes_total :: int

definition count_keys :: "nat \<Rightarrow> key_count res" where
  "count_keys log_n = rbind (stc_rotations log_n) (\<lambda>rots.
     let c = int (length rots) + 1 in
     Ret \<lparr>stc_keys_including_conjugation = c, bytes_each = 2688 * 2 ^ log_n, bytes_total = c * 2688 * 2 ^ log_n\<rparr>)"

text \<open>A dictionary keyed by the argument: a repeated argument keeps its first place.\<close>

definition stc_main :: "nat list \<Rightarrow> (nat \<times> key_count) list res" where
  "stc_main logns = rmap (\<lambda>l. rbind (count_keys l) (\<lambda>c. Ret (l, c))) (rev (remdups (rev logns)))"

section \<open>Masks and indices\<close>

lemma and_exp_minus_1: "(x :: int) AND (2 ^ m - 1) = x mod 2 ^ m"
  by (simp flip: mask_eq_exp_minus_1 take_bit_eq_mask add: take_bit_eq_mod)

lemma index_add_mem:
  "(\<exists>row. (j, row) \<in> set (index_add j' i' ix) \<and> i \<in> set row) \<longleftrightarrow>
     (j = j' \<and> i = i') \<or> (\<exists>row. (j, row) \<in> set ix \<and> i \<in> set row)"
  by (induction j' i' ix rule: index_add.induct) auto

lemma fold_index_mem:
  "(\<exists>row. (j, row) \<in> set (fold (\<lambda>k ix. index_add (f k) (g k) ix) keys ix) \<and> i \<in> set row) \<longleftrightarrow>
     (\<exists>k \<in> set keys. j = f k \<and> i = g k) \<or> (\<exists>row. (j, row) \<in> set ix \<and> i \<in> set row)"
proof (induction keys arbitrary: ix)
  case (Cons k keys)
  then show ?case by (simp add: Cons.IH index_add_mem) blast
qed simp

lemma bsgs_index_mem:
  "(\<exists>row. (j, row) \<in> set (bsgs_index keys slots n1) \<and> i \<in> set row) \<longleftrightarrow>
     (\<exists>k \<in> set keys. j = (k AND (slots - 1)) div n1 \<and> i = (k AND (slots - 1)) AND (n1 - 1))"
  unfolding bsgs_index_def Let_def using fold_index_mem [where ix = "[]"] by simp

text \<open>The diagonals a split of a matrix names are its own.\<close>

lemma split_vec_set:
  assumes "\<forall>k \<in> set keys. 0 \<le> k \<and> k < 2 ^ m"
  shows "set [2 ^ e * j + i. (j, row) \<leftarrow> bsgs_index keys (2 ^ m) (2 ^ e), i \<leftarrow> row] = set keys"
proof -
  have "x \<in> set [2 ^ e * j + i. (j, row) \<leftarrow> bsgs_index keys (2 ^ m) (2 ^ e), i \<leftarrow> row] \<longleftrightarrow>
      (\<exists>j i. x = 2 ^ e * j + i \<and> (\<exists>row. (j, row) \<in> set (bsgs_index keys (2 ^ m) (2 ^ e)) \<and> i \<in> set row))" for x
    by (auto; force)
  moreover have "(\<exists>j i. x = 2 ^ e * j + i \<and> (\<exists>k \<in> set keys. j = (k AND (2 ^ m - 1)) div 2 ^ e \<and> i = (k AND (2 ^ m - 1)) AND (2 ^ e - 1)))
      \<longleftrightarrow> x \<in> set keys" for x
    using assms by (auto simp: and_exp_minus_1) (metis mod_pos_pos_trivial mult_div_mod_eq)+
  ultimately show ?thesis unfolding bsgs_index_mem by blast
qed

lemma keys_le_index_length:
  assumes "\<forall>k \<in> set keys. 0 \<le> k \<and> k < 2 ^ m" "distinct keys"
  shows "length keys \<le> length (bsgs_index keys (2 ^ m) 1)"
proof -
  have "set keys \<subseteq> fst ` set (bsgs_index keys (2 ^ m) 1)"
  proof
    fix k assume "k \<in> set keys"
    then have "\<exists>row. (k, row) \<in> set (bsgs_index keys (2 ^ m) 1) \<and> 0 \<in> set row"
      unfolding bsgs_index_mem using assms by (auto simp: and_exp_minus_1 intro!: bexI [of _ k])
    then show "k \<in> fst ` set (bsgs_index keys (2 ^ m) 1)" by force
  qed
  then have "card (set keys) \<le> card (fst ` set (bsgs_index keys (2 ^ m) 1))" by (intro card_mono) auto
  also have "\<dots> \<le> length (bsgs_index keys (2 ^ m) 1)" by (metis card_length image_set length_map)
  finally show ?thesis using assms(2) by (simp add: distinct_card)
qed

section \<open>The split is a power of two\<close>

definition pow2 :: "int \<Rightarrow> bool" where
  "pow2 x \<longleftrightarrow> (\<exists>e. x = 2 ^ e)"

lemma pow2_double: "pow2 x \<Longrightarrow> pow2 (x * 2)"
  unfolding pow2_def by (metis power_Suc2)

lemma pow2_half: "pow2 x \<Longrightarrow> x \<noteq> 1 \<Longrightarrow> pow2 (x div 2)"
  unfolding pow2_def by (metis nonzero_mult_div_cancel_left not0_implies_Suc power_0 power_Suc zero_neq_numeral)

lemma pow2_pos: "pow2 x \<Longrightarrow> 1 \<le> x"
  by (auto simp: pow2_def)

lemma grow_split_pow2: "pow2 n1 \<Longrightarrow> pow2 (grow_split n1 hoisted normal)"
proof (induction n1 hoisted normal rule: grow_split.induct)
  case (1 n1 hoisted normal)
  then show ?case by (subst grow_split.simps) (auto simp: pow2_double)
qed

lemma best_split_from_pow2:
  assumes "pow2 n1" "n1 = 1 \<Longrightarrow> 1 < length (bsgs_index keys max_n 1)"
  shows "pow2 (best_split_from keys max_n n1)"
  using assms
proof (induction keys max_n n1 rule: best_split_from.induct)
  case (1 keys max_n n1)
  have "pow2 1" unfolding pow2_def by (metis power_0)
  moreover have "pow2 (best_split_from keys max_n (n1 * 2))" if "n1 < max_n"
      "\<not> ((case map_of (bsgs_index keys max_n n1) 0 of None \<Rightarrow> [] | Some r \<Rightarrow> r) \<noteq> [] \<and> length (bsgs_index keys max_n n1) - 1 = 0)"
      "\<not> ((case map_of (bsgs_index keys max_n n1) 0 of None \<Rightarrow> [] | Some r \<Rightarrow> r) \<noteq> [] \<and>
          length (bsgs_index keys max_n n1) - 1 < length (case map_of (bsgs_index keys max_n n1) 0 of None \<Rightarrow> [] | Some r \<Rightarrow> r) - 1)"
    using that pow2_pos [OF 1(2)] pow2_double [OF 1(2)] by (intro "1.IH" [OF _ refl refl refl refl]) auto
  moreover have "pow2 (n1 div 2)" if "length (bsgs_index keys max_n n1) - 1 = 0"
    using that pow2_half [OF 1(2)] 1(3) by (cases "n1 = 1") auto
  ultimately show ?case
    using grow_split_pow2 [OF 1(2)]
    by (subst best_split_from.simps) (simp add: Let_def)
qed

lemma best_split_pow2:
  assumes "\<forall>k \<in> set keys. 0 \<le> k \<and> k < 2 ^ m" "distinct keys" "2 < length keys"
  shows "\<exists>e. best_split keys (2 ^ m) = 2 ^ e"
proof -
  have "pow2 1" unfolding pow2_def by (metis power_0)
  then show ?thesis using best_split_from_pow2 [of 1 keys "2 ^ m"] keys_le_index_length [OF assms(1,2)] assms(3)
    by (auto simp: best_split_def pow2_def)
qed

section \<open>Every diagonal can be reached\<close>

text \<open>A matrix as the split expects it: distinct diagonals between 0 and the number of slots.\<close>

definition diagonals_ok :: "nat \<Rightarrow> int list \<Rightarrow> bool" where
  "diagonals_ok m keys \<longleftrightarrow> distinct keys \<and> (\<forall>k \<in> set keys. 0 \<le> k \<and> k < 2 ^ m)"

lemma nonzero_parts:
  assumes "k \<in> K"
  shows "g k \<in> insert 0 (\<Union>k \<in> K. {f k, g k} - {0})" "f k \<in> insert 0 (\<Union>k \<in> K. {f k, g k} - {0})"
  using assms by auto

lemma round_down: "0 \<le> (k :: int) \<Longrightarrow> 0 \<le> k div 2 ^ e * 2 ^ e \<and> k div 2 ^ e * 2 ^ e \<le> k"
proof -
  assume "0 \<le> k"
  then have "0 \<le> k div 2 ^ e * 2 ^ e" by (simp add: pos_imp_zdiv_nonneg_iff)
  moreover have "0 \<le> k mod 2 ^ e" by simp
  ultimately show ?thesis using div_mult_mod_eq [of k "2 ^ e"] by linarith
qed

lemma stc_matrix_split:
  assumes "diagonals_ok m keys" "2 < length keys"
  obtains e where "set (stc_matrix (2 ^ m) keys) = (\<Union>k \<in> set keys. {k div 2 ^ e * 2 ^ e, k mod 2 ^ e} - {0})"
proof -
  have R: "\<forall>k \<in> set keys. 0 \<le> k \<and> k < 2 ^ m" and D: "distinct keys" using assms(1) by (auto simp: diagonals_ok_def)
  obtain e where e: "best_split keys (2 ^ m) = 2 ^ e" using best_split_pow2 [OF R D assms(2)] by blast
  let ?vec = "remdups [2 ^ e * j + i. (j, row) \<leftarrow> bsgs_index keys (2 ^ m) (2 ^ e), i \<leftarrow> row]"
  have V: "set ?vec = set keys" using split_vec_set [OF R] by simp
  have "length ?vec = length keys" using V D by (metis distinct_card distinct_remdups)
  then have L: "\<not> length ?vec < 3" using assms(2) by linarith
  have A: "(k div 2 ^ e * 2 ^ e) AND (2 ^ m - 1) = k div 2 ^ e * 2 ^ e" if "k \<in> set keys" for k
  proof -
    have "0 \<le> k div 2 ^ e * 2 ^ e \<and> k div 2 ^ e * 2 ^ e \<le> k" using R that by (intro round_down) simp
    then show ?thesis using R that unfolding and_exp_minus_1 by (intro mod_pos_pos_trivial) auto
  qed
  have "stc_matrix (2 ^ m) keys =
      concat (map (\<lambda>j. filter (\<lambda>r. r \<noteq> 0) [(j div 2 ^ e * 2 ^ e) AND (2 ^ m - 1), j AND (2 ^ e - 1)]) ?vec)"
    unfolding stc_matrix_def Let_def e using assms(2) L by (simp only: if_True if_False)
  then have "set (stc_matrix (2 ^ m) keys) =
      (\<Union>k \<in> set ?vec. {(k div 2 ^ e * 2 ^ e) AND (2 ^ m - 1), k AND (2 ^ e - 1)} - {0})"
    by (simp only: set_concat set_map set_filter list.set image_image) blast
  also have "\<dots> = (\<Union>k \<in> set keys. {k div 2 ^ e * 2 ^ e, k mod 2 ^ e} - {0})"
    unfolding V by (intro SUP_cong refl) (simp only: A and_exp_minus_1 [of _ e])
  finally show ?thesis using that by blast
qed

lemma stc_matrix_covers:
  assumes "diagonals_ok m keys"
  shows "(\<forall>k \<in> set keys. \<exists>a \<in> insert 0 (set (stc_matrix (2 ^ m) keys)). \<exists>b \<in> insert 0 (set (stc_matrix (2 ^ m) keys)). a + b = k) \<and>
    (\<forall>r \<in> set (stc_matrix (2 ^ m) keys). 0 \<le> r \<and> r < 2 ^ m)"
proof (cases "2 < length keys")
  case True
  obtain e where S: "set (stc_matrix (2 ^ m) keys) = (\<Union>k \<in> set keys. {k div 2 ^ e * 2 ^ e, k mod 2 ^ e} - {0})"
    using stc_matrix_split [OF assms True] .
  have "\<exists>a \<in> insert 0 (set (stc_matrix (2 ^ m) keys)). \<exists>b \<in> insert 0 (set (stc_matrix (2 ^ m) keys)). a + b = k" if "k \<in> set keys" for k
  proof (rule bexI [of _ "k div 2 ^ e * 2 ^ e"], rule bexI [of _ "k mod 2 ^ e"])
    show "k div 2 ^ e * 2 ^ e + k mod 2 ^ e = k" by (rule div_mult_mod_eq)
    show "k mod 2 ^ e \<in> insert 0 (set (stc_matrix (2 ^ m) keys))"
      unfolding S by (rule nonzero_parts(1) [OF that, of "\<lambda>k. k mod 2 ^ e" "\<lambda>k. k div 2 ^ e * 2 ^ e"])
    show "k div 2 ^ e * 2 ^ e \<in> insert 0 (set (stc_matrix (2 ^ m) keys))"
      unfolding S by (rule nonzero_parts(2) [OF that, of "\<lambda>k. k div 2 ^ e * 2 ^ e" "\<lambda>k. k mod 2 ^ e"])
  qed
  moreover have "0 \<le> r \<and> r < 2 ^ m" if rm: "r \<in> set (stc_matrix (2 ^ m) keys)" for r
  proof -
    obtain k where kk: "k \<in> set keys" "r = k div 2 ^ e * 2 ^ e \<or> r = k mod 2 ^ e"
      using rm unfolding S by (elim UN_E DiffE insertE) auto
    then have k: "0 \<le> k" "k < 2 ^ m" using assms by (auto simp only: diagonals_ok_def)
    have "0 \<le> k div 2 ^ e * 2 ^ e \<and> k div 2 ^ e * 2 ^ e \<le> k" using k(1) by (rule round_down)
    moreover have "k mod 2 ^ e \<le> k" "0 \<le> k mod 2 ^ e" using k(1) by (simp_all add: zmod_le_nonneg_dividend)
    ultimately show ?thesis using k kk(2) by auto
  qed
  ultimately show ?thesis by simp
next
  case False
  have "set (stc_matrix (2 ^ m) keys) = set keys"
    using assms False unfolding stc_matrix_def diagonals_ok_def by (auto simp: image_iff)
  then show ?thesis using assms by (auto simp: diagonals_ok_def)
qed

section \<open>The matrices\<close>

lemma diagonals_ok_mono: "diagonals_ok m keys \<Longrightarrow> m \<le> m' \<Longrightarrow> diagonals_ok m' keys"
  unfolding diagonals_ok_def by (meson numeral_One less_le_trans one_le_numeral power_increasing)

lemma diagonals_ok_mult: "diagonals_ok m (mult a b (2 ^ Suc m))"
  by (auto simp: diagonals_ok_def mult_def)

lemma diagonals_ok_Nil: "diagonals_ok m []"
  by (simp add: diagonals_ok_def)

lemma fold_update_all:
  assumes "\<forall>x \<in> set xs. P x" "\<And>i. P (v i)"
  shows "\<forall>x \<in> set (fold (\<lambda>i out. out[g i := v i]) is xs). P x"
  using assms(1)
proof (induction "is" arbitrary: xs)
  case (Cons i "is")
  have "\<forall>x \<in> set (xs[g i := v i]). P x" using Cons.prems assms(2) set_update_subset_insert [of xs "g i" "v i"] by blast
  then show ?case using Cons.IH by simp
qed simp

lemma fold_update_0:
  "\<forall>i \<in> set is. g i \<noteq> 0 \<Longrightarrow> fold (\<lambda>i out. out[g i := v i]) is xs ! 0 = xs ! 0"
  by (induction "is" arbitrary: xs) auto

lemma length_fold_update: "length (fold (\<lambda>i out. out[g i := v i]) is xs) = length xs"
  by (induction "is" arbitrary: xs) auto

lemma length_diag_decomp [simp]: "length (diag_decomp log_n) = log_n"
  by (simp add: diag_decomp_def Let_def length_fold_update)

lemma diag_decomp_0:
  assumes "2 \<le> log_n" "even log_n"
  shows "diagonals_ok (log_n - 1) (diag_decomp log_n ! 0)"
proof (cases "log_n = 2")
  case True
  then show ?thesis by (simp add: diagonals_ok_def diag_decomp_def numeral_2_eq_2)
next
  case False
  then have n: "4 \<le> log_n" using assms by presburger
  let ?h = "2 ^ log_n div 2 :: int"
  have h: "?h = 2 ^ (log_n - 1)" using n by (simp flip: power_minus_mult [of log_n 2])
  have "(2 :: int) ^ 3 \<le> 2 ^ (log_n - 1)" using n by (intro power_increasing) auto
  then have "8 \<le> ?h" using h by simp
  moreover have "diag_decomp log_n ! 0 = remdups [0, 1, 2, 3, ?h - 1, ?h - 2, ?h - 3]"
    using n unfolding diag_decomp_def Let_def by (simp add: fold_update_0 del: remdups.simps)
  ultimately show ?thesis unfolding diagonals_ok_def h [symmetric] by (auto simp del: remdups.simps)
qed

lemma rad2_ok:
  assumes "rad2 log_n = Ret ms" "keys \<in> set ms"
  shows "diagonals_ok log_n keys"
proof -
  have l: "2 \<le> log_n" using assms(1) by (auto simp: rad2_def split: if_splits)
  obtain m where m: "log_n = Suc m" using l by (cases log_n) auto
  have lm: "(log_n < 2) = False" "log_n - 1 = m" using l m by auto
  let ?P = "diagonals_ok m"
  have M: "?P (mult a b (2 ^ log_n))" for a b unfolding m by (rule diagonals_ok_mult)
  have upd: "\<forall>x \<in> set (xs[i := v]). ?P x" if "\<forall>x \<in> set xs. ?P x" "?P v" for xs i v
    using that set_update_subset_insert [of xs i v] by blast
  have z: "\<forall>x \<in> set (replicate k []). ?P x" for k by (simp add: diagonals_ok_Nil)
  let ?d = "diag_decomp log_n" and ?n = "2 ^ log_n :: int" and ?z = "replicate ((m + 1) div 2 + 1) [] :: int list list"
  let ?body = "if even m
      then fold (\<lambda>i out. out[i div 2 := mult (?d ! (i + 1)) (?d ! i) ?n]) (filter even [0..<m - 2]) ?z
      else fold (\<lambda>i out. out[(i + 1) div 2 := mult (?d ! (i + 1)) (?d ! i) ?n]) (filter odd [1..<m - 2]) (?z[0 := ?d ! 0])"
  have "?P (?d ! 0)" if "odd m" using diag_decomp_0 [OF l] that by (simp add: m)
  then have body: "\<forall>x \<in> set ?body. ?P x"
    by (cases "even m") (simp only: if_True if_False, intro upd fold_update_all M z; simp)+
  have "ms = ?body[(m - 1) div 2 := mult (?d ! (m - 1)) (py_at ?d (int m - 2)) ?n,
                   (m + 1) div 2 := mult (?d ! m) (py_at ?d (int m - 2)) ?n]"
    using assms(1) lm unfolding rad2_def Let_def length_diag_decomp by (simp only: if_False sum.inject)
  then have "\<forall>x \<in> set ms. ?P x" using upd [OF upd [OF body M] M] by simp
  then show ?thesis using assms(2) diagonals_ok_mono [of m keys log_n] by (simp add: m)
qed

text \<open>C16. The counted rotations are enough and no wider than needed: for every \<open>log_n\<close> of at least 2 the count is defined,
  every diagonal of every matrix of the SlotToCoeff transform is a giant step plus a baby step whose rotations are among
  the counted ones (a step of zero needs none), and every counted rotation is an index below the number of slots.\<close>
theorem stc_keys_cover:
  assumes "2 \<le> log_n"
  shows "\<exists>ms rots. rad2 log_n = Ret ms \<and> stc_rotations log_n = Ret rots \<and> distinct rots \<and>
    (\<forall>keys \<in> set ms. \<forall>k \<in> set keys. \<exists>a \<in> insert 0 (set rots). \<exists>b \<in> insert 0 (set rots). a + b = k) \<and>
    (\<forall>r \<in> set rots. 0 \<le> r \<and> r < 2 ^ log_n)"
proof -
  obtain ms where ms: "rad2 log_n = Ret ms" using assms by (simp add: rad2_def Let_def)
  let ?rots = "remdups (concat (map (stc_matrix (2 ^ log_n)) ms))"
  have sub: "set (stc_matrix (2 ^ log_n) keys) \<subseteq> set ?rots" if "keys \<in> set ms" for keys using that by auto
  have cov: "\<exists>a \<in> insert 0 (set ?rots). \<exists>b \<in> insert 0 (set ?rots). a + b = k" if "keys \<in> set ms" "k \<in> set keys" for keys k
    using stc_matrix_covers [OF rad2_ok [OF ms that(1)]] that(2) sub [OF that(1)] by (meson insert_mono subsetD)
  have rng: "0 \<le> r \<and> r < 2 ^ log_n" if "r \<in> set ?rots" for r
    using that stc_matrix_covers rad2_ok [OF ms] by fastforce
  show ?thesis
    by (rule exI [of _ ms], rule exI [of _ ?rots], intro conjI ballI)
      (use ms cov rng in \<open>simp_all add: stc_rotations_def\<close>)
qed

text \<open>At \<open>log_n = 10\<close> and \<open>12\<close> the predicted counts are the 26 and 33 that runs recorded as
  \<^verbatim>\<open>rotation_key_counts.stc_only\<close>.\<close>

theorem stc_keys_cover_witness:
  "(\<exists>ms rots. rad2 10 = Ret ms \<and> stc_rotations 10 = Ret rots \<and> 511 \<in> \<Union> (set ` set ms) \<and>
     (\<exists>a \<in> insert 0 (set rots). \<exists>b \<in> insert 0 (set rots). a + b = 511)) \<and>
   rbind (count_keys 10) (\<lambda>c. Ret (stc_keys_including_conjugation c)) = Ret 26 \<and>
   rbind (count_keys 12) (\<lambda>c. Ret (stc_keys_including_conjugation c)) = Ret 33"
proof (intro conjI)
  have m: "rbind (rad2 10) (\<lambda>ms. Ret (511 \<in> \<Union> (set ` set ms))) = Ret True" by code_simp
  have "(2 :: nat) \<le> 10" by simp
  from stc_keys_cover [OF this] obtain ms rots where r: "rad2 10 = Ret ms" "stc_rotations 10 = Ret rots"
    "\<forall>keys \<in> set ms. \<forall>k \<in> set keys. \<exists>a \<in> insert 0 (set rots). \<exists>b \<in> insert 0 (set rots). a + b = k"
    by (elim exE conjE)
  have "511 \<in> \<Union> (set ` set ms)" using m by (simp only: r(1) rbind.simps sum.inject)
  then obtain keys where "keys \<in> set ms" "511 \<in> set keys" by (elim UnionE imageE) simp
  then have "\<exists>a \<in> insert 0 (set rots). \<exists>b \<in> insert 0 (set rots). a + b = 511"
    by (rule bspec [OF bspec [OF r(3)]])
  with r(1,2) \<open>511 \<in> \<Union> (set ` set ms)\<close> show "\<exists>ms rots. rad2 10 = Ret ms \<and> stc_rotations 10 = Ret rots \<and> 511 \<in> \<Union> (set ` set ms) \<and>
     (\<exists>a \<in> insert 0 (set rots). \<exists>b \<in> insert 0 (set rots). a + b = 511)"
    by (intro exI conjI)
  show "rbind (count_keys 10) (\<lambda>c. Ret (stc_keys_including_conjugation c)) = Ret 26" by code_simp
  show "rbind (count_keys 12) (\<lambda>c. Ret (stc_keys_including_conjugation c)) = Ret 33" by code_simp
qed

end
