(* ===== verification/Percentiles.thy ===== *)
theory Percentiles
  imports CnpGate
begin

text \<open>
  Order facts about the statistics the reports share: numpy's interpolated percentiles are monotone in the rank, lie between
  the smallest and the largest sample, and the 50th is the median; a mean lies between bounds of its samples.
\<close>

definition interp :: "real list \<Rightarrow> real \<Rightarrow> real" where
  "interp s pos = s ! nat \<lfloor>pos\<rfloor> + (pos - real (nat \<lfloor>pos\<rfloor>)) * (s ! min (nat \<lfloor>pos\<rfloor> + 1) (length s - 1) - s ! nat \<lfloor>pos\<rfloor>)"

lemma np_percentile_interp: "np_percentile xs q = interp (sort xs) (q / 100 * real (length xs - 1))"
  by (simp add: np_percentile_def interp_def Let_def)

lemma floor_nat_bounds:
  assumes "0 \<le> pos"
  shows "real (nat \<lfloor>pos\<rfloor>) \<le> pos" "pos < real (nat \<lfloor>pos\<rfloor>) + 1"
proof -
  have "real (nat \<lfloor>pos\<rfloor>) = of_int \<lfloor>pos\<rfloor>" using assms by simp
  then show "real (nat \<lfloor>pos\<rfloor>) \<le> pos" "pos < real (nat \<lfloor>pos\<rfloor>) + 1" by linarith+
qed

lemma interp_between:
  assumes s: "sorted s" "s \<noteq> []" and pos: "0 \<le> pos" "pos \<le> real (length s - 1)"
  shows "nat \<lfloor>pos\<rfloor> < length s" "s ! nat \<lfloor>pos\<rfloor> \<le> interp s pos"
    "interp s pos \<le> s ! min (nat \<lfloor>pos\<rfloor> + 1) (length s - 1)"
proof -
  let ?i = "nat \<lfloor>pos\<rfloor>" let ?j = "min (?i + 1) (length s - 1)"
  note b = floor_nat_bounds [OF pos(1)]
  have "?i \<le> length s - 1" using b(1) pos(2) by linarith
  then show i: "?i < length s" using s(2) by (cases s) auto
  have le: "s ! ?i \<le> s ! ?j" using s i by (intro sorted_nth_mono) auto
  have t: "0 \<le> pos - real ?i" "pos - real ?i \<le> 1" using b by linarith+
  show "s ! ?i \<le> interp s pos" using t(1) le by (simp add: interp_def)
  have "(pos - real ?i) * (s ! ?j - s ! ?i) \<le> 1 * (s ! ?j - s ! ?i)" using t(2) le by (intro mult_right_mono) auto
  then show "interp s pos \<le> s ! ?j" by (simp add: interp_def)
qed

lemma interp_mono:
  assumes s: "sorted s" "s \<noteq> []" and p: "0 \<le> p" "p \<le> q" "q \<le> real (length s - 1)"
  shows "interp s p \<le> interp s q"
proof (cases "nat \<lfloor>p\<rfloor> = nat \<lfloor>q\<rfloor>")
  case True
  let ?i = "nat \<lfloor>q\<rfloor>" let ?j = "min (?i + 1) (length s - 1)"
  have "?i < length s" using interp_between(1) [OF s, of q] p by simp
  then have "s ! ?i \<le> s ! ?j" using s by (intro sorted_nth_mono) auto
  then show ?thesis using p(2) unfolding interp_def True by (intro add_left_mono mult_right_mono) auto
next
  case False
  have le: "nat \<lfloor>p\<rfloor> \<le> nat \<lfloor>q\<rfloor>" using p by (intro nat_mono floor_mono)
  have q: "nat \<lfloor>q\<rfloor> < length s" using interp_between(1) [OF s, of q] p by simp
  have "interp s p \<le> s ! min (nat \<lfloor>p\<rfloor> + 1) (length s - 1)" using interp_between(3) [OF s, of p] p by simp
  also have "\<dots> \<le> s ! nat \<lfloor>q\<rfloor>" using s q le False by (intro sorted_nth_mono) auto
  also have "\<dots> \<le> interp s q" using interp_between(2) [OF s, of q] p by simp
  finally show ?thesis .
qed

lemma np_percentile_mono:
  assumes "xs \<noteq> []" "0 \<le> p" "p \<le> q" "q \<le> 100"
  shows "np_percentile xs p \<le> np_percentile xs q"
  unfolding np_percentile_interp
proof (rule interp_mono)
  show "sort xs \<noteq> []" using assms(1) by (metis length_0_conv length_sort)
  show "p / 100 * real (length xs - 1) \<le> q / 100 * real (length xs - 1)" using assms by (intro mult_right_mono) auto
  have "q / 100 * real (length xs - 1) \<le> 1 * real (length xs - 1)" using assms by (intro mult_right_mono) auto
  then show "q / 100 * real (length xs - 1) \<le> real (length (sort xs) - 1)" by simp
qed (use assms in simp_all)

lemma np_percentile_between:
  assumes "xs \<noteq> []" "0 \<le> q" "q \<le> 100" and b: "\<And>x. x \<in> set xs \<Longrightarrow> a \<le> x \<and> x \<le> b"
  shows "a \<le> np_percentile xs q" "np_percentile xs q \<le> b"
proof -
  let ?pos = "q / 100 * real (length xs - 1)"
  have s: "sorted (sort xs)" "sort xs \<noteq> []"
    using assms(1) by simp (metis assms(1) length_0_conv length_sort)
  have "?pos \<le> 1 * real (length xs - 1)" using assms by (intro mult_right_mono) auto
  then have p: "0 \<le> ?pos" "?pos \<le> real (length (sort xs) - 1)" using assms by simp_all
  note i = interp_between [OF s p]
  have "a \<le> sort xs ! nat \<lfloor>?pos\<rfloor>" using b [of "sort xs ! nat \<lfloor>?pos\<rfloor>"] nth_mem [OF i(1)] by simp
  then show "a \<le> np_percentile xs q" using i(2) unfolding np_percentile_interp by linarith
  let ?j = "min (nat \<lfloor>?pos\<rfloor> + 1) (length (sort xs) - 1)"
  have "?j < length (sort xs)" using s(2) by (cases "sort xs") (auto simp del: length_sort)
  then have "sort xs ! ?j \<le> b" using b [of "sort xs ! ?j"] nth_mem [of ?j "sort xs"] by simp
  then show "np_percentile xs q \<le> b" using i(3) unfolding np_percentile_interp by linarith
qed

lemma np_percentile_50: "xs \<noteq> [] \<Longrightarrow> np_percentile xs 50 = np_median xs"
proof -
  assume "xs \<noteq> []"
  then have n: "0 < length xs" by simp
  show ?thesis
  proof (cases "odd (length xs)")
    case True
    then obtain k where "length xs = 2 * k + 1" by (elim oddE)
    then show ?thesis by (simp add: np_percentile_def np_median_def Let_def)
  next
    case False
    then obtain k where k: "length xs = 2 * k" by auto
    with n obtain m where m: "k = Suc m" by (cases k) auto
    have pos: "50 / 100 * real (length xs - 1) = real m + 1 / 2" by (simp add: k m field_simps)
    have fl: "nat \<lfloor>real m + 1 / 2\<rfloor> = m" by linarith
    show ?thesis unfolding np_percentile_def pos Let_def fl np_median_def using False k m by (simp add: field_simps)
  qed
qed

lemma mean_between:
  assumes "xs \<noteq> []" and b: "\<And>x. x \<in> set xs \<Longrightarrow> a \<le> x \<and> x \<le> b"
  shows "a \<le> mean xs" "mean xs \<le> b"
proof -
  have "real (length ys) * a \<le> sum_list ys \<and> sum_list ys \<le> real (length ys) * b" if "set ys \<subseteq> set xs" for ys
    using that
  proof (induction ys)
    case (Cons y ys)
    then show ?case using b [of y] by (auto simp: algebra_simps)
  qed simp
  from this [of xs] have "real (length xs) * a \<le> sum_list xs" "sum_list xs \<le> real (length xs) * b" by simp_all
  then show "a \<le> mean xs" "mean xs \<le> b" using assms(1) by (simp_all add: mean_def field_simps)
qed

lemma mean_diff:
  "mean (map (\<lambda>r. f r - g r) rs) = mean (map f rs) - mean (map g rs)"
  by (simp add: mean_def sum_list_subtractf diff_divide_distrib)

lemma lmin_le: "x \<in> set xs \<Longrightarrow> lmin xs \<le> x"
proof -
  have "fold min ys z \<le> z \<and> (\<forall>x \<in> set ys. fold min ys z \<le> x)" for ys :: "'a list" and z
    by (induction ys arbitrary: z) (auto intro: order_trans [OF _ min.cobounded1] order_trans [OF _ min.cobounded2])
  then show "x \<in> set xs \<Longrightarrow> lmin xs \<le> x"
    by (cases xs) (auto simp: lmin_def)
qed

end
