(* ===== verification/Quantise.thy ===== *)
theory Quantise
  imports Compiler Percentiles
begin

text \<open>
  The feature quantisation sweep \<^verbatim>\<open>scripts/quantisation_sweep.py\<close>: per-column uniform quantisation, operating points
  from the precision-recall curve, label flips by class, the sweep over bit depths and its verdict. The sigmoid,
  scikit-learn's scores and its precision-recall curve are arguments; weights are the real numbers their bit patterns
  denote; plots, the JSON layout and printed lines are left out.
\<close>

section \<open>Quantisation\<close>

definition BIT_DEPTHS :: "nat list" where "BIT_DEPTHS = [10, 12, 14, 16, 18, 20, 24, 26]"
definition DEGRADATION_TOLERANCE :: real where "DEGRADATION_TOLERANCE = 5 / 1000"
definition PLAINTEXT_MODULUS_BITS :: nat where "PLAINTEXT_MODULUS_BITS = 26"

text \<open>One entry, then the whole matrix.\<close>

definition quantise_entry :: "nat \<Rightarrow> real \<Rightarrow> real \<Rightarrow> real \<Rightarrow> real" where
  "quantise_entry bits lo hi x =
     (let levels = 2 ^ bits - 1; span = hi - lo; constant = (span = 0);
          span_safe = (if constant then 1 else span);
          normalised = np_clip 0 1 ((x - lo) / span_safe);
          q = of_int (round_half_even (normalised * levels));
          dequantised = q / levels * span_safe + lo
      in if constant then x else dequantised)"

definition quantise :: "real list list \<Rightarrow> nat \<Rightarrow> real list \<Rightarrow> real list \<Rightarrow> real list list" where
  "quantise X bits col_min col_max = map (\<lambda>r. map2 (\<lambda>(lo, hi) x. quantise_entry bits lo hi x) (zip col_min col_max) r) X"

definition logits_of :: "real list list \<Rightarrow> real list \<Rightarrow> real \<Rightarrow> real list" where
  "logits_of X weights bias = map (\<lambda>r. dot r weights + bias) X"

section \<open>Operating points\<close>

record sweep_env =
  se_expit :: "real \<Rightarrow> real"
  se_roc :: "int list \<Rightarrow> real list \<Rightarrow> real res"
  se_ap :: "int list \<Rightarrow> real list \<Rightarrow> real res"
  se_prc :: "int list \<Rightarrow> real list \<Rightarrow> real list \<times> real list \<times> real list"

record op_point =
  op_threshold :: real
  op_precision :: real
  op_recall :: real

record op_points =
  max_f1 :: op_point
  max_f1_value :: real
  recall_90 :: "op_point option"
  recall_95 :: "op_point option"

definition np_idx :: "'a list \<Rightarrow> nat \<Rightarrow> 'a res" where
  "np_idx xs i = (if i < length xs then Ret (xs ! i) else Raise IndexError)"

definition np_argmax :: "real list \<Rightarrow> nat res" where
  "np_argmax xs = (if xs = [] then Raise ValueError else Ret (hd (filter (\<lambda>i. xs ! i = lmax xs) [0..<length xs])))"

definition point_at :: "real list \<Rightarrow> real list \<Rightarrow> real list \<Rightarrow> nat \<Rightarrow> op_point res" where
  "point_at thresholds precision recall i =
     rbind (np_idx thresholds i) (\<lambda>t. rbind (np_idx precision i) (\<lambda>p. rbind (np_idx recall i) (\<lambda>r.
     Ret \<lparr>op_threshold = t, op_precision = p, op_recall = r\<rparr>)))"

definition highest_threshold_at_recall :: "real list \<Rightarrow> real list \<Rightarrow> real list \<Rightarrow> real \<Rightarrow> op_point option res" where
  "highest_threshold_at_recall thresholds precision recall target =
     (let candidates = filter (\<lambda>i. recall ! i \<ge> target) [0..<length recall]
      in if candidates = [] then Ret None
         else rbind (point_at thresholds precision recall (last candidates)) (\<lambda>p. Ret (Some p)))"

definition compute_operating_points :: "sweep_env \<Rightarrow> int list \<Rightarrow> real list \<Rightarrow> op_points res" where
  "compute_operating_points E y probs =
     (case se_prc E y probs of (precision0, recall0, thresholds) \<Rightarrow>
      let precision = butlast precision0; recall = butlast recall0;
          f1 = map2 (\<lambda>p r. if p + r > 0 then 2 * p * r / (p + r) else 0) precision recall in
      rbind (np_argmax f1) (\<lambda>i.
      rbind (point_at thresholds precision recall i) (\<lambda>best.
      rbind (highest_threshold_at_recall thresholds precision recall (90 / 100)) (\<lambda>r90.
      rbind (highest_threshold_at_recall thresholds precision recall (95 / 100)) (\<lambda>r95.
      Ret \<lparr>max_f1 = best, max_f1_value = f1 ! i, recall_90 = r90, recall_95 = r95\<rparr>)))))"

section \<open>Label flips\<close>

record flips =
  fl_threshold :: real
  fraud_missed :: nat
  fraud_missed_frac :: "real option"
  fraud_gained :: nat
  legit_flagged :: nat
  legit_flagged_frac :: "real option"
  legit_cleared :: nat
  total_flips :: nat

definition count3 :: "(int \<Rightarrow> bool \<Rightarrow> bool \<Rightarrow> bool) \<Rightarrow> int list \<Rightarrow> bool list \<Rightarrow> bool list \<Rightarrow> nat" where
  "count3 P ys fs qs = length (filter (\<lambda>(y, f, q). P y f q) (zip ys (zip fs qs)))"

definition flip_breakdown :: "int list \<Rightarrow> real list \<Rightarrow> real list \<Rightarrow> real \<Rightarrow> flips" where
  "flip_breakdown ys float_probs q_probs threshold =
     (let fs = map (\<lambda>p. p \<ge> threshold) float_probs; qs = map (\<lambda>p. p \<ge> threshold) q_probs;
          missed = count3 (\<lambda>y f q. y = 1 \<and> f \<and> \<not> q) ys fs qs;
          gained = count3 (\<lambda>y f q. y = 1 \<and> \<not> f \<and> q) ys fs qs;
          flagged = count3 (\<lambda>y f q. y = 0 \<and> \<not> f \<and> q) ys fs qs;
          cleared = count3 (\<lambda>y f q. y = 0 \<and> f \<and> \<not> q) ys fs qs;
          n_fraud = length (filter (\<lambda>y. y = 1) ys); n_legit = length (filter (\<lambda>y. y = 0) ys)
      in \<lparr>fl_threshold = threshold, fraud_missed = missed,
          fraud_missed_frac = (if n_fraud \<noteq> 0 then Some (real missed / real n_fraud) else None),
          fraud_gained = gained, legit_flagged = flagged,
          legit_flagged_frac = (if n_legit \<noteq> 0 then Some (real flagged / real n_legit) else None),
          legit_cleared = cleared, total_flips = missed + gained + flagged + cleared\<rparr>)"

section \<open>The sweep\<close>

text \<open>The observed range of every column; an array with one column is stretched to the other's width.\<close>

definition stretch :: "nat \<Rightarrow> 'a list \<Rightarrow> 'a list" where
  "stretch n v = (if length v = 1 then replicate n (hd v) else v)"

definition col_bounds :: "real list list \<Rightarrow> real list list \<Rightarrow> (real list \<times> real list) res" where
  "col_bounds X_train X_test =
     (if X_train = [] \<or> X_test = [] then Raise ValueError
      else if ncols X_train \<noteq> ncols X_test \<and> ncols X_train \<noteq> 1 then Raise ValueError
      else
        let lo = (\<lambda>X. map (\<lambda>j. lmin (col j X)) [0..<ncols X]); hi = (\<lambda>X. map (\<lambda>j. lmax (col j X)) [0..<ncols X]);
            n = ncols X_test
        in Ret (map2 min (stretch n (lo X_train)) (lo X_test), map2 max (stretch n (hi X_train)) (hi X_test)))"

record sweep_row =
  sw_bits :: nat
  sw_auc :: real
  sw_auprc :: real
  sw_auc_degradation :: real
  sw_auprc_degradation :: real
  sw_logit_delta_max :: real
  sw_logit_delta_p999 :: real
  sw_flips :: "(string \<times> flips) list"

definition sweep_at :: "sweep_env \<Rightarrow> real list list \<Rightarrow> int list \<Rightarrow> real list \<Rightarrow> real \<Rightarrow> real list \<Rightarrow> real list
    \<Rightarrow> real \<Rightarrow> real \<Rightarrow> (string \<times> op_point) list \<Rightarrow> nat \<Rightarrow> sweep_row res" where
  "sweep_at E X y w bias col_min col_max float_auc float_auprc points bits =
     (let float_logits = logits_of X w bias; float_probs = map (se_expit E) float_logits;
          q_logits = logits_of (quantise X bits col_min col_max) w bias; q_probs = map (se_expit E) q_logits in
      rbind (se_roc E y q_probs) (\<lambda>q_auc.
      rbind (se_ap E y q_probs) (\<lambda>q_auprc.
      let delta = map2 (\<lambda>a b. \<bar>a - b\<bar>) float_logits q_logits in
      Ret \<lparr>sw_bits = bits, sw_auc = q_auc, sw_auprc = q_auprc, sw_auc_degradation = float_auc - q_auc,
           sw_auprc_degradation = float_auprc - q_auprc, sw_logit_delta_max = lmax delta,
           sw_logit_delta_p999 = np_percentile delta (999 / 10),
           sw_flips = map (\<lambda>(name, p). (name, flip_breakdown y float_probs q_probs (op_threshold p))) points\<rparr>)))"

record sweep_report =
  sp_auc :: real
  sp_auprc :: real
  sp_n_fraud :: int
  sp_n_total :: nat
  sp_points :: "(string \<times> op_point) list"
  sp_results :: "sweep_row list"
  sp_verdict :: "nat option"
  sp_margin :: "nat option"

text \<open>The loop over the operating points prints each threshold: a missing one raises.\<close>

definition named_points :: "op_points \<Rightarrow> (string \<times> op_point) list res" where
  "named_points ops =
     (case (recall_90 ops, recall_95 ops) of
        (Some a, Some b) \<Rightarrow> Ret [(''max_f1'', max_f1 ops), (''recall_90'', a), (''recall_95'', b)]
      | _ \<Rightarrow> Raise KeyError)"

definition verdict_bits :: "sweep_row list \<Rightarrow> nat option" where
  "verdict_bits results = map_option sw_bits (find (\<lambda>r. sw_auc_degradation r < DEGRADATION_TOLERANCE) results)"

definition quantisation_main :: "sweep_env \<Rightarrow> store \<Rightarrow> sweep_report res" where
  "quantisation_main E st =
     rbind (np_load_mat st ''artifacts/X_train.npy'') (\<lambda>X_train.
     rbind (np_load_mat st ''artifacts/X_test.npy'') (\<lambda>X_test.
     rbind (np_load_i st ''artifacts/y_test.npy'') (\<lambda>y.
     rbind (load_weights_and_bias (\<lambda>p. rbind (np_load_f st p) (\<lambda>v. Ret (vec v))) (bins st)) (\<lambda>(wv, b).
     let w = map f64_real (elems wv); bias = f64_real b in
     rbind (py_assert (ncols X_test = length w \<and> length w = 256)) (\<lambda>_.
     rbind (col_bounds X_train X_test) (\<lambda>(col_min, col_max).
     let float_probs = map (se_expit E) (logits_of X_test w bias) in
     rbind (se_roc E y float_probs) (\<lambda>float_auc.
     rbind (se_ap E y float_probs) (\<lambda>float_auprc.
     rbind (compute_operating_points E y float_probs) (\<lambda>ops.
     rbind (named_points ops) (\<lambda>points.
     rbind (rmap (sweep_at E X_test y w bias col_min col_max float_auc float_auprc points) BIT_DEPTHS) (\<lambda>results.
     Ret \<lparr>sp_auc = float_auc, sp_auprc = float_auprc, sp_n_fraud = sum_list y, sp_n_total = length y, sp_points = points,
          sp_results = results, sp_verdict = verdict_bits results,
          sp_margin = map_option (\<lambda>v. PLAINTEXT_MODULUS_BITS - v) (verdict_bits results)\<rparr>)))))))))))"

section \<open>Quantisation error\<close>

lemma level_error:
  fixes L s :: real
  assumes "0 < L" "0 < s" "\<bar>q - (x - lo) / s * L\<bar> \<le> 1 / 2"
  shows "\<bar>q / L * s + lo - x\<bar> \<le> s / (2 * L)"
proof -
  have "q / L * s + lo - x = (q - (x - lo) / s * L) * (s / L)"
    using assms(1,2) by (simp add: field_simps)
  then have "\<bar>q / L * s + lo - x\<bar> = \<bar>q - (x - lo) / s * L\<bar> * (s / L)"
    using assms(1,2) by (simp add: abs_mult)
  also have "\<dots> \<le> (1 / 2) * (s / L)" using assms by (intro mult_right_mono) auto
  finally show ?thesis by simp
qed

lemma quantise_entry_error:
  assumes "lo \<le> x" "x \<le> hi" "0 < bits"
  shows "\<bar>quantise_entry bits lo hi x - x\<bar> \<le> (hi - lo) / (2 * (2 ^ bits - 1))"
proof (cases "hi = lo")
  case False
  define L where "L = (2 :: real) ^ bits - 1"
  have "(2 :: real) ^ 1 \<le> 2 ^ bits" using assms(3) by (intro power_increasing) auto
  then have L: "0 < L" by (simp add: L_def)
  have s: "0 < hi - lo" "(hi - lo = 0) = False" using assms False by auto
  have clip: "np_clip 0 1 ((x - lo) / (hi - lo)) = (x - lo) / (hi - lo)" using assms s(1) by (simp add: np_clip_def)
  have "quantise_entry bits lo hi x = of_int (round_half_even ((x - lo) / (hi - lo) * L)) / L * (hi - lo) + lo"
    unfolding quantise_entry_def Let_def s(2) if_False clip L_def ..
  then show ?thesis
    using level_error [OF L s(1) rhe_half_step [of "(x - lo) / (hi - lo) * L"]] by (simp only: L_def)
qed (simp add: quantise_entry_def)

text \<open>A row of values within the column bounds moves its logit by at most half a level per column.\<close>

fun in_bounds :: "real list \<Rightarrow> real list \<Rightarrow> real list \<Rightarrow> bool" where
  "in_bounds (lo # los) (hi # his) (x # xs) = (lo \<le> x \<and> x \<le> hi \<and> in_bounds los his xs)"
| "in_bounds [] [] [] = True"
| "in_bounds _ _ _ = False"

lemma row_logit_error:
  assumes "in_bounds los his r" "0 < bits"
  shows "\<bar>dot r w - dot (map2 (\<lambda>(lo, hi) x. quantise_entry bits lo hi x) (zip los his) r) w\<bar>
    \<le> dot (map abs w) (map2 (-) his los) / (2 * (2 ^ bits - 1))"
  using assms(1)
proof (induction los his r arbitrary: w rule: in_bounds.induct)
  case (1 lo los hi his x xs)
  show ?case
  proof (cases w)
    case (Cons v vs)
    let ?e = "quantise_entry bits lo hi x"
    have "x * v - ?e * v = - (v * (?e - x))" by (simp add: algebra_simps)
    then have "\<bar>x * v - ?e * v\<bar> = \<bar>v\<bar> * \<bar>?e - x\<bar>" by (simp only: abs_minus_cancel abs_mult)
    also have "\<dots> \<le> \<bar>v\<bar> * ((hi - lo) / (2 * (2 ^ bits - 1)))"
      using quantise_entry_error [of lo x hi bits] "1.prems" assms(2) by (intro mult_left_mono) auto
    finally have h: "\<bar>x * v - ?e * v\<bar> \<le> \<bar>v\<bar> * (hi - lo) / (2 * (2 ^ bits - 1))" by simp
    have t: "\<bar>dot xs vs - dot (map2 (\<lambda>(lo, hi) x. quantise_entry bits lo hi x) (zip los his) xs) vs\<bar>
        \<le> dot (map abs vs) (map2 (-) his los) / (2 * (2 ^ bits - 1))" using "1.IH" "1.prems" by simp
    show ?thesis using h t unfolding Cons by (simp add: add_divide_distrib)
  qed simp
qed simp_all

section \<open>Column bounds\<close>

lemma in_boundsI:
  assumes "length los = length xs" "length his = length xs" "\<And>j. j < length xs \<Longrightarrow> los ! j \<le> xs ! j \<and> xs ! j \<le> his ! j"
  shows "in_bounds los his xs"
  using assms
proof (induction los his xs rule: in_bounds.induct)
  case (1 lo los hi his x xs)
  have "los ! j \<le> xs ! j \<and> xs ! j \<le> his ! j" if "j < length xs" for j using 1(4) [of "Suc j"] that by simp
  then show ?case using 1 1(4) [of 0] by simp
qed auto

lemma length_stretch: "length v = n \<or> length v = 1 \<Longrightarrow> length (stretch n v) = n"
  by (auto simp: stretch_def)

lemma col_bounds_in:
  assumes "col_bounds X_train X = Ret (lo, hi)" "r \<in> set X" "\<forall>r \<in> set X. length r = ncols X"
  shows "in_bounds lo hi r"
proof (rule in_boundsI)
  have c: "ncols X_train = ncols X \<or> ncols X_train = 1" using assms(1) by (auto simp: col_bounds_def split: if_splits)
  have lo: "lo = map2 min (stretch (ncols X) (map (\<lambda>j. lmin (col j X_train)) [0..<ncols X_train])) (map (\<lambda>j. lmin (col j X)) [0..<ncols X])"
    and hi: "hi = map2 max (stretch (ncols X) (map (\<lambda>j. lmax (col j X_train)) [0..<ncols X_train])) (map (\<lambda>j. lmax (col j X)) [0..<ncols X])"
    using assms(1) by (auto simp: col_bounds_def Let_def split: if_splits)
  have n: "length r = ncols X" using assms(2,3) by simp
  have st: "length (stretch (ncols X) (map f [0..<ncols X_train])) = ncols X" for f :: "nat \<Rightarrow> real"
    using c by (intro length_stretch) auto
  show "length lo = length r" "length hi = length r" by (simp_all add: lo hi st n)
  fix j assume j: "j < length r"
  have "r ! j \<in> set (col j X)" using assms(2) by (simp add: col_def)
  then have "lmin (col j X) \<le> r ! j" "r ! j \<le> lmax (col j X)" using lmin_le lmax_ge by blast+
  then show "lo ! j \<le> r ! j \<and> r ! j \<le> hi ! j"
    using j n unfolding lo hi by (simp add: st min.coboundedI2 max.coboundedI2)
qed

section \<open>Flips\<close>

lemma count3_add:
  assumes "\<And>y f q. \<not> (P y f q \<and> Q y f q)"
  shows "count3 P ys fs qs + count3 Q ys fs qs = count3 (\<lambda>y f q. P y f q \<or> Q y f q) ys fs qs"
proof -
  have "length (filter (\<lambda>(y, f, q). P y f q) zs) + length (filter (\<lambda>(y, f, q). Q y f q) zs) =
      length (filter (\<lambda>(y, f, q). P y f q \<or> Q y f q) zs)" for zs
    using assms by (induction zs) auto
  then show ?thesis by (simp add: count3_def)
qed

lemma count3_cong:
  assumes "\<And>y f q. y \<in> set ys \<Longrightarrow> P y f q = Q y f q"
  shows "count3 P ys fs qs = count3 Q ys fs qs"
  unfolding count3_def using assms by (intro arg_cong [of _ _ length] filter_cong) (auto dest: set_zip_leftD)

text \<open>With labels 0 and 1 the four counts add up to the samples whose label changed.\<close>

lemma total_flips_changed:
  assumes "set ys \<subseteq> {0, 1}"
  shows "total_flips (flip_breakdown ys fp qp t) =
    count3 (\<lambda>y f q. f \<noteq> q) ys (map (\<lambda>p. p \<ge> t) fp) (map (\<lambda>p. p \<ge> t) qp)"
proof -
  let ?c = "\<lambda>P. count3 P ys (map (\<lambda>p. p \<ge> t) fp) (map (\<lambda>p. p \<ge> t) qp)"
  have "?c (\<lambda>y f q. y = 1 \<and> f \<and> \<not> q) + ?c (\<lambda>y f q. y = 1 \<and> \<not> f \<and> q) + ?c (\<lambda>y f q. y = 0 \<and> \<not> f \<and> q) + ?c (\<lambda>y f q. y = 0 \<and> f \<and> \<not> q)
      = ?c (\<lambda>y f q. ((y = 1 \<and> f \<and> \<not> q \<or> y = 1 \<and> \<not> f \<and> q) \<or> y = 0 \<and> \<not> f \<and> q) \<or> y = 0 \<and> f \<and> \<not> q)"
    by (subst count3_add, blast, subst count3_add, force, subst count3_add, force, rule refl)
  also have "\<dots> = ?c (\<lambda>y f q. f \<noteq> q)" using assms by (intro count3_cong) auto
  finally show ?thesis by (simp add: flip_breakdown_def Let_def)
qed

section \<open>Properties\<close>

lemma main_parts:
  assumes "quantisation_main E st = Ret rep"
  obtains X_train X y v b lo hi where "np_load_mat st ''artifacts/X_train.npy'' = Ret X_train" "np_load_mat st ''artifacts/X_test.npy'' = Ret X"
    "np_load_i st ''artifacts/y_test.npy'' = Ret y" "np_load_f st ''artifacts/weights.npy'' = Ret v"
    "ncols X = 256" "length v = 256" "col_bounds X_train X = Ret (lo, hi)" "sp_verdict rep = verdict_bits (sp_results rep)"
    "rmap (sweep_at E X y (map f64_real v) b lo hi (sp_auc rep) (sp_auprc rep) (sp_points rep)) BIT_DEPTHS = Ret (sp_results rep)"
proof -
  obtain X_train X y wv b lo hi where P: "np_load_mat st ''artifacts/X_train.npy'' = Ret X_train" "np_load_mat st ''artifacts/X_test.npy'' = Ret X"
    "np_load_i st ''artifacts/y_test.npy'' = Ret y"
    "load_weights_and_bias (\<lambda>p. rbind (np_load_f st p) (\<lambda>v. Ret (vec v))) (bins st) = Ret (wv, b)"
    "ncols X = length (elems wv)" "length (elems wv) = 256" "col_bounds X_train X = Ret (lo, hi)" "sp_verdict rep = verdict_bits (sp_results rep)"
    "rmap (sweep_at E X y (map f64_real (elems wv)) (f64_real b) lo hi (sp_auc rep) (sp_auprc rep) (sp_points rep)) BIT_DEPTHS = Ret (sp_results rep)"
    using assms unfolding quantisation_main_def Let_def rbind_Ret_iff py_assert_Ret_iff
    by (auto simp: rbind_Ret_iff split: prod.splits)
  obtain v where "np_load_f st ''artifacts/weights.npy'' = Ret v" "wv = vec v"
    using P(4) by (auto simp: load_weights_and_bias_def rbind_Ret_iff)
  then show thesis using that [OF P(1-3) _ _ _ P(7,8)] P(5,6,9) by simp
qed

lemma sweep_row:
  assumes "rmap (sweep_at E X y w b lo hi a0 p0 points) bs = Ret rows"
  shows "map sw_bits rows = bs \<and> (\<forall>row \<in> set rows. sweep_at E X y w b lo hi a0 p0 points (sw_bits row) = Ret row)"
  using assms
proof (induction bs arbitrary: rows)
  case (Cons k bs)
  then obtain row rest where r: "sweep_at E X y w b lo hi a0 p0 points k = Ret row" "rmap (sweep_at E X y w b lo hi a0 p0 points) bs = Ret rest"
    "rows = row # rest" by (auto simp: rbind_Ret_iff)
  then have "sw_bits row = k" by (auto simp: sweep_at_def Let_def rbind_Ret_iff)
  then show ?case using Cons.IH [OF r(2)] r by simp
qed simp

lemma sweep_at_flips:
  assumes "sweep_at E X y w b lo hi a0 p0 points k = Ret row"
  shows "sw_flips row = map (\<lambda>(name, p). (name, flip_breakdown y (map (se_expit E) (logits_of X w b))
     (map (se_expit E) (logits_of (quantise X k lo hi) w b)) (op_threshold p))) points"
  using assms by (auto simp: sweep_at_def Let_def rbind_Ret_iff)

lemma sweep_at_delta:
  assumes "sweep_at E X y w b lo hi a0 p0 points k = Ret row" "X \<noteq> []" "\<forall>r \<in> set X. in_bounds lo hi r" "0 < k"
  shows "sw_logit_delta_max row \<le> dot (map abs w) (map2 (-) hi lo) / (2 * (2 ^ k - 1))"
proof -
  let ?q = "\<lambda>r. map2 (\<lambda>(lo, hi) x. quantise_entry k lo hi x) (zip lo hi) r"
  let ?d = "map (\<lambda>r. \<bar>dot r w + b - (dot (?q r) w + b)\<bar>) X"
  have "sw_logit_delta_max row = lmax ?d"
    using assms(1) by (auto simp: sweep_at_def Let_def rbind_Ret_iff logits_of_def quantise_def map2_map_map comp_def)
  moreover have "lmax ?d \<in> set ?d" using assms(2) by (intro lmax_in) simp
  ultimately obtain r where r: "r \<in> set X" "sw_logit_delta_max row = \<bar>dot r w + b - (dot (?q r) w + b)\<bar>" by auto
  show ?thesis using row_logit_error [of lo hi r k w] assms(3,4) r by simp
qed

text \<open>C17. The logit of every test row moves, at every bit depth of the sweep, by at most half a quantisation level per
  feature weighted by the model: the reported maximum is bounded by the sum of \<open>\<bar>w\<bar>\<close> times the observed range of the column
  over \<open>2 * (2\<^sup>bits - 1)\<close>.\<close>
theorem sweep_logit_delta_bounded:
  assumes "quantisation_main E st = Ret rep" "np_load_mat st ''artifacts/X_train.npy'' = Ret X_train"
    and "np_load_mat st ''artifacts/X_test.npy'' = Ret X" "np_load_f st ''artifacts/weights.npy'' = Ret v"
    and "\<forall>r \<in> set X. length r = 256"
  shows "\<exists>lo hi. col_bounds X_train X = Ret (lo, hi) \<and> (\<forall>row \<in> set (sp_results rep). sw_bits row \<in> set BIT_DEPTHS \<and>
     sw_logit_delta_max row \<le> dot (map (\<lambda>u. \<bar>f64_real u\<bar>) v) (map2 (-) hi lo) / (2 * (2 ^ sw_bits row - 1)))"
proof -
  obtain y b lo hi where P: "ncols X = 256" "col_bounds X_train X = Ret (lo, hi)"
    "rmap (sweep_at E X y (map f64_real v) b lo hi (sp_auc rep) (sp_auprc rep) (sp_points rep)) BIT_DEPTHS = Ret (sp_results rep)"
    by (rule main_parts [OF assms(1)]) (use assms(2-4) in auto)
  note S = sweep_row [OF P(3)]
  have ne: "X \<noteq> []" using P(2) by (auto simp: col_bounds_def split: if_splits)
  have inb: "\<forall>r \<in> set X. in_bounds lo hi r" using col_bounds_in [OF P(2)] assms(5) P(1) by simp
  have "sw_bits row \<in> set BIT_DEPTHS \<and>
     sw_logit_delta_max row \<le> dot (map (\<lambda>u. \<bar>f64_real u\<bar>) v) (map2 (-) hi lo) / (2 * (2 ^ sw_bits row - 1))"
    if "row \<in> set (sp_results rep)" for row
  proof -
    have b: "sw_bits row \<in> set BIT_DEPTHS" using S that by (metis image_eqI image_set)
    then have "0 < sw_bits row" by (auto simp: BIT_DEPTHS_def)
    then show ?thesis using sweep_at_delta [OF bspec [OF conjunct2 [OF S] that] ne inb] b by (simp add: comp_def)
  qed
  then show ?thesis using P(2) by blast
qed

lemma verdict_bits_iff:
  assumes "sorted (map sw_bits rows)" "distinct (map sw_bits rows)"
  shows "case verdict_bits rows of
      None \<Rightarrow> \<forall>row \<in> set rows. \<not> sw_auc_degradation row < DEGRADATION_TOLERANCE
    | Some k \<Rightarrow> \<exists>row \<in> set rows. sw_bits row = k \<and> sw_auc_degradation row < DEGRADATION_TOLERANCE \<and>
        (\<forall>row' \<in> set rows. sw_bits row' < k \<longrightarrow> \<not> sw_auc_degradation row' < DEGRADATION_TOLERANCE)"
  using assms
proof (induction rows)
  case (Cons row rows)
  show ?case
  proof (cases "sw_auc_degradation row < DEGRADATION_TOLERANCE")
    case True
    then show ?thesis using Cons.prems by (force simp: verdict_bits_def)
  next
    case False
    have "verdict_bits (row # rows) = verdict_bits rows" using False by (simp add: verdict_bits_def)
    moreover note Cons.IH
    ultimately show ?thesis using Cons.prems False by (cases "verdict_bits rows") auto
  qed
qed (simp add: verdict_bits_def)

text \<open>The verdict of the sweep is the least tested bit depth whose AUC degradation is below the tolerance, and there is
  none exactly when no depth qualifies; at every depth and operating point the four class-wise flip counts add up to
  the samples whose label changed.\<close>
theorem sweep_verdict_least:
  assumes "quantisation_main E st = Ret rep" "np_load_mat st ''artifacts/X_train.npy'' = Ret X_train"
    and "np_load_mat st ''artifacts/X_test.npy'' = Ret X" "np_load_i st ''artifacts/y_test.npy'' = Ret y" "set y \<subseteq> {0, 1}"
  shows "map sw_bits (sp_results rep) = BIT_DEPTHS \<and>
    (case sp_verdict rep of
       None \<Rightarrow> \<forall>row \<in> set (sp_results rep). sw_auc_degradation row \<ge> DEGRADATION_TOLERANCE
     | Some k \<Rightarrow> (\<exists>row \<in> set (sp_results rep). sw_bits row = k \<and> sw_auc_degradation row < DEGRADATION_TOLERANCE) \<and>
         (\<forall>row \<in> set (sp_results rep). sw_bits row < k \<longrightarrow> sw_auc_degradation row \<ge> DEGRADATION_TOLERANCE)) \<and>
    (\<exists>w b lo hi. col_bounds X_train X = Ret (lo, hi) \<and>
      (\<forall>row \<in> set (sp_results rep). \<forall>(name, fl) \<in> set (sw_flips row).
         total_flips fl = count3 (\<lambda>y f q. f \<noteq> q) y (map (\<lambda>l. se_expit E l \<ge> fl_threshold fl) (logits_of X w b))
           (map (\<lambda>l. se_expit E l \<ge> fl_threshold fl) (logits_of (quantise X (sw_bits row) lo hi) w b))))"
proof -
  obtain v b lo hi where P: "sp_verdict rep = verdict_bits (sp_results rep)" "col_bounds X_train X = Ret (lo, hi)"
    "rmap (sweep_at E X y (map f64_real v) b lo hi (sp_auc rep) (sp_auprc rep) (sp_points rep)) BIT_DEPTHS = Ret (sp_results rep)"
    by (rule main_parts [OF assms(1)]) (use assms(2-4) in auto)
  note S = sweep_row [OF P(3)]
  have V: "case sp_verdict rep of
       None \<Rightarrow> \<forall>row \<in> set (sp_results rep). sw_auc_degradation row \<ge> DEGRADATION_TOLERANCE
     | Some k \<Rightarrow> (\<exists>row \<in> set (sp_results rep). sw_bits row = k \<and> sw_auc_degradation row < DEGRADATION_TOLERANCE) \<and>
         (\<forall>row \<in> set (sp_results rep). sw_bits row < k \<longrightarrow> sw_auc_degradation row \<ge> DEGRADATION_TOLERANCE)"
    using verdict_bits_iff [of "sp_results rep"] S by (auto simp: P(1) BIT_DEPTHS_def not_less split: option.splits)
  have F: "total_flips fl = count3 (\<lambda>y f q. f \<noteq> q) y (map (\<lambda>l. se_expit E l \<ge> fl_threshold fl) (logits_of X (map f64_real v) b))
           (map (\<lambda>l. se_expit E l \<ge> fl_threshold fl) (logits_of (quantise X (sw_bits row) lo hi) (map f64_real v) b))"
    if row: "row \<in> set (sp_results rep)" and fl: "(name, fl) \<in> set (sw_flips row)" for row name fl
  proof -
    have "sweep_at E X y (map f64_real v) b lo hi (sp_auc rep) (sp_auprc rep) (sp_points rep) (sw_bits row) = Ret row" using S row by blast
    note this = sweep_at_flips [OF this]
    then have "\<exists>t. fl = flip_breakdown y (map (se_expit E) (logits_of X (map f64_real v) b))
        (map (se_expit E) (logits_of (quantise X (sw_bits row) lo hi) (map f64_real v) b)) t"
      using fl by auto
    then obtain t where t: "fl = flip_breakdown y (map (se_expit E) (logits_of X (map f64_real v) b))
        (map (se_expit E) (logits_of (quantise X (sw_bits row) lo hi) (map f64_real v) b)) t" by blast
    have "fl_threshold fl = t" by (simp add: t flip_breakdown_def Let_def)
    then show ?thesis unfolding t using total_flips_changed [OF assms(5)] by (simp add: comp_def)
  qed
  have "\<exists>w b lo hi. col_bounds X_train X = Ret (lo, hi) \<and>
      (\<forall>row \<in> set (sp_results rep). \<forall>(name, fl) \<in> set (sw_flips row).
         total_flips fl = count3 (\<lambda>y f q. f \<noteq> q) y (map (\<lambda>l. se_expit E l \<ge> fl_threshold fl) (logits_of X w b))
           (map (\<lambda>l. se_expit E l \<ge> fl_threshold fl) (logits_of (quantise X (sw_bits row) lo hi) w b)))"
    by (rule exI [of _ "map f64_real v"], rule exI [of _ b], rule exI [of _ lo], rule exI [of _ hi]) (use P(2) F in auto)
  then show ?thesis using S V by blast
qed

text \<open>A run on two samples and 256 weights of 1, with constant scores.\<close>

definition demo_sweep_env :: sweep_env where
  "demo_sweep_env = \<lparr>se_expit = (\<lambda>z. z), se_roc = (\<lambda>_ _. Ret 1), se_ap = (\<lambda>_ _. Ret 1), se_prc = (\<lambda>_ _. ([1, 1], [1, 0], [1 / 2]))\<rparr>"

definition demo_X :: "real list list" where
  "demo_X = [replicate 256 0, replicate 256 1]"

definition demo_sweep_store :: store where
  "demo_sweep_store = \<lparr>bins = [''artifacts/model_weights.bin'' \<mapsto> replicate 12 0],
     arrs = [''artifacts/X_train.npy'' \<mapsto> Mat demo_X, ''artifacts/X_test.npy'' \<mapsto> Mat demo_X,
             ''artifacts/y_test.npy'' \<mapsto> VecI [0, 1], ''artifacts/weights.npy'' \<mapsto> VecF (replicate 256 0x3FF0000000000000)],
     others = {}\<rparr>"

lemma demo_loads:
  "np_load_mat demo_sweep_store ''artifacts/X_train.npy'' = Ret demo_X" "np_load_mat demo_sweep_store ''artifacts/X_test.npy'' = Ret demo_X"
  "np_load_i demo_sweep_store ''artifacts/y_test.npy'' = Ret [0, 1]"
  "np_load_f demo_sweep_store ''artifacts/weights.npy'' = Ret (replicate 256 0x3FF0000000000000)"
  by (simp_all add: np_load_mat_def np_load_i_def np_load_f_def demo_sweep_store_def)

lemma demo_lwb: "load_weights_and_bias (\<lambda>p. rbind (np_load_f demo_sweep_store p) (\<lambda>v. Ret (vec v))) (bins demo_sweep_store)
    = Ret (vec (replicate 256 0x3FF0000000000000), 0)"
proof -
  have "unpack_f64 (take 8 (drop 4 (replicate 12 0))) = Ret 0" by code_simp
  moreover have "bins demo_sweep_store ''artifacts/model_weights.bin'' = Some (replicate 12 0)" by (simp add: demo_sweep_store_def)
  ultimately show ?thesis by (simp add: load_weights_and_bias_def demo_loads read_bytes_def)
qed

lemma rmap_total: "(\<And>x. \<exists>y. f x = Ret y) \<Longrightarrow> \<exists>ys. rmap f xs = Ret ys"
proof (induction xs)
  case (Cons x xs)
  then show ?case by (metis rbind.simps(2) rmap.simps(2))
qed simp

lemma demo_sweep: "\<exists>rep. quantisation_main demo_sweep_env demo_sweep_store = Ret rep"
proof -
  let ?pts = "[(''max_f1'', \<lparr>op_threshold = 1 / 2, op_precision = 1, op_recall = 1\<rparr>),
      (''recall_90'', \<lparr>op_threshold = 1 / 2, op_precision = 1, op_recall = 1\<rparr>), (''recall_95'', \<lparr>op_threshold = 1 / 2, op_precision = 1, op_recall = 1\<rparr>)]"
  obtain lo hi where cb: "col_bounds demo_X demo_X = Ret (lo, hi)" by (simp add: col_bounds_def demo_X_def Let_def)
  have nc: "ncols demo_X = 256" by (simp add: ncols_def demo_X_def)
  have pts: "rbind (compute_operating_points demo_sweep_env y p) named_points = Ret ?pts" for y p
    by (simp add: compute_operating_points_def demo_sweep_env_def np_argmax_def lmax_def point_at_def np_idx_def
        highest_threshold_at_recall_def named_points_def)
  then obtain ops where ops: "compute_operating_points demo_sweep_env y p = Ret (ops y p)" "named_points (ops y p) = Ret ?pts" for y p
    unfolding rbind_Ret_iff by metis
  have sc: "se_roc demo_sweep_env y p = Ret 1" "se_ap demo_sweep_env y p = Ret 1" for y p by (simp_all add: demo_sweep_env_def)
  have "\<exists>row. sweep_at demo_sweep_env demo_X y w b lo hi a0 p0 points k = Ret row" for y w b a0 p0 points k
    by (simp add: sweep_at_def Let_def sc)
  then have rm: "\<exists>rows. rmap (sweep_at demo_sweep_env demo_X y w b lo hi a0 p0 points) BIT_DEPTHS = Ret rows" for y w b a0 p0 points
    by (rule rmap_total)
  obtain rows where rows: "rmap (sweep_at demo_sweep_env demo_X [0, 1] (map f64_real (replicate 256 0x3FF0000000000000)) (f64_real 0) lo hi 1 1 ?pts)
      BIT_DEPTHS = Ret rows" using rm by blast
  show ?thesis
    unfolding quantisation_main_def demo_loads demo_lwb rbind.simps prod.case Let_def nc cb sc ops vec_simps rows by simp
qed

theorem sweep_logit_delta_bounded_witness:
  "\<exists>rep lo hi. quantisation_main demo_sweep_env demo_sweep_store = Ret rep \<and> col_bounds demo_X demo_X = Ret (lo, hi) \<and>
    (\<forall>row \<in> set (sp_results rep). sw_logit_delta_max row
       \<le> dot (map (\<lambda>u. \<bar>f64_real u\<bar>) (replicate 256 0x3FF0000000000000)) (map2 (-) hi lo) / (2 * (2 ^ sw_bits row - 1)))"
proof -
  obtain rep where rep: "quantisation_main demo_sweep_env demo_sweep_store = Ret rep" using demo_sweep by blast
  have "\<forall>r \<in> set demo_X. length r = 256" by (simp add: demo_X_def)
  from sweep_logit_delta_bounded [OF rep demo_loads(1,2,4) this] rep show ?thesis by blast
qed

theorem sweep_verdict_least_witness:
  "\<exists>rep. quantisation_main demo_sweep_env demo_sweep_store = Ret rep \<and> map sw_bits (sp_results rep) = BIT_DEPTHS"
proof -
  obtain rep where rep: "quantisation_main demo_sweep_env demo_sweep_store = Ret rep" using demo_sweep by blast
  have "set [0, 1] \<subseteq> {0, 1 :: int}" by simp
  from sweep_verdict_least [OF rep demo_loads(1-3) this] rep show ?thesis by blast
qed

end
