(* ===== verification/Pipeline.thy ===== *)
theory Pipeline
  imports Json
begin

text \<open>
  The reproduction pipeline \<^verbatim>\<open>scripts/reproduce_all.py\<close>: its table of thirteen steps, prerequisites, server
  start (a polling loop with a deadline) and stop, the execution of one step with its output checks, and the
  driver with its \<^verbatim>\<open>finally\<close> clause. What a command does to the files is an argument; processes and the log
  of what was executed are explicit state. Printed plans and progress lines are not modelled.
\<close>

section \<open>The plan\<close>

record step =
  st_n :: nat
  st_label :: string
  st_server :: bool
  st_commands :: "string list list"
  st_outputs :: "path list"

definition py_cmd :: "string \<Rightarrow> string list" where
  "py_cmd script = [''python3'', script]"

definition STEPS_PLAN :: "step list" where
  "STEPS_PLAN =
   [\<lparr>st_n = 1, st_label = ''Train XGBoost + fit LR surrogate'', st_server = False,
      st_commands = [py_cmd ''compiler/train_xgboost.py'', py_cmd ''compiler/train_logistic_regression.py''],
      st_outputs = [''artifacts/X_train.npy'', ''artifacts/X_test.npy'', ''artifacts/y_train.npy'', ''artifacts/y_test.npy'',
        ''artifacts/model_weights.bin'', ''artifacts/weights.npy'', ''artifacts/scaler.pkl'', ''artifacts/poly.pkl'',
        ''artifacts/xgb_model.pkl'']\<rparr>,
    \<lparr>st_n = 2, st_label = ''Generate HE keys (160-bit)'', st_server = False,
      st_commands = [py_cmd ''compiler/gen_keys_160.py''],
      st_outputs = [''artifacts/secret_key_160.bin'', ''artifacts/public_key_160.bin'', ''artifacts/galois_keys_160.bin'',
        ''artifacts/model_weights.bin'']\<rparr>,
    \<lparr>st_n = 3, st_label = ''Structural verification (verify_all.py)'', st_server = False,
      st_commands = [py_cmd ''tests/verify_all.py''], st_outputs = []\<rparr>,
    \<lparr>st_n = 4, st_label = ''C++ unit tests (ctest)'', st_server = False,
      st_commands = [[''ctest'', ''--test-dir'', ''vendor_server/build'', ''--output-on-failure'']], st_outputs = []\<rparr>,
    \<lparr>st_n = 5, st_label = ''Latency benchmark (benchmark_comparison.py) [SERVER]'', st_server = True,
      st_commands = [py_cmd ''tests/benchmark_comparison.py''], st_outputs = [''artifacts/comparison_results.json'']\<rparr>,
    \<lparr>st_n = 6, st_label = ''Throughput benchmark (benchmark_throughput.py) [SERVER]'', st_server = True,
      st_commands = [py_cmd ''tests/benchmark_throughput.py''], st_outputs = [''artifacts/throughput_results.json'']\<rparr>,
    \<lparr>st_n = 7, st_label = ''Rotation strategy comparison [SERVER]'', st_server = True,
      st_commands = [py_cmd ''scripts/rotation_strategy_comparison.py''],
      st_outputs = [''artifacts/rotation_strategy_comparison.json'']\<rparr>,
    \<lparr>st_n = 8, st_label = ''Ciphertext wire sizes'', st_server = False,
      st_commands = [py_cmd ''scripts/measure_wire_size.py''], st_outputs = [''artifacts/wire_sizes.json'']\<rparr>,
    \<lparr>st_n = 9, st_label = ''Amortization table (from throughput artifacts)'', st_server = False,
      st_commands = [py_cmd ''scripts/generate_amortization_table.py''], st_outputs = [''artifacts/amortization_table.json'']\<rparr>,
    \<lparr>st_n = 10, st_label = ''Privacy cost analysis [SERVER]'', st_server = True,
      st_commands = [py_cmd ''scripts/privacy_cost_analysis.py''], st_outputs = [''artifacts/privacy_cost_analysis.json'']\<rparr>,
    \<lparr>st_n = 11, st_label = ''Ablation methodology (naive vs fold) [SERVER]'', st_server = True,
      st_commands = [py_cmd ''scripts/generate_ablation.py''], st_outputs = [''artifacts/ablation_methodology.json'']\<rparr>,
    \<lparr>st_n = 12, st_label = ''Execution matrix [SERVER]'', st_server = True,
      st_commands = [py_cmd ''scripts/build_execution_matrix.py''], st_outputs = [''artifacts/execution_matrix.json'']\<rparr>,
    \<lparr>st_n = 13, st_label = ''Research figures and tables (generate_research_artifacts.py) [SERVER]'', st_server = True,
      st_commands = [py_cmd ''scripts/generate_research_artifacts.py''], st_outputs = []\<rparr>]"

section \<open>System state\<close>

datatype srv = S160 | S200

datatype event = EvStart srv | EvStop srv | EvCmd nat "string list" bool bool int

text \<open>A command event carries the step, the command, whether each server process was alive when it ran, and the
  exit status. \<open>sy_alive\<close> tells which server processes of this run are alive; the log is the run so far.\<close>

record sys =
  sy_files :: jfs
  sy_alive :: "srv \<Rightarrow> bool"
  sy_log :: "event list"

text \<open>What a run depends on: what a command returns and does to the files, given the server processes
  that are alive; whether a server process survives a command (servers may crash); the readings of
  \<^verbatim>\<open>time.time\<close> and the outcome of the connection attempts while a server starts; whether a
  terminated server ends within ten seconds (the outcome is the same: it is killed otherwise).\<close>

record os =
  os_run :: "string list \<Rightarrow> (srv \<Rightarrow> bool) \<Rightarrow> jfs \<Rightarrow> int \<times> jfs"
  os_survives :: "srv \<Rightarrow> event list \<Rightarrow> bool"
  os_time :: "srv \<Rightarrow> event list \<Rightarrow> nat \<Rightarrow> real"
  os_connect :: "srv \<Rightarrow> event list \<Rightarrow> nat \<Rightarrow> bool"

definition bin_of :: "srv \<Rightarrow> path" where
  "bin_of s = (case s of S160 \<Rightarrow> ''vendor_server/build/vendor_server_160'' | S200 \<Rightarrow> ''vendor_server/build/vendor_server_main'')"

definition port_of :: "srv \<Rightarrow> nat" where
  "port_of s = (case s of S160 \<Rightarrow> 50052 | S200 \<Rightarrow> 50051)"

definition check_prerequisites :: "jfs \<Rightarrow> unit res" where
  "check_prerequisites fs =
     (if list_all (\<lambda>p. fs p \<noteq> None) [''data/creditcard.csv'', bin_of S160, bin_of S200] then Ret ()
      else Raise (SystemExit 1))"

section \<open>Starting and stopping servers\<close>

text \<open>The polling loop: reading \<open>i\<close> of the clock against the deadline, then connection attempt \<open>i\<close>. \<open>None\<close>
  is running out of fuel.\<close>

fun poll_port :: "(nat \<Rightarrow> real) \<Rightarrow> (nat \<Rightarrow> bool) \<Rightarrow> real \<Rightarrow> nat \<Rightarrow> nat \<Rightarrow> bool option" where
  "poll_port clk con deadline 0 i = None"
| "poll_port clk con deadline (Suc fuel) i =
     (if clk i < deadline then (if con i then Some True else poll_port clk con deadline fuel (Suc i))
      else Some False)"

text \<open>Each failed attempt sleeps 0.2 seconds, so 150 attempts pass the 30-second deadline; one more step
  sees it.\<close>

definition POLL_FUEL :: nat where "POLL_FUEL = 152"

definition start_server :: "os \<Rightarrow> srv \<Rightarrow> sys \<Rightarrow> unit res \<times> sys" where
  "start_server E s y =
     (let clk = os_time E s (sy_log y);
          y1 = y\<lparr>sy_alive := (sy_alive y)(s := True), sy_log := sy_log y @ [EvStart s]\<rparr>
      in case poll_port (\<lambda>i. clk (Suc i)) (os_connect E s (sy_log y)) (clk 0 + 30) POLL_FUEL 0 of
           Some True \<Rightarrow> (Ret (), y1)
         | _ \<Rightarrow> (Raise RuntimeError, y1\<lparr>sy_alive := (sy_alive y)(s := False), sy_log := sy_log y @ [EvStart s, EvStop s]\<rparr>))"

definition stop_pipeline_server :: "srv \<Rightarrow> sys \<Rightarrow> sys" where
  "stop_pipeline_server s y =
     (if sy_alive y s then y\<lparr>sy_alive := (sy_alive y)(s := False), sy_log := sy_log y @ [EvStop s]\<rparr> else y)"

section \<open>Running a step\<close>

fun run_commands :: "os \<Rightarrow> nat \<Rightarrow> string list list \<Rightarrow> sys \<Rightarrow> unit res \<times> sys" where
  "run_commands E n [] y = (Ret (), y)"
| "run_commands E n (cmd # cmds) y =
     (let (rc, fs) = os_run E cmd (sy_alive y) (sy_files y);
          y1 = \<lparr>sy_files = fs, sy_alive = (\<lambda>s. sy_alive y s \<and> os_survives E s (sy_log y)), sy_log = sy_log y @ [EvCmd n cmd (sy_alive y S160) (sy_alive y S200) rc]\<rparr>
      in if rc \<noteq> 0 then (Raise (SystemExit rc), y1) else run_commands E n cmds y1)"

definition output_ok :: "jfs \<Rightarrow> path \<Rightarrow> bool" where
  "output_ok fs p \<longleftrightarrow> fs p \<noteq> None \<and> (ends_with ''.json'' p \<longrightarrow> fs p \<noteq> Some None)"

definition run_step :: "os \<Rightarrow> step \<Rightarrow> sys \<Rightarrow> unit res \<times> sys" where
  "run_step E st y =
     (case run_commands E (st_n st) (st_commands st) y of
        (Inl e, y1) \<Rightarrow> (Inl e, y1)
      | (Inr _, y1) \<Rightarrow> (if list_all (output_ok (sy_files y1)) (st_outputs st) then Ret () else Raise (SystemExit 1), y1))"

section \<open>The driver\<close>

text \<open>The two handles and the flag \<^verbatim>\<open>servers_running\<close> of \<^verbatim>\<open>main\<close>.\<close>

record driver =
  h160 :: bool
  h200 :: bool
  servers_running :: bool

definition stop_if :: "bool \<Rightarrow> srv \<Rightarrow> sys \<Rightarrow> sys" where
  "stop_if h s y = (if h then stop_pipeline_server s y else y)"

definition switch_servers :: "os \<Rightarrow> bool \<Rightarrow> driver \<Rightarrow> sys \<Rightarrow> unit res \<times> driver \<times> sys" where
  "switch_servers E need d y =
     (if need \<and> \<not> servers_running d then
        (case start_server E S160 y of
           (Inl e, y1) \<Rightarrow> (Inl e, d, y1)
         | (Inr _, y1) \<Rightarrow>
           let d1 = d\<lparr>h160 := True\<rparr> in
           (case start_server E S200 y1 of
              (Inl e, y2) \<Rightarrow> (Inl e, d1, y2)
            | (Inr _, y2) \<Rightarrow> (Ret (), d1\<lparr>h200 := True, servers_running := True\<rparr>, y2)))
      else if \<not> need \<and> servers_running d then
        (Ret (), \<lparr>h160 = False, h200 = False, servers_running = False\<rparr>, stop_if (h200 d) S200 (stop_if (h160 d) S160 y))
      else (Ret (), d, y))"

fun run_steps :: "os \<Rightarrow> step list \<Rightarrow> driver \<Rightarrow> sys \<Rightarrow> unit res \<times> driver \<times> sys" where
  "run_steps E [] d y = (Ret (), d, y)"
| "run_steps E (st # sts) d y =
     (case switch_servers E (st_server st) d y of
        (Inl e, d1, y1) \<Rightarrow> (Inl e, d1, y1)
      | (Inr _, d1, y1) \<Rightarrow>
        (case run_step E st y1 of
           (Inl e, y2) \<Rightarrow> (Inl e, d1, y2)
         | (Inr _, y2) \<Rightarrow> run_steps E sts d1 y2))"

definition reproduce_main :: "os \<Rightarrow> bool \<Rightarrow> int \<Rightarrow> jfs \<Rightarrow> int res \<times> sys" where
  "reproduce_main E dry_run from_step fs =
     (let y0 = \<lparr>sy_files = fs, sy_alive = (\<lambda>_. False), sy_log = []\<rparr> in
      if dry_run then (Ret 0, y0)
      else case check_prerequisites fs of
        Inl e \<Rightarrow> (Inl e, y0)
      | Inr _ \<Rightarrow>
        let steps_to_run = filter (\<lambda>s. from_step \<le> int (st_n s)) STEPS_PLAN in
        if steps_to_run = [] then (Ret 1, y0)
        else
          let (r, d, y) = run_steps E steps_to_run \<lparr>h160 = False, h200 = False, servers_running = False\<rparr> y0;
              y1 = stop_if (h200 d) S200 (stop_if (h160 d) S160 y)
          in (rbind r (\<lambda>_. Ret 0), y1))"

section \<open>Polling ends\<close>

lemma poll_port_eq:
  assumes "\<And>i. clk i + 1 / 5 \<le> clk (Suc i)" "0 < fuel" "dl \<le> clk i + real (fuel - 1) / 5"
  shows "poll_port clk con dl fuel i = Some (\<exists>j\<ge>i. clk j < dl \<and> con j)"
  using assms(2,3)
proof (induction fuel arbitrary: i)
  case (Suc fuel)
  have mono: "clk i \<le> clk j" if "i \<le> j" for j
    using that
  proof (induction rule: dec_induct)
    case (step n)
    then show ?case using assms(1) [of n] by linarith
  qed simp
  show ?case
  proof (cases "clk i < dl")
    case False
    then show ?thesis using mono by (auto simp: not_less intro: order_trans)
  next
    case True
    have ex: "(\<exists>j\<ge>i. clk j < dl \<and> con j) \<longleftrightarrow> con i \<or> (\<exists>j\<ge>Suc i. clk j < dl \<and> con j)"
      using True by (metis Suc_leD le_antisym not_less_eq_eq order_refl)
    show ?thesis
    proof (cases "con i")
      case False
      have "0 < fuel" using Suc.prems True by (cases fuel) auto
      moreover from this have "dl \<le> clk (Suc i) + real (fuel - 1) / 5"
        using Suc.prems(2) assms(1) [of i] by (simp add: of_nat_diff field_simps)
      ultimately have "poll_port clk con dl fuel (Suc i) = Some (\<exists>j\<ge>Suc i. clk j < dl \<and> con j)" by (rule Suc.IH)
      then show ?thesis using True False ex by simp
    qed (use True in auto)
  qed
qed simp

section \<open>Invariants of the driver\<close>

definition no_crash :: "os \<Rightarrow> bool" where
  "no_crash E \<longleftrightarrow> (\<forall>s l. os_survives E s l)"

text \<open>At the head of the loop the handles agree with the flag, a server that is alive is one the flag knows,
  and without crashes the converse holds.\<close>

definition loop_inv :: "os \<Rightarrow> driver \<Rightarrow> sys \<Rightarrow> bool" where
  "loop_inv E d y \<longleftrightarrow> h160 d = servers_running d \<and> h200 d = servers_running d
     \<and> (\<forall>s. sy_alive y s \<longrightarrow> servers_running d) \<and> (no_crash E \<longrightarrow> servers_running d \<longrightarrow> (\<forall>s. sy_alive y s))"

text \<open>Whenever the loop is left, a server that is alive has a handle.\<close>

definition exit_inv :: "driver \<Rightarrow> sys \<Rightarrow> bool" where
  "exit_inv d y \<longleftrightarrow> (sy_alive y S160 \<longrightarrow> h160 d) \<and> (sy_alive y S200 \<longrightarrow> h200 d)"

definition cmd_event_ok :: "os \<Rightarrow> event \<Rightarrow> bool" where
  "cmd_event_ok E ev = (case ev of
     EvCmd n cmd a b rc \<Rightarrow> \<exists>st \<in> set STEPS_PLAN. st_n st = n \<and> cmd \<in> set (st_commands st)
        \<and> (\<not> st_server st \<longrightarrow> \<not> a \<and> \<not> b) \<and> (st_server st \<longrightarrow> no_crash E \<longrightarrow> a \<and> b)
        \<and> (\<exists>fs. rc = fst (os_run E cmd (case_srv a b) fs))
   | _ \<Rightarrow> True)"

definition log_ok :: "os \<Rightarrow> sys \<Rightarrow> bool" where
  "log_ok E y \<longleftrightarrow> list_all (cmd_event_ok E) (sy_log y)"

lemma srv_all: "(\<forall>s. P s) \<longleftrightarrow> P S160 \<and> P S200"
  by (metis srv.exhaust)

text \<open>How the server processes may change over a command or step: none appears, and without crashes none
  disappears.\<close>

definition alive_le :: "os \<Rightarrow> sys \<Rightarrow> sys \<Rightarrow> bool" where
  "alive_le E y y' \<longleftrightarrow> (\<forall>s. sy_alive y' s \<longrightarrow> sy_alive y s) \<and> (no_crash E \<longrightarrow> (\<forall>s. sy_alive y s \<longrightarrow> sy_alive y' s))"

text \<open>The processes are what a step needs.\<close>

definition alive_fits :: "os \<Rightarrow> bool \<Rightarrow> sys \<Rightarrow> bool" where
  "alive_fits E need y \<longleftrightarrow> (\<not> need \<longrightarrow> (\<forall>s. \<not> sy_alive y s)) \<and> (need \<longrightarrow> no_crash E \<longrightarrow> (\<forall>s. sy_alive y s))"

lemma alive_le_refl [simp]: "alive_le E y y"
  by (simp add: alive_le_def)

lemma alive_le_trans: "alive_le E y1 y2 \<Longrightarrow> alive_le E y2 y3 \<Longrightarrow> alive_le E y1 y3"
  unfolding alive_le_def by blast

lemma alive_fits_le: "alive_fits E need y \<Longrightarrow> alive_le E y y' \<Longrightarrow> alive_fits E need y'"
  unfolding alive_fits_def alive_le_def by blast

lemma loop_inv_le: "loop_inv E d y \<Longrightarrow> alive_le E y y' \<Longrightarrow> loop_inv E d y'"
  unfolding loop_inv_def alive_le_def by blast

lemma loop_inv_fits: "loop_inv E d y \<Longrightarrow> alive_fits E (servers_running d) y"
  unfolding loop_inv_def alive_fits_def by blast

lemma loop_inv_exit: "loop_inv E d y \<Longrightarrow> exit_inv d y"
  unfolding loop_inv_def exit_inv_def by blast

lemma run_commands_inv:
  assumes "run_commands E n cmds y = (r, y')" "st \<in> set STEPS_PLAN" "st_n st = n" "set cmds \<subseteq> set (st_commands st)"
    and "log_ok E y" "alive_fits E (st_server st) y"
  shows "log_ok E y' \<and> alive_le E y y'"
  using assms
proof (induction cmds arbitrary: y)
  case (Cons cmd cmds)
  obtain rc fs where rc: "os_run E cmd (sy_alive y) (sy_files y) = (rc, fs)" by fastforce
  let ?y = "\<lparr>sy_files = fs, sy_alive = (\<lambda>s. sy_alive y s \<and> os_survives E s (sy_log y)),
      sy_log = sy_log y @ [EvCmd n cmd (sy_alive y S160) (sy_alive y S200) rc]\<rparr>"
  have "cmd \<in> set (st_commands st)" using Cons.prems(4) by simp
  moreover have "case_srv (sy_alive y S160) (sy_alive y S200) = sy_alive y" by (auto simp: fun_eq_iff split: srv.split)
  then have "rc = fst (os_run E cmd (case_srv (sy_alive y S160) (sy_alive y S200)) (sy_files y))" using rc by simp
  ultimately have "cmd_event_ok E (EvCmd n cmd (sy_alive y S160) (sy_alive y S200) rc)"
    using Cons.prems(2,3,6) unfolding cmd_event_ok_def event.case alive_fits_def by blast
  then have log: "log_ok E ?y" using Cons.prems(5) by (simp add: log_ok_def)
  have le: "alive_le E y ?y" by (simp add: alive_le_def no_crash_def)
  show ?case
  proof (cases "rc = 0")
    case True
    have rest: "run_commands E n cmds ?y = (r, y')" using Cons.prems(1) rc True by (simp add: Let_def)
    have sub: "set cmds \<subseteq> set (st_commands st)" using Cons.prems(4) by simp
    show ?thesis
      using Cons.IH [OF rest Cons.prems(2,3) sub log alive_fits_le [OF Cons.prems(6) le]] alive_le_trans [OF le] by blast
  next
    case False
    then have "y' = ?y" using Cons.prems(1) rc by (simp add: Let_def)
    then show ?thesis using log le by simp
  qed
qed simp

lemma run_step_inv:
  assumes "run_step E st y = (r, y')" "st \<in> set STEPS_PLAN" "log_ok E y" "alive_fits E (st_server st) y"
  shows "log_ok E y' \<and> alive_le E y y'"
proof -
  obtain r0 where "run_commands E (st_n st) (st_commands st) y = (r0, y')"
    using assms(1) by (auto simp: run_step_def split: sum.splits prod.splits)
  from run_commands_inv [OF this assms(2) refl order_refl assms(3,4)] show ?thesis .
qed

lemma start_stop_event_ok [simp]: "cmd_event_ok E (EvStart s)" "cmd_event_ok E (EvStop s)"
  by (simp_all add: cmd_event_ok_def)

lemma start_server_ok:
  assumes "start_server E s y = (r, y')"
  shows "sy_alive y' = (sy_alive y)(s := (r = Ret ()))" "sy_files y' = sy_files y" "log_ok E y \<Longrightarrow> log_ok E y'"
  using assms by (auto simp: start_server_def Let_def log_ok_def split: option.splits bool.splits)

lemma stop_if_ok:
  "log_ok E y \<Longrightarrow> log_ok E (stop_if h s y)"
  "sy_alive (stop_if h s y) t \<longleftrightarrow> sy_alive y t \<and> \<not> (h \<and> s = t)"
  "sy_files (stop_if h s y) = sy_files y"
  by (auto simp: stop_if_def stop_pipeline_server_def log_ok_def)

lemma switch_start_inv:
  assumes "switch_servers E True d y = (r, d', y')" "loop_inv E d y" "log_ok E y" "\<not> servers_running d"
  shows "log_ok E y' \<and> exit_inv d' y' \<and> sy_files y' = sy_files y \<and> (r = Ret () \<longrightarrow> loop_inv E d' y' \<and> servers_running d')"
proof -
  obtain r1 y1 where s1: "start_server E S160 y = (r1, y1)" by fastforce
  obtain r2 y2 where s2: "start_server E S200 y1 = (r2, y2)" by fastforce
  note a1 = start_server_ok [OF s1] and a2 = start_server_ok [OF s2]
  have none: "\<not> sy_alive y S160" "\<not> sy_alive y S200" "\<not> h160 d" "\<not> h200 d"
    using assms(2,4) by (simp_all add: loop_inv_def)
  have sw: "switch_servers E True d y = (case r1 of Inl e \<Rightarrow> (Inl e, d, y1)
      | Inr _ \<Rightarrow> (case r2 of Inl e \<Rightarrow> (Inl e, d\<lparr>h160 := True\<rparr>, y2)
         | Inr _ \<Rightarrow> (Ret (), d\<lparr>h160 := True, h200 := True, servers_running := True\<rparr>, y2)))"
    using assms(4) by (simp add: switch_servers_def s1 s2 Let_def split: sum.splits)
  show ?thesis
  proof (cases r1)
    case (Inl e)
    then show ?thesis using assms(1,3) sw a1 none by (auto simp: exit_inv_def)
  next
    case r1: (Inr u)
    show ?thesis
    proof (cases r2)
      case (Inl e)
      then show ?thesis using assms(1,3) sw r1 a1 a2 none by (auto simp: exit_inv_def)
    next
      case (Inr v)
      then have "y' = y2" "d' = d\<lparr>h160 := True, h200 := True, servers_running := True\<rparr>" "r = Ret ()"
        using assms(1) sw r1 by simp_all
      then show ?thesis using assms(3) r1 Inr a1 a2 by (simp add: exit_inv_def loop_inv_def srv_all)
    qed
  qed
qed

lemma switch_inv:
  assumes "switch_servers E need d y = (r, d', y')" "loop_inv E d y" "log_ok E y"
  shows "log_ok E y' \<and> exit_inv d' y' \<and> sy_files y' = sy_files y \<and> (r = Ret () \<longrightarrow> loop_inv E d' y' \<and> servers_running d' = need)"
proof -
  consider (start) "need" "\<not> servers_running d" | (stop) "\<not> need" "servers_running d" | (keep) "servers_running d = need"
    by auto
  then show ?thesis
  proof cases
    case start
    then show ?thesis using switch_start_inv [of E d y r d' y'] assms by simp
  next
    case stop
    have h: "h160 d" "h200 d" using assms(2) stop by (simp_all add: loop_inv_def)
    have e: "d' = \<lparr>h160 = False, h200 = False, servers_running = False\<rparr>" "y' = stop_if True S200 (stop_if True S160 y)"
      using assms(1) stop h by (simp_all add: switch_servers_def)
    have "\<not> sy_alive y' s" for s by (cases s) (simp_all add: e stop_if_ok(2))
    then show ?thesis using stop e assms(3) by (simp add: stop_if_ok loop_inv_def exit_inv_def)
  next
    case keep
    then have "d' = d" "y' = y" using assms(1) by (auto simp: switch_servers_def split: if_splits)
    then show ?thesis using keep assms(2,3) loop_inv_exit by simp
  qed
qed

text \<open>One iteration of the loop, with its intermediate states.\<close>

lemma run_steps_Cons:
  assumes "run_steps E (st # sts) d y = (r, d', y')"
  obtains (switch) e where "switch_servers E (st_server st) d y = (Inl e, d', y')" "r = Inl e"
  | (step) y1 e where "switch_servers E (st_server st) d y = (Ret (), d', y1)" "run_step E st y1 = (Inl e, y')" "r = Inl e"
  | (rest) d1 y1 y2 where "switch_servers E (st_server st) d y = (Ret (), d1, y1)" "run_step E st y1 = (Ret (), y2)"
      "run_steps E sts d1 y2 = (r, d', y')"
  using assms by (auto split: sum.splits prod.splits)

lemma run_steps_inv:
  assumes "run_steps E sts d y = (r, d', y')" "set sts \<subseteq> set STEPS_PLAN" "loop_inv E d y" "log_ok E y"
  shows "log_ok E y' \<and> exit_inv d' y'"
  using assms
proof (induction sts arbitrary: d y)
  case Nil
  then show ?case using loop_inv_exit by simp
next
  case (Cons st sts)
  have st: "st \<in> set STEPS_PLAN" "set sts \<subseteq> set STEPS_PLAN" using Cons.prems(2) by simp_all
  from Cons.prems(1) show ?case
  proof (cases rule: run_steps_Cons)
    case switch
    then show ?thesis using switch_inv [OF _ Cons.prems(3,4)] by blast
  next
    case (step y1 e)
    then have i: "log_ok E y1" "loop_inv E d' y1" "servers_running d' = st_server st"
      using switch_inv [OF step(1) Cons.prems(3,4)] by simp_all
    have "log_ok E y' \<and> alive_le E y1 y'"
      using run_step_inv [OF step(2) st(1) i(1)] loop_inv_fits [OF i(2)] i(3) by simp
    then show ?thesis using loop_inv_exit loop_inv_le [OF i(2)] by blast
  next
    case (rest d1 y1 y2)
    then have i: "log_ok E y1" "loop_inv E d1 y1" "servers_running d1 = st_server st"
      using switch_inv [OF rest(1) Cons.prems(3,4)] by simp_all
    have "log_ok E y2 \<and> alive_le E y1 y2"
      using run_step_inv [OF rest(2) st(1) i(1)] loop_inv_fits [OF i(2)] i(3) by simp
    then show ?thesis using Cons.IH [OF rest(3) st(2)] loop_inv_le [OF i(2)] by blast
  qed
qed

section \<open>What was executed\<close>

definition cmd_trace :: "sys \<Rightarrow> (nat \<times> string list \<times> int) list" where
  "cmd_trace y = concat (map (\<lambda>ev. case ev of EvCmd n c a b rc \<Rightarrow> [(n, c, rc)] | _ \<Rightarrow> []) (sy_log y))"

definition step_trace :: "step \<Rightarrow> (nat \<times> string list \<times> int) list" where
  "step_trace st = map (\<lambda>c. (st_n st, c, 0)) (st_commands st)"

text \<open>A property of the files that no command destroys.\<close>

definition preserved :: "os \<Rightarrow> (jfs \<Rightarrow> bool) \<Rightarrow> bool" where
  "preserved E Q \<longleftrightarrow> (\<forall>cmd al fs. Q fs \<longrightarrow> Q (snd (os_run E cmd al fs)))"

lemma run_commands_ok:
  "run_commands E n cmds y = (Ret u, y') \<Longrightarrow> cmd_trace y' = cmd_trace y @ map (\<lambda>c. (n, c, 0)) cmds"
proof (induction cmds arbitrary: y)
  case (Cons cmd cmds)
  obtain rc fs where rc: "os_run E cmd (sy_alive y) (sy_files y) = (rc, fs)" by fastforce
  with Cons.prems have z: "rc = 0" by (auto simp: Let_def split: if_splits)
  let ?y = "\<lparr>sy_files = fs, sy_alive = (\<lambda>s. sy_alive y s \<and> os_survives E s (sy_log y)),
      sy_log = sy_log y @ [EvCmd n cmd (sy_alive y S160) (sy_alive y S200) 0]\<rparr>"
  have "run_commands E n cmds ?y = (Ret u, y')" using Cons.prems rc z by (simp add: Let_def)
  from Cons.IH [OF this] show ?case by (simp add: cmd_trace_def)
qed simp

lemma run_commands_preserved:
  assumes "preserved E Q"
  shows "run_commands E n cmds y = (r, y') \<Longrightarrow> Q (sy_files y) \<Longrightarrow> Q (sy_files y')"
proof (induction cmds arbitrary: y)
  case (Cons cmd cmds)
  obtain rc fs where rc: "os_run E cmd (sy_alive y) (sy_files y) = (rc, fs)" by fastforce
  then have "Q fs" using assms Cons.prems(2) unfolding preserved_def by (metis snd_conv)
  then show ?case using Cons.prems(1) Cons.IH rc by (auto simp: Let_def split: if_splits)
qed simp

lemma run_step_ok:
  assumes "run_step E st y = (Ret u, y')"
  shows "cmd_trace y' = cmd_trace y @ step_trace st" "list_all (output_ok (sy_files y')) (st_outputs st)"
  using assms run_commands_ok [of E "st_n st" "st_commands st" y _ y']
  by (auto simp: run_step_def step_trace_def split: sum.splits prod.splits if_splits)

lemma run_step_preserved: "preserved E Q \<Longrightarrow> run_step E st y = (r, y') \<Longrightarrow> Q (sy_files y) \<Longrightarrow> Q (sy_files y')"
  using run_commands_preserved [of E Q "st_n st" "st_commands st" y _ y']
  by (auto simp: run_step_def split: sum.splits prod.splits)

lemma switch_frame:
  assumes "switch_servers E need d y = (r, d', y')"
  shows "sy_files y' = sy_files y \<and> cmd_trace y' = cmd_trace y"
proof -
  have st: "sy_files b = sy_files a \<and> cmd_trace b = cmd_trace a" if "start_server E s a = (q, b)" for s a b q
    using that by (auto simp: start_server_def Let_def cmd_trace_def split: option.splits bool.splits)
  have sp: "sy_files (stop_if h s a) = sy_files a \<and> cmd_trace (stop_if h s a) = cmd_trace a" for h s a
    by (simp add: stop_if_def stop_pipeline_server_def cmd_trace_def)
  obtain r1 y1 where s1: "start_server E S160 y = (r1, y1)" by fastforce
  obtain r2 y2 where s2: "start_server E S200 y1 = (r2, y2)" by fastforce
  show ?thesis using assms st [OF s1] st [OF s2] sp s1 s2
    by (auto simp: switch_servers_def Let_def split: if_splits sum.splits)
qed

lemma run_steps_trace:
  "run_steps E sts d y = (Ret u, d', y') \<Longrightarrow> cmd_trace y' = cmd_trace y @ concat (map step_trace sts)"
proof (induction sts arbitrary: d y)
  case (Cons st sts)
  from Cons.prems show ?case
  proof (cases rule: run_steps_Cons)
    case (rest d1 y1 y2)
    then show ?thesis using Cons.IH [OF rest(3)] switch_frame [OF rest(1)] run_step_ok(1) [OF rest(2)] by simp
  qed simp_all
qed simp

lemma run_steps_preserved:
  "run_steps E sts d y = (r, d', y') \<Longrightarrow> preserved E Q \<Longrightarrow> Q (sy_files y) \<Longrightarrow> Q (sy_files y')"
proof (induction sts arbitrary: d y)
  case (Cons st sts)
  from Cons.prems(1) show ?case
  proof (cases rule: run_steps_Cons)
    case switch
    then show ?thesis using Cons.prems(3) switch_frame [OF switch(1)] by simp
  next
    case step
    then show ?thesis using Cons.prems(2,3) switch_frame [OF step(1)] run_step_preserved [OF _ step(2)] by simp
  next
    case (rest d1 y1 y2)
    have "Q (sy_files y2)" using Cons.prems(2,3) switch_frame [OF rest(1)] run_step_preserved [OF _ rest(2)] by simp
    then show ?thesis using Cons.IH [OF rest(3) Cons.prems(2)] by blast
  qed
qed simp

text \<open>Every step of a successful run saw its outputs, in a file state that has every preserved property.\<close>

lemma run_steps_outputs:
  assumes "run_steps E sts d y = (Ret u, d', y')" "preserved E Q" "Q (sy_files y)" "st \<in> set sts"
  shows "\<exists>fs. Q fs \<and> list_all (output_ok fs) (st_outputs st)
    \<and> (\<forall>p. output_ok fs p \<longrightarrow> preserved E (\<lambda>fs. output_ok fs p) \<longrightarrow> output_ok (sy_files y') p)"
  using assms
proof (induction sts arbitrary: d y)
  case (Cons s sts)
  from Cons.prems(1) show ?case
  proof (cases rule: run_steps_Cons)
    case (rest d1 y1 y2)
    have Q2: "Q (sy_files y2)" using Cons.prems(2,3) switch_frame [OF rest(1)] run_step_preserved [OF _ rest(2)] by simp
    show ?thesis
    proof (cases "st = s")
      case True
      then show ?thesis using Q2 run_step_ok(2) [OF rest(2)] run_steps_preserved [OF rest(3)] by blast
    next
      case False
      then show ?thesis using Cons.IH [OF rest(3) Cons.prems(2) Q2] Cons.prems(4) by simp
    qed
  qed simp_all
qed simp

section \<open>Properties\<close>

lemma start_loop_inv: "loop_inv E \<lparr>h160 = False, h200 = False, servers_running = False\<rparr> \<lparr>sy_files = fs, sy_alive = (\<lambda>_. False), sy_log = []\<rparr>"
  by (simp add: loop_inv_def)

lemma reproduce_ran:
  assumes "reproduce_main E dry from fs = (r, y)"
  obtains (no_run) "sy_log y = []" "sy_alive y = (\<lambda>_. False)" "sy_files y = fs" "r = Ret 0 \<longrightarrow> dry"
  | (run) d y0 q where "\<not> dry" "run_steps E (filter (\<lambda>s. from \<le> int (st_n s)) STEPS_PLAN)
        \<lparr>h160 = False, h200 = False, servers_running = False\<rparr> \<lparr>sy_files = fs, sy_alive = (\<lambda>_. False), sy_log = []\<rparr> = (q, d, y0)"
      "y = stop_if (h200 d) S200 (stop_if (h160 d) S160 y0)" "r = rbind q (\<lambda>_. Ret 0)"
  using assms unfolding reproduce_main_def Let_def
  by (auto split: if_splits sum.splits prod.splits)

lemma reproduce_log:
  assumes "reproduce_main E dry from fs = (r, y)"
  shows "log_ok E y \<and> (\<forall>s. \<not> sy_alive y s)"
  using assms
proof (cases rule: reproduce_ran)
  case (run d y0 q)
  have "log_ok E y0" "exit_inv d y0"
    using run_steps_inv [OF run(2) _ start_loop_inv] by (auto simp: log_ok_def)
  then show ?thesis by (auto simp: run(3) stop_if_ok exit_inv_def srv_all)
qed (simp add: log_ok_def)

text \<open>C28. The pipeline manages its servers safely. On every exit, normal or by exception, no server process it
  started is alive. Every command it runs belongs to a step of the plan and runs with no server alive if the
  step does not need them, and, unless servers crash on their own, with both servers alive if it does.\<close>

theorem pipeline_servers_safe:
  assumes "reproduce_main E dry from fs = (r, y)"
  shows "(\<forall>s. \<not> sy_alive y s)
    \<and> (\<forall>n cmd a b rc. EvCmd n cmd a b rc \<in> set (sy_log y) \<longrightarrow>
        (\<exists>st \<in> set STEPS_PLAN. st_n st = n \<and> cmd \<in> set (st_commands st)
          \<and> (\<not> st_server st \<longrightarrow> \<not> a \<and> \<not> b) \<and> (st_server st \<longrightarrow> no_crash E \<longrightarrow> a \<and> b)))"
proof (intro conjI allI impI)
  show "\<not> sy_alive y s" for s using reproduce_log [OF assms] by simp
  fix n cmd a b rc assume "EvCmd n cmd a b rc \<in> set (sy_log y)"
  then have "cmd_event_ok E (EvCmd n cmd a b rc)"
    using reproduce_log [OF assms] by (simp add: log_ok_def list_all_iff)
  then show "\<exists>st \<in> set STEPS_PLAN. st_n st = n \<and> cmd \<in> set (st_commands st)
          \<and> (\<not> st_server st \<longrightarrow> \<not> a \<and> \<not> b) \<and> (st_server st \<longrightarrow> no_crash E \<longrightarrow> a \<and> b)"
    unfolding cmd_event_ok_def event.case by blast
qed

definition demo_os :: os where
  "demo_os = \<lparr>os_run = (\<lambda>cmd al fs. (0, fs)), os_survives = (\<lambda>_ _. True), os_time = (\<lambda>_ _ i. real i), os_connect = (\<lambda>_ _ i. i = 1)\<rparr>"

lemma demo_start: "start_server demo_os s y = (Ret (), y\<lparr>sy_alive := (sy_alive y)(s := True), sy_log := sy_log y @ [EvStart s]\<rparr>)"
proof -
  have "poll_port (\<lambda>i. real (Suc i)) (\<lambda>i. i = 1) 30 POLL_FUEL 0 = Some (\<exists>j\<ge>0. real (Suc j) < 30 \<and> j = 1)"
    by (rule poll_port_eq) (simp_all add: POLL_FUEL_def)
  then show ?thesis by (simp add: start_server_def demo_os_def)
qed

lemma demo_step: "run_step demo_os st y = (if list_all (output_ok (sy_files y)) (st_outputs st) then Ret () else Raise (SystemExit 1),
   y\<lparr>sy_log := sy_log y @ map (\<lambda>c. EvCmd (st_n st) c (sy_alive y S160) (sy_alive y S200) 0) (st_commands st)\<rparr>)"
proof -
  have "run_commands demo_os n cmds y =
      (Ret (), y\<lparr>sy_log := sy_log y @ map (\<lambda>c. EvCmd n c (sy_alive y S160) (sy_alive y S200) 0) cmds\<rparr>)" for n cmds
    by (induction cmds arbitrary: y) (simp_all add: demo_os_def Let_def)
  then show ?thesis by (simp add: run_step_def)
qed

lemma demo_run: "\<exists>y. reproduce_main demo_os False 12 (\<lambda>_. Some (Some JNull)) = (Ret 0, y)"
proof -
  have f: "filter (\<lambda>s. 12 \<le> int (st_n s)) STEPS_PLAN = drop 11 STEPS_PLAN" by (simp add: STEPS_PLAN_def)
  show ?thesis
    unfolding reproduce_main_def f
    by (simp add: STEPS_PLAN_def check_prerequisites_def switch_servers_def demo_start demo_step output_ok_def Let_def)
qed

theorem pipeline_servers_safe_witness:
  "\<exists>y. reproduce_main demo_os False 12 (\<lambda>_. Some (Some JNull)) = (Ret 0, y) \<and> \<not> sy_alive y S160 \<and> \<not> sy_alive y S200"
proof -
  obtain y where y: "reproduce_main demo_os False 12 (\<lambda>_. Some (Some JNull)) = (Ret 0, y)" using demo_run by blast
  from pipeline_servers_safe [OF y] y show ?thesis by blast
qed

lemma reproduce_trace:
  assumes "reproduce_main E False from fs = (Ret 0, y)"
  shows "cmd_trace y = concat (map step_trace (filter (\<lambda>s. from \<le> int (st_n s)) STEPS_PLAN))"
  using assms
proof (cases rule: reproduce_ran)
  case (run d y0 q)
  then obtain u where q: "q = Ret u" by (cases q) auto
  have "cmd_trace y = cmd_trace y0"
    by (simp add: run(3) stop_if_def stop_pipeline_server_def cmd_trace_def)
  then show ?thesis using run_steps_trace [OF run(2) [unfolded q]] by (simp add: cmd_trace_def)
qed simp

text \<open>C29. What a successful run means: when the pipeline returns 0 outside dry-run mode, it has executed exactly
  the commands of the selected steps, in plan order, each with exit status 0; and if no command destroys an
  output that is already good, every declared output of those steps exists at the end, the JSON ones
  well-formed.\<close>

theorem pipeline_success:
  assumes "reproduce_main E False from fs = (Ret 0, y)"
  shows "cmd_trace y = concat (map step_trace (filter (\<lambda>s. from \<le> int (st_n s)) STEPS_PLAN))
    \<and> ((\<forall>p. preserved E (\<lambda>fs. output_ok fs p)) \<longrightarrow>
        (\<forall>st \<in> set STEPS_PLAN. from \<le> int (st_n st) \<longrightarrow> list_all (output_ok (sy_files y)) (st_outputs st)))"
  using assms
proof (cases rule: reproduce_ran)
  case (run d y0 q)
  then obtain u where q: "q = Ret u" by (cases q) auto
  note r = run(2) [unfolded q]
  have y: "sy_files y = sy_files y0"
    by (simp add: run(3) stop_if_def stop_pipeline_server_def)
  have "list_all (output_ok (sy_files y0)) (st_outputs st)"
    if p: "\<forall>p. preserved E (\<lambda>fs. output_ok fs p)" and "st \<in> set STEPS_PLAN" "from \<le> int (st_n st)" for st
  proof -
    have "preserved E (\<lambda>_. True)" "st \<in> set (filter (\<lambda>s. from \<le> int (st_n s)) STEPS_PLAN)"
      using that by (simp_all add: preserved_def)
    from run_steps_outputs [OF r this(1) TrueI this(2)] p show ?thesis by (auto simp: list_all_iff)
  qed
  then show ?thesis using y reproduce_trace [OF assms] by simp
qed simp

theorem pipeline_success_witness:
  "\<exists>y. reproduce_main demo_os False 12 (\<lambda>_. Some (Some JNull)) = (Ret 0, y)
     \<and> cmd_trace y = [(12, py_cmd ''scripts/build_execution_matrix.py'', 0), (13, py_cmd ''scripts/generate_research_artifacts.py'', 0)]"
proof -
  obtain y where y: "reproduce_main demo_os False 12 (\<lambda>_. Some (Some JNull)) = (Ret 0, y)" using demo_run by blast
  have f: "filter (\<lambda>s. 12 \<le> int (st_n s)) STEPS_PLAN = drop 11 STEPS_PLAN" by (simp add: STEPS_PLAN_def)
  from pipeline_success [OF y] have "cmd_trace y = concat (map step_trace (drop 11 STEPS_PLAN))" unfolding f by blast
  then have "cmd_trace y = [(12, py_cmd ''scripts/build_execution_matrix.py'', 0), (13, py_cmd ''scripts/generate_research_artifacts.py'', 0)]"
    by (simp add: STEPS_PLAN_def step_trace_def)
  with y show ?thesis by blast
qed

text \<open>A step whose declared output nothing produces blocks the pipeline: if a file declared by some selected
  step is missing at the start and no command creates it, no run returns 0. This is the situation of step 11,
  which declares \<^verbatim>\<open>artifacts/ablation_methodology.json\<close> while \<^verbatim>\<open>generate_ablation.py\<close> writes the
  report under \<^verbatim>\<open>results\<close>.\<close>

theorem undeclared_output_blocks:
  assumes "st \<in> set STEPS_PLAN" "p \<in> set (st_outputs st)" "from \<le> int (st_n st)"
    and "fs p = None" "preserved E (\<lambda>fs. fs p = None)"
  shows "fst (reproduce_main E False from fs) \<noteq> Ret 0"
proof
  obtain r y where r: "reproduce_main E False from fs = (r, y)" by fastforce
  assume "fst (reproduce_main E False from fs) = Ret 0"
  with r have "reproduce_main E False from fs = (Ret 0, y)" by simp
  then show False
  proof (cases rule: reproduce_ran)
    case (run d y0 q)
    then obtain u where q: "q = Ret u" by (cases q) auto
    have "st \<in> set (filter (\<lambda>s. from \<le> int (st_n s)) STEPS_PLAN)" using assms(1,3) by simp
    then obtain fs' where "fs' p = None" "list_all (output_ok fs') (st_outputs st)"
      using run_steps_outputs [OF run(2) [unfolded q] assms(5)] assms(4) by auto
    with assms(2) show False by (auto simp: output_ok_def list_all_iff)
  qed simp
qed

theorem undeclared_output_blocks_witness:
  "fst (reproduce_main demo_os False 1 ((\<lambda>_. Some (Some JNull))(''artifacts/ablation_methodology.json'' := None))) \<noteq> Ret 0"
proof (rule undeclared_output_blocks)
  show "STEPS_PLAN ! 10 \<in> set STEPS_PLAN" by (rule nth_mem) (simp add: STEPS_PLAN_def)
  show "''artifacts/ablation_methodology.json'' \<in> set (st_outputs (STEPS_PLAN ! 10))" by (simp add: STEPS_PLAN_def)
  show "1 \<le> int (st_n (STEPS_PLAN ! 10))" by (simp add: STEPS_PLAN_def)
qed (simp_all add: preserved_def demo_os_def)



end
