(* ===== verification/PrivacyCost.thy ===== *)
theory PrivacyCost
  imports Harness Pipeline
begin

text \<open>
  The privacy-cost report \<^verbatim>\<open>scripts/privacy_cost_analysis.py\<close>: the single-inference precision run against
  both servers (required files, port check, process lifetime, parity gate per chain) and the report assembled
  from the latency and wire-size artifacts. The two chains use different SEAL parameter sets, hence two
  backends. The prose fields of the report and the printed lines are not modelled.
\<close>

section \<open>The precision run\<close>

definition MODULUS_BITS :: "(string \<times> int) list" where
  "MODULUS_BITS = [(''160bit'', 160), (''200bit'', 200)]"

definition build_client_args :: "string \<Rightarrow> client_args" where
  "build_client_args chain =
     (if chain = ''200bit'' then
        \<lparr>a_packing = ''slot'', a_public_key_path = ''artifacts/public_key.bin'', a_secret_key_path = ''artifacts/secret_key.bin'',
         a_wrapper_module = ''seal_wrapper'', a_galois_keys_path = None,
         a_use_tls = False, a_tls_ca = None, a_tls_cert = None, a_tls_key = None\<rparr>
      else
        \<lparr>a_packing = ''slot'', a_public_key_path = ''artifacts/public_key_160.bin'', a_secret_key_path = ''artifacts/secret_key_160.bin'',
         a_wrapper_module = ''seal_wrapper_160'', a_galois_keys_path = Some ''artifacts/galois_keys_160.bin'',
         a_use_tls = False, a_tls_ca = None, a_tls_cert = None, a_tls_key = None\<rparr>)"

text \<open>One chain: construct the client, run the sample, apply the parity gate.\<close>

definition chain_error ::
  "('c, 'w, 'g) seal \<Rightarrow> (real \<Rightarrow> real) \<Rightarrow> ('s, 'w) net \<Rightarrow> fs \<Rightarrow> string \<Rightarrow> real ndarray \<Rightarrow> real list \<Rightarrow> real \<Rightarrow> 's \<Rightarrow> pyfloat res" where
  "chain_error S expit N fs chain x weights gate_bias srv =
     (let stub = nt_connect N (''127.0.0.1'', if chain = ''200bit'' then 50051 else 50052) in
      case client_init S expit stub (nt_clock N) (nt_uuid N 0) (nt_import N) (nt_init_seal N) fs (build_client_args chain) srv of
        (Inl e, _) \<Rightarrow> Inl e
      | (Inr cl, srv1) \<Rightarrow>
        (case run_inference S expit stub (nt_clock N) (nt_uuid N 1) x cl srv1 of
           (Inl e, _) \<Rightarrow> Inl e
         | (Inr resp, _) \<Rightarrow>
           rbind (verify_encrypted_output expit (map Fin (fraud_probabilities resp)) x weights gate_bias DEFAULT_TOLERANCE)
             (\<lambda>(passed, max_abs_error). if \<not> passed then Raise RuntimeError else Ret max_abs_error)))"

text \<open>The host's answers: ports in use before the run, the exit status \<^verbatim>\<open>poll\<close> reports three seconds after
  a server was launched, whether a terminated server ends in time, the row drawn.\<close>

record pc_host =
  pc_port_open :: "nat \<Rightarrow> bool"
  pc_poll :: "nat \<Rightarrow> int option"
  pc_stops :: bool
  pc_pick :: "nat \<Rightarrow> nat"

definition launch_plain :: "path \<Rightarrow> nat \<Rightarrow> sproc" where
  "launch_plain bin port =
     \<lparr>sp_argv = [bin, ''artifacts/model_weights.bin'', py_str port], sp_env = Map.empty, sp_pin = None, sp_status = Running\<rparr>"

definition required_files :: "path list" where
  "required_files = [''vendor_server/build/vendor_server_main'', ''vendor_server/build/vendor_server_160'',
     ''artifacts/model_weights.bin'', ''artifacts/X_test.npy'', ''artifacts/public_key.bin'', ''artifacts/secret_key.bin'',
     ''artifacts/public_key_160.bin'', ''artifacts/secret_key_160.bin'', ''artifacts/galois_keys_160.bin'']"

text \<open>The sample \<^verbatim>\<open>x_test[i].reshape(1, 1, 256)[0]\<close>.\<close>

definition draw_sample :: "pc_host \<Rightarrow> real list list \<Rightarrow> real ndarray res" where
  "draw_sample h X =
     (if X = [] then Raise ValueError
      else let row = X ! (pc_pick h (length X) mod length X) in
        if length row \<noteq> 256 then Raise ValueError else Ret \<lparr>shape = [1, 256], elems = row\<rparr>)"

text \<open>The two chains in the order the script runs them; the 200-bit gate has bias 0, the 160-bit gate the
  model's bias. The result carries the processes launched with their final status.\<close>

definition measure_precision ::
  "pc_host \<Rightarrow> store \<Rightarrow> (real ndarray \<Rightarrow> real list \<Rightarrow> real \<Rightarrow> pyfloat res) \<Rightarrow> (real ndarray \<Rightarrow> real list \<Rightarrow> real \<Rightarrow> pyfloat res)
   \<Rightarrow> (pyfloat \<times> pyfloat) res \<times> sproc list" where
  "measure_precision h st run200 run160 =
     (if \<not> list_all (file_exists st) required_files then (Raise FileNotFoundError, [])
      else if pc_port_open h 50051 \<or> pc_port_open h 50052 then (Raise RuntimeError, [])
      else case rbind (np_load_mat st ''artifacts/X_test.npy'') (\<lambda>X.
                rbind (draw_sample h X) (\<lambda>x.
                rbind (load_model_weights (bins st) (Some ''artifacts/model_weights.bin'')) (\<lambda>(w, b). Ret (x, map f64_real w, f64_real b)))) of
        Inl e \<Rightarrow> (Inl e, [])
      | Inr (x, weights, model_bias) \<Rightarrow>
        let baseline = launch_plain ''vendor_server/build/vendor_server_main'' 50051 in
        (case pc_poll h 50051 of
           Some code \<Rightarrow> (Raise RuntimeError, [baseline\<lparr>sp_status := Exited code\<rparr>])
         | None \<Rightarrow>
           let reduced = launch_plain ''vendor_server/build/vendor_server_160'' 50052 in
           (case pc_poll h 50052 of
              Some code \<Rightarrow> (Raise RuntimeError, [stop_server (pc_stops h) baseline, reduced\<lparr>sp_status := Exited code\<rparr>])
            | None \<Rightarrow>
              (rbind (run200 x weights 0) (\<lambda>e200. rbind (run160 x weights model_bias) (\<lambda>e160. Ret (e160, e200))),
               [stop_server (pc_stops h) baseline, stop_server (pc_stops h) reduced]))))"

section \<open>The report\<close>

definition delta_pct :: "pyfloat \<Rightarrow> pyfloat \<Rightarrow> (pyfloat \<times> pyfloat) res" where
  "delta_pct v160 v200 =
     (let delta = pf_sub v200 v160 in rbind (py_div delta v160) (\<lambda>q. Ret (delta, pf_mul q (Fin 100))))"

definition matched_pair_block :: "json option \<Rightarrow> json res" where
  "matched_pair_block mp =
     (case mp of
        None \<Rightarrow> Ret (JObj [(''status'', JStr ''PENDING''), (''reason'', JStr ''run scripts/privacy_cost_matched_pair.py'')])
      | Some m \<Rightarrow>
        rbind (jpath m [''160bit'', ''median_us'']) (\<lambda>a.
        rbind (jpath m [''200bit'', ''median_us'']) (\<lambda>b.
        rbind (jpath m [''delta'', ''median_us'']) (\<lambda>d.
        rbind (jpath m [''delta'', ''pct_delta_vs_160bit_median'']) (\<lambda>p.
        rbind (jpath m [''delta'', ''mann_whitney_p_value'']) (\<lambda>mw.
        rbind (jpath m [''framing'', ''cpu_governor'']) (\<lambda>g.
        Ret (JObj [(''160bit_median'', a), (''200bit_median'', b), (''delta'', d), (''pct_delta'', p),
                   (''mann_whitney_p_value'', mw), (''cpu_governor'', g),
                   (''source'', JStr ''artifacts/privacy_cost_matched_pair.json'')]))))))))"

text \<open>\<^verbatim>\<open>matched_pair["key_finding"]\<close> must be a string, to which text is appended.\<close>

definition key_finding_ok :: "json option \<Rightarrow> unit res" where
  "key_finding_ok mp =
     (case mp of None \<Rightarrow> Ret ()
      | Some m \<Rightarrow> rbind (jget m ''key_finding'') (\<lambda>k. case k of JStr s \<Rightarrow> Ret () | _ \<Rightarrow> Raise TypeError))"

definition load_matched_pair :: "jfs \<Rightarrow> json option res" where
  "load_matched_pair js =
     (if js ''artifacts/privacy_cost_matched_pair.json'' = None then Ret None
      else rbind (load_json js ''artifacts/privacy_cost_matched_pair.json'') (\<lambda>j. Ret (Some j)))"

definition report_block :: "pyfloat \<Rightarrow> pyfloat \<Rightarrow> pyfloat \<Rightarrow> pyfloat \<Rightarrow> string \<Rightarrow> string \<Rightarrow> json" where
  "report_block v160 v200 delta pct k160 k200 =
     JObj [(k160, JNum v160), (k200, JNum v200), (''delta'', JNum delta), (''pct_delta'', JNum pct)]"

definition assemble :: "pyfloat \<Rightarrow> pyfloat \<Rightarrow> pyfloat \<times> pyfloat \<Rightarrow> pyfloat \<Rightarrow> pyfloat \<Rightarrow> pyfloat \<times> pyfloat \<Rightarrow> json \<Rightarrow> pyfloat \<times> pyfloat \<Rightarrow> json" where
  "assemble l160 l200 ldp b160 b200 bdp mpb prec = JObj
     [(''modulus_bits'', JObj [(''160bit'', JInt 160), (''200bit'', JInt 200), (''delta'', JInt (200 - 160))]),
      (''matched_pair_latency_us'', mpb),
      (''deployed_cross_architecture_e2e_delta_DEPRECATED'', report_block l160 l200 (fst ldp) (snd ldp) ''160bit_median'' ''200bit_median''),
      (''bandwidth_bytes'', report_block b160 b200 (fst bdp) (snd bdp) ''160bit_standard'' ''200bit_standard''),
      (''precision_max_abs_error'',
        JObj [(''160bit'', JNum (fst prec)), (''200bit'', JNum (snd prec)), (''delta'', JNum (pf_sub (snd prec) (fst prec)))])]"

text \<open>The body of \<^verbatim>\<open>main\<close>; \<open>prec\<close> is the precision run, made after the inputs were read and the differences
  computed.\<close>

definition privacy_report :: "(pyfloat \<times> pyfloat) res \<Rightarrow> jfs \<Rightarrow> json res" where
  "privacy_report prec js =
     rbind (load_json js ''artifacts/comparison_results.json'') (\<lambda>comparison.
     rbind (load_json js ''artifacts/wire_sizes.json'') (\<lambda>wire_sizes.
     rbind (jnum_at comparison [''summary'', ''reduced_160bit'', ''median_us'']) (\<lambda>l160.
     rbind (jnum_at comparison [''summary'', ''baseline_200bit'', ''median_us'']) (\<lambda>l200.
     rbind (delta_pct l160 l200) (\<lambda>ldp.
     rbind (load_matched_pair js) (\<lambda>mp.
     rbind (jnum_at wire_sizes [''chains'', ''160bit'', ''standard_bytes'']) (\<lambda>b160.
     rbind (jnum_at wire_sizes [''chains'', ''200bit'', ''standard_bytes'']) (\<lambda>b200.
     rbind (delta_pct b160 b200) (\<lambda>bdp.
     rbind prec (\<lambda>p.
     rbind (key_finding_ok mp) (\<lambda>_.
     rbind (matched_pair_block mp) (\<lambda>mpb.
     Ret (assemble l160 l200 ldp b160 b200 bdp mpb p)))))))))))))"

definition privacy_main :: "(pyfloat \<times> pyfloat) res \<Rightarrow> jfs \<Rightarrow> int res \<times> jfs" where
  "privacy_main prec js =
     (if js ''artifacts/comparison_results.json'' = None then (Ret 1, js)
      else if js ''artifacts/wire_sizes.json'' = None then (Ret 1, js)
      else case privacy_report prec js of
        Inl e \<Rightarrow> (Inl e, js)
      | Inr out \<Rightarrow> (Ret 0, save_json ''artifacts/privacy_cost_analysis.json'' out js))"

text \<open>The exit status of \<^verbatim>\<open>raise SystemExit(main())\<close>: an uncaught exception gives 1.\<close>

definition exit_status :: "int res \<Rightarrow> int" where
  "exit_status r = (case r of Inl (SystemExit c) \<Rightarrow> c | Inl _ \<Rightarrow> 1 | Inr c \<Rightarrow> c)"

section \<open>Properties\<close>

lemma chain_error_gate:
  assumes "chain_error S expit N fs chain x w b srv = Ret e"
  shows "pf_lt e DEFAULT_TOLERANCE"
  using assms unfolding chain_error_def verify_encrypted_output_def Let_def
  by (auto simp: res_simps split: sum.splits prod.splits if_splits)

text \<open>The precision figures of the report are gated and the run cleans up: if the precision run returns, the
  ports were free before it, all required files existed, and both chains' errors passed the parity gate, so each is a
  number below 1e-4, never NaN. Whether it returns or raises, no server process it launched is left running.\<close>

theorem precision_run_gated:
  assumes "measure_precision h st (\<lambda>x w b. chain_error S2 expit N2 (bins st) ''200bit'' x w b srv2)
      (\<lambda>x w b. chain_error S1 expit N1 (bins st) ''160bit'' x w b srv1) = (r, ps)"
  shows "(\<forall>p \<in> set ps. sp_status p \<noteq> Running)
    \<and> (\<forall>e160 e200. r = Ret (e160, e200) \<longrightarrow> pf_lt e160 (Fin (1 / 10000)) \<and> pf_lt e200 (Fin (1 / 10000))
        \<and> \<not> pc_port_open h 50051 \<and> \<not> pc_port_open h 50052 \<and> list_all (file_exists st) required_files)"
proof -
  have g2: "pf_lt e (Fin (1 / 10000))" if "chain_error S2 expit N2 (bins st) c x w b srv2 = Ret e" for c x w b e
    using chain_error_gate [OF that] by (simp add: DEFAULT_TOLERANCE_def)
  have g1: "pf_lt e (Fin (1 / 10000))" if "chain_error S1 expit N1 (bins st) c x w b srv1 = Ret e" for c x w b e
    using chain_error_gate [OF that] by (simp add: DEFAULT_TOLERANCE_def)
  have "r = Ret (e160, e200) \<Longrightarrow> pf_lt e160 (Fin (1 / 10000)) \<and> pf_lt e200 (Fin (1 / 10000))
        \<and> \<not> pc_port_open h 50051 \<and> \<not> pc_port_open h 50052 \<and> list_all (file_exists st) required_files" for e160 e200
    using assms g1 g2 unfolding measure_precision_def Let_def
    by (auto simp: res_simps split: if_splits sum.splits option.splits)
  moreover have "\<forall>p \<in> set ps. sp_status p \<noteq> Running"
    using assms stop_server_stopped unfolding measure_precision_def Let_def
    by (auto split: if_splits sum.splits option.splits)
  ultimately show ?thesis by blast
qed

definition demo_pc_host :: pc_host where
  "demo_pc_host = \<lparr>pc_port_open = (\<lambda>_. False), pc_poll = (\<lambda>p. if p = 50052 then Some 3 else None), pc_stops = True, pc_pick = (\<lambda>_. 0)\<rparr>"

theorem precision_run_gated_witness:
  "\<exists>r p q. measure_precision demo_pc_host (demo_bank\<lparr>others := set required_files\<rparr>)
       (\<lambda>x w b. chain_error plain_seal (\<lambda>z. z) demo_net (bins (demo_bank\<lparr>others := set required_files\<rparr>)) ''200bit'' x w b (demo_server SLOT))
       (\<lambda>x w b. chain_error plain_seal (\<lambda>z. z) demo_net (bins (demo_bank\<lparr>others := set required_files\<rparr>)) ''160bit'' x w b (demo_server SLOT)) = (r, [p, q])
     \<and> sp_status p \<noteq> Running \<and> sp_status q \<noteq> Running"
proof -
  let ?st = "demo_bank\<lparr>others := set required_files\<rparr>"
  let ?m = "measure_precision demo_pc_host ?st
       (\<lambda>x w b. chain_error plain_seal (\<lambda>z. z) demo_net (bins ?st) ''200bit'' x w b (demo_server SLOT))
       (\<lambda>x w b. chain_error plain_seal (\<lambda>z. z) demo_net (bins ?st) ''160bit'' x w b (demo_server SLOT))"
  have "load_model_weights (bins ?st) (Some ''artifacts/model_weights.bin'') = Ret (replicate 256 0, 0)"
    by (rule parity_reader.rd_image) (simp_all add: demo_bank_def demo_store_def)
  then obtain r p q where r: "?m = (r, [p, q])"
    by (simp add: measure_precision_def demo_pc_host_def list_all_iff file_exists_def np_load_mat_def demo_bank_def demo_store_def
        draw_sample_def Let_def)
  show ?thesis
    by (rule exI [of _ r], rule exI [of _ p], rule exI [of _ q]) (use precision_run_gated [OF r] r in simp)
qed

lemma assemble_fields:
  "jnum_at (assemble l160 l200 ldp b160 b200 bdp mpb prec) [''modulus_bits'', ''delta''] = Ret (Fin 40)"
  "jnum_at (assemble l160 l200 ldp b160 b200 bdp mpb prec) [''precision_max_abs_error'', ''160bit''] = Ret (fst prec)"
  "jnum_at (assemble l160 l200 ldp b160 b200 bdp mpb prec) [''precision_max_abs_error'', ''200bit''] = Ret (snd prec)"
  "jnum_at (assemble l160 l200 ldp b160 b200 bdp mpb prec) [''deployed_cross_architecture_e2e_delta_DEPRECATED'', ''160bit_median''] = Ret l160"
  "jnum_at (assemble l160 l200 ldp b160 b200 bdp mpb prec) [''deployed_cross_architecture_e2e_delta_DEPRECATED'', ''200bit_median''] = Ret l200"
  "jnum_at (assemble l160 l200 ldp b160 b200 bdp mpb prec) [''deployed_cross_architecture_e2e_delta_DEPRECATED'', ''delta''] = Ret (fst ldp)"
  "jnum_at (assemble l160 l200 ldp b160 b200 bdp mpb prec) [''deployed_cross_architecture_e2e_delta_DEPRECATED'', ''pct_delta''] = Ret (snd ldp)"
  by (simp_all add: jnum_at_def assemble_def report_block_def)

text \<open>The privacy-cost report says what was measured: \<^verbatim>\<open>main\<close> returns 0 only after a gated precision run,
  and then the written report has a modulus difference of 40 bits, latency and bandwidth differences equal to
  the differences of the figures read, percentages that recover the 200-bit figure from the 160-bit one, and
  the precision figures of the run. On every other outcome no file is changed.\<close>

theorem privacy_report_faithful:
  assumes "privacy_main prec js = (r, js')"
  shows "(r \<noteq> Ret 0 \<longrightarrow> js' = js)
    \<and> (r = Ret 0 \<longrightarrow> (\<exists>out p160 p200 l160 l200. js' = save_json ''artifacts/privacy_cost_analysis.json'' out js
        \<and> prec = Ret (p160, p200)
        \<and> jnum_at out [''modulus_bits'', ''delta''] = Ret (Fin 40)
        \<and> jnum_at out [''precision_max_abs_error'', ''160bit''] = Ret p160
        \<and> jnum_at out [''precision_max_abs_error'', ''200bit''] = Ret p200
        \<and> jnum_at out [''deployed_cross_architecture_e2e_delta_DEPRECATED'', ''160bit_median''] = Ret l160
        \<and> jnum_at out [''deployed_cross_architecture_e2e_delta_DEPRECATED'', ''200bit_median''] = Ret l200
        \<and> jnum_at out [''deployed_cross_architecture_e2e_delta_DEPRECATED'', ''delta''] = Ret (pf_sub l200 l160)
        \<and> (\<forall>a b. l160 = Fin a \<and> l200 = Fin b \<longrightarrow>
             (\<exists>p. jnum_at out [''deployed_cross_architecture_e2e_delta_DEPRECATED'', ''pct_delta''] = Ret (Fin p) \<and> a * (1 + p / 100) = b))))"
proof -
  have "js' = js" if "r \<noteq> Ret 0"
    using assms that by (auto simp: privacy_main_def split: if_splits sum.splits)
  moreover have "\<exists>out p160 p200 l160 l200. js' = save_json ''artifacts/privacy_cost_analysis.json'' out js
        \<and> prec = Ret (p160, p200)
        \<and> jnum_at out [''modulus_bits'', ''delta''] = Ret (Fin 40)
        \<and> jnum_at out [''precision_max_abs_error'', ''160bit''] = Ret p160
        \<and> jnum_at out [''precision_max_abs_error'', ''200bit''] = Ret p200
        \<and> jnum_at out [''deployed_cross_architecture_e2e_delta_DEPRECATED'', ''160bit_median''] = Ret l160
        \<and> jnum_at out [''deployed_cross_architecture_e2e_delta_DEPRECATED'', ''200bit_median''] = Ret l200
        \<and> jnum_at out [''deployed_cross_architecture_e2e_delta_DEPRECATED'', ''delta''] = Ret (pf_sub l200 l160)
        \<and> (\<forall>a b. l160 = Fin a \<and> l200 = Fin b \<longrightarrow>
             (\<exists>p. jnum_at out [''deployed_cross_architecture_e2e_delta_DEPRECATED'', ''pct_delta''] = Ret (Fin p) \<and> a * (1 + p / 100) = b))"
    if r: "r = Ret 0"
  proof -
    have pct: "\<exists>p. q = Fin p \<and> a * (1 + p / 100) = b" if "delta_pct (Fin a) (Fin b) = Ret (d, q)" for a b d q
      using that by (auto simp: delta_pct_def Let_def res_simps py_div_def field_simps split: if_splits)
    have dl: "d = pf_sub b a" if "delta_pct a b = Ret (d, q)" for a b d q
      using that by (auto simp: delta_pct_def res_simps Let_def)
    from assms r obtain out where o: "js' = save_json ''artifacts/privacy_cost_analysis.json'' out js" "privacy_report prec js = Ret out"
      by (auto simp: privacy_main_def split: if_splits sum.splits)
    obtain l160 l200 ld lp b160 b200 bdp mpb p160 p200 where a: "delta_pct l160 l200 = Ret (ld, lp)" "prec = Ret (p160, p200)"
      "out = assemble l160 l200 (ld, lp) b160 b200 bdp mpb (p160, p200)"
      using o(2) unfolding privacy_report_def rbind_Ret_iff by (metis surj_pair sum.inject(2))
    show ?thesis
    proof (rule exI [of _ out], rule exI [of _ p160], rule exI [of _ p200], rule exI [of _ l160], rule exI [of _ l200], intro conjI allI impI)
      show "js' = save_json ''artifacts/privacy_cost_analysis.json'' out js" "prec = Ret (p160, p200)" by (fact o(1), fact a(2))
      fix x y assume "l160 = Fin x \<and> l200 = Fin y"
      then obtain p where p: "lp = Fin p" "x * (1 + p / 100) = y" using pct [of x y ld lp] a(1) by auto
      then show "\<exists>p. jnum_at out [''deployed_cross_architecture_e2e_delta_DEPRECATED'', ''pct_delta''] = Ret (Fin p) \<and> x * (1 + p / 100) = y"
        by (simp add: a(3) assemble_fields)
    qed (simp_all add: a(3) assemble_fields dl [OF a(1)])
  qed
  ultimately show ?thesis by blast
qed

definition demo_reports :: jfs where
  "demo_reports = (\<lambda>_. None)(
     ''artifacts/comparison_results.json'' \<mapsto> Some (JObj [(''summary'', JObj [(''reduced_160bit'', JObj [(''median_us'', JReal 4000)]),
        (''baseline_200bit'', JObj [(''median_us'', JReal 10000)])])]),
     ''artifacts/wire_sizes.json'' \<mapsto> Some (JObj [(''chains'', JObj [(''160bit'', JObj [(''standard_bytes'', JInt 200)]),
        (''200bit'', JObj [(''standard_bytes'', JInt 300)])])]))"

theorem privacy_report_faithful_witness:
  "\<exists>js' out. privacy_main (Ret (Fin 0, Fin 0)) demo_reports = (Ret 0, js')
     \<and> js' ''artifacts/privacy_cost_analysis.json'' = Some (Some out)
     \<and> jnum_at out [''modulus_bits'', ''delta''] = Ret (Fin 40)"
proof -
  obtain js' where r: "privacy_main (Ret (Fin 0, Fin 0)) demo_reports = (Ret 0, js')"
    by (simp add: privacy_main_def privacy_report_def demo_reports_def load_json_def jnum_at_def delta_pct_def load_matched_pair_def key_finding_ok_def
        matched_pair_block_def Let_def)
  from privacy_report_faithful [OF r] r show ?thesis by (auto simp: save_json_def)
qed

section \<open>The report inside the pipeline\<close>

text \<open>Results that are not a request to exit.\<close>

definition no_exit :: "'a res \<Rightarrow> bool" where
  "no_exit r \<longleftrightarrow> (\<forall>c. r \<noteq> Inl (SystemExit c))"

lemma no_exit_simps [simp]:
  "no_exit (Inr x)" "no_exit (Inl e) \<longleftrightarrow> (\<forall>c. e \<noteq> SystemExit c)"
  by (simp_all add: no_exit_def)

lemma no_exit_rbind: "no_exit m \<Longrightarrow> (\<And>x. m = Inr x \<Longrightarrow> no_exit (f x)) \<Longrightarrow> no_exit (rbind m f)"
  by (cases m) auto

lemma no_exit_json [simp]: "no_exit (jget j k)" "no_exit (jnum j)" "no_exit (load_json fs p)" "no_exit (py_div x y)"
proof -
  show "no_exit (jget j k)" by (cases j) (simp_all split: option.split)
  show "no_exit (jnum j)" by (cases j) simp_all
  show "no_exit (load_json fs p)" "no_exit (py_div x y)" by (simp_all add: load_json_def py_div_def split: option.split)
qed

lemma no_exit_jpath [simp]: "no_exit (jpath j ks)"
  by (induction ks arbitrary: j) (auto intro!: no_exit_rbind)

lemma no_exit_parts [simp]: "no_exit (jnum_at j ks)" "no_exit (delta_pct a b)" "no_exit (load_matched_pair js)"
  "no_exit (key_finding_ok mp)" "no_exit (matched_pair_block mp)"
  by (auto simp: jnum_at_def delta_pct_def load_matched_pair_def key_finding_ok_def matched_pair_block_def Let_def
      intro!: no_exit_rbind split: option.split json.split)

lemma no_exit_report: "no_exit prec \<Longrightarrow> no_exit (privacy_report prec js)"
  unfolding privacy_report_def by (intro no_exit_rbind) simp_all

lemma report_raises: "prec = Inl e \<Longrightarrow> \<exists>e'. privacy_report prec js = Inl e'"
  by (cases "privacy_report prec js") (auto simp: privacy_report_def rbind_Ret_iff)

lemma privacy_main_raises:
  assumes "prec = Inl e" "no_exit prec"
  shows "exit_status (fst (privacy_main prec js)) = 1"
proof -
  obtain e' where "privacy_report prec js = Inl e'" using report_raises [OF assms(1)] by blast
  then show ?thesis using no_exit_report [OF assms(2), of js]
    by (cases e') (auto simp: privacy_main_def exit_status_def)
qed

lemma measure_precision_ports:
  assumes "pc_port_open h 50051 \<or> pc_port_open h 50052"
  shows "fst (measure_precision h st a b) \<in> {Raise FileNotFoundError, Raise RuntimeError}"
  using assms by (auto simp: measure_precision_def)

text \<open>The exit status of the script as the pipeline sees it: its port check sees a server that is alive.\<close>

definition privacy_script :: "(srv \<Rightarrow> bool) \<Rightarrow> pc_host \<Rightarrow> store
    \<Rightarrow> (real ndarray \<Rightarrow> real list \<Rightarrow> real \<Rightarrow> pyfloat res) \<Rightarrow> (real ndarray \<Rightarrow> real list \<Rightarrow> real \<Rightarrow> pyfloat res) \<Rightarrow> jfs \<Rightarrow> int \<times> jfs" where
  "privacy_script al h st run200 run160 js =
     (let h1 = h\<lparr>pc_port_open := (\<lambda>p. p = port_of S160 \<and> al S160 \<or> p = port_of S200 \<and> al S200 \<or> pc_port_open h p)\<rparr>;
          (r, js') = privacy_main (fst (measure_precision h1 st run200 run160)) js
      in (exit_status r, js'))"

lemma privacy_script_fails: "al S160 \<or> al S200 \<Longrightarrow> fst (privacy_script al h st a b js) = 1"
proof -
  assume al: "al S160 \<or> al S200"
  let ?h = "h\<lparr>pc_port_open := (\<lambda>p. p = port_of S160 \<and> al S160 \<or> p = port_of S200 \<and> al S200 \<or> pc_port_open h p)\<rparr>"
  have "fst (measure_precision ?h st a b) \<in> {Raise FileNotFoundError, Raise RuntimeError}"
    using al by (intro measure_precision_ports) (auto simp: port_of_def)
  then have "exit_status (fst (privacy_main (fst (measure_precision ?h st a b)) js)) = 1"
    using privacy_main_raises by force
  then show ?thesis by (simp add: privacy_script_def split_beta)
qed

text \<open>C40. The pipeline and its privacy-cost step contradict each other: the pipeline keeps both servers running
  for step 10, whose script refuses to run while either port is in use. So a run that includes step 10 never
  returns 0, unless a server crashed on its own.\<close>

theorem pipeline_blocked_by_privacy_step:
  assumes "no_crash E" "from \<le> 10"
    and "\<And>al js. os_run E (py_cmd ''scripts/privacy_cost_analysis.py'') al js = privacy_script al (h js) (st js) (runb js) (runr js) js"
  shows "fst (reproduce_main E False from fs) \<noteq> Ret 0"
proof
  let ?cmd = "py_cmd ''scripts/privacy_cost_analysis.py''"
  obtain r y where r: "reproduce_main E False from fs = (r, y)" by fastforce
  assume "fst (reproduce_main E False from fs) = Ret 0"
  then have r0: "reproduce_main E False from fs = (Ret 0, y)" using r by simp
  have "(10, ?cmd, 0) \<in> set (cmd_trace y)"
    using reproduce_trace [OF r0] assms(2) by (simp add: STEPS_PLAN_def step_trace_def)
  then obtain a b where ev: "EvCmd 10 ?cmd a b 0 \<in> set (sy_log y)"
    by (auto simp: cmd_trace_def split: event.splits)
  then have "cmd_event_ok E (EvCmd 10 ?cmd a b 0)" using reproduce_log [OF r] by (simp add: log_ok_def list_all_iff)
  then obtain st js where s: "st \<in> set STEPS_PLAN" "st_n st = 10" "st_server st \<longrightarrow> no_crash E \<longrightarrow> a \<and> b"
      "0 = fst (os_run E ?cmd (case_srv a b) js)"
    unfolding cmd_event_ok_def event.case by (elim bexE exE conjE)
  have "st_server st" using s(1,2) by (auto simp: STEPS_PLAN_def)
  with s(3,4) assms(1) privacy_script_fails [of "case_srv a b"] show False by (simp add: assms(3))
qed

theorem pipeline_blocked_by_privacy_step_witness:
  "fst (reproduce_main (demo_os\<lparr>os_run := (\<lambda>cmd al js. if cmd = py_cmd ''scripts/privacy_cost_analysis.py''
       then privacy_script al demo_pc_host demo_bank (\<lambda>_ _ _. Ret (Fin 0)) (\<lambda>_ _ _. Ret (Fin 0)) js else (0, js))\<rparr>)
     False 10 (\<lambda>_. Some (Some JNull))) \<noteq> Ret 0"
  by (rule pipeline_blocked_by_privacy_step [where h = "\<lambda>_. demo_pc_host" and st = "\<lambda>_. demo_bank"
        and runb = "\<lambda>_ _ _ _. Ret (Fin 0)" and runr = "\<lambda>_ _ _ _. Ret (Fin 0)"])
    (simp_all add: no_crash_def demo_os_def)

end
