(* ===== verification/LatencyReport.thy ===== *)
theory LatencyReport
  imports PrivacyCost CnpBench Percentiles
begin

text \<open>
  The end-to-end latency breakdown \<^verbatim>\<open>scripts/e2e_latency_breakdown.py\<close>: both servers are started, each chain is gated,
  warmed up and measured over 1000 requests by one client, and the summaries of every client and server stage are written to
  the file the client/server comparison of the governor run reads. Prose fields and printed tables are left out; a
  percentile is taken over reals.
\<close>

definition E2E_OUT :: path where "E2E_OUT = ''artifacts/e2e_latency_breakdown.json''"
definition BASELINE_BIN :: path where "BASELINE_BIN = ''vendor_server/build/vendor_server_main''"
definition REDUCED_BIN :: path where "REDUCED_BIN = ''vendor_server/build/vendor_server_160''"
definition WARMUP_ROUNDS :: nat where "WARMUP_ROUNDS = 20"
definition MEASURE_ROUNDS :: nat where "MEASURE_ROUNDS = 1000"

definition STAGE_FIELDS :: "string list" where
  "STAGE_FIELDS = [''encode_encrypt_us'', ''grpc_roundtrip_us'', ''network_and_grpc_overhead_us'', ''decode_decrypt_us'',
     ''sigmoid_us'', ''client_wall_total_us'']"

definition SERVER_FIELDS :: "string list" where
  "SERVER_FIELDS = [''deserialization_us'', ''multiply_plain_us'', ''rotation_hoisting_us'', ''serialization_us'', ''total_inference_us'']"

definition client_fields :: "client_timing \<Rightarrow> (string \<times> real) list" where
  "client_fields ct =
     [(''encode_encrypt_us'', ct_encode_encrypt_us ct), (''grpc_roundtrip_us'', ct_grpc_roundtrip_us ct),
      (''network_and_grpc_overhead_us'', ct_network_and_grpc_overhead_us ct), (''decode_decrypt_us'', ct_decode_decrypt_us ct),
      (''sigmoid_us'', ct_sigmoid_us ct), (''client_wall_total_us'', ct_client_wall_total_us ct)]"

section \<open>One chain\<close>

definition us_summary :: "real list \<Rightarrow> json res" where
  "us_summary a =
     (if a = [] then Raise ValueError
      else Ret (JObj [(''mean_us'', JReal (mean a)), (''median_us'', JReal (np_median a)), (''p95_us'', JReal (np_percentile a 95)),
        (''p99_us'', JReal (np_percentile a 99)), (''min_us'', JReal (lmin a)), (''max_us'', JReal (lmax a))]))"

definition stage_table :: "string list \<Rightarrow> (inf_result \<Rightarrow> (string \<times> real) list) \<Rightarrow> inf_result list \<Rightarrow> json res" where
  "stage_table ks g rs =
     rbind (rmap (\<lambda>f. rbind (us_summary (map (\<lambda>r. field f (g r)) rs)) (\<lambda>s. Ret (f, s))) ks) (\<lambda>kvs. Ret (JObj kvs))"

text \<open>Row \<open>k\<close> (modulo their number) of the test set as a batch of one.\<close>

definition xtest_row :: "real list list \<Rightarrow> nat \<Rightarrow> real ndarray res" where
  "xtest_row X k =
     (if X = [] then Raise ValueError
      else let row = X ! (k mod length X) in if length row \<noteq> 256 then Raise ValueError else Ret \<lparr>shape = [1, 256], elems = row\<rparr>)"

text \<open>Requests numbered \<open>is\<close>, one at a time, each with a row drawn for it.\<close>

fun request_loop ::
  "(nat \<Rightarrow> real ndarray \<Rightarrow> client \<Rightarrow> 's \<Rightarrow> 'r res \<times> client \<times> 's) \<Rightarrow> (nat \<Rightarrow> real ndarray res) \<Rightarrow> nat list \<Rightarrow> client \<Rightarrow> 's
   \<Rightarrow> 'r list res \<times> client \<times> 's" where
  "request_loop rq draw [] cl srv = (Ret [], cl, srv)"
| "request_loop rq draw (i # is) cl srv =
     (case draw i of
        Inl e \<Rightarrow> (Inl e, cl, srv)
      | Inr x \<Rightarrow>
        (case rq i x cl srv of
           (Inl e, cl1, srv1) \<Rightarrow> (Inl e, cl1, srv1)
         | (Inr r, cl1, srv1) \<Rightarrow>
           (case request_loop rq draw is cl1 srv1 of
              (Inl e, st) \<Rightarrow> (Inl e, st)
            | (Inr rs, st) \<Rightarrow> (Ret (r # rs), st))))"

text \<open>Request \<open>i\<close> has ten clock readings of its own.\<close>

definition chain_request ::
  "('c, 'w, 'g) seal \<Rightarrow> (real \<Rightarrow> real) \<Rightarrow> ('s, 'w) net \<Rightarrow> string \<Rightarrow> nat \<Rightarrow> real ndarray \<Rightarrow> client \<Rightarrow> 's \<Rightarrow> inf_result res \<times> client \<times> 's" where
  "chain_request S expit N chain i =
     run_inference S expit (nt_connect N (''127.0.0.1'', if chain = ''200bit'' then 50051 else 50052))
       (\<lambda>k. nt_clock N (10 * Suc i + k)) (nt_uuid N (Suc i))"

definition gate_chain :: "(real \<Rightarrow> real) \<Rightarrow> string \<Rightarrow> real list \<Rightarrow> real \<Rightarrow> real ndarray \<Rightarrow> inf_result \<Rightarrow> pyfloat res" where
  "gate_chain expit chain w b x0 r0 =
     rbind (verify_encrypted_output expit (map Fin (fraud_probabilities r0)) (vec (elems x0)) w (if chain = ''160bit'' then b else 0) DEFAULT_TOLERANCE)
       (\<lambda>(passed, mae). if \<not> passed then Raise RuntimeError else Ret mae)"

text \<open>Warm-up, then the timed requests.\<close>

definition timed_responses ::
  "(nat \<Rightarrow> real ndarray \<Rightarrow> client \<Rightarrow> 's \<Rightarrow> 'r res \<times> client \<times> 's) \<Rightarrow> (nat \<Rightarrow> real ndarray res) \<Rightarrow> client \<Rightarrow> 's \<Rightarrow> 'r list res" where
  "timed_responses rq draw cl srv =
     (case request_loop rq draw [1..<1 + WARMUP_ROUNDS] cl srv of
        (Inl e, _) \<Rightarrow> Inl e
      | (Inr _, cl1, srv1) \<Rightarrow> fst (request_loop rq draw [1 + WARMUP_ROUNDS..<1 + WARMUP_ROUNDS + MEASURE_ROUNDS] cl1 srv1))"

definition gated_responses ::
  "(real \<Rightarrow> real) \<Rightarrow> (nat \<Rightarrow> real ndarray \<Rightarrow> client \<Rightarrow> 's \<Rightarrow> inf_result res \<times> client \<times> 's) \<Rightarrow> (nat \<Rightarrow> real ndarray res)
   \<Rightarrow> string \<Rightarrow> real list \<Rightarrow> real \<Rightarrow> client \<Rightarrow> 's \<Rightarrow> (pyfloat \<times> inf_result list) res" where
  "gated_responses expit rq draw chain w b cl srv =
     rbind (draw 0) (\<lambda>x0.
     case rq 0 x0 cl srv of
       (Inl e, _) \<Rightarrow> Inl e
     | (Inr r0, cl1, srv1) \<Rightarrow>
       rbind (gate_chain expit chain w b x0 r0) (\<lambda>mae.
       rbind (timed_responses rq draw cl1 srv1) (\<lambda>rs. Ret (mae, rs))))"

text \<open>The largest error of the gate and the timed responses.\<close>

definition measure_chain ::
  "('c, 'w, 'g) seal \<Rightarrow> (real \<Rightarrow> real) \<Rightarrow> ('s, 'w) net \<Rightarrow> fs \<Rightarrow> string \<Rightarrow> (nat \<Rightarrow> nat)
   \<Rightarrow> 's \<Rightarrow> real list list \<Rightarrow> real list \<Rightarrow> real \<Rightarrow> (pyfloat \<times> inf_result list) res" where
  "measure_chain S expit N fs chain ix srv X w b =
     (case client_init S expit (nt_connect N (''127.0.0.1'', if chain = ''200bit'' then 50051 else 50052)) (nt_clock N) (nt_uuid N 0)
             (nt_import N) (nt_init_seal N) fs (build_client_args chain) srv of
        (Inl e, _) \<Rightarrow> Inl e
      | (Inr cl, srv1) \<Rightarrow>
        gated_responses expit (chain_request S expit N chain) (\<lambda>i. xtest_row X (ix i)) chain w b cl srv1)"

definition chain_json :: "pyfloat \<Rightarrow> inf_result list \<Rightarrow> json res" where
  "chain_json mae rs =
     rbind (stage_table STAGE_FIELDS (\<lambda>r. client_fields (client_timing_breakdown r)) rs) (\<lambda>cs.
     rbind (stage_table SERVER_FIELDS (\<lambda>r. server_fields (timing_breakdown r)) rs) (\<lambda>ss.
     Ret (JObj [(''correctness_max_abs_error'', JNum mae), (''client_stage_us'', cs), (''server_stage_us'', ss)])))"

section \<open>The script\<close>

definition e2e_framing :: "string \<Rightarrow> json" where
  "e2e_framing governor =
     JObj [(''cpu_governor'', JStr governor),
           (''governor_caveat'', if governor \<noteq> ''performance'' then JStr ''PENDING under 'performance' governor'' else JNull)]"

text \<open>\<open>gov\<close> is the stripped content of \<^verbatim>\<open>scaling_governor\<close>, if it can be read; launching a missing binary raises.\<close>

definition e2e_main ::
  "pc_host \<Rightarrow> string option \<Rightarrow> store \<Rightarrow> (real list list \<Rightarrow> real list \<Rightarrow> real \<Rightarrow> (pyfloat \<times> inf_result list) res)
   \<Rightarrow> (real list list \<Rightarrow> real list \<Rightarrow> real \<Rightarrow> (pyfloat \<times> inf_result list) res) \<Rightarrow> jfs \<Rightarrow> int res \<times> sproc list \<times> jfs" where
  "e2e_main h gov st run200 run160 rep =
     (let governor = (case gov of None \<Rightarrow> ''UNKNOWN'' | Some g \<Rightarrow> g) in
      if pc_port_open h 50051 \<or> pc_port_open h 50052 then (Raise (SystemExit 1), [], rep)
      else case rbind (np_load_mat st ''artifacts/X_test.npy'') (\<lambda>X.
                rbind (load_model_weights (bins st) (Some ''artifacts/model_weights.bin'')) (\<lambda>(w, b). Ret (X, map f64_real w, f64_real b))) of
        Inl e \<Rightarrow> (Inl e, [], rep)
      | Inr (X, w, b) \<Rightarrow>
        if \<not> file_exists st BASELINE_BIN then (Raise FileNotFoundError, [], rep)
        else let baseline = launch_plain BASELINE_BIN 50051 in
        (case pc_poll h 50051 of
           Some code \<Rightarrow> (Raise (SystemExit 1), [baseline\<lparr>sp_status := Exited code\<rparr>], rep)
         | None \<Rightarrow>
           if \<not> file_exists st REDUCED_BIN then (Raise FileNotFoundError, [baseline], rep)
           else let reduced = launch_plain REDUCED_BIN 50052 in
           (case pc_poll h 50052 of
              Some code \<Rightarrow> (Raise (SystemExit 1), [stop_server (pc_stops h) baseline, reduced\<lparr>sp_status := Exited code\<rparr>], rep)
            | None \<Rightarrow>
              let ps = [stop_server (pc_stops h) baseline, stop_server (pc_stops h) reduced] in
              (case rbind (rbind (run200 X w b) (\<lambda>(e, rs). chain_json e rs)) (\<lambda>result_200.
                    rbind (rbind (run160 X w b) (\<lambda>(e, rs). chain_json e rs)) (\<lambda>result_160. Ret (result_200, result_160))) of
                 Inl e \<Rightarrow> (Inl e, ps, rep)
               | Inr (result_200, result_160) \<Rightarrow>
                 (Ret 0, ps, save_json E2E_OUT (JObj [(''framing'', e2e_framing governor), (''200bit'', result_200), (''160bit'', result_160)]) rep)))))"

section \<open>What the samples are\<close>

lemma run_inference_overhead:
  assumes "run_inference S expit stub clk u X cl srv = (Ret r, cl', srv')"
  shows "ct_network_and_grpc_overhead_us (client_timing_breakdown r)
    = ct_grpc_roundtrip_us (client_timing_breakdown r) - of_int (total_inference_us (timing_breakdown r))"
  using assms unfolding run_inference_def Let_def
  by (auto split: list.splits if_splits sum.splits prod.splits)

lemma request_loop_Ret:
  assumes "request_loop rq draw is cl srv = (Ret rs, st)"
    and "\<And>i x cl srv r st. rq i x cl srv = (Ret r, st) \<Longrightarrow> P r"
  shows "length rs = length is \<and> list_all P rs"
  using assms(1)
proof (induction "is" arbitrary: cl srv rs)
  case (Cons i "is")
  then obtain x r cl1 srv1 rs' where "draw i = Ret x" "rq i x cl srv = (Ret r, cl1, srv1)"
    "request_loop rq draw is cl1 srv1 = (Ret rs', st)" "rs = r # rs'"
    by (auto split: sum.splits prod.splits)
  with Cons.IH [of cl1 srv1 rs'] assms(2) show ?case by auto
qed simp

definition timed_ok :: "inf_result \<Rightarrow> bool" where
  "timed_ok r \<longleftrightarrow> ct_network_and_grpc_overhead_us (client_timing_breakdown r)
     = ct_grpc_roundtrip_us (client_timing_breakdown r) - of_int (total_inference_us (timing_breakdown r))"

lemma gate_chain_lt: "gate_chain expit chain w b x0 r0 = Ret e \<Longrightarrow> pf_lt e (Fin (1 / 10000))"
  unfolding gate_chain_def verify_encrypted_output_def Let_def DEFAULT_TOLERANCE_def
  by (auto simp: res_simps split: if_splits prod.splits)

lemma timed_responses_Ret:
  assumes "timed_responses (chain_request S expit N chain) draw cl srv = Ret rs"
  shows "length rs = 1000 \<and> list_all timed_ok rs"
proof -
  obtain cl1 srv1 st where t: "request_loop (chain_request S expit N chain) draw [1 + WARMUP_ROUNDS..<1 + WARMUP_ROUNDS + MEASURE_ROUNDS] cl1 srv1 = (Ret rs, st)"
    using assms unfolding timed_responses_def by (auto split: sum.splits prod.splits simp del: upt_Suc) (metis fst_conv prod.collapse)
  have "length rs = length [1 + WARMUP_ROUNDS..<1 + WARMUP_ROUNDS + MEASURE_ROUNDS] \<and> list_all timed_ok rs"
    by (rule request_loop_Ret [OF t]) (auto simp: timed_ok_def chain_request_def intro: run_inference_overhead)
  then show ?thesis by (simp add: MEASURE_ROUNDS_def)
qed

lemma measure_chain_Ret:
  assumes "measure_chain S expit N fs chain ix srv X w b = Ret (e, rs)"
  shows "pf_lt e (Fin (1 / 10000)) \<and> length rs = 1000 \<and> list_all timed_ok rs"
proof -
  let ?rq = "chain_request S expit N chain"
  obtain cl srv1 where g: "gated_responses expit ?rq (\<lambda>i. xtest_row X (ix i)) chain w b cl srv1 = Ret (e, rs)"
    using assms unfolding measure_chain_def by (auto split: sum.splits prod.splits)
  then obtain x0 where c: "(case ?rq 0 x0 cl srv1 of (Inl e, _) \<Rightarrow> Inl e
      | (Inr r0, cl1, srv1) \<Rightarrow> rbind (gate_chain expit chain w b x0 r0) (\<lambda>mae.
          rbind (timed_responses ?rq (\<lambda>i. xtest_row X (ix i)) cl1 srv1) (\<lambda>rs. Ret (mae, rs)))) = Ret (e, rs)"
    unfolding gated_responses_def rbind_Ret_iff by (elim exE conjE)
  obtain q cl1 srv2 where q: "?rq 0 x0 cl srv1 = (q, cl1, srv2)" by (rule prod_cases3)
  from c obtain r0 where "gate_chain expit chain w b x0 r0 = Ret e" and t: "timed_responses ?rq (\<lambda>i. xtest_row X (ix i)) cl1 srv2 = Ret rs"
    unfolding q by (cases q) (auto simp: rbind_Ret_iff)
  with gate_chain_lt timed_responses_Ret [OF t] show ?thesis by simp
qed

text \<open>A summary carries mean and median of the samples, and its figures are ordered.\<close>

definition summarises :: "json \<Rightarrow> real list \<Rightarrow> bool" where
  "summarises j xs \<longleftrightarrow> jget j ''mean_us'' = Ret (JReal (mean xs)) \<and> jget j ''median_us'' = Ret (JReal (np_median xs)) \<and>
     (\<exists>p95 p99 lo hi. jget j ''p95_us'' = Ret (JReal p95) \<and> jget j ''p99_us'' = Ret (JReal p99) \<and> jget j ''min_us'' = Ret (JReal lo)
        \<and> jget j ''max_us'' = Ret (JReal hi) \<and> lo \<le> np_median xs \<and> np_median xs \<le> p95 \<and> p95 \<le> p99 \<and> p99 \<le> hi \<and> lo \<le> mean xs \<and> mean xs \<le> hi)"

lemma us_summary_ok:
  assumes "xs \<noteq> []"
  shows "\<exists>j. us_summary xs = Ret j \<and> summarises j xs"
proof -
  have b: "\<And>x. x \<in> set xs \<Longrightarrow> lmin xs \<le> x \<and> x \<le> lmax xs" using lmin_le lmax_ge by blast
  have "lmin xs \<le> np_median xs" "np_median xs \<le> np_percentile xs 95" "np_percentile xs 95 \<le> np_percentile xs 99"
    "np_percentile xs 99 \<le> lmax xs" "lmin xs \<le> mean xs" "mean xs \<le> lmax xs"
    using np_percentile_between [OF assms _ _ b] np_percentile_mono [OF assms] mean_between [OF assms b]
    by (simp_all flip: np_percentile_50 [OF assms])
  then show ?thesis using assms by (simp add: us_summary_def summarises_def)
qed

lemma stage_table_ok:
  assumes "stage_table ks g rs = Ret j" "rs \<noteq> []"
  shows "\<forall>k \<in> set ks. \<exists>s. jget j k = Ret s \<and> summarises s (map (\<lambda>r. field k (g r)) rs)"
proof -
  obtain kvs where kvs: "list_all2 (\<lambda>f kv. \<exists>s. us_summary (map (\<lambda>r. field f (g r)) rs) = Ret s \<and> (f, s) = kv) ks kvs" "j = JObj kvs"
    using assms(1) unfolding stage_table_def by (auto simp: rbind_Ret_iff rmap_Ret_iff)
  have "\<exists>s. map_of kvs k = Some s \<and> us_summary (map (\<lambda>r. field k (g r)) rs) = Ret s" if "k \<in> set ks" for k
    using kvs(1) that by (induction ks kvs rule: list_all2_induct) auto
  moreover have "summarises s (map (\<lambda>r. field k (g r)) rs)" if "us_summary (map (\<lambda>r. field k (g r)) rs) = Ret s" for k s
    using us_summary_ok [of "map (\<lambda>r. field k (g r)) rs"] assms(2) that by auto
  ultimately show ?thesis unfolding kvs(2) by (metis (no_types, lifting) jget.simps(1) option.simps(5))
qed

text \<open>What the report says of one chain: a gated error, every stage summarised over the same 1000 responses, and mean overhead
  the difference of mean round trip and mean server time.\<close>

definition chain_reported :: "json \<Rightarrow> bool" where
  "chain_reported j \<longleftrightarrow> (\<exists>mae (rs :: inf_result list). jget j ''correctness_max_abs_error'' = Ret (JNum mae) \<and> pf_lt mae (Fin (1 / 10000)) \<and> length rs = 1000
     \<and> (\<forall>f \<in> set STAGE_FIELDS. \<exists>s. jpath j [''client_stage_us'', f] = Ret s \<and> summarises s (map (\<lambda>r. field f (client_fields (client_timing_breakdown r))) rs))
     \<and> (\<forall>f \<in> set SERVER_FIELDS. \<exists>s. jpath j [''server_stage_us'', f] = Ret s \<and> summarises s (map (\<lambda>r. field f (server_fields (timing_breakdown r))) rs)))
   \<and> (\<exists>rt tot. jpath j [''client_stage_us'', ''grpc_roundtrip_us'', ''mean_us''] = Ret (JReal rt)
       \<and> jpath j [''server_stage_us'', ''total_inference_us'', ''mean_us''] = Ret (JReal tot)
       \<and> jpath j [''client_stage_us'', ''network_and_grpc_overhead_us'', ''mean_us''] = Ret (JReal (rt - tot)))"

lemma chain_json_reported:
  assumes "chain_json e rs = Ret j" "pf_lt e (Fin (1 / 10000))" "length rs = 1000" "list_all timed_ok rs"
  shows "chain_reported j"
proof -
  obtain cs ss where t: "stage_table STAGE_FIELDS (\<lambda>r. client_fields (client_timing_breakdown r)) rs = Ret cs"
      "stage_table SERVER_FIELDS (\<lambda>r. server_fields (timing_breakdown r)) rs = Ret ss"
    and j: "j = JObj [(''correctness_max_abs_error'', JNum e), (''client_stage_us'', cs), (''server_stage_us'', ss)]"
    using assms(1) unfolding chain_json_def by (auto simp: rbind_Ret_iff)
  have ne: "rs \<noteq> []" using assms(3) by auto
  note c = stage_table_ok [OF t(1) ne] and s = stage_table_ok [OF t(2) ne]
  have names: "''grpc_roundtrip_us'' \<in> set STAGE_FIELDS" "''network_and_grpc_overhead_us'' \<in> set STAGE_FIELDS" "''total_inference_us'' \<in> set SERVER_FIELDS"
    by (simp_all add: STAGE_FIELDS_def SERVER_FIELDS_def)
  obtain a b d where abd: "jget cs ''grpc_roundtrip_us'' = Ret a" "jget cs ''network_and_grpc_overhead_us'' = Ret b" "jget ss ''total_inference_us'' = Ret d"
      "summarises a (map (\<lambda>r. field ''grpc_roundtrip_us'' (client_fields (client_timing_breakdown r))) rs)"
      "summarises b (map (\<lambda>r. field ''network_and_grpc_overhead_us'' (client_fields (client_timing_breakdown r))) rs)"
      "summarises d (map (\<lambda>r. field ''total_inference_us'' (server_fields (timing_breakdown r))) rs)"
    using c [THEN bspec, OF names(1)] c [THEN bspec, OF names(2)] s [THEN bspec, OF names(3)] by (elim exE conjE)
  have eq: "map (\<lambda>r. field ''network_and_grpc_overhead_us'' (client_fields (client_timing_breakdown r))) rs
      = map (\<lambda>r. field ''grpc_roundtrip_us'' (client_fields (client_timing_breakdown r)) - field ''total_inference_us'' (server_fields (timing_breakdown r))) rs"
    using assms(4) by (simp add: list_all_iff timed_ok_def field_def client_fields_def server_fields_def)
  show ?thesis
    unfolding chain_reported_def
  proof (intro conjI exI)
    show "jget j ''correctness_max_abs_error'' = Ret (JNum e)" by (simp add: j)
    show "pf_lt e (Fin (1 / 10000))" "length rs = 1000" by fact+
    show "jpath j [''client_stage_us'', ''grpc_roundtrip_us'', ''mean_us''] = Ret (JReal (mean (map (\<lambda>r. field ''grpc_roundtrip_us'' (client_fields (client_timing_breakdown r))) rs)))"
      "jpath j [''server_stage_us'', ''total_inference_us'', ''mean_us''] = Ret (JReal (mean (map (\<lambda>r. field ''total_inference_us'' (server_fields (timing_breakdown r))) rs)))"
      using abd by (simp_all add: j summarises_def)
    show "jpath j [''client_stage_us'', ''network_and_grpc_overhead_us'', ''mean_us''] = Ret (JReal
      (mean (map (\<lambda>r. field ''grpc_roundtrip_us'' (client_fields (client_timing_breakdown r))) rs) - mean (map (\<lambda>r. field ''total_inference_us'' (server_fields (timing_breakdown r))) rs)))"
      using abd(2,5) unfolding eq summarises_def by (simp add: j mean_diff)
  qed (use c s in \<open>auto simp: j\<close>)
qed

lemma e2e_main_Ret:
  assumes "e2e_main h gov st run200 run160 rep = (Ret 0, ps, rep')"
  shows "\<exists>X w b e2 rs2 e1 rs1 j2 j1. run200 X w b = Ret (e2, rs2) \<and> run160 X w b = Ret (e1, rs1) \<and> chain_json e2 rs2 = Ret j2 \<and> chain_json e1 rs1 = Ret j1
    \<and> rep' = save_json E2E_OUT (JObj [(''framing'', e2e_framing (case gov of None \<Rightarrow> ''UNKNOWN'' | Some g \<Rightarrow> g)), (''200bit'', j2), (''160bit'', j1)]) rep
    \<and> (\<forall>p \<in> set ps. sp_status p \<noteq> Running)"
  using assms stop_server_stopped unfolding e2e_main_def Let_def
  by (auto simp: rbind_Ret_iff split: if_splits sum.splits option.splits prod.splits) (metis (no_types, lifting))+

text \<open>The c3 table row of a reported chain.\<close>

lemma table_a_row_reported:
  assumes "chain_reported j" "jget e2e chain = Ret j"
  shows "\<exists>enc tot. jpath j [''client_stage_us'', ''encode_encrypt_us'', ''median_us''] = Ret (JReal enc)
    \<and> jpath j [''server_stage_us'', ''total_inference_us'', ''median_us''] = Ret (JReal tot)
    \<and> (tot \<noteq> 0 \<longrightarrow> (\<exists>row. table_a_row e2e chain = Ret row \<and> jget row ''which_is_larger'' = Ret (JStr (if enc > tot then ''client'' else ''server''))))"
proof -
  have names: "''encode_encrypt_us'' \<in> set STAGE_FIELDS" "''total_inference_us'' \<in> set SERVER_FIELDS"
    by (simp_all add: STAGE_FIELDS_def SERVER_FIELDS_def)
  obtain rs :: "inf_result list" where c: "\<forall>f \<in> set STAGE_FIELDS. \<exists>s. jpath j [''client_stage_us'', f] = Ret s \<and> summarises s (map (\<lambda>r. field f (client_fields (client_timing_breakdown r))) rs)"
    and s: "\<forall>f \<in> set SERVER_FIELDS. \<exists>s. jpath j [''server_stage_us'', f] = Ret s \<and> summarises s (map (\<lambda>r. field f (server_fields (timing_breakdown r))) rs)"
    using assms(1) unfolding chain_reported_def by (elim conjE exE)
  obtain a d where a: "jpath j [''client_stage_us'', ''encode_encrypt_us''] = Ret a" "summarises a (map (\<lambda>r. field ''encode_encrypt_us'' (client_fields (client_timing_breakdown r))) rs)"
    and d: "jpath j [''server_stage_us'', ''total_inference_us''] = Ret d" "summarises d (map (\<lambda>r. field ''total_inference_us'' (server_fields (timing_breakdown r))) rs)"
    using c [THEN bspec, OF names(1)] s [THEN bspec, OF names(2)] by (elim exE conjE)
  obtain enc tot where m: "jget a ''median_us'' = Ret (JReal enc)" "jget d ''median_us'' = Ret (JReal tot)"
    using a(2) d(2) unfolding summarises_def by blast
  have p: "jpath j [''client_stage_us'', ''encode_encrypt_us'', ''median_us''] = Ret (JReal enc)"
    "jpath j [''server_stage_us'', ''total_inference_us'', ''median_us''] = Ret (JReal tot)"
    using a(1) d(1) m by (auto simp: rbind_Ret_iff)
  moreover have "\<exists>row. table_a_row e2e chain = Ret row \<and> jget row ''which_is_larger'' = Ret (JStr (if enc > tot then ''client'' else ''server''))" if "tot \<noteq> 0"
    using that p by (simp add: table_a_row_def assms(2) jnum_at_def py_div_def del: jpath.simps py_round.simps)
  ultimately show ?thesis by blast
qed

section \<open>A run against ready servers\<close>

lemma request_loop_ok:
  assumes "\<And>i. i \<in> set js \<Longrightarrow> \<exists>x. draw i = Ret x \<and> Q x"
    and "\<And>i x cl s. Q x \<Longrightarrow> I cl s \<Longrightarrow> \<exists>r cl' s'. rq i x cl s = (Ret r, cl', s') \<and> R x r \<and> I cl' s'" and "I cl s"
  shows "\<exists>rs cl' s'. request_loop rq draw js cl s = (Ret rs, cl', s') \<and> list_all2 (\<lambda>i r. \<exists>x. draw i = Ret x \<and> R x r) js rs \<and> I cl' s'"
  using assms(1,3)
proof (induction js arbitrary: cl s)
  case (Cons i js)
  obtain x where x: "draw i = Ret x" "Q x" using Cons.prems(1) [of i] by auto
  obtain r cl1 s1 where r: "rq i x cl s = (Ret r, cl1, s1)" "R x r" "I cl1 s1" using assms(2) [OF x(2) Cons.prems(2)] by blast
  from Cons.IH [OF _ r(3)] Cons.prems(1) obtain rs cl' s' where "request_loop rq draw js cl1 s1 = (Ret rs, cl', s')"
    "list_all2 (\<lambda>i r. \<exists>x. draw i = Ret x \<and> R x r) js rs" "I cl' s'" by auto
  with x r show ?case by simp
qed simp

lemma chain_json_ok:
  assumes "rs \<noteq> []"
  shows "\<exists>j. chain_json e rs = Ret j"
proof -
  have "\<exists>j. stage_table ks g rs = Ret j" for ks g
  proof -
    have "rmap (\<lambda>f. rbind (us_summary (map (\<lambda>r. field f (g r)) rs)) (\<lambda>s. Ret (f, s))) ks
        = Ret (map (\<lambda>f. (f, projr (us_summary (map (\<lambda>r. field f (g r)) rs)))) ks)"
      using assms by (intro rmap_Ret) (simp add: us_summary_def)
    then show ?thesis by (simp add: stage_table_def)
  qed
  then show ?thesis unfolding chain_json_def by (metis rbind.simps(2))
qed

lemma xtest_row_ok:
  assumes "X \<noteq> []" "list_all row256 X"
  shows "\<exists>x. xtest_row X k = Ret x \<and> batch 1 x \<and> length (elems x) = 256"
proof -
  have "X ! (k mod length X) \<in> set X" using assms(1) by simp
  then have "length (X ! (k mod length X)) = 256" using assms(2) by (auto simp: list_all_iff row256_def)
  then show ?thesis using assms(1) by (simp add: xtest_row_def Let_def batch_def)
qed

context ckks_slots
begin

lemma slot_gated_responses:
  assumes sv: "ready SLOT (Some gk) w b sv" "length w = 256" and cl: "client_wf cl" "cl_packing cl = SLOT"
    and X: "X \<noteq> []" "list_all row256 X"
    and N: "nt_connect N = (\<lambda>_. vendor_stub S rnd tm)"
    and tol: "lane_error e_enc e_mul e_rot e_add w < 1 / 10000" "\<And>u v. \<bar>expit u - expit v\<bar> \<le> \<bar>u - v\<bar>"
    and bias: "b = (if chain = ''160bit'' then mb else 0)"
  shows "\<exists>e rs. gated_responses expit (chain_request S expit N chain) (\<lambda>i. xtest_row X (ix i)) chain w mb cl sv = Ret (e, rs)"
proof -
  let ?rq = "chain_request S expit N chain" and ?dr = "\<lambda>i. xtest_row X (ix i)"
  let ?I = "\<lambda>cl s. ready SLOT (Some gk) w b s \<and> client_wf cl \<and> cl_packing cl = SLOT"
  have step: "\<exists>r cl' s'. ?rq i x cl s = (Ret r, cl', s') \<and> ?I cl' s'" if "batch 1 x \<and> length (elems x) = 256" "?I cl s" for i x cl s
    using slot_run_once [of w b s cl x expit rnd tm] that sv(2) unfolding chain_request_def N by blast
  obtain x0 where x0: "?dr 0 = Ret x0" "batch 1 x0" "length (elems x0) = 256" using xtest_row_ok [OF X] by blast
  obtain r0 z cl1 sv1 where r0: "?rq 0 x0 cl sv = (Ret r0, cl1, sv1)" "?I cl1 sv1" "fraud_probabilities r0 = [expit z]"
      "\<bar>z - (dot (elems x0) w + b)\<bar> \<le> lane_error e_enc e_mul e_rot e_add w"
    using slot_run_once [OF sv cl x0(2), of expit rnd tm] unfolding chain_request_def N by blast
  have "\<bar>expit z - expit (dot (elems x0) w + b)\<bar> < 1 / 10000"
    using tol(2) [of z "dot (elems x0) w + b"] r0(4) tol(1) by linarith
  then have "\<exists>e. gate_chain expit chain w mb x0 r0 = Ret e"
    using x0(3) sv(2) r0(3) by (simp add: gate_chain_def verify_encrypted_output_def DEFAULT_TOLERANCE_def flip: bias)
  moreover have loop: "\<exists>rs cl' s'. request_loop ?rq ?dr is cl s = (Ret rs, cl', s') \<and> ?I cl' s'" if "?I cl s" for "is" cl s
    using request_loop_ok [where Q = "\<lambda>x. batch 1 x \<and> length (elems x) = 256" and R = "\<lambda>_ _. True" and I = ?I and draw = ?dr and rq = ?rq
        and js = "is" and cl = cl and s = s] xtest_row_ok [OF X] step that by blast
  moreover have "\<exists>rs. timed_responses ?rq ?dr cl1 sv1 = Ret rs"
  proof -
    obtain ws cl2 sv2 where w: "request_loop ?rq ?dr [1..<1 + WARMUP_ROUNDS] cl1 sv1 = (Ret ws, cl2, sv2)" "?I cl2 sv2"
      using loop [OF r0(2)] by blast
    from loop [OF w(2)] show ?thesis unfolding timed_responses_def w(1) by (metis (no_types, lifting) fst_conv old.sum.simps(6) prod.case)
  qed
  ultimately show ?thesis unfolding gated_responses_def x0(1) by (auto simp: r0(1))
qed

lemma baseline_client_init:
  assumes sv: "ready SLOT (Some gk) w b sv" "length w = 256"
    and a: "fs ''artifacts/public_key.bin'' = Some pk" "fs ''artifacts/secret_key.bin'' = Some sk"
      "import_module ''seal_wrapper'' = Ret c" "init_seal pk sk = Ret ()"
  shows "\<exists>cl sv'. client_init S expit (vendor_stub S rnd tm) clk u import_module init_seal fs (build_client_args ''200bit'') sv = (Ret cl, sv')
    \<and> ready SLOT (Some gk) w b sv' \<and> client_wf cl \<and> cl_packing cl = SLOT"
proof -
  let ?cl = "\<lparr>cl_packing = SLOT, cl_max_lanes = 16, cl_pad_buffer = replicate 16 (replicate 256 0)\<rparr>"
  have wf: "client_wf ?cl" by (simp add: client_wf_def)
  have b: "batch 1 warmup_input" by (simp add: batch_def warmup_input_def)
  obtain r cl' sv' where w: "run_inference S expit (vendor_stub S rnd tm) clk u warmup_input ?cl sv = (Ret r, cl', sv')"
    "ready SLOT (Some gk) w b sv'" "client_wf cl'" "cl_packing cl' = SLOT"
    using slot_run_once [OF sv wf _ b, of expit rnd tm clk u] by auto
  have "client_init S expit (vendor_stub S rnd tm) clk u import_module init_seal fs (build_client_args ''200bit'') sv = (Ret cl', sv')"
    using a by (simp add: client_init_def build_client_args_def read_bytes_def tls_setup_def warmup_def w(1))
  with w show ?thesis by blast
qed

end

text \<open>With the inputs in place, a ready 200-bit server of the model's weights (and bias 0), a fresh 160-bit server of the model
  that accepts the bank's keys, and noise below the tolerance, the script ends normally.\<close>

lemma e2e_returns:
  assumes S2: "ckks_slots S2 gk2 ok2 e2 m2 r2 a2" and S1: "ckks_slots S1 gk1 ok1 e1 m1 r1 a1"
    and host: "\<not> pc_port_open h 50051" "\<not> pc_port_open h 50052" "pc_poll h 50051 = None" "pc_poll h 50052 = None"
      "file_exists st BASELINE_BIN" "file_exists st REDUCED_BIN"
    and weights: "load_model_weights (bins st) (Some ''artifacts/model_weights.bin'') = Ret (mw, mb)" "length mw = 256"
    and X: "np_load_mat st ''artifacts/X_test.npy'' = Ret X" "X \<noteq> []" "list_all row256 X"
    and sv2: "ready SLOT (Some gk2) (map f64_real mw) 0 srv2"
    and sv1: "sv_mode srv1 = SLOT" "pstate (sv_sm srv1) = PROV_AWAITING_KEYS" "sv_w srv1 = map f64_real mw" "sv_b srv1 = f64_real mb"
    and keys: "bins st ''artifacts/galois_keys_160.bin'' = Some k" "keys_accepted S1 k gk1" "256 * e1 + 255 * r1 < 1 / 1000"
      "bins st ''artifacts/public_key_160.bin'' = Some pkr" "bins st ''artifacts/secret_key_160.bin'' = Some skr"
      "nt_import N1 ''seal_wrapper_160'' = Ret cr" "nt_init_seal N1 pkr skr = Ret ()"
      "bins st ''artifacts/public_key.bin'' = Some pkb" "bins st ''artifacts/secret_key.bin'' = Some skb"
      "nt_import N2 ''seal_wrapper'' = Ret cb" "nt_init_seal N2 pkb skb = Ret ()"
    and net: "nt_connect N2 = (\<lambda>_. vendor_stub S2 rndb tmb)" "nt_connect N1 = (\<lambda>_. vendor_stub S1 rndr tmr)"
    and tol: "lane_error e2 m2 r2 a2 (map f64_real mw) < 1 / 10000" "lane_error e1 m1 r1 a1 (map f64_real mw) < 1 / 10000"
      "\<And>u v. \<bar>expit u - expit v\<bar> \<le> \<bar>u - v\<bar>"
  shows "\<exists>ps rep'. e2e_main h gov st (measure_chain S2 expit N2 (bins st) ''200bit'' ix2 srv2) (measure_chain S1 expit N1 (bins st) ''160bit'' ix1 srv1) rep
    = (Ret 0, ps, rep')"
proof -
  let ?w = "map f64_real mw" and ?b = "f64_real mb"
  have w: "length ?w = 256" using weights(2) by simp
  have a160: "build_client_args ''160bit'' = self_test_args" by (simp add: build_client_args_def self_test_args_def)
  obtain cl2 s2 where i2: "client_init S2 expit (vendor_stub S2 rndb tmb) (nt_clock N2) (nt_uuid N2 0) (nt_import N2) (nt_init_seal N2) (bins st)
      (build_client_args ''200bit'') srv2 = (Ret cl2, s2)" "ready SLOT (Some gk2) ?w 0 s2" "client_wf cl2" "cl_packing cl2 = SLOT"
    using ckks_slots.baseline_client_init [OF S2 sv2 w, of "bins st" pkb skb "nt_import N2" cb "nt_init_seal N2" expit rndb tmb "nt_clock N2" "nt_uuid N2 0"]
      keys(8-11) by blast
  obtain q2 rs2 where g2: "measure_chain S2 expit N2 (bins st) ''200bit'' ix2 srv2 X ?w ?b = Ret (q2, rs2)"
    using ckks_slots.slot_gated_responses [OF S2 i2(2) w i2(3,4) X(2,3) net(1) tol(1,3), of "''200bit''" ?b ix2]
    by (auto simp: measure_chain_def net(1) i2(1))
  obtain cl1 s1 where i1: "client_init S1 expit (vendor_stub S1 rndr tmr) (nt_clock N1) (nt_uuid N1 0) (nt_import N1) (nt_init_seal N1) (bins st)
      (build_client_args ''160bit'') srv1 = (Ret cl1, s1)" "ready SLOT (Some gk1) ?w ?b s1" "client_wf cl1" "cl_packing cl1 = SLOT"
    using ckks_slots.slot_client_init [where fs = "bins st" and import_module = "nt_import N1" and init_seal = "nt_init_seal N1" and pk = pkr and sk = skr,
        OF S1 sv1(1,2) _ keys(1-7), of expit rndr tmr "nt_clock N1" "nt_uuid N1 0"] w unfolding a160 sv1(3,4) by blast
  obtain q1 rs1 where g1: "measure_chain S1 expit N1 (bins st) ''160bit'' ix1 srv1 X ?w ?b = Ret (q1, rs1)"
    using ckks_slots.slot_gated_responses [OF S1 i1(2) w i1(3,4) X(2,3) net(2) tol(2,3), of "''160bit''" ?b ix1]
    by (auto simp: measure_chain_def net(2) i1(1))
  have "rs2 \<noteq> []" "rs1 \<noteq> []" using measure_chain_Ret [OF g2] measure_chain_Ret [OF g1] by auto
  then obtain j2 j1 where j: "chain_json q2 rs2 = Ret j2" "chain_json q1 rs1 = Ret j1" using chain_json_ok by metis
  show ?thesis
    using host X(1) weights(1) g2 g1 j by (simp add: e2e_main_def Let_def)
qed

section \<open>Properties\<close>

text \<open>C21. The latency report is what was measured. When the script ends normally, no server it launched is left running and the
  written file says of both chains: the gate passed with an error below 1e-4; every client and every server stage is
  summarised over the same 1000 responses with minimum, median, p95, p99 and maximum in order; the mean overhead is the mean
  round trip less the mean server time. The client/server comparison can read it: unless the server's median is 0 it gets a
  row, and the row names the side with the larger median.\<close>

theorem e2e_report_sound:
  assumes "e2e_main h gov st (measure_chain S2 expit N2 (bins st) ''200bit'' ix2 srv2) (measure_chain S1 expit N1 (bins st) ''160bit'' ix1 srv1) rep = (Ret 0, ps, rep')"
  shows "\<exists>out. load_json rep' E2E_OUT = Ret out \<and> (\<forall>p \<in> set ps. sp_status p \<noteq> Running)
    \<and> (\<forall>chain \<in> {''200bit'', ''160bit''}. \<exists>j enc tot. jget out chain = Ret j \<and> chain_reported j
         \<and> jpath j [''client_stage_us'', ''encode_encrypt_us'', ''median_us''] = Ret (JReal enc)
         \<and> jpath j [''server_stage_us'', ''total_inference_us'', ''median_us''] = Ret (JReal tot)
         \<and> (tot \<noteq> 0 \<longrightarrow> (\<exists>row. table_a_row out chain = Ret row \<and> jget row ''which_is_larger'' = Ret (JStr (if enc > tot then ''client'' else ''server'')))))"
proof -
  obtain X w b e2 rs2 e1 rs1 j2 j1 where run: "measure_chain S2 expit N2 (bins st) ''200bit'' ix2 srv2 X w b = Ret (e2, rs2)"
      "measure_chain S1 expit N1 (bins st) ''160bit'' ix1 srv1 X w b = Ret (e1, rs1)" and j: "chain_json e2 rs2 = Ret j2" "chain_json e1 rs1 = Ret j1"
    and rep': "rep' = save_json E2E_OUT (JObj [(''framing'', e2e_framing (case gov of None \<Rightarrow> ''UNKNOWN'' | Some g \<Rightarrow> g)), (''200bit'', j2), (''160bit'', j1)]) rep"
    and ps: "\<forall>p \<in> set ps. sp_status p \<noteq> Running"
    using e2e_main_Ret [OF assms] by (elim exE conjE)
  let ?out = "JObj [(''framing'', e2e_framing (case gov of None \<Rightarrow> ''UNKNOWN'' | Some g \<Rightarrow> g)), (''200bit'', j2), (''160bit'', j1)]"
  have r: "chain_reported j2" "chain_reported j1"
    using measure_chain_Ret [OF run(1)] measure_chain_Ret [OF run(2)] chain_json_reported [OF j(1)] chain_json_reported [OF j(2)] by simp_all
  have g: "jget ?out ''200bit'' = Ret j2" "jget ?out ''160bit'' = Ret j1" by simp_all
  have "load_json rep' E2E_OUT = Ret ?out" unfolding rep' by (simp add: load_json_def save_json_def)
  with ps r g table_a_row_reported [OF r(1) g(1)] table_a_row_reported [OF r(2) g(2)] show ?thesis
    by (intro exI [of _ ?out]) (simp only: ball_simps simp_thms, blast)
qed

definition demo_e2e_store :: store where
  "demo_e2e_store = demo_bank\<lparr>bins := (bins demo_bank)(''artifacts/public_key.bin'' \<mapsto> [3], ''artifacts/secret_key.bin'' \<mapsto> [4]),
     others := {BASELINE_BIN, REDUCED_BIN}\<rparr>"

theorem e2e_report_sound_witness:
  "\<exists>ps rep' out j. e2e_main (demo_pc_host\<lparr>pc_poll := \<lambda>_. None\<rparr>) (Some ''performance'') demo_e2e_store
       (measure_chain plain_seal (\<lambda>z. z / 4) demo_net (bins demo_e2e_store) ''200bit'' id ((demo_server SLOT)\<lparr>sv_w := replicate 256 0, sv_b := 0\<rparr>))
       (measure_chain plain_seal (\<lambda>z. z / 4) demo_net (bins demo_e2e_store) ''160bit'' id
          ((demo_server SLOT)\<lparr>sv_w := replicate 256 0, sv_b := 0, sv_sm := psm_init, sv_gk := None\<rparr>)) Map.empty = (Ret 0, ps, rep')
     \<and> load_json rep' E2E_OUT = Ret out \<and> jget out ''160bit'' = Ret j \<and> chain_reported j"
proof -
  have k: "keys_accepted plain_seal [] ()" by (simp add: keys_accepted_def plain_seal_def list_all_iff)
  have l: "load_model_weights (bins demo_e2e_store) (Some ''artifacts/model_weights.bin'') = Ret (replicate 256 0, 0)"
    by (rule parity_reader.rd_image) (simp_all add: demo_e2e_store_def demo_bank_def demo_store_def)
  have "\<exists>ps rep'. e2e_main (demo_pc_host\<lparr>pc_poll := \<lambda>_. None\<rparr>) (Some ''performance'') demo_e2e_store
       (measure_chain plain_seal (\<lambda>z. z / 4) demo_net (bins demo_e2e_store) ''200bit'' id ((demo_server SLOT)\<lparr>sv_w := replicate 256 0, sv_b := 0\<rparr>))
       (measure_chain plain_seal (\<lambda>z. z / 4) demo_net (bins demo_e2e_store) ''160bit'' id
          ((demo_server SLOT)\<lparr>sv_w := replicate 256 0, sv_b := 0, sv_sm := psm_init, sv_gk := None\<rparr>)) Map.empty = (Ret 0, ps, rep')"
    by (rule e2e_returns [where X = "[replicate 256 0]" and k = "[]" and cr = True and cb = True and rndr = "\<lambda>_. 0" and rndb = "\<lambda>_. 0" and tmr = demo_timing
        and tmb = demo_timing and pkr = "[1]" and skr = "[2]" and pkb = "[3]" and skb = "[4]" and h = "demo_pc_host\<lparr>pc_poll := \<lambda>_. None\<rparr>"
        and expit = "\<lambda>z. z / 4",
        OF plain_slots.ckks_slots_axioms plain_slots.ckks_slots_axioms _ _ _ _ _ _ l _ _ _ _ _ _ _ _ _ _ k])
      (simp_all add: demo_pc_host_def demo_e2e_store_def demo_bank_def demo_store_def demo_net_def np_load_mat_def file_exists_def ready_def lane_error_def
        row256_def psm_init_def f64_real_def)
  then obtain ps rep' where run: "e2e_main (demo_pc_host\<lparr>pc_poll := \<lambda>_. None\<rparr>) (Some ''performance'') demo_e2e_store
       (measure_chain plain_seal (\<lambda>z. z / 4) demo_net (bins demo_e2e_store) ''200bit'' id ((demo_server SLOT)\<lparr>sv_w := replicate 256 0, sv_b := 0\<rparr>))
       (measure_chain plain_seal (\<lambda>z. z / 4) demo_net (bins demo_e2e_store) ''160bit'' id
          ((demo_server SLOT)\<lparr>sv_w := replicate 256 0, sv_b := 0, sv_sm := psm_init, sv_gk := None\<rparr>)) Map.empty = (Ret 0, ps, rep')"
    by blast
  from e2e_report_sound [OF run] run show ?thesis by blast
qed

text \<open>Only one outcome leaves a server behind. A process the script launched is still running when it ends exactly when the
  160-bit binary is missing and the 200-bit server was up: launching the missing binary raises outside the try block whose
  finally clause stops the servers.\<close>

theorem e2e_orphan_iff:
  "(\<exists>p \<in> set (fst (snd (e2e_main h gov st run200 run160 rep))). sp_status p = Running) \<longleftrightarrow>
     \<not> pc_port_open h 50051 \<and> \<not> pc_port_open h 50052
     \<and> is_ret (np_load_mat st ''artifacts/X_test.npy'') \<and> is_ret (load_model_weights (bins st) (Some ''artifacts/model_weights.bin''))
     \<and> file_exists st BASELINE_BIN \<and> pc_poll h 50051 = None \<and> \<not> file_exists st REDUCED_BIN"
  by (cases "np_load_mat st ''artifacts/X_test.npy''"; cases "load_model_weights (bins st) (Some ''artifacts/model_weights.bin'')";
      cases "pc_poll h 50051"; cases "pc_poll h 50052")
    (auto simp: e2e_main_def Let_def launch_plain_def stop_server_stopped split: sum.splits prod.splits)


end
