(* ===== verification/DemoScripts.thy ===== *)
theory DemoScripts
  imports LatencyReport
begin

text \<open>
  The demonstration \<^verbatim>\<open>scripts/demo_e2e.py\<close>, the per-stage timings of \<^verbatim>\<open>scripts/generate_research_artifacts.py\<close> and the
  checklist \<^verbatim>\<open>scripts/setup_results_dir.py\<close>. The table of the demonstration is its rows; other printing is left out.
\<close>

section \<open>The demonstration's server\<close>

text \<open>The answers of the environment: connection attempts to a remote server, polls and connection attempts while the local one
  starts (as many as fit before the deadline), the poll after it answered and when it is stopped; \<open>dh_int\<close> is \<^verbatim>\<open>int\<close>.\<close>

record demo_env =
  dh_server_addr :: "string option"
  dh_int :: "string \<Rightarrow> nat res"
  dh_remote :: "nat \<Rightarrow> nat \<Rightarrow> bool"
  dh_remote_tries :: nat
  dh_built :: bool
  dh_port_used :: bool
  dh_tries :: nat
  dh_poll :: "nat \<Rightarrow> int option"
  dh_open :: "nat \<Rightarrow> bool"
  dh_poll_after :: "int option"
  dh_poll_end :: "int option"
  dh_stops :: bool

definition wait_remote :: "demo_env \<Rightarrow> string \<Rightarrow> unit res" where
  "wait_remote h addr =
     (let port = tl (dropWhile (\<lambda>c. c \<noteq> CHR '':'') addr) in
      rbind (dh_int h (if port = [] then ''50052'' else port)) (\<lambda>p.
      if list_ex (dh_remote h p) [0..<dh_remote_tries h] then Ret () else Raise TimeoutError))"

definition start_demo_server :: "demo_env \<Rightarrow> sproc res" where
  "start_demo_server h =
     (if \<not> dh_built h then Raise FileNotFoundError
      else if dh_port_used h then Raise RuntimeError
      else Ret (launch_plain REDUCED_BIN 50052))"

text \<open>\<^verbatim>\<open>_wait_ready\<close> with \<open>k\<close> rounds left, and what has become of the process.\<close>

fun wait_ready :: "demo_env \<Rightarrow> nat \<Rightarrow> nat \<Rightarrow> unit res \<times> pstatus" where
  "wait_ready h 0 i = (Raise TimeoutError, Running)"
| "wait_ready h (Suc k) i =
     (case dh_poll h i of
        Some c \<Rightarrow> (Raise RuntimeError, Exited c)
      | None \<Rightarrow>
        if dh_open h i then (case dh_poll_after h of Some c \<Rightarrow> (Raise RuntimeError, Exited c) | None \<Rightarrow> (Ret (), Running))
        else wait_ready h k (Suc i))"

definition stop_demo_server :: "demo_env \<Rightarrow> sproc \<Rightarrow> sproc" where
  "stop_demo_server h p = (case dh_poll_end h of Some c \<Rightarrow> p\<lparr>sp_status := Exited c\<rparr> | None \<Rightarrow> stop_server (dh_stops h) p)"

section \<open>The demonstration\<close>

record demo_row =
  dr_score :: real
  dr_fraud :: bool
  dr_total_us :: int

definition demo_sample :: "real list list \<Rightarrow> nat \<Rightarrow> real ndarray res" where
  "demo_sample X i =
     (if length X \<le> i then Raise IndexError
      else if length (X ! i) \<noteq> 256 then Raise ValueError else Ret \<lparr>shape = [1, 256], elems = X ! i\<rparr>)"

definition demo_row_of :: "inf_result \<Rightarrow> demo_row res" where
  "demo_row_of r =
     (case fraud_probabilities r of
        [] \<Rightarrow> Raise IndexError
      | score # _ \<Rightarrow> Ret \<lparr>dr_score = score, dr_fraud = (score > 1 / 2), dr_total_us = total_inference_us (timing_breakdown r)\<rparr>)"

text \<open>Request \<open>i\<close> of a script that talks to one server; request 0 is the warm-up of the client.\<close>

definition nth_request :: "('c, 'w, 'g) seal \<Rightarrow> (real \<Rightarrow> real) \<Rightarrow> ('s, 'w) net \<Rightarrow> ('s, 'w) stub \<Rightarrow> nat \<Rightarrow> real ndarray \<Rightarrow> client \<Rightarrow> 's
    \<Rightarrow> inf_result res \<times> client \<times> 's" where
  "nth_request S expit N stub i = run_inference S expit stub (\<lambda>k. nt_clock N (10 * Suc i + k)) (nt_uuid N (Suc i))"

definition connect_160 :: "('c, 'w, 'g) seal \<Rightarrow> (real \<Rightarrow> real) \<Rightarrow> ('s, 'w) net \<Rightarrow> ('s, 'w) stub \<Rightarrow> fs \<Rightarrow> 's \<Rightarrow> client res \<times> 's" where
  "connect_160 S expit N stub fs srv =
     client_init S expit stub (nt_clock N) (nt_uuid N 0) (nt_import N) (nt_init_seal N) fs (build_client_args ''160bit'') srv"

definition demo_rows :: "('c, 'w, 'g) seal \<Rightarrow> (real \<Rightarrow> real) \<Rightarrow> ('s, 'w) net \<Rightarrow> ('s, 'w) stub \<Rightarrow> store \<Rightarrow> 's \<Rightarrow> demo_row list res" where
  "demo_rows S expit N stub st srv =
     rbind (np_load_mat st ''artifacts/X_test.npy'') (\<lambda>X.
     case connect_160 S expit N stub (bins st) srv of
       (Inl e, _) \<Rightarrow> Inl e
     | (Inr cl, srv1) \<Rightarrow>
       rbind (fst (request_loop (nth_request S expit N stub) (demo_sample X) [0..<5] cl srv1)) (rmap demo_row_of))"

definition demo_main ::
  "('c, 'w, 'g) seal \<Rightarrow> (real \<Rightarrow> real) \<Rightarrow> demo_env \<Rightarrow> ('s, 'w) net \<Rightarrow> (string \<Rightarrow> ('s, 'w) stub) \<Rightarrow> store \<Rightarrow> 's
   \<Rightarrow> demo_row list res \<times> sproc option" where
  "demo_main S expit h N channel st srv =
     (case dh_server_addr h of
        Some (c # addr) \<Rightarrow>
          (rbind (wait_remote h (c # addr)) (\<lambda>_. demo_rows S expit N (channel (c # addr)) st srv), None)
      | _ \<Rightarrow>
        (case start_demo_server h of
           Inl e \<Rightarrow> (Inl e, None)
         | Inr p \<Rightarrow>
           (case wait_ready h (dh_tries h) 0 of
              (Inl e, status) \<Rightarrow> (Inl e, Some (p\<lparr>sp_status := status\<rparr>))
            | (Inr _, _) \<Rightarrow> (demo_rows S expit N (channel ''localhost:50052'') st srv, Some (stop_demo_server h p)))))"

section \<open>Timings for the figures\<close>

definition RESEARCH_FIELDS :: "string list" where
  "RESEARCH_FIELDS = [''deserialization_us'', ''multiply_plain_us'', ''rotation_hoisting_us'', ''serialization_us'', ''total_inference_us'']"

definition percentiles3 :: "real list \<Rightarrow> json" where
  "percentiles3 xs = JObj [(''p50'', JReal (np_percentile xs 50)), (''p95'', JReal (np_percentile xs 95)), (''p99'', JReal (np_percentile xs 99))]"

text \<open>A row of the CSV file: the run, then the server's stages.\<close>

definition research_row :: "nat \<Rightarrow> inf_result \<Rightarrow> nat \<times> (string \<times> real) list" where
  "research_row run_id r = (run_id, map (\<lambda>f. (f, field f (server_fields (timing_breakdown r)))) RESEARCH_FIELDS)"

definition research_summary :: "(nat \<times> (string \<times> real) list) list \<Rightarrow> json" where
  "research_summary rows = JObj (map (\<lambda>f. (f, percentiles3 (map (\<lambda>row. field f (snd row)) rows))) RESEARCH_FIELDS)"

text \<open>Requests 1 to 20 warm up with the first sample; request \<open>20 + run_id\<close> takes sample \<open>run_id - 1\<close>, cyclically.\<close>

definition research_responses :: "('c, 'w, 'g) seal \<Rightarrow> (real \<Rightarrow> real) \<Rightarrow> ('s, 'w) net \<Rightarrow> ('s, 'w) stub \<Rightarrow> real list list \<Rightarrow> client \<Rightarrow> 's \<Rightarrow> inf_result list res" where
  "research_responses S expit N stub X cl srv =
     (let rq = nth_request S expit N stub in
      rbind (demo_sample X 0) (\<lambda>sample.
      case request_loop rq (\<lambda>_. Ret sample) [1..<1 + WARMUP_ROUNDS] cl srv of
        (Inl e, _) \<Rightarrow> Inl e
      | (Inr _, cl1, srv1) \<Rightarrow>
        fst (request_loop rq (\<lambda>i. demo_sample X ((i - WARMUP_ROUNDS - 1) mod length X))
               [1 + WARMUP_ROUNDS..<1 + WARMUP_ROUNDS + MEASURE_ROUNDS] cl1 srv1)))"

definition research_main :: "('c, 'w, 'g) seal \<Rightarrow> (real \<Rightarrow> real) \<Rightarrow> ('s, 'w) net \<Rightarrow> (string \<Rightarrow> ('s, 'w) stub) \<Rightarrow> store \<Rightarrow> jfs \<Rightarrow> 's
    \<Rightarrow> int res \<times> (nat \<times> (string \<times> real) list) list option \<times> jfs" where
  "research_main S expit N channel st rep srv =
     (case
        rbind (load_json rep ''artifacts/comparison_results.json'') (\<lambda>_.
        rbind (np_load_mat st ''artifacts/X_test.npy'') (\<lambda>X.
        case connect_160 S expit N (channel ''localhost:50052'') (bins st) srv of
          (Inl e, _) \<Rightarrow> Inl e
        | (Inr cl, srv1) \<Rightarrow> research_responses S expit N (channel ''localhost:50052'') X cl srv1)) of
        Inl e \<Rightarrow> (Inl e, None, rep)
      | Inr rs \<Rightarrow>
        let rows = map2 research_row [1..<1 + MEASURE_ROUNDS] rs in
        (Ret 0, Some rows, save_json ''results/latency_summary.json'' (research_summary rows) rep))"

section \<open>The checklist\<close>

definition REQUIRED_ARTIFACTS :: "string list" where
  "REQUIRED_ARTIFACTS = [''model_weights.bin'', ''degree2_weights.bin'', ''feature_idx.npy'', ''weights.npy'', ''xgb_model.pkl'',
     ''scaler.pkl'', ''X_test.npy'', ''y_test.npy'', ''comparison_results.json'']"

definition setup_main :: "store \<Rightarrow> jfs \<Rightarrow> int" where
  "setup_main st rep =
     (let missing = length (filter (\<lambda>n. \<not> (file_exists st (''artifacts/'' @ n) \<or> rep (''artifacts/'' @ n) \<noteq> None)) REQUIRED_ARTIFACTS)
      in if 0 < missing then 1 else 0)"

section \<open>Facts\<close>

lemma wait_ready_Running:
  "wait_ready h k i = (r, Running) \<Longrightarrow> (\<exists>e. r = Inl e) \<longleftrightarrow> (\<forall>j<k. dh_poll h (i + j) = None \<and> \<not> dh_open h (i + j))"
proof (induction k arbitrary: i)
  case (Suc k)
  have split: "(\<forall>j<Suc k. dh_poll h (i + j) = None \<and> \<not> dh_open h (i + j)) \<longleftrightarrow>
      dh_poll h i = None \<and> \<not> dh_open h i \<and> (\<forall>j<k. dh_poll h (Suc i + j) = None \<and> \<not> dh_open h (Suc i + j))"
    by (auto simp: All_less_Suc2)
  from Suc show ?case unfolding split by (auto split: option.splits if_splits)
qed auto

lemma wait_ready_status: "wait_ready h k i = (r, s) \<Longrightarrow> r = Ret () \<Longrightarrow> s = Running"
  by (induction k arbitrary: i) (auto split: option.splits if_splits)

lemma wait_ready_cases: "wait_ready h k i = (r, s) \<Longrightarrow> s = Running \<or> (\<exists>c. s = Exited c)"
  by (induction k arbitrary: i) (auto split: option.splits if_splits)

text \<open>When the demonstration leaves its server running: exactly when it neither answered nor exited in time.\<close>

lemma demo_orphan_iff:
  "(\<exists>p. snd (demo_main S expit h N channel st srv) = Some p \<and> sp_status p = Running) \<longleftrightarrow>
     dh_server_addr h \<in> {None, Some []} \<and> dh_built h \<and> \<not> dh_port_used h \<and> (\<forall>i<dh_tries h. dh_poll h i = None \<and> \<not> dh_open h i)"
proof -
  obtain r s where w: "wait_ready h (dh_tries h) 0 = (r, s)" by fastforce
  have stop: "sp_status (stop_demo_server h p) \<noteq> Running" for p
    by (simp add: stop_demo_server_def stop_server_stopped split: option.split)
  have never: "(\<forall>i<dh_tries h. dh_poll h i = None \<and> \<not> dh_open h i) \<longleftrightarrow> (\<exists>e. r = Inl e) \<and> s = Running"
  proof
    assume a: "\<forall>i<dh_tries h. dh_poll h i = None \<and> \<not> dh_open h i"
    have "wait_ready h k i = (Raise TimeoutError, Running)" if "\<forall>j<k. dh_poll h (i + j) = None \<and> \<not> dh_open h (i + j)" for k i
      using that
    proof (induction k arbitrary: i)
      case (Suc k)
      then show ?case using Suc.prems [rule_format, of 0] Suc.prems [rule_format, of "Suc j" for j] by simp
    qed simp
    from this [of "dh_tries h" 0] a w show "(\<exists>e. r = Inl e) \<and> s = Running" by auto
  next
    assume "(\<exists>e. r = Inl e) \<and> s = Running"
    then show "\<forall>i<dh_tries h. dh_poll h i = None \<and> \<not> dh_open h i" using wait_ready_Running [of h "dh_tries h" 0 r] w by simp
  qed
  show ?thesis unfolding never
    by (cases "dh_server_addr h"; cases "the (dh_server_addr h)"; cases r)
      (auto simp: demo_main_def start_demo_server_def launch_plain_def w stop)
qed

lemma request_loop_all2:
  assumes "request_loop rq draw js cl srv = (Ret rs, st)"
  shows "list_all2 (\<lambda>i r. \<exists>x cl1 srv1 st1. draw i = Ret x \<and> rq i x cl1 srv1 = (Ret r, st1)) js rs"
  using assms
proof (induction js arbitrary: cl srv rs)
  case (Cons i js)
  then obtain x r cl1 srv1 rs' where "draw i = Ret x" "rq i x cl srv = (Ret r, cl1, srv1)"
    "request_loop rq draw js cl1 srv1 = (Ret rs', st)" "rs = r # rs'"
    by (auto split: sum.splits prod.splits)
  with Cons.IH [of cl1 srv1 rs'] show ?case by auto
qed simp

lemma demo_sample_ok:
  assumes "i < length X" "list_all row256 X"
  shows "\<exists>x. demo_sample X i = Ret x \<and> elems x = X ! i \<and> batch 1 x"
  using assms nth_mem [OF assms(1)] by (auto simp: demo_sample_def batch_def list_all_iff row256_def)

context ckks_slots
begin

lemma slot_requests:
  assumes sv: "ready SLOT (Some gk) w b sv" "length w = 256" and cl: "client_wf cl" "cl_packing cl = SLOT"
    and draw: "\<And>i. i \<in> set js \<Longrightarrow> \<exists>x. draw i = Ret x \<and> batch 1 x"
  shows "\<exists>rs cl' sv'. request_loop (nth_request S expit N (vendor_stub S rnd tm)) draw js cl sv = (Ret rs, cl', sv')
    \<and> list_all2 (\<lambda>i r. \<exists>x. draw i = Ret x \<and> (\<exists>z. fraud_probabilities r = [expit z] \<and> \<bar>z - (dot (elems x) w + b)\<bar> \<le> lane_error e_enc e_mul e_rot e_add w)) js rs
    \<and> ready SLOT (Some gk) w b sv' \<and> client_wf cl' \<and> cl_packing cl' = SLOT"
proof (rule request_loop_ok [where Q = "batch 1"])
  show "\<exists>r cl' s'. nth_request S expit N (vendor_stub S rnd tm) i x cl s = (Ret r, cl', s')
      \<and> (\<exists>z. fraud_probabilities r = [expit z] \<and> \<bar>z - (dot (elems x) w + b)\<bar> \<le> lane_error e_enc e_mul e_rot e_add w)
      \<and> ready SLOT (Some gk) w b s' \<and> client_wf cl' \<and> cl_packing cl' = SLOT"
    if "batch 1 x" "ready SLOT (Some gk) w b s \<and> client_wf cl \<and> cl_packing cl = SLOT" for i x cl s
    using slot_run_once [OF _ sv(2) _ _ that(1), of b s cl expit rnd tm] that(2) unfolding nth_request_def by blast
qed (use assms in auto)

end

section \<open>Properties\<close>

text \<open>C8. The demonstration shows the right verdicts, end to end. The local server comes up in time, is a fresh slot server of the
  model's weights and accepts the bank's keys; then the five rows are shown, each score is the sigmoid of a value within the
  circuit's error of the row's logit, a row is flagged (or not) as its plaintext score demands whenever that score is further
  than the error from one half, and the server is stopped. Of the sigmoid only that it does not expand distances is used.\<close>

theorem demo_flags_fraud:
  assumes "ckks_slots S gk ok e_enc e_mul e_rot e_add" "\<And>u v. \<bar>expit u - expit v\<bar> \<le> \<bar>u - v\<bar>"
    and "dh_server_addr h = None" "dh_built h" "\<not> dh_port_used h" "wait_ready h (dh_tries h) 0 = (Ret (), status)"
    and "np_load_mat st ''artifacts/X_test.npy'' = Ret X" "5 \<le> length X" "list_all row256 X"
    and "sv_mode srv = SLOT" "pstate (sv_sm srv) = PROV_AWAITING_KEYS" "length (sv_w srv) = 256"
    and "bins st ''artifacts/galois_keys_160.bin'' = Some k" "keys_accepted S k gk" "256 * e_enc + 255 * e_rot < 1 / 1000"
    and "bins st ''artifacts/public_key_160.bin'' = Some pk" "bins st ''artifacts/secret_key_160.bin'' = Some sk"
      "nt_import N ''seal_wrapper_160'' = Ret c" "nt_init_seal N pk sk = Ret ()" "channel ''localhost:50052'' = vendor_stub S rnd tm"
  shows "\<exists>rows p. demo_main S expit h N channel st srv = (Ret rows, Some p) \<and> sp_status p \<noteq> Running \<and> length rows = 5
    \<and> (\<forall>i<5. let logit = dot (X ! i) (sv_w srv) + sv_b srv; e = lane_error e_enc e_mul e_rot e_add (sv_w srv) in
         (\<exists>z. dr_score (rows ! i) = expit z \<and> \<bar>z - logit\<bar> \<le> e)
         \<and> (\<bar>expit logit - 1 / 2\<bar> > e \<longrightarrow> dr_fraud (rows ! i) = (expit logit > 1 / 2)))"
proof -
  let ?w = "sv_w srv" and ?b = "sv_b srv" and ?e = "lane_error e_enc e_mul e_rot e_add (sv_w srv)"
  have a160: "build_client_args ''160bit'' = self_test_args" by (simp add: build_client_args_def self_test_args_def)
  obtain cl s1 where i: "connect_160 S expit N (vendor_stub S rnd tm) (bins st) srv = (Ret cl, s1)" "ready SLOT (Some gk) ?w ?b s1" "client_wf cl" "cl_packing cl = SLOT"
    using ckks_slots.slot_client_init [where fs = "bins st" and import_module = "nt_import N" and init_seal = "nt_init_seal N" and pk = pk and sk = sk,
        OF assms(1,10-19), of expit rnd tm "nt_clock N" "nt_uuid N 0"] unfolding connect_160_def a160 by blast
  have draw: "\<exists>x. demo_sample X j = Ret x \<and> batch 1 x" if "j \<in> set [0..<5]" for j
    using demo_sample_ok [of j X] that assms(8,9) by auto
  obtain rs cl' s2 where rs: "request_loop (nth_request S expit N (vendor_stub S rnd tm)) (demo_sample X) [0..<5] cl s1 = (Ret rs, cl', s2)"
    "list_all2 (\<lambda>i r. \<exists>x. demo_sample X i = Ret x \<and> (\<exists>z. fraud_probabilities r = [expit z] \<and> \<bar>z - (dot (elems x) ?w + ?b)\<bar> \<le> ?e)) [0..<5] rs"
    using ckks_slots.slot_requests [where js = "[0..<5]" and draw = "demo_sample X" and N = N and expit = expit and rnd = rnd and tm = tm,
        OF assms(1) i(2) assms(12) i(3,4) draw] by blast
  let ?row = "\<lambda>r. \<lparr>dr_score = hd (fraud_probabilities r), dr_fraud = (hd (fraud_probabilities r) > 1 / 2), dr_total_us = total_inference_us (timing_breakdown r)\<rparr>"
  have each: "\<exists>z. fraud_probabilities (rs ! j) = [expit z] \<and> \<bar>z - (dot (X ! j) ?w + ?b)\<bar> \<le> ?e" if j: "j < 5" for j
  proof -
    obtain x z where x: "demo_sample X j = Ret x" "fraud_probabilities (rs ! j) = [expit z]" "\<bar>z - (dot (elems x) ?w + ?b)\<bar> \<le> ?e"
      using list_all2_nthD [OF rs(2), of j] j by auto
    then show ?thesis using demo_sample_ok [of j X] j assms(8,9) by auto
  qed
  have len: "length rs = 5" using list_all2_lengthD [OF rs(2)] by simp
  have "rmap demo_row_of rs = Ret (map ?row rs)"
    using each len by (intro rmap_Ret) (force simp: demo_row_of_def in_set_conv_nth)
  then have rows: "demo_rows S expit N (vendor_stub S rnd tm) st srv = Ret (map ?row rs)"
    by (simp add: demo_rows_def assms(7) i(1) rs(1))
  have main: "demo_main S expit h N channel st srv = (Ret (map ?row rs), Some (stop_demo_server h (launch_plain REDUCED_BIN 50052)))"
    by (simp add: demo_main_def start_demo_server_def assms(3-6,20) rows)
  have verdict: "let logit = dot (X ! j) ?w + ?b in (\<exists>z. dr_score (map ?row rs ! j) = expit z \<and> \<bar>z - logit\<bar> \<le> ?e)
      \<and> (\<bar>expit logit - 1 / 2\<bar> > ?e \<longrightarrow> dr_fraud (map ?row rs ! j) = (expit logit > 1 / 2))" if "j < 5" for j
  proof -
    obtain z where z: "fraud_probabilities (rs ! j) = [expit z]" "\<bar>z - (dot (X ! j) ?w + ?b)\<bar> \<le> ?e" using each [OF \<open>j < 5\<close>] by blast
    have "\<bar>expit z - expit (dot (X ! j) ?w + ?b)\<bar> \<le> ?e" using assms(2) [of z "dot (X ! j) ?w + ?b"] z(2) by linarith
    then show ?thesis using z that len unfolding Let_def by (auto simp: abs_real_def split: if_splits)
  qed
  have "sp_status (stop_demo_server h (launch_plain REDUCED_BIN 50052)) \<noteq> Running"
    by (simp add: stop_demo_server_def stop_server_stopped split: option.split)
  with main len verdict show ?thesis
    by (intro exI [of _ "map ?row rs"] exI [of _ "stop_demo_server h (launch_plain REDUCED_BIN 50052)"]) (simp add: Let_def)
qed

definition demo_demo_env :: demo_env where
  "demo_demo_env = \<lparr>dh_server_addr = None, dh_int = (\<lambda>_. Ret 50052), dh_remote = (\<lambda>_ _. False), dh_remote_tries = 0, dh_built = True,
     dh_port_used = False, dh_tries = 3, dh_poll = (\<lambda>_. None), dh_open = (\<lambda>i. i = 1), dh_poll_after = None, dh_poll_end = None, dh_stops = True\<rparr>"

theorem demo_flags_fraud_witness:
  "\<exists>rows p. demo_main plain_seal (\<lambda>z. z / 4) demo_demo_env demo_net (\<lambda>_. vendor_stub plain_seal (\<lambda>_. 0) demo_timing)
       (demo_bank\<lparr>arrs := (\<lambda>_. None)(''artifacts/X_test.npy'' \<mapsto> Mat (replicate 5 (replicate 256 0)))\<rparr>)
       ((demo_server SLOT)\<lparr>sv_sm := psm_init, sv_gk := None\<rparr>) = (Ret rows, Some p) \<and> sp_status p \<noteq> Running \<and> \<not> dr_fraud (rows ! 4)"
proof -
  have k: "keys_accepted plain_seal [] ()" by (simp add: keys_accepted_def plain_seal_def list_all_iff)
  have w: "wait_ready demo_demo_env (dh_tries demo_demo_env) 0 = (Ret (), Running)" by (simp add: demo_demo_env_def numeral_3_eq_3)
  let ?st = "demo_bank\<lparr>arrs := (\<lambda>_. None)(''artifacts/X_test.npy'' \<mapsto> Mat (replicate 5 (replicate 256 0)))\<rparr>"
  let ?srv = "(demo_server SLOT)\<lparr>sv_sm := psm_init, sv_gk := None\<rparr>"
  have X: "np_load_mat ?st ''artifacts/X_test.npy'' = Ret (replicate 5 (replicate 256 0))" by (simp add: np_load_mat_def)
  have "\<exists>rows p. demo_main plain_seal (\<lambda>z. z / 4) demo_demo_env demo_net (\<lambda>_. vendor_stub plain_seal (\<lambda>_. 0) demo_timing) ?st ?srv = (Ret rows, Some p)
    \<and> sp_status p \<noteq> Running \<and> length rows = 5
    \<and> (\<forall>i<5. let logit = dot (replicate 5 (replicate 256 0) ! i) (sv_w ?srv) + sv_b ?srv; e = lane_error 0 0 0 0 (sv_w ?srv) in
         (\<exists>z. dr_score (rows ! i) = z / 4 \<and> \<bar>z - logit\<bar> \<le> e) \<and> (\<bar>logit / 4 - 1 / 2\<bar> > e \<longrightarrow> dr_fraud (rows ! i) = (logit / 4 > 1 / 2)))"
    by (rule demo_flags_fraud [where k = "[]" and c = True and pk = "[1]" and sk = "[2]" and rnd = "\<lambda>_. 0" and tm = demo_timing,
          OF plain_slots.ckks_slots_axioms _ _ _ _ w X _ _ _ _ _ _ k])
      (simp_all add: demo_demo_env_def demo_bank_def demo_store_def demo_net_def psm_init_def row256_def list_all_iff)
  then obtain rows p where r: "demo_main plain_seal (\<lambda>z. z / 4) demo_demo_env demo_net (\<lambda>_. vendor_stub plain_seal (\<lambda>_. 0) demo_timing) ?st ?srv = (Ret rows, Some p)"
      "sp_status p \<noteq> Running" and v: "\<forall>i<5. let logit = dot (replicate 5 (replicate 256 0) ! i) (sv_w ?srv) + sv_b ?srv; e = lane_error 0 0 0 0 (sv_w ?srv) in
         (\<exists>z. dr_score (rows ! i) = z / 4 \<and> \<bar>z - logit\<bar> \<le> e) \<and> (\<bar>logit / 4 - 1 / 2\<bar> > e \<longrightarrow> dr_fraud (rows ! i) = (logit / 4 > 1 / 2))"
    by blast
  have "\<not> dr_fraud (rows ! 4)"
    using v [rule_format, of 4] by (simp add: demo_server_def lane_error_def Let_def)
  with r show ?thesis by blast
qed

section \<open>The timings\<close>

lemma research_responses_Ret:
  assumes "research_responses S expit N stub X cl srv = Ret rs"
  shows "length rs = 1000 \<and> (\<forall>i<1000. \<exists>x cl' s st. demo_sample X (i mod length X) = Ret x
    \<and> nth_request S expit N stub (21 + i) x cl' s = (Ret (rs ! i), st))"
proof -
  let ?dr = "\<lambda>i. demo_sample X ((i - WARMUP_ROUNDS - 1) mod length X)"
  obtain sample where "(case request_loop (nth_request S expit N stub) (\<lambda>_. Ret sample) [1..<1 + WARMUP_ROUNDS] cl srv of
        (Inl e, _) \<Rightarrow> Inl e
      | (Inr _, cl1, srv1) \<Rightarrow> fst (request_loop (nth_request S expit N stub) ?dr [1 + WARMUP_ROUNDS..<1 + WARMUP_ROUNDS + MEASURE_ROUNDS] cl1 srv1)) = Ret rs"
    using assms unfolding research_responses_def Let_def rbind_Ret_iff by (elim exE conjE)
  then obtain cl1 srv1 st where t: "request_loop (nth_request S expit N stub) ?dr [1 + WARMUP_ROUNDS..<1 + WARMUP_ROUNDS + MEASURE_ROUNDS] cl1 srv1 = (Ret rs, st)"
    by (auto split: sum.splits prod.splits simp del: upt_Suc) (metis fst_conv prod.collapse)
  note l = request_loop_all2 [OF t]
  have len: "length rs = 1000" using list_all2_lengthD [OF l] by (simp add: MEASURE_ROUNDS_def)
  have "\<exists>x cl' s st. demo_sample X (i mod length X) = Ret x \<and> nth_request S expit N stub (21 + i) x cl' s = (Ret (rs ! i), st)" if i: "i < 1000" for i
  proof -
    have n: "[1 + WARMUP_ROUNDS..<1 + WARMUP_ROUNDS + MEASURE_ROUNDS] ! i = 1 + WARMUP_ROUNDS + i"
      by (rule nth_upt) (use i in \<open>simp add: MEASURE_ROUNDS_def\<close>)
    have w: "1 + WARMUP_ROUNDS + i = 21 + i" by (simp add: WARMUP_ROUNDS_def)
    have "\<exists>x cl1 srv1 st1. ?dr (21 + i) = Ret x \<and> nth_request S expit N stub (21 + i) x cl1 srv1 = (Ret (rs ! i), st1)"
      using list_all2_nthD2 [OF l, of i] i unfolding n w len by blast
    then show ?thesis by (simp add: WARMUP_ROUNDS_def)
  qed
  with len show ?thesis by blast
qed

lemma percentiles3_ordered:
  assumes "xs \<noteq> []"
  shows "\<exists>p95 p99. jget (percentiles3 xs) ''p50'' = Ret (JReal (np_median xs)) \<and> jget (percentiles3 xs) ''p95'' = Ret (JReal p95)
    \<and> jget (percentiles3 xs) ''p99'' = Ret (JReal p99) \<and> np_median xs \<le> p95 \<and> p95 \<le> p99 \<and> p99 \<le> lmax xs \<and> lmin xs \<le> np_median xs"
proof -
  have b: "\<And>x. x \<in> set xs \<Longrightarrow> lmin xs \<le> x \<and> x \<le> lmax xs" using lmin_le lmax_ge by blast
  show ?thesis
    using np_percentile_mono [OF assms] np_percentile_between [OF assms _ _ b] np_percentile_50 [OF assms]
    by (simp add: percentiles3_def flip: np_percentile_50 [OF assms])
qed

text \<open>The figures' timings come from 1000 answered requests. When the script returns 0, row \<open>i\<close> of its table has run number
  \<open>i + 1\<close> and the stage times of a request that was answered for sample \<open>i\<close> (cyclically); in the summary the p50 of every stage
  is the median of its column and p50, p95, p99 are in order within the column's range. On any other outcome neither file is
  written.\<close>

theorem research_timings_sound:
  assumes "research_main S expit N channel st rep srv = (res, csv, rep')"
  shows "(res \<noteq> Ret 0 \<and> csv = None \<and> rep' = rep)
    \<or> (\<exists>X rows out. res = Ret 0 \<and> np_load_mat st ''artifacts/X_test.npy'' = Ret X \<and> csv = Some rows \<and> length rows = 1000
      \<and> (\<forall>i<1000. \<exists>x r cl s w. demo_sample X (i mod length X) = Ret x \<and> nth_request S expit N (channel ''localhost:50052'') (21 + i) x cl s = (Ret r, w)
           \<and> rows ! i = (i + 1, map (\<lambda>f. (f, field f (server_fields (timing_breakdown r)))) RESEARCH_FIELDS))
      \<and> load_json rep' ''results/latency_summary.json'' = Ret out
      \<and> (\<forall>f \<in> set RESEARCH_FIELDS. let col = map (\<lambda>row. field f (snd row)) rows in \<exists>j p95 p99. jget out f = Ret j
           \<and> jget j ''p50'' = Ret (JReal (np_median col)) \<and> jget j ''p95'' = Ret (JReal p95) \<and> jget j ''p99'' = Ret (JReal p99)
           \<and> lmin col \<le> np_median col \<and> np_median col \<le> p95 \<and> p95 \<le> p99 \<and> p99 \<le> lmax col))"
proof (cases "csv")
  case None
  then show ?thesis using assms by (auto simp: research_main_def Let_def split: sum.splits)
next
  case (Some rows)
  obtain q srv1 where q: "connect_160 S expit N (channel ''localhost:50052'') (bins st) srv = (q, srv1)" by fastforce
  show ?thesis
  proof (cases q)
    case (Inl e)
    with Some assms show ?thesis by (auto simp: research_main_def q Let_def rbind_Ret_iff split: sum.splits)
  next
    case (Inr cl)
    from Some assms obtain X rs where X: "np_load_mat st ''artifacts/X_test.npy'' = Ret X"
      and rs: "research_responses S expit N (channel ''localhost:50052'') X cl srv1 = Ret rs"
      and out: "res = Ret 0" "rows = map2 research_row [1..<1 + MEASURE_ROUNDS] rs" "rep' = save_json ''results/latency_summary.json'' (research_summary rows) rep"
      unfolding research_main_def q prod.case Inr sum.case by (auto simp: rbind_Ret_iff Let_def split: sum.splits simp del: upt_Suc)
    note r = research_responses_Ret [OF rs]
    have len: "length rows = 1000" using r by (simp add: out(2) MEASURE_ROUNDS_def)
    have row: "rows ! i = research_row (i + 1) (rs ! i)" if "i < 1000" for i
    proof -
      have u: "[1..<1 + MEASURE_ROUNDS] ! i = 1 + i" by (rule nth_upt) (use that in \<open>simp add: MEASURE_ROUNDS_def\<close>)
      have l: "i < length [1..<1 + MEASURE_ROUNDS]" "i < length rs" using that r by (simp_all only: length_upt MEASURE_ROUNDS_def)
      show ?thesis unfolding out(2) using l by (simp only: nth_map length_zip min_less_iff_conj nth_zip u prod.case add.commute)
    qed
    have each: "\<forall>i<1000. \<exists>x r cl s w. demo_sample X (i mod length X) = Ret x \<and> nth_request S expit N (channel ''localhost:50052'') (21 + i) x cl s = (Ret r, w)
             \<and> rows ! i = (i + 1, map (\<lambda>f. (f, field f (server_fields (timing_breakdown r)))) RESEARCH_FIELDS)"
    proof (intro allI impI)
      fix i :: nat assume i: "i < 1000"
      obtain x cl' t w where "demo_sample X (i mod length X) = Ret x" "nth_request S expit N (channel ''localhost:50052'') (21 + i) x cl' t = (Ret (rs ! i), w)"
        using r [THEN conjunct2, rule_format, OF i] by (elim exE conjE)
      with row [OF i, unfolded research_row_def]
      show "\<exists>x r cl s w. demo_sample X (i mod length X) = Ret x \<and> nth_request S expit N (channel ''localhost:50052'') (21 + i) x cl s = (Ret r, w)
           \<and> rows ! i = (i + 1, map (\<lambda>f. (f, field f (server_fields (timing_breakdown r)))) RESEARCH_FIELDS)" by blast
    qed
    have get: "jget (research_summary rows) f = Ret (percentiles3 (map (\<lambda>row. field f (snd row)) rows))" if "f \<in> set RESEARCH_FIELDS" for f
      using that by (auto simp: research_summary_def RESEARCH_FIELDS_def)
    have "map (\<lambda>row. field f (snd row)) rows \<noteq> []" for f using len by auto
    then have summ: "\<forall>f \<in> set RESEARCH_FIELDS. let col = map (\<lambda>row. field f (snd row)) rows in \<exists>j p95 p99. jget (research_summary rows) f = Ret j
             \<and> jget j ''p50'' = Ret (JReal (np_median col)) \<and> jget j ''p95'' = Ret (JReal p95) \<and> jget j ''p99'' = Ret (JReal p99)
             \<and> lmin col \<le> np_median col \<and> np_median col \<le> p95 \<and> p95 \<le> p99 \<and> p99 \<le> lmax col"
      using get percentiles3_ordered unfolding Let_def by metis
    have "load_json rep' ''results/latency_summary.json'' = Ret (research_summary rows)" by (simp add: out(3) load_json_def save_json_def)
    with X out(1) Some len each summ show ?thesis by blast
  qed
qed

context ckks_slots
begin

text \<open>A client with keys connects to a server that is ready: the server keeps the keys it has.\<close>

lemma slot_reconnect:
  assumes sv: "ready SLOT (Some gk) w b sv" "length w = 256" and g: "bins st ''artifacts/galois_keys_160.bin'' = Some k"
    and a: "bins st ''artifacts/public_key_160.bin'' = Some pk" "bins st ''artifacts/secret_key_160.bin'' = Some sk"
      "nt_import N ''seal_wrapper_160'' = Ret c" "nt_init_seal N pk sk = Ret ()"
  shows "\<exists>cl sv'. connect_160 S expit N (vendor_stub S rnd tm) (bins st) sv = (Ret cl, sv')
    \<and> ready SLOT (Some gk) w b sv' \<and> client_wf cl \<and> cl_packing cl = SLOT"
proof -
  let ?cl = "\<lparr>cl_packing = SLOT, cl_max_lanes = 16, cl_pad_buffer = replicate 16 (replicate 256 0)\<rparr>"
  have wf: "client_wf ?cl" by (simp add: client_wf_def)
  have b: "batch 1 warmup_input" by (simp add: batch_def warmup_input_def)
  have hs: "provision_and_validate S (vendor_stub S rnd tm) (bins st) ''artifacts/galois_keys_160.bin'' sv = (Ret PROV_READY, sv)"
    using sv(1) g by (simp add: provision_and_validate_def read_bytes_def vendor_stub_def ProvisionGaloisKeys_def ready_def)
  obtain r cl' sv' where w: "run_inference S expit (vendor_stub S rnd tm) (nt_clock N) (nt_uuid N 0) warmup_input ?cl sv = (Ret r, cl', sv')"
    "ready SLOT (Some gk) w b sv'" "client_wf cl'" "cl_packing cl' = SLOT"
    using slot_run_once [OF sv wf _ b, of expit rnd tm "nt_clock N" "nt_uuid N 0"] by auto
  have "connect_160 S expit N (vendor_stub S rnd tm) (bins st) sv = (Ret cl', sv')"
    using a by (simp add: connect_160_def client_init_def build_client_args_def load_wrapper_module_def read_bytes_def tls_setup_def hs warmup_def w(1))
  with w show ?thesis by blast
qed

lemma slot_research:
  assumes sv: "ready SLOT (Some gk) w b sv" "length w = 256" and cl: "client_wf cl" "cl_packing cl = SLOT" and X: "X \<noteq> []" "list_all row256 X"
  shows "\<exists>rs. research_responses S expit N (vendor_stub S rnd tm) X cl sv = Ret rs"
proof -
  let ?rq = "nth_request S expit N (vendor_stub S rnd tm)"
  obtain x0 where x0: "demo_sample X 0 = Ret x0" "batch 1 x0" using demo_sample_ok [of 0 X] X by auto
  have "\<exists>x. Ret x0 = Ret x \<and> batch 1 x" using x0(2) by blast
  from slot_requests [where js = "[1..<1 + WARMUP_ROUNDS]" and draw = "\<lambda>_. Ret x0" and expit = expit and N = N and rnd = rnd and tm = tm, OF sv cl this]
  obtain ws cl1 sv1 where w: "request_loop ?rq (\<lambda>_. Ret x0) [1..<1 + WARMUP_ROUNDS] cl sv = (Ret ws, cl1, sv1)"
    "ready SLOT (Some gk) w b sv1" "client_wf cl1" "cl_packing cl1 = SLOT" by blast
  let ?dr = "\<lambda>i. demo_sample X ((i - WARMUP_ROUNDS - 1) mod length X)"
  have "\<exists>x. ?dr i = Ret x \<and> batch 1 x" for i
    using demo_sample_ok [of "(i - WARMUP_ROUNDS - 1) mod length X" X] X by auto
  from slot_requests [where js = "[1 + WARMUP_ROUNDS..<1 + WARMUP_ROUNDS + MEASURE_ROUNDS]" and draw = ?dr and expit = expit and N = N and rnd = rnd and tm = tm,
      OF w(2) sv(2) w(3,4) this]
  obtain rs q where "request_loop ?rq ?dr [1 + WARMUP_ROUNDS..<1 + WARMUP_ROUNDS + MEASURE_ROUNDS] cl1 sv1 = (Ret rs, q)" by blast
  then show ?thesis unfolding research_responses_def Let_def x0(1) rbind.simps w(1) sum.case prod.case by (metis fst_conv)
qed

end

theorem research_timings_sound_witness:
  "\<exists>rows rep' out. research_main plain_seal (\<lambda>z. z / 4) demo_net (\<lambda>_. vendor_stub plain_seal (\<lambda>_. 0) demo_timing) demo_bank
       [''artifacts/comparison_results.json'' \<mapsto> Some JNull] ((demo_server SLOT)\<lparr>sv_w := replicate 256 0, sv_b := 0\<rparr>) = (Ret 0, Some rows, rep')
     \<and> length rows = 1000 \<and> fst (rows ! 999) = 1000 \<and> load_json rep' ''results/latency_summary.json'' = Ret out"
proof -
  let ?sv = "(demo_server SLOT)\<lparr>sv_w := replicate 256 0, sv_b := 0\<rparr>" and ?st = demo_bank
  let ?ch = "\<lambda>_ :: string. vendor_stub plain_seal (\<lambda>_. 0) demo_timing"
  have rdy: "ready SLOT (Some ()) (replicate 256 0) 0 ?sv" by (simp add: ready_def)
  have "\<exists>cl sv'. connect_160 plain_seal (\<lambda>z. z / 4) demo_net (vendor_stub plain_seal (\<lambda>_. 0) demo_timing) (bins ?st) ?sv = (Ret cl, sv')
    \<and> ready SLOT (Some ()) (replicate 256 0) 0 sv' \<and> client_wf cl \<and> cl_packing cl = SLOT"
    by (rule plain_slots.slot_reconnect [OF rdy, where k = "[]" and pk = "[1]" and sk = "[2]" and c = True])
      (simp_all add: demo_bank_def demo_store_def demo_net_def)
  then obtain cl sv' where c: "connect_160 plain_seal (\<lambda>z. z / 4) demo_net (vendor_stub plain_seal (\<lambda>_. 0) demo_timing) (bins ?st) ?sv = (Ret cl, sv')"
    "ready SLOT (Some ()) (replicate 256 0) 0 sv'" "client_wf cl" "cl_packing cl = SLOT" by blast
  obtain rs where rs: "research_responses plain_seal (\<lambda>z. z / 4) demo_net (vendor_stub plain_seal (\<lambda>_. 0) demo_timing) [replicate 256 0] cl sv' = Ret rs"
    using plain_slots.slot_research [OF c(2) _ c(3,4), of "[replicate 256 0]" "\<lambda>z. z / 4" demo_net "\<lambda>_. 0" demo_timing] by (auto simp: row256_def)
  have X: "np_load_mat ?st ''artifacts/X_test.npy'' = Ret [replicate 256 0]" by (simp add: np_load_mat_def demo_bank_def demo_store_def)
  obtain rows rep' where run: "research_main plain_seal (\<lambda>z. z / 4) demo_net ?ch ?st [''artifacts/comparison_results.json'' \<mapsto> Some JNull] ?sv = (Ret 0, Some rows, rep')"
    unfolding research_main_def X rbind.simps c(1) sum.case prod.case rs by (simp add: load_json_def Let_def)
  from research_timings_sound [OF run] obtain X rows2 out where o: "Some rows = Some rows2" "length rows2 = 1000" "load_json rep' ''results/latency_summary.json'' = Ret out"
    and each: "\<forall>i<1000. \<exists>x r cl s w. demo_sample X (i mod length X) = Ret x \<and> nth_request plain_seal (\<lambda>z. z / 4) demo_net (?ch ''localhost:50052'') (21 + i) x cl s = (Ret r, w)
           \<and> rows2 ! i = (i + 1, map (\<lambda>f. (f, field f (server_fields (timing_breakdown r)))) RESEARCH_FIELDS)"
    by (elim disjE exE conjE) (simp, blast)
  from each [THEN spec, of 999] have "\<exists>r :: inf_result. rows2 ! 999 = (999 + 1, map (\<lambda>f. (f, field f (server_fields (timing_breakdown r)))) RESEARCH_FIELDS)" by auto
  then have "fst (rows2 ! 999) = 1000" by auto
  with run o show ?thesis by auto
qed

end
