(* ===== verification/Precision.thy ===== *)
theory Precision
  imports ExecMatrix Percentiles
begin

text \<open>
  The precision report \<^verbatim>\<open>scripts/precision_analysis.py\<close>: errors of four stages of a probe against a plaintext oracle, and the
  headroom of the scale. What a command gives is an argument, a stage is a list of finite numbers. The printed table is
  left out.
\<close>

section \<open>Errors of a stage\<close>

definition SCALE_BITS :: real where "SCALE_BITS = 40"
definition N_TXNS :: nat where "N_TXNS = 16"

definition error_stats :: "real list \<Rightarrow> json res" where
  "error_stats xs =
     (if xs = [] then Raise ValueError
      else Ret (JObj [(''n'', JInt (int (length xs))), (''min'', JReal (lmin xs)), (''max'', JReal (lmax xs)), (''mean'', JReal (mean xs)),
        (''std'', JReal (std 0 xs)), (''p50'', JReal (np_percentile xs 50)), (''p95'', JReal (np_percentile xs 95)), (''p99'', JReal (np_percentile xs 99))]))"

text \<open>\<^verbatim>\<open>np.array(...)\<close> of a list of numbers.\<close>

fun jreal :: "json \<Rightarrow> real res" where
  "jreal (JNum (Fin x)) = Ret x"
| "jreal (JBool b) = Ret (if b then 1 else 0)"
| "jreal _ = Raise TypeError"

definition stage_values :: "json \<Rightarrow> string \<Rightarrow> real list res" where
  "stage_values probe k = rbind (jget probe k) (\<lambda>v. rbind (jiter v) (rmap jreal))"

text \<open>\<^verbatim>\<open>np.abs(a - b)\<close>, where one element is broadcast.\<close>

definition abs_diff :: "real list \<Rightarrow> real list \<Rightarrow> real list res" where
  "abs_diff a b =
     (if length a = length b then Ret (map2 (\<lambda>x y. \<bar>x - y\<bar>) a b)
      else if length a = 1 then Ret (map (\<lambda>y. \<bar>hd a - y\<bar>) b)
      else if length b = 1 then Ret (map (\<lambda>x. \<bar>x - hd b\<bar>) a)
      else Raise ValueError)"

text \<open>The slot of every lane's result.\<close>

definition lanes_of :: "real list \<Rightarrow> real list res" where
  "lanes_of xs = rmap (\<lambda>k. if k * N_FEATURES < length xs then Ret (xs ! (k * N_FEATURES)) else Raise IndexError) [0..<N_TXNS]"

definition stage_errors :: "json \<Rightarrow> real list \<Rightarrow> real list \<Rightarrow> real list \<Rightarrow> json res" where
  "stage_errors probe product dots logits =
     rbind (stage_values probe ''stage1_after_multiply_plain'') (\<lambda>s1.
     rbind (stage_values probe ''stage2_after_rescale'') (\<lambda>s2.
     rbind (stage_values probe ''stage3_after_hoisted_tree_sum'') (\<lambda>s3.
     rbind (stage_values probe ''stage4_after_add_plain_bias'') (\<lambda>s4.
     rbind (rbind (abs_diff s1 product) error_stats) (\<lambda>e1.
     rbind (rbind (abs_diff s2 product) error_stats) (\<lambda>e2.
     rbind (rbind (rbind (lanes_of s3) (\<lambda>l. abs_diff l dots)) error_stats) (\<lambda>e3.
     rbind (rbind (rbind (lanes_of s4) (\<lambda>l. abs_diff l logits)) error_stats) (\<lambda>e4.
     Ret (JObj [(''stage1_after_multiply_plain'', e1), (''stage2_after_rescale'', e2), (''stage3_after_hoisted_tree_sum'', e3),
                (''stage4_after_add_plain_bias'', e4)])))))))))"

section \<open>The plaintext oracle and the headroom\<close>

text \<open>\<^verbatim>\<open>batch.reshape(16, 256) * weights[None, :]\<close>, flattened.\<close>

definition oracle_product :: "real list list \<Rightarrow> real list \<Rightarrow> real list res" where
  "oracle_product rows w =
     (if length (concat rows) \<noteq> N_TXNS * N_FEATURES then Raise ValueError
      else if length w = 1 then Ret (map (\<lambda>x. x * hd w) (concat rows))
      else if length w \<noteq> N_FEATURES then Raise ValueError
      else Ret (concat (map (\<lambda>r. map2 (*) r w) (chunks N_FEATURES (concat rows)))))"

definition row_sums :: "real list \<Rightarrow> real list" where
  "row_sums xs = map sum_list (chunks N_FEATURES xs)"

fun py_log2 :: "pyfloat \<Rightarrow> pyfloat res" where
  "py_log2 NaN = Ret NaN"
| "py_log2 PInf = Ret PInf"
| "py_log2 NInf = Raise ValueError"
| "py_log2 (Fin x) = (if x \<le> 0 then Raise ValueError else Ret (Fin (log 2 x)))"

record headroom =
  hr_headroom :: pyfloat
  hr_below_unity :: pyfloat
  hr_consumed :: pyfloat
  hr_remaining :: pyfloat

definition scale_headroom :: "pyfloat \<Rightarrow> headroom res" where
  "scale_headroom max_ae =
     rbind (py_div (Fin (2 powr SCALE_BITS)) max_ae) (\<lambda>q.
     rbind (py_log2 q) (\<lambda>h.
     rbind (py_log2 max_ae) (\<lambda>l.
     let below = pf_neg l; consumed = pf_sub (Fin SCALE_BITS) below in
     Ret \<lparr>hr_headroom = h, hr_below_unity = below, hr_consumed = consumed, hr_remaining = pf_sub (Fin SCALE_BITS) consumed\<rparr>)))"

definition full_dataset_block :: "json \<Rightarrow> headroom \<Rightarrow> json res" where
  "full_dataset_block full h =
     rbind (jpath full [''abs_error_distribution'', ''min'']) (\<lambda>floor.
     rbind (jfields full [(''n_samples'', ''n_samples''), (''max_abs_error'', ''max_abs_error''), (''mean_abs_error'', ''mean_abs_error''),
        (''median_abs_error'', ''median_abs_error''), (''abs_error_distribution'', ''abs_error_distribution'')]) (\<lambda>kvs.
     rbind (jget full ''max_abs_error'') (\<lambda>mx.
     Ret (JObj (kvs @ [(''noise_floor_min_abs_error'', floor), (''noise_ceiling_max_abs_error'', mx),
        (''scale_headroom_bits_log2_scale_over_max_ae'', JNum (hr_headroom h)), (''max_ae_bits_below_unity'', JNum (hr_below_unity h)),
        (''scale_bits_consumed_reaching_max_ae'', JNum (hr_consumed h)), (''scale_bits_remaining_headroom'', JNum (hr_remaining h))])))))"

section \<open>The precision script\<close>

text \<open>\<open>probe\<close> is what building and running the probe on the batch and the weight file gives; the code's is \<open>probe_batch\<close> below.\<close>

definition precision_report :: "store \<Rightarrow> (real list list \<Rightarrow> json res) \<Rightarrow> json \<Rightarrow> json res" where
  "precision_report st probe full =
     rbind (np_load_mat st ''artifacts/X_test.npy'') (\<lambda>X.
     rbind (np_load_f st ''artifacts/weights.npy'') (\<lambda>w.
     rbind (rbind (read_bytes (bins st) ''artifacts/model_weights.bin'') (\<lambda>raw. unpack_f64 (take 8 (drop 4 raw)))) (\<lambda>bias.
     let rows = take N_TXNS X in
     rbind (probe rows) (\<lambda>p.
     rbind (oracle_product rows (map f64_real w)) (\<lambda>product.
     let dots = row_sums product; logits = map (\<lambda>d. d + f64_real bias) dots in
     rbind (stage_errors p product dots logits) (\<lambda>errs.
     rbind (rbind (jget full ''max_abs_error'') jnum) (\<lambda>max_ae.
     rbind (jpath full [''abs_error_distribution'', ''min'']) (\<lambda>_.
     rbind (scale_headroom max_ae) (\<lambda>h.
     rbind (full_dataset_block full h) (\<lambda>fd.
     rbind (jfields p [(''q_last'', ''q_last''), (''bias_scale'', ''bias_scale'')]) (\<lambda>pq.
     Ret (JObj [(''scale_log2'', JReal SCALE_BITS), (''middle_prime_bits'', JInt 40), (''full_dataset'', fd),
        (''representative_batch'', JObj ([(''n_transactions'', JInt (int N_TXNS)), (''bias'', JReal (f64_real bias))] @ pq @ [(''stage_errors_abs'', errs)]))]))))))))))))"

text \<open>The probe is compiled when it is missing or older than its source; \<open>bin\<close> and \<open>src\<close> are the modification times, \<open>exec\<close> what a
  command gives: its status and its output, parsed (\<open>None\<close> when it is no JSON).\<close>

definition PROBE_BIN :: path where "PROBE_BIN = ''tools/local_benchmark/precision_probe''"

definition PROBE_BUILD :: "string list" where
  "PROBE_BUILD = [''g++'', ''-O2'', ''-std=c++17'', ''tools/local_benchmark/precision_probe.cpp'', ''-I'', ''/usr/local/include/SEAL-4.1'',
     ''-L'', ''/usr/local/lib'', ''-lseal-4.1'', ''-lpthread'', ''-o'', PROBE_BIN]"

definition build_probe :: "real option \<Rightarrow> real option \<Rightarrow> (string list \<Rightarrow> int \<times> json option) \<Rightarrow> unit res" where
  "build_probe bin src exec =
     rbind (case bin of
         None \<Rightarrow> Ret False
       | Some tb \<Rightarrow> (case src of None \<Rightarrow> Raise FileNotFoundError | Some ts \<Rightarrow> Ret (tb \<ge> ts))) (\<lambda>fresh.
     if fresh then Ret () else if fst (exec PROBE_BUILD) \<noteq> 0 then Raise CalledProcessError else Ret ())"

definition run_probe :: "(string list \<Rightarrow> int \<times> json option) \<Rightarrow> path \<Rightarrow> path \<Rightarrow> json res" where
  "run_probe exec features weights =
     (case exec [PROBE_BIN, features, weights] of
        (rc, out) \<Rightarrow> if rc \<noteq> 0 then Raise CalledProcessError else case out of None \<Rightarrow> Raise ValueError | Some j \<Rightarrow> Ret j)"

text \<open>The batch goes to the probe through a file, which is removed afterwards: the result, and the file as it is left.\<close>

definition BATCH_FILE :: path where "BATCH_FILE = ''artifacts/_precision_batch_features.bin''"

definition probe_batch ::
  "real option \<Rightarrow> real option \<Rightarrow> (real list list \<Rightarrow> string list \<Rightarrow> int \<times> json option) \<Rightarrow> real list list \<Rightarrow> json res \<times> real list list option" where
  "probe_batch bin src exec rows =
     (case build_probe bin src (exec rows) of
        Inl e \<Rightarrow> (Inl e, Some rows)
      | Inr _ \<Rightarrow>
        (case run_probe (exec rows) BATCH_FILE ''artifacts/model_weights.bin'' of
           Inl e \<Rightarrow> (Inl e, Some rows)
         | Inr p \<Rightarrow> (Ret p, None)))"

lemma build_probe_skips: "tb \<ge> ts \<Longrightarrow> build_probe (Some tb) (Some ts) exec = Ret ()"
  by (simp add: build_probe_def)

lemma batch_file_left_iff: "snd (probe_batch bin src exec rows) \<noteq> None \<longleftrightarrow> \<not> is_ret (fst (probe_batch bin src exec rows))"
  by (auto simp: probe_batch_def split: sum.splits)

text \<open>After the file is written the table prints three more percentiles, which must be there.\<close>

definition precision_main :: "store \<Rightarrow> (real list list \<Rightarrow> json res) \<Rightarrow> jfs \<Rightarrow> int res \<times> jfs" where
  "precision_main st probe rep =
     (if rep ''artifacts/errors.json'' = None then (Ret 1, rep)
      else case rbind (load_json rep ''artifacts/errors.json'') (\<lambda>full. rbind (precision_report st probe full) (\<lambda>out. Ret (full, out))) of
        Inl e \<Rightarrow> (Inl e, rep)
      | Inr (full, out) \<Rightarrow>
        (rbind (rmap (\<lambda>k. jpath full [''abs_error_distribution'', k]) [''p90'', ''p99'', ''p99.9'']) (\<lambda>_. Ret 0),
         save_json ''artifacts/precision_analysis.json'' out rep))"

section \<open>Facts\<close>

lemma oracle_dots:
  assumes "oracle_product rows w = Ret q" "list_all row256 rows" "length w = 256"
  shows "length rows = 16" "row_sums q = map (\<lambda>r. dot r w) rows"
proof -
  have len: "length (concat rows) = length rows * 256" using assms(2)
    by (induction rows) (auto simp: row256_def)
  have ch: "chunks 256 (concat rows) = rows" by (rule chunks_concat) (use assms(2) in \<open>auto simp: list_all_iff row256_def\<close>)
  have q: "length (concat rows) = 16 * 256" "q = concat (map (\<lambda>r. map2 (*) r w) rows)"
    using assms(1,3) unfolding oracle_product_def N_TXNS_def N_FEATURES_def ch by (auto split: if_splits)
  show "length rows = 16" using len q(1) by simp
  have "chunks 256 q = map (\<lambda>r. map2 (*) r w) rows"
    unfolding q(2) by (rule chunks_concat) (use assms(2,3) in \<open>auto simp: list_all_iff row256_def\<close>)
  then show "row_sums q = map (\<lambda>r. dot r w) rows" by (simp add: row_sums_def N_FEATURES_def dot_def)
qed

lemma lanes_of_Ret: "lanes_of xs = Ret ls \<Longrightarrow> length ls = 16 \<and> (\<forall>k<16. 256 * k < length xs \<and> ls ! k = xs ! (256 * k))"
proof -
  assume "lanes_of xs = Ret ls"
  then have l: "list_all2 (\<lambda>k y. (if k * N_FEATURES < length xs then Ret (xs ! (k * N_FEATURES)) else Raise IndexError) = Ret y) [0..<16] ls"
    unfolding lanes_of_def N_TXNS_def rmap_Ret_iff .
  have len: "length ls = 16" using list_all2_lengthD [OF l] by simp
  have "256 * k < length xs \<and> ls ! k = xs ! (256 * k)" if "k < 16" for k
    using list_all2_nthD2 [OF l, of k] that len by (auto simp: N_FEATURES_def mult.commute split: if_splits)
  with len show ?thesis by blast
qed

lemma error_stats_Ret:
  "error_stats xs = Ret j \<Longrightarrow> jget j ''max'' = Ret (JReal (lmax xs)) \<and> (\<exists>p50 p95 p99. jget j ''p50'' = Ret (JReal p50) \<and> jget j ''p95'' = Ret (JReal p95)
     \<and> jget j ''p99'' = Ret (JReal p99) \<and> p50 \<le> p95 \<and> p95 \<le> p99 \<and> p99 \<le> lmax xs)"
proof -
  assume a: "error_stats xs = Ret j"
  then have ne: "xs \<noteq> []" by (auto simp: error_stats_def split: if_splits)
  have b: "\<And>x. x \<in> set xs \<Longrightarrow> lmin xs \<le> x \<and> x \<le> lmax xs" using lmin_le lmax_ge by blast
  show ?thesis
    using a ne np_percentile_mono [OF ne] np_percentile_between [OF ne _ _ b] by (auto simp: error_stats_def)
qed

lemma scale_headroom_Ret:
  assumes "scale_headroom m = Ret h" "m = Fin a"
  shows "0 < a \<and> hr_headroom h = Fin (40 - log 2 a) \<and> hr_below_unity h = Fin (- log 2 a) \<and> hr_consumed h = Fin (40 + log 2 a)
    \<and> hr_remaining h = Fin (- log 2 a)"
proof -
  have a: "0 < a" and h: "py_log2 (Fin (2 powr 40 / a)) = Ret (hr_headroom h)" "hr_below_unity h = Fin (- log 2 a)" "hr_consumed h = Fin (40 + log 2 a)"
      "hr_remaining h = Fin (- log 2 a)"
    using assms by (auto simp: scale_headroom_def rbind_Ret_iff SCALE_BITS_def Let_def py_div_def split: if_splits)
  have p: "log 2 (2 powr 40) = (40 :: real)" by (rule log_powr_cancel) simp_all
  have l: "log 2 (2 powr 40 / a) = log 2 (2 powr 40) - log 2 a" using a by (subst log_divide) simp_all
  have "0 < 2 powr 40 / a" using a by (intro divide_pos_pos) simp_all
  then have "py_log2 (Fin (2 powr 40 / a)) = Ret (Fin (40 - log 2 a))" unfolding py_log2.simps l p by (simp only: not_le if_False if_not_P)
  with a h show ?thesis by (simp only: sum.inject)
qed

text \<open>A stage's statistics bound the error of every value compared.\<close>

definition stage_bound :: "json \<Rightarrow> real list \<Rightarrow> real list \<Rightarrow> bool" where
  "stage_bound j xs ys \<longleftrightarrow> (\<exists>p50 p95 p99 m. jget j ''p50'' = Ret (JReal p50) \<and> jget j ''p95'' = Ret (JReal p95) \<and> jget j ''p99'' = Ret (JReal p99)
     \<and> jget j ''max'' = Ret (JReal m) \<and> p50 \<le> p95 \<and> p95 \<le> p99 \<and> p99 \<le> m \<and> (length xs = length ys \<longrightarrow> (\<forall>i<length ys. \<bar>xs ! i - ys ! i\<bar> \<le> m)))"

lemma stage_bound_stats:
  assumes "rbind (abs_diff xs ys) error_stats = Ret j"
  shows "stage_bound j xs ys"
proof -
  obtain ds where d: "abs_diff xs ys = Ret ds" "error_stats ds = Ret j" using assms by (auto simp: rbind_Ret_iff)
  have "\<bar>xs ! i - ys ! i\<bar> \<le> lmax ds" if "length xs = length ys" "i < length ys" for i
  proof -
    have "ds = map2 (\<lambda>x y. \<bar>x - y\<bar>) xs ys" using d(1) that(1) by (simp add: abs_diff_def)
    then have "\<bar>xs ! i - ys ! i\<bar> \<in> set ds" using that by (auto simp: set_zip intro!: image_eqI [of _ _ "(xs ! i, ys ! i)"])
    then show ?thesis by (rule lmax_ge)
  qed
  with error_stats_Ret [OF d(2)] show ?thesis unfolding stage_bound_def by blast
qed

lemma stage_errors_Ret:
  assumes "stage_errors p q ds ls = Ret j"
  shows "\<exists>s1 s2 s3 s4 l3 l4 e1 e2 e3 e4. stage_values p ''stage1_after_multiply_plain'' = Ret s1 \<and> stage_values p ''stage2_after_rescale'' = Ret s2
    \<and> stage_values p ''stage3_after_hoisted_tree_sum'' = Ret s3 \<and> stage_values p ''stage4_after_add_plain_bias'' = Ret s4
    \<and> lanes_of s3 = Ret l3 \<and> lanes_of s4 = Ret l4 \<and> stage_bound e1 s1 q \<and> stage_bound e2 s2 q \<and> stage_bound e3 l3 ds \<and> stage_bound e4 l4 ls
    \<and> j = JObj [(''stage1_after_multiply_plain'', e1), (''stage2_after_rescale'', e2), (''stage3_after_hoisted_tree_sum'', e3), (''stage4_after_add_plain_bias'', e4)]"
proof -
  obtain s1 s2 s3 s4 e1 e2 e3 e4 where s: "stage_values p ''stage1_after_multiply_plain'' = Ret s1" "stage_values p ''stage2_after_rescale'' = Ret s2"
      "stage_values p ''stage3_after_hoisted_tree_sum'' = Ret s3" "stage_values p ''stage4_after_add_plain_bias'' = Ret s4"
    and e: "rbind (abs_diff s1 q) error_stats = Ret e1" "rbind (abs_diff s2 q) error_stats = Ret e2"
      "rbind (rbind (lanes_of s3) (\<lambda>l. abs_diff l ds)) error_stats = Ret e3" "rbind (rbind (lanes_of s4) (\<lambda>l. abs_diff l ls)) error_stats = Ret e4"
    and j: "j = JObj [(''stage1_after_multiply_plain'', e1), (''stage2_after_rescale'', e2), (''stage3_after_hoisted_tree_sum'', e3), (''stage4_after_add_plain_bias'', e4)]"
    using assms unfolding stage_errors_def rbind_Ret_iff [of "stage_values _ _"] by (auto simp: rbind_Ret_iff)
  obtain l3 where l3: "lanes_of s3 = Ret l3" "rbind (abs_diff l3 ds) error_stats = Ret e3" using e(3) by (auto simp: rbind_Ret_iff)
  obtain l4 where l4: "lanes_of s4 = Ret l4" "rbind (abs_diff l4 ls) error_stats = Ret e4" using e(4) by (auto simp: rbind_Ret_iff)
  from s j l3(1) l4(1) stage_bound_stats [OF e(1)] stage_bound_stats [OF e(2)] stage_bound_stats [OF l3(2)] stage_bound_stats [OF l4(2)]
  show ?thesis by blast
qed

definition lanes_bounded :: "json \<Rightarrow> real list \<Rightarrow> (nat \<Rightarrow> real) \<Rightarrow> bool" where
  "lanes_bounded e s f \<longleftrightarrow> (\<exists>m. jget e ''max'' = Ret (JReal m) \<and> (\<forall>k<16. 256 * k < length s \<and> \<bar>s ! (256 * k) - f k\<bar> \<le> m))"

lemma stage_bound_lanes:
  assumes "stage_bound e l ys" "lanes_of s = Ret l" "length ys = 16" "\<And>k. k < 16 \<Longrightarrow> ys ! k = f k"
  shows "lanes_bounded e s f"
proof -
  note l = lanes_of_Ret [OF assms(2)]
  obtain m where m: "jget e ''max'' = Ret (JReal m)" "\<forall>i<16. \<bar>l ! i - ys ! i\<bar> \<le> m"
    using assms(1,3) l unfolding stage_bound_def by auto
  with l assms(4) show ?thesis unfolding lanes_bounded_def by auto
qed

lemma full_dataset_headroom:
  assumes "full_dataset_block full h = Ret fd"
  shows "jget fd ''scale_headroom_bits_log2_scale_over_max_ae'' = Ret (JNum (hr_headroom h)) \<and> jget fd ''max_ae_bits_below_unity'' = Ret (JNum (hr_below_unity h))
    \<and> jget fd ''scale_bits_consumed_reaching_max_ae'' = Ret (JNum (hr_consumed h)) \<and> jget fd ''scale_bits_remaining_headroom'' = Ret (JNum (hr_remaining h))"
  using assms by (auto simp: full_dataset_block_def rbind_Ret_iff jfields_def)

section \<open>The precision report\<close>

text \<open>C25. The precision report bounds what it compared, and two of its figures are one. When the script returns 0 over a test set of
  256 columns and 256 weights, the maximum it reports for stage 3 bounds the error of every one of the 16 lanes against the
  plaintext dot product, and for stage 4 against the logit; the headroom is 40 less the logarithm of the largest error, which
  is positive; and the remaining bits are the bits below unity, whatever the scale.\<close>

theorem precision_report_sound:
  assumes "precision_main st probe rep = (Ret 0, rep')" "np_load_mat st ''artifacts/X_test.npy'' = Ret X" "list_all row256 X"
    and "np_load_f st ''artifacts/weights.npy'' = Ret w" "length w = 256"
    and "load_json rep ''artifacts/errors.json'' = Ret full" "jget full ''max_abs_error'' = Ret (JReal a)"
  shows "\<exists>out p b s3 s4 e3 e4. load_json rep' ''artifacts/precision_analysis.json'' = Ret out \<and> probe (take 16 X) = Ret p \<and> 16 \<le> length X
    \<and> stage_values p ''stage3_after_hoisted_tree_sum'' = Ret s3 \<and> stage_values p ''stage4_after_add_plain_bias'' = Ret s4
    \<and> jpath out [''representative_batch'', ''bias''] = Ret (JReal b)
    \<and> jpath out [''representative_batch'', ''stage_errors_abs'', ''stage3_after_hoisted_tree_sum''] = Ret e3
    \<and> jpath out [''representative_batch'', ''stage_errors_abs'', ''stage4_after_add_plain_bias''] = Ret e4
    \<and> lanes_bounded e3 s3 (\<lambda>k. dot (X ! k) (map f64_real w)) \<and> lanes_bounded e4 s4 (\<lambda>k. dot (X ! k) (map f64_real w) + b)
    \<and> 0 < a \<and> jpath out [''full_dataset'', ''scale_headroom_bits_log2_scale_over_max_ae''] = Ret (JReal (40 - log 2 a))
    \<and> jpath out [''full_dataset'', ''scale_bits_remaining_headroom''] = Ret (JReal (- log 2 a))
    \<and> jpath out [''full_dataset'', ''max_ae_bits_below_unity''] = Ret (JReal (- log 2 a))"
proof -
  from assms(1,6) obtain out where out: "precision_report st probe full = Ret out" "rep' = save_json ''artifacts/precision_analysis.json'' out rep"
    unfolding precision_main_def by (auto simp: rbind_Ret_iff load_json_def split: if_splits sum.splits option.splits)
  obtain b p q errs h fd pq where p: "probe (take N_TXNS X) = Ret p" and q: "oracle_product (take N_TXNS X) (map f64_real w) = Ret q"
    and e: "stage_errors p q (row_sums q) (map (\<lambda>d. d + f64_real b) (row_sums q)) = Ret errs" and h: "scale_headroom (Fin a) = Ret h"
    and fd: "full_dataset_block full h = Ret fd"
    and o: "out = JObj [(''scale_log2'', JReal SCALE_BITS), (''middle_prime_bits'', JInt 40), (''full_dataset'', fd),
        (''representative_batch'', JObj ([(''n_transactions'', JInt (int N_TXNS)), (''bias'', JReal (f64_real b))] @ pq @ [(''stage_errors_abs'', errs)]))]"
    and pq: "jfields p [(''q_last'', ''q_last''), (''bias_scale'', ''bias_scale'')] = Ret pq"
    using out(1) unfolding precision_report_def assms(2,4) rbind.simps(2) Let_def rbind_Ret_iff assms(7) by auto
  have X16: "list_all row256 (take 16 X)" using assms(3) by (auto simp: list_all_iff dest: in_set_takeD)
  have len: "16 \<le> length X" "row_sums q = map (\<lambda>r. dot r (map f64_real w)) (take 16 X)"
    using oracle_dots [OF q [unfolded N_TXNS_def] X16] assms(5) by auto
  obtain s3 s4 l3 l4 e1 e2 e3 e4 where s: "stage_values p ''stage3_after_hoisted_tree_sum'' = Ret s3" "stage_values p ''stage4_after_add_plain_bias'' = Ret s4"
      "lanes_of s3 = Ret l3" "lanes_of s4 = Ret l4" "stage_bound e3 l3 (row_sums q)" "stage_bound e4 l4 (map (\<lambda>d. d + f64_real b) (row_sums q))"
    and errs: "errs = JObj [(''stage1_after_multiply_plain'', e1), (''stage2_after_rescale'', e2), (''stage3_after_hoisted_tree_sum'', e3), (''stage4_after_add_plain_bias'', e4)]"
    using stage_errors_Ret [OF e] by (elim exE conjE)
  have b3: "lanes_bounded e3 s3 (\<lambda>k. dot (X ! k) (map f64_real w))"
    by (rule stage_bound_lanes [OF s(5,3)]) (use len in simp_all)
  have b4: "lanes_bounded e4 s4 (\<lambda>k. dot (X ! k) (map f64_real w) + f64_real b)"
    by (rule stage_bound_lanes [OF s(6,4)]) (use len in simp_all)
  have keys: "map fst pq = [''q_last'', ''bias_scale'']" using pq by (auto simp: jfields_def rbind_Ret_iff)
  have paths: "jpath out [''representative_batch'', ''bias''] = Ret (JReal (f64_real b))"
    "jpath out [''representative_batch'', ''stage_errors_abs'', ''stage3_after_hoisted_tree_sum''] = Ret e3"
    "jpath out [''representative_batch'', ''stage_errors_abs'', ''stage4_after_add_plain_bias''] = Ret e4"
    using keys by (auto simp: o errs map_of_append map_eq_Cons_conv)
  note hs = scale_headroom_Ret [OF h refl] and fs = full_dataset_headroom [OF fd]
  have figures: "0 < a" "jpath out [''full_dataset'', ''scale_headroom_bits_log2_scale_over_max_ae''] = Ret (JReal (40 - log 2 a))"
    "jpath out [''full_dataset'', ''scale_bits_remaining_headroom''] = Ret (JReal (- log 2 a))"
    "jpath out [''full_dataset'', ''max_ae_bits_below_unity''] = Ret (JReal (- log 2 a))"
    using hs fs by (simp_all add: o)
  have load: "load_json rep' ''artifacts/precision_analysis.json'' = Ret out" by (simp add: out(2) load_json_def save_json_def)
  show ?thesis
    by (intro exI conjI; fact load p [unfolded N_TXNS_def] len(1) s paths b3 b4 figures)
qed

lemma oracle_product_ok:
  assumes "list_all row256 rows" "length rows = 16" "length w = 256"
  shows "\<exists>q. oracle_product rows w = Ret q \<and> length q = 4096"
proof -
  have "length (concat xs) = length xs * 256" if "list_all row256 xs" for xs
    using that by (induction xs) (auto simp: row256_def)
  from this [OF assms(1)] have len: "length (concat rows) = 4096" using assms(2) by simp
  have ch: "chunks 256 (concat rows) = rows" by (rule chunks_concat) (use assms(1) in \<open>auto simp: list_all_iff row256_def\<close>)
  have "length (concat (map (\<lambda>r. map2 (*) r w) xs)) = length xs * 256" if "list_all row256 xs" for xs
    using that assms(3) by (induction xs) (auto simp: row256_def)
  from this [OF assms(1)] show ?thesis using assms(2,3) len by (simp add: oracle_product_def N_TXNS_def N_FEATURES_def ch)
qed

definition demo_stage :: json where "demo_stage = JArr (replicate 4096 (JReal 0))"

definition demo_probe :: json where
  "demo_probe = JObj [(''stage1_after_multiply_plain'', JArr [JReal 0]), (''stage2_after_rescale'', JArr [JReal 0]),
     (''stage3_after_hoisted_tree_sum'', demo_stage), (''stage4_after_add_plain_bias'', demo_stage), (''q_last'', JReal 1), (''bias_scale'', JReal 1)]"

definition demo_errors :: json where
  "demo_errors = JObj [(''n_samples'', JReal 1), (''max_abs_error'', JReal (1 / 2)), (''mean_abs_error'', JReal 0), (''median_abs_error'', JReal 0),
     (''abs_error_distribution'', JObj [(''min'', JReal 0), (''p90'', JReal 0), (''p99'', JReal 0), (''p99.9'', JReal 0)])]"

definition demo_precision_store :: store where
  "demo_precision_store = demo_store\<lparr>arrs := (arrs demo_store)(''artifacts/X_test.npy'' \<mapsto> Mat (replicate 16 (replicate 256 0)))\<rparr>"

lemma demo_stage_values:
  "stage_values demo_probe ''stage3_after_hoisted_tree_sum'' = Ret (replicate 4096 0)" "stage_values demo_probe ''stage4_after_add_plain_bias'' = Ret (replicate 4096 0)"
  "stage_values demo_probe ''stage1_after_multiply_plain'' = Ret [0]" "stage_values demo_probe ''stage2_after_rescale'' = Ret [0]"
  "lanes_of (replicate 4096 0) = Ret (replicate 16 0)"
proof -
  have r: "rmap jreal (replicate n (JReal 0)) = Ret (replicate n 0)" for n by (induction n) simp_all
  have "jiter demo_stage = Ret (replicate 4096 (JReal 0))" by (simp only: demo_stage_def jiter.simps)
  then show "stage_values demo_probe ''stage3_after_hoisted_tree_sum'' = Ret (replicate 4096 0)" "stage_values demo_probe ''stage4_after_add_plain_bias'' = Ret (replicate 4096 0)"
    "stage_values demo_probe ''stage1_after_multiply_plain'' = Ret [0]" "stage_values demo_probe ''stage2_after_rescale'' = Ret [0]"
    by (simp_all add: stage_values_def demo_probe_def r)
  have "lanes_of (replicate 4096 0) = Ret (map (\<lambda>_. 0) [0..<16])"
    unfolding lanes_of_def N_TXNS_def N_FEATURES_def by (intro rmap_Ret) simp
  also have "map (\<lambda>_. 0 :: real) [0..<16] = replicate 16 0" by (simp only: map_replicate_const length_upt) simp
  finally show "lanes_of (replicate 4096 0) = Ret (replicate 16 0)" .
qed

lemma demo_stage_errors:
  assumes "length q = 4096" "length ds = 16" "length ls = 16"
  shows "\<exists>j. stage_errors demo_probe q ds ls = Ret j"
proof -
  have ne: "\<exists>j. rbind (abs_diff xs ys) error_stats = Ret j" if "xs \<noteq> []" "length xs = length ys \<or> length xs = 1 \<and> ys \<noteq> []" for xs ys
    using that by (cases "length xs = length ys") (auto simp: abs_diff_def error_stats_def)
  have q0: "q \<noteq> []" using assms(1) by auto
  obtain e1 e3 e4 where e: "rbind (abs_diff [0] q) error_stats = Ret e1" "rbind (abs_diff (replicate 16 0) ds) error_stats = Ret e3"
      "rbind (abs_diff (replicate 16 0) ls) error_stats = Ret e4"
    using ne [of "[0]" q] q0 ne [of "replicate 16 0" ds] ne [of "replicate 16 0" ls] assms by auto
  show ?thesis by (simp only: stage_errors_def demo_stage_values rbind.simps e) simp
qed

theorem precision_report_sound_witness:
  "\<exists>rep' out. precision_main demo_precision_store (\<lambda>_. Ret demo_probe) [''artifacts/errors.json'' \<mapsto> Some demo_errors] = (Ret 0, rep')
     \<and> load_json rep' ''artifacts/precision_analysis.json'' = Ret out
     \<and> jpath out [''full_dataset'', ''scale_headroom_bits_log2_scale_over_max_ae''] = Ret (JReal 41)"
proof -
  let ?st = demo_precision_store and ?rep = "[''artifacts/errors.json'' \<mapsto> Some demo_errors]"
  let ?X = "replicate 16 (replicate 256 0) :: real list list" and ?w = "replicate 256 0 :: f64 list"
  have l: "np_load_mat ?st ''artifacts/X_test.npy'' = Ret ?X" "np_load_f ?st ''artifacts/weights.npy'' = Ret ?w"
    by (simp_all add: demo_precision_store_def demo_store_def np_load_mat_def np_load_f_def)
  have row: "list_all row256 ?X" by (simp add: list_all_iff row256_def)
  have err: "load_json ?rep ''artifacts/errors.json'' = Ret demo_errors" "jget demo_errors ''max_abs_error'' = Ret (JReal (1 / 2))"
    by (simp_all add: load_json_def demo_errors_def)
  have img: "read_bytes (bins ?st) ''artifacts/model_weights.bin'' = Ret (weights_image 256 (replicate 256 0) 0)"
    by (simp add: demo_precision_store_def demo_store_def read_bytes_def)
  have bias: "unpack_f64 (take 8 (drop 4 (weights_image 256 (replicate 256 0) 0))) = Ret 0"
    by (simp add: weights_image_def enc_simps)
  obtain q where q: "oracle_product ?X (map f64_real ?w) = Ret q" "length q = 4096"
    using oracle_product_ok [OF row, of "map f64_real ?w"] by auto
  have "length (row_sums q) = 16" using oracle_dots [OF q(1) row] by simp
  then obtain errs where errs: "stage_errors demo_probe q (row_sums q) (map (\<lambda>d. d + f64_real 0) (row_sums q)) = Ret errs"
    using demo_stage_errors [OF q(2), of "row_sums q" "map (\<lambda>d. d + f64_real 0) (row_sums q)"] by auto
  have tk: "take N_TXNS ?X = ?X" by (simp add: N_TXNS_def)
  obtain h where h: "scale_headroom (Fin (1 / 2)) = Ret h" by (simp add: scale_headroom_def py_div_def Let_def)
  obtain rep' where run: "precision_main ?st (\<lambda>_. Ret demo_probe) ?rep = (Ret 0, rep')"
    unfolding precision_main_def precision_report_def err rbind.simps l img bias tk q(1) Let_def errs
    using h by (simp add: demo_errors_def full_dataset_block_def jfields_def demo_probe_def)
  show ?thesis
    using precision_report_sound [OF run l(1) row l(2) _ err] run by (simp add: log_divide) blast
qed

end
