(* ===== verification/SummaryScripts.thy ===== *)
theory SummaryScripts
  imports ExecMatrix Percentiles
begin

text \<open>
  The repeated benchmark \<^verbatim>\<open>scripts/benchmark_multirun.py\<close>, the accuracy summary \<^verbatim>\<open>scripts/show_accuracy_check.py\<close> and the
  scores of \<^verbatim>\<open>scripts/generate_roc.py\<close>. \<open>parse\<close> is \<^verbatim>\<open>float\<close> (of a finite number); the XGBoost model and the metrics are
  arguments; printing and figures are left out.
\<close>

section \<open>Repeated benchmark\<close>

text \<open>The text after the first occurrence of \<open>p\<close>, and the text before one.\<close>

fun after_first :: "string \<Rightarrow> string \<Rightarrow> string option" where
  "after_first p [] = (if p = [] then Some [] else None)"
| "after_first p (c # s) = (if starts_with p (c # s) then Some (drop (length p) (c # s)) else after_first p s)"

fun before_first :: "string \<Rightarrow> string \<Rightarrow> string" where
  "before_first p [] = []"
| "before_first p (c # s) = (if starts_with p (c # s) then [] else c # before_first p s)"

text \<open>\<^verbatim>\<open>output.split('\n')\<close>.\<close>

fun split_lines :: "string \<Rightarrow> string list" where
  "split_lines [] = [[]]"
| "split_lines (c # s) = (if c = CHR 0x0A then [] # split_lines s else (case split_lines s of [] \<Rightarrow> [[c]] | l # ls \<Rightarrow> (c # l) # ls))"

fun first_avg_us :: "(string \<Rightarrow> real res) \<Rightarrow> string list \<Rightarrow> real option res" where
  "first_avg_us parse [] = Ret None"
| "first_avg_us parse (l # ls) =
     (case after_first ''avg_us='' l of
        None \<Rightarrow> first_avg_us parse ls
      | Some rest \<Rightarrow>
        (case split_ws (before_first ''avg_us='' rest) of
           [] \<Rightarrow> Raise IndexError
         | tok # _ \<Rightarrow> rbind (parse tok) (\<lambda>x. Ret (Some x))))"

text \<open>The output of every run; \<open>None\<close> is a failed one, which is skipped.\<close>

fun run_benchmark_multi :: "(string \<Rightarrow> real res) \<Rightarrow> string option list \<Rightarrow> real list res" where
  "run_benchmark_multi parse [] = Ret []"
| "run_benchmark_multi parse (None # os) = run_benchmark_multi parse os"
| "run_benchmark_multi parse (Some out # os) =
     rbind (first_avg_us parse (split_lines out)) (\<lambda>x.
     rbind (run_benchmark_multi parse os) (\<lambda>xs. Ret (case x of None \<Rightarrow> xs | Some v \<Rightarrow> v # xs)))"

record run_stats =
  rn_mean :: real
  rn_median :: real
  rn_min :: real
  rn_max :: real
  rn_stdev :: real
  rn_count :: nat

definition compute_stats :: "real list \<Rightarrow> run_stats option" where
  "compute_stats values =
     (if values = [] then None
      else Some \<lparr>rn_mean = mean values, rn_median = np_median values, rn_min = lmin values, rn_max = lmax values,
                 rn_stdev = (if 1 < length values then std 1 values else 0), rn_count = length values\<rparr>)"

record multirun =
  mr_160 :: run_stats
  mr_200 :: run_stats
  mr_speedup :: real
  mr_min :: real
  mr_max :: real

text \<open>\<open>outs n\<close> are the outputs of \<open>n\<close> runs; a negative number of runs is none.\<close>

definition multirun_main :: "(string \<Rightarrow> real res) \<Rightarrow> (string \<Rightarrow> int res) \<Rightarrow> (path \<Rightarrow> bool) \<Rightarrow> (path \<Rightarrow> nat \<Rightarrow> string option list) \<Rightarrow> string list \<Rightarrow> multirun res" where
  "multirun_main parse to_int ex outs argv =
     (let build_dir = (if 1 < length argv then argv ! 1 else ''./build'') in
      rbind (if 2 < length argv then to_int (argv ! 2) else Ret 10) (\<lambda>num_runs.
      let b160 = build_dir @ ''/vendor_server/benchmark_160''; b200 = build_dir @ ''/vendor_server/benchmark'' in
      if \<not> ex b160 then Raise (SystemExit 1)
      else if \<not> ex b200 then Raise (SystemExit 1)
      else
        rbind (run_benchmark_multi parse (outs b160 (nat num_runs))) (\<lambda>results_160.
        rbind (run_benchmark_multi parse (outs b200 (nat num_runs))) (\<lambda>results_200.
        case (compute_stats results_160, compute_stats results_200) of
          (Some s160, Some s200) \<Rightarrow>
            if rn_mean s160 = 0 then Raise ZeroDivisionError
            else Ret \<lparr>mr_160 = s160, mr_200 = s200, mr_speedup = rn_mean s200 / rn_mean s160,
                      mr_min = min (rn_min s160) (rn_min s200), mr_max = max (rn_max s160) (rn_max s200)\<rparr>
        | _ \<Rightarrow> Raise TypeError))))"

section \<open>Scores over the test set\<close>

definition roc_logits :: "store \<Rightarrow> real list res" where
  "roc_logits st =
     rbind (np_load_mat st ''artifacts/X_test.npy'') (\<lambda>X.
     rbind (np_load_i st ''artifacts/y_test.npy'') (\<lambda>_.
     rbind (np_load_i st ''artifacts/feature_idx.npy'') (\<lambda>idx.
     rbind (roc_load_depth1_weights (bins st) ''artifacts/model_weights.bin'') (\<lambda>(w, b).
     rbind (take_cols (map nat idx) X) (\<lambda>Xs.
     if length idx \<noteq> length w then Raise ValueError
     else Ret (map (\<lambda>r. dot r (map f64_real w) + f64_real b) Xs))))))"

record accuracy_metrics =
  am_roc_auc :: "int list \<Rightarrow> real list \<Rightarrow> real"
  am_pr_auc :: "int list \<Rightarrow> real list \<Rightarrow> real"
  am_xgb :: "real list list \<Rightarrow> real list"
  am_expit :: "real \<Rightarrow> real"

text \<open>The two areas under the curves and the figures written; the scaler is loaded and not used.\<close>

definition roc_main :: "accuracy_metrics \<Rightarrow> store \<Rightarrow> (real \<times> real \<times> path list) res" where
  "roc_main M st =
     (if \<not> file_exists st ''artifacts/xgb_model.pkl'' then Raise FileNotFoundError
      else
        rbind (np_load_mat st ''artifacts/X_test.npy'') (\<lambda>X.
        rbind (np_load_i st ''artifacts/y_test.npy'') (\<lambda>y.
        rbind (np_load_i st ''artifacts/feature_idx.npy'') (\<lambda>_.
        if \<not> file_exists st ''artifacts/scaler.pkl'' then Raise FileNotFoundError
        else rbind (roc_logits st) (\<lambda>logits.
          Ret (am_roc_auc M y (am_xgb M X), am_roc_auc M y (map (am_expit M) logits),
               [''results/roc_comparison.png'', ''results/roc_comparison.pdf'']))))))"

definition accuracy_logits :: "store \<Rightarrow> real list list \<Rightarrow> real list res" where
  "accuracy_logits st X =
     rbind (accuracy_load_depth1_weights (bins st) ''artifacts/model_weights.bin'') (\<lambda>(w, b).
     if \<exists>r \<in> set X. length r \<noteq> length w then Raise ValueError
     else Ret (map (\<lambda>r. dot r (map f64_real w) + f64_real b) X))"

text \<open>The dataset is the table read from the file, if there is one.\<close>

definition accuracy_main :: "accuracy_metrics \<Rightarrow> csv option \<Rightarrow> store \<Rightarrow> json res" where
  "accuracy_main M df st =
     (case df of
        None \<Rightarrow> Raise FileNotFoundError
      | Some d \<Rightarrow>
        if \<not> list_all (\<lambda>n. file_exists st (''artifacts/'' @ n)) [''X_test.npy'', ''y_test.npy'', ''xgb_model.pkl'', ''model_weights.bin'']
        then Raise FileNotFoundError
        else if ''Class'' \<notin> set (columns d) then Raise ValueError
        else
          let total = length (csv_rows d); fraud = length (filter (\<lambda>r. map_of (zip (columns d) r) ''Class'' = Some 1) (csv_rows d)); normal = total - fraud;
              fraud_pct = (if 0 < total then real fraud / real total * 100 else 0) in
          rbind (np_load_mat st ''artifacts/X_test.npy'') (\<lambda>X.
          rbind (np_load_i st ''artifacts/y_test.npy'') (\<lambda>y.
          let xgb_probs = am_xgb M X in
          rbind (accuracy_logits st X) (\<lambda>logits.
          let probs = map (am_expit M) logits in
          Ret (JObj
            [(''dataset'', JObj [(''total_transactions'', JInt (int total)), (''fraud_transactions'', JInt (int fraud)),
                (''non_fraud_transactions'', JInt (int normal)), (''fraud_rate_percent'', JNum (py_round 6 (Fin fraud_pct)))]),
             (''evaluation_set'', JObj [(''x_test_shape'', JArr [JInt (int (length X)), JInt (int (ncols X))]), (''y_test_size'', JInt (int (length y)))]),
             (''metrics'', JObj
                [(''xgboost'', JObj [(''roc_auc'', JReal (am_roc_auc M y xgb_probs)), (''pr_auc'', JReal (am_pr_auc M y xgb_probs))]),
                 (''depth1_lr'', JObj [(''roc_auc'', JReal (am_roc_auc M y probs)), (''pr_auc'', JReal (am_pr_auc M y probs))])])])))))"

section \<open>Properties\<close>

lemma compute_stats_range:
  assumes "compute_stats xs = Some s"
  shows "xs \<noteq> [] \<and> rn_mean s = mean xs \<and> rn_count s = length xs \<and> (\<forall>x \<in> set xs. rn_min s \<le> x \<and> x \<le> rn_max s)
    \<and> rn_min s \<le> rn_mean s \<and> rn_mean s \<le> rn_max s \<and> rn_min s \<le> rn_median s \<and> rn_median s \<le> rn_max s"
proof -
  have ne: "xs \<noteq> []" using assms by (auto simp: compute_stats_def split: if_splits)
  have b: "\<And>x. x \<in> set xs \<Longrightarrow> lmin xs \<le> x \<and> x \<le> lmax xs" using lmin_le lmax_ge by blast
  have "lmin xs \<le> np_median xs" "np_median xs \<le> lmax xs"
    using np_percentile_between [OF ne _ _ b, of 50] by (simp_all add: np_percentile_50 [OF ne])
  with mean_between [OF ne b] b ne assms show ?thesis by (auto simp: compute_stats_def)
qed

text \<open>The repeated benchmark either has a sample of both circuits or fails. Once the outputs of the runs have been parsed, it fails
  with a type error when all runs of one circuit failed (it subscripts the missing statistics); otherwise it reports as many
  samples as runs parsed, a ratio that takes the 160-bit mean to the 200-bit mean, and a range that contains every sample and
  both means.\<close>

theorem multirun_outcome:
  assumes "(if 2 < length argv then to_int (argv ! 2) else Ret 10) = Ret k"
    and "b160 = (if 1 < length argv then argv ! 1 else ''./build'') @ ''/vendor_server/benchmark_160''" "ex b160"
    and "b200 = (if 1 < length argv then argv ! 1 else ''./build'') @ ''/vendor_server/benchmark''" "ex b200"
    and "run_benchmark_multi parse (outs b160 (nat k)) = Ret r160" "run_benchmark_multi parse (outs b200 (nat k)) = Ret r200"
  shows "if r160 = [] \<or> r200 = [] then multirun_main parse to_int ex outs argv = Raise TypeError
    else if mean r160 = 0 then multirun_main parse to_int ex outs argv = Raise ZeroDivisionError
    else \<exists>m. multirun_main parse to_int ex outs argv = Ret m \<and> rn_count (mr_160 m) = length r160 \<and> rn_count (mr_200 m) = length r200
      \<and> mr_speedup m * mean r160 = mean r200 \<and> (\<forall>x \<in> set r160 \<union> set r200 \<union> {mean r160, mean r200}. mr_min m \<le> x \<and> x \<le> mr_max m)"
proof -
  have main: "multirun_main parse to_int ex outs argv = (case (compute_stats r160, compute_stats r200) of
      (Some s160, Some s200) \<Rightarrow>
        if rn_mean s160 = 0 then Raise ZeroDivisionError
        else Ret \<lparr>mr_160 = s160, mr_200 = s200, mr_speedup = rn_mean s200 / rn_mean s160,
                  mr_min = min (rn_min s160) (rn_min s200), mr_max = max (rn_max s160) (rn_max s200)\<rparr>
    | _ \<Rightarrow> Raise TypeError)"
    unfolding multirun_main_def Let_def assms(1) rbind.simps assms(2) [symmetric] assms(4) [symmetric] using assms(3,5,6,7) by simp
  show ?thesis
  proof (cases "r160 = [] \<or> r200 = []")
    case True
    then show ?thesis unfolding main by (auto simp: compute_stats_def)
  next
    case False
    then obtain s160 s200 where s: "compute_stats r160 = Some s160" "compute_stats r200 = Some s200" by (simp add: compute_stats_def)
    note a = compute_stats_range [OF s(1)] and b = compute_stats_range [OF s(2)]
    show ?thesis
    proof (cases "mean r160 = 0")
      case True
      then show ?thesis using False a unfolding main s by simp
    next
      case nz: False
      have "\<forall>x \<in> set r160 \<union> set r200 \<union> {mean r160, mean r200}. min (rn_min s160) (rn_min s200) \<le> x \<and> x \<le> max (rn_max s160) (rn_max s200)"
        using a b by (auto simp: min_le_iff_disj le_max_iff_disj)
      then show ?thesis using False nz a b unfolding main s by simp
    qed
  qed
qed

text \<open>The ROC script and the accuracy check score the same logits when the feature index is the identity.\<close>

lemma roc_accuracy_agree:
  assumes "np_load_mat st ''artifacts/X_test.npy'' = Ret X" "np_load_i st ''artifacts/y_test.npy'' = Ret y"
    and "np_load_i st ''artifacts/feature_idx.npy'' = Ret (map int [0..<256])" "list_all row256 X"
    and "bins st ''artifacts/model_weights.bin'' = Some raw"
  shows "roc_logits st = accuracy_logits st X"
proof -
  have idx: "map nat (map int [0..<256]) = [0..<256]" by (simp add: comp_def)
  have cols: "take_cols [0..<256] X = Ret X"
  proof -
    have "map ((!) r) [0..<256] = r" if "r \<in> set X" for r
      using that assms(4) map_nth [of r] by (simp add: list_all_iff row256_def)
    then show ?thesis using assms(4) by (auto simp: take_cols_def list_all_iff row256_def map_idI)
  qed
  have same: "accuracy_load_depth1_weights (bins st) ''artifacts/model_weights.bin'' = roc_load_depth1_weights (bins st) ''artifacts/model_weights.bin''"
    by (simp add: accuracy_load_depth1_weights_def roc_load_depth1_weights_def)
  show ?thesis
  proof (cases "roc_load_depth1_weights (bins st) ''artifacts/model_weights.bin''")
    case (Inl e)
    then show ?thesis unfolding roc_logits_def accuracy_logits_def same assms(1-3) by simp
  next
    case (Inr wb)
    then obtain w b where wb: "roc_load_depth1_weights (bins st) ''artifacts/model_weights.bin'' = Ret (w, b)" by (cases wb) auto
    have "length w = 256" using roc_reader.rd_only [OF wb] by simp
    then show ?thesis
      using assms(4) unfolding roc_logits_def accuracy_logits_def same assms(1-3) rbind.simps wb prod.case idx cols
      by (auto simp: list_all_iff row256_def)
  qed
qed

text \<open>So the figure and the accuracy check quote the same two areas.\<close>

lemma roc_accuracy_same_auc:
  assumes "roc_main M st = Ret (xgb, lr, files)" "accuracy_main M df st = Ret doc"
    and "np_load_i st ''artifacts/feature_idx.npy'' = Ret (map int [0..<256])" "\<forall>X. np_load_mat st ''artifacts/X_test.npy'' = Ret X \<longrightarrow> list_all row256 X"
  shows "jnum_at doc [''metrics'', ''depth1_lr'', ''roc_auc''] = Ret (Fin lr) \<and> jnum_at doc [''metrics'', ''xgboost'', ''roc_auc''] = Ret (Fin xgb)"
proof -
  obtain X y z where r: "np_load_mat st ''artifacts/X_test.npy'' = Ret X" "np_load_i st ''artifacts/y_test.npy'' = Ret y" "roc_logits st = Ret z"
    "xgb = am_roc_auc M y (am_xgb M X)" "lr = am_roc_auc M y (map (am_expit M) z)"
    using assms(1) by (auto simp: roc_main_def rbind_Ret_iff split: if_splits)
  have raw: "\<exists>raw. bins st ''artifacts/model_weights.bin'' = Some raw"
    using r(3) by (cases "bins st ''artifacts/model_weights.bin''") (auto simp: roc_logits_def rbind_Ret_iff roc_load_depth1_weights_def read_bytes_def)
  then have z: "accuracy_logits st X = Ret z"
    using roc_accuracy_agree [OF r(1,2) assms(3)] assms(4) r(1,3) by auto
  show ?thesis
    using assms(2) r z by (auto simp: accuracy_main_def rbind_Ret_iff Let_def jnum_at_def split: option.splits if_splits)
qed

theorem multirun_outcome_witness:
  "\<exists>m. multirun_main (\<lambda>t. if t = ''7'' then Ret 7 else Ret 14) (\<lambda>_. Ret 2) (\<lambda>_. True)
       (\<lambda>p _. if p = ''b/vendor_server/benchmark'' then [Some ''avg_us=14 x'', None] else [None, Some ''avg_us=7'']) [''prog'', ''b'', ''2''] = Ret m
     \<and> mr_speedup m = 2"
proof -
  let ?parse = "\<lambda>t. if t = ''7'' then Ret 7 else Ret 14 :: real res"
  let ?outs = "\<lambda>p _. if p = ''b/vendor_server/benchmark'' then [Some ''avg_us=14 x'', None] else [None, Some ''avg_us=7'']"
  have r: "run_benchmark_multi ?parse (?outs ''b/vendor_server/benchmark_160'' (nat 2)) = Ret [7]"
    "run_benchmark_multi ?parse (?outs ''b/vendor_server/benchmark'' (nat 2)) = Ret [14]"
    by (simp_all add: starts_with_def split_ws_def is_space_def)
  have "if [7 :: real] = [] \<or> [14 :: real] = [] then multirun_main ?parse (\<lambda>_. Ret 2) (\<lambda>_. True) ?outs [''prog'', ''b'', ''2''] = Raise TypeError
    else if mean [7] = 0 then multirun_main ?parse (\<lambda>_. Ret 2) (\<lambda>_. True) ?outs [''prog'', ''b'', ''2''] = Raise ZeroDivisionError
    else \<exists>m. multirun_main ?parse (\<lambda>_. Ret 2) (\<lambda>_. True) ?outs [''prog'', ''b'', ''2''] = Ret m \<and> rn_count (mr_160 m) = length [7 :: real] \<and> rn_count (mr_200 m) = length [14 :: real]
      \<and> mr_speedup m * mean [7] = mean [14] \<and> (\<forall>x \<in> set [7] \<union> set [14] \<union> {mean [7], mean [14]}. mr_min m \<le> x \<and> x \<le> mr_max m)"
    by (rule multirun_outcome [where k = 2, OF _ refl _ refl]) (use r in \<open>simp_all\<close>)
  then show ?thesis by (auto simp: mean_def)
qed

end
