(* ===== verification/MatchedPair.thy ===== *)
theory MatchedPair
  imports PrivacyCost Reports Percentiles
begin

text \<open>
  The architecture-matched privacy-cost measurement \<^verbatim>\<open>scripts/privacy_cost_matched_pair.py\<close>: one benchmark binary per
  modulus chain, gated, with the raw latencies read back from a temporary file; summaries with a bootstrap interval, the rank
  test, and the file the privacy-cost report quotes. What a binary prints and dumps, the resampling indices and the test are
  arguments; prose is shortened, printed lines are left out.
\<close>

definition MATCHED_OUT :: path where "MATCHED_OUT = ''artifacts/privacy_cost_matched_pair.json''"
definition BOOTSTRAP_RESAMPLES :: nat where "BOOTSTRAP_RESAMPLES = 10000"
definition BOOTSTRAP_CI :: real where "BOOTSTRAP_CI = 95 / 100"

section \<open>One binary\<close>

text \<open>Python's \<^verbatim>\<open>size != result["n"]\<close>, negated.\<close>

fun eq_int :: "nat \<Rightarrow> json \<Rightarrow> bool" where
  "eq_int k (JNum x) \<longleftrightarrow> x = Fin (real k)"
| "eq_int k (JBool b) \<longleftrightarrow> k = (if b then 1 else 0)"
| "eq_int k _ \<longleftrightarrow> False"

text \<open>\<open>out\<close>: the standard output up to the last closing brace (\<open>None\<close>: there is none; \<open>Some None\<close>: it is no JSON); \<open>dump\<close>: the
  array made of the samples file. The second component tells whether the temporary file is left behind.\<close>

definition run_pair_binary :: "bool \<Rightarrow> json option option \<Rightarrow> real list res \<Rightarrow> (json \<times> real list) res \<times> bool" where
  "run_pair_binary built out dump =
     (if \<not> built then (Raise (SystemExit 1), False)
      else case out of
        None \<Rightarrow> (Raise (SystemExit 1), True)
      | Some None \<Rightarrow> (Raise ValueError, True)
      | Some (Some r) \<Rightarrow>
        (case jget_default r ''correctness_passed'' (JBool False) of
           Inl e \<Rightarrow> (Inl e, True)
         | Inr p \<Rightarrow>
           if \<not> jtruthy p then (Raise (SystemExit 1), True)
           else (case dump of
               Inl e \<Rightarrow> (Inl e, True)
             | Inr samples \<Rightarrow>
               (rbind (jget r ''n'') (\<lambda>n. if \<not> eq_int (length samples) n then Raise (SystemExit 1) else Ret (r, samples)), False))))"

section \<open>Statistics\<close>

text \<open>\<open>idx k i\<close> is the \<open>i\<close>-th index (modulo their number) of the \<open>k\<close>-th resample.\<close>

definition bootstrap_means :: "(nat \<Rightarrow> nat \<Rightarrow> nat) \<Rightarrow> real list \<Rightarrow> real list" where
  "bootstrap_means idx a =
     map (\<lambda>k. mean (map (\<lambda>i. a ! (idx k i mod length a)) [0..<length a])) [0..<BOOTSTRAP_RESAMPLES]"

definition bootstrap_ci_mean :: "(nat \<Rightarrow> nat \<Rightarrow> nat) \<Rightarrow> real list \<Rightarrow> real \<times> real" where
  "bootstrap_ci_mean idx a =
     (let alpha = (1 - BOOTSTRAP_CI) / 2; means = bootstrap_means idx a
      in (np_percentile means (alpha * 100), np_percentile means ((1 - alpha) * 100)))"

text \<open>Percentiles, resampling and the extrema of an empty array raise.\<close>

definition pair_summary :: "(nat \<Rightarrow> nat \<Rightarrow> nat) \<Rightarrow> real list \<Rightarrow> (string \<times> json) list res" where
  "pair_summary idx a =
     (if a = [] then Raise IndexError
      else let q1 = np_percentile a 25; q3 = np_percentile a 75; ci = bootstrap_ci_mean idx a in
        Ret [(''n'', JInt (int (length a))), (''mean_us'', JReal (mean a)), (''std_us'', JReal (std 0 a)), (''median_us'', JReal (np_median a)),
             (''iqr_us'', JObj [(''q1'', JReal q1), (''q3'', JReal q3), (''iqr'', JReal (q3 - q1))]),
             (''bootstrap_ci95_mean_us'', JObj [(''lo'', JReal (fst ci)), (''hi'', JReal (snd ci)), (''n_resamples'', JInt (int BOOTSTRAP_RESAMPLES))]),
             (''p95_us'', JReal (np_percentile a 95)), (''p99_us'', JReal (np_percentile a 99)), (''min_us'', JReal (lmin a)), (''max_us'', JReal (lmax a))])"

section \<open>The script\<close>

text \<open>What the script finds: the outcome of the two binaries, the rank test and the governor. \<open>mp_fmt d x\<close> is \<open>x\<close> with \<open>d\<close>
  decimals, \<open>mp_sci\<close> a float in scientific notation.\<close>

record mp_env =
  mp_gov :: "string option"
  mp_built :: "string \<Rightarrow> bool"
  mp_out :: "string \<Rightarrow> json option option"
  mp_dump :: "string \<Rightarrow> real list res"
  mp_idx :: "nat \<Rightarrow> nat \<Rightarrow> nat"
  mp_mwu :: "real list \<Rightarrow> real list \<Rightarrow> (pyfloat \<times> pyfloat) res"
  mp_fmt :: "nat \<Rightarrow> pyfloat \<Rightarrow> string"
  mp_sci :: "pyfloat \<Rightarrow> string"

definition mp_governor :: "mp_env \<Rightarrow> string" where
  "mp_governor E = (case mp_gov E of None \<Rightarrow> ''UNKNOWN'' | Some g \<Rightarrow> g)"

definition key_finding :: "mp_env \<Rightarrow> pyfloat \<Rightarrow> pyfloat \<Rightarrow> pyfloat \<Rightarrow> string" where
  "key_finding E delta rel p =
     ''one additional 40-bit RNS prime (200-bit vs 160-bit chain) costs +'' @ mp_fmt E 1 delta @ ''us ('' @ mp_fmt E 1 rel
       @ ''%) median latency (Mann-Whitney p='' @ mp_sci E p @ ''), measured under cpu_governor='' @ mp_governor E"

definition pair_framing :: "string \<Rightarrow> json" where
  "pair_framing governor =
     JObj [(''methodology'', JStr ''measured''), (''cpu_governor'', JStr governor),
           (''governor_caveat'', if governor \<noteq> ''performance'' then JStr ''PENDING under 'performance' governor'' else JNull)]"

definition pair_report :: "mp_env \<Rightarrow> json \<times> real list \<Rightarrow> json \<times> real list \<Rightarrow> json res" where
  "pair_report E r200 r160 =
     rbind (mp_mwu E (snd r200) (snd r160)) (\<lambda>(u, p).
     rbind (pair_summary (mp_idx E) (snd r200)) (\<lambda>s200.
     rbind (pair_summary (mp_idx E) (snd r160)) (\<lambda>s160.
     let m200 = np_median (snd r200); m160 = np_median (snd r160); delta = Fin (m200 - m160) in
     rbind (py_div delta (Fin m160)) (\<lambda>q.
     let rel = pf_mul q (Fin 100) in
     rbind (jget (fst r200) ''correctness_max_abs_error'') (\<lambda>e200.
     rbind (jget (fst r160) ''correctness_max_abs_error'') (\<lambda>e160.
     Ret (JObj [(''framing'', pair_framing (mp_governor E)), (''strategy'', JStr ''fold''),
       (''200bit'', JObj (s200 @ [(''correctness_max_abs_error'', e200)])), (''160bit'', JObj (s160 @ [(''correctness_max_abs_error'', e160)])),
       (''delta'', JObj [(''median_us'', JNum delta), (''pct_delta_vs_160bit_median'', JNum rel), (''mann_whitney_u'', JNum u),
          (''mann_whitney_p_value'', JNum p), (''significant_at_p05'', JBool (pf_lt p (Fin (5 / 100))))]),
       (''key_finding'', JStr (key_finding E delta rel p))])))))))"

text \<open>The number of temporary files left behind comes back with the result.\<close>

definition matched_pair_main :: "mp_env \<Rightarrow> jfs \<Rightarrow> int res \<times> nat \<times> jfs" where
  "matched_pair_main E rep =
     (case run_pair_binary (mp_built E ''benchmark'') (mp_out E ''benchmark'') (mp_dump E ''benchmark'') of
        (Inl e, left) \<Rightarrow> (Inl e, if left then 1 else 0, rep)
      | (Inr r200, _) \<Rightarrow>
        (case run_pair_binary (mp_built E ''benchmark_160'') (mp_out E ''benchmark_160'') (mp_dump E ''benchmark_160'') of
           (Inl e, left) \<Rightarrow> (Inl e, if left then 1 else 0, rep)
         | (Inr r160, _) \<Rightarrow>
           (case pair_report E r200 r160 of
              Inl e \<Rightarrow> (Inl e, 0, rep)
            | Inr out \<Rightarrow> (Ret 0, 0, save_json MATCHED_OUT out rep))))"

section \<open>Facts\<close>

lemma run_pair_binary_Ret:
  assumes "run_pair_binary built out dump = (Ret (r, s), left)"
  shows "out = Some (Some r) \<and> dump = Ret s \<and> \<not> left \<and> (\<exists>v. jget r ''correctness_passed'' = Ret v \<and> jtruthy v)
    \<and> (\<exists>n. jget r ''n'' = Ret n \<and> eq_int (length s) n)"
  using assms unfolding run_pair_binary_def
  by (auto simp: rbind_Ret_iff jget_default_eq_Ret jget_eq_Ret split: if_splits option.splits sum.splits)

lemma bootstrap_ci_bounds:
  assumes "a \<noteq> []"
  shows "lmin a \<le> fst (bootstrap_ci_mean idx a)" "fst (bootstrap_ci_mean idx a) \<le> snd (bootstrap_ci_mean idx a)"
    "snd (bootstrap_ci_mean idx a) \<le> lmax a"
proof -
  let ?m = "bootstrap_means idx a"
  have ne: "?m \<noteq> []" by (simp add: bootstrap_means_def BOOTSTRAP_RESAMPLES_def)
  have b: "lmin a \<le> x \<and> x \<le> lmax a" if h: "x \<in> set ?m" for x
  proof -
    obtain k where x: "x = mean (map (\<lambda>i. a ! (idx k i mod length a)) [0..<length a])"
      using h unfolding bootstrap_means_def set_map by (elim imageE)
    have "lmin a \<le> y \<and> y \<le> lmax a" if "y \<in> set (map (\<lambda>i. a ! (idx k i mod length a)) [0..<length a])" for y
      using that assms by (auto intro!: lmin_le lmax_ge nth_mem)
    then show ?thesis using mean_between [of "map (\<lambda>i. a ! (idx k i mod length a)) [0..<length a]" "lmin a" "lmax a"] assms unfolding x by auto
  qed
  have q: "(1 - BOOTSTRAP_CI) / 2 * 100 = 5 / 2" "(1 - (1 - BOOTSTRAP_CI) / 2) * 100 = 195 / 2" by (simp_all add: BOOTSTRAP_CI_def)
  show "lmin a \<le> fst (bootstrap_ci_mean idx a)" "snd (bootstrap_ci_mean idx a) \<le> lmax a"
    using np_percentile_between [OF ne _ _ b] unfolding bootstrap_ci_mean_def Let_def q by simp_all
  show "fst (bootstrap_ci_mean idx a) \<le> snd (bootstrap_ci_mean idx a)"
    using np_percentile_mono [OF ne] unfolding bootstrap_ci_mean_def Let_def q by simp
qed

section \<open>What the privacy-cost report quotes\<close>

text \<open>Interval and quartiles of a summary lie in order between minimum and maximum.\<close>

definition pair_summarises :: "json \<Rightarrow> real list \<Rightarrow> bool" where
  "pair_summarises j xs \<longleftrightarrow> jget j ''median_us'' = Ret (JReal (np_median xs)) \<and>
     (\<exists>q1 q3 lo hi a b. jpath j [''iqr_us'', ''q1''] = Ret (JReal q1) \<and> jpath j [''iqr_us'', ''q3''] = Ret (JReal q3)
        \<and> jpath j [''iqr_us'', ''iqr''] = Ret (JReal (q3 - q1)) \<and> jpath j [''bootstrap_ci95_mean_us'', ''lo''] = Ret (JReal lo)
        \<and> jpath j [''bootstrap_ci95_mean_us'', ''hi''] = Ret (JReal hi) \<and> jget j ''min_us'' = Ret (JReal a) \<and> jget j ''max_us'' = Ret (JReal b)
        \<and> a \<le> q1 \<and> q1 \<le> np_median xs \<and> np_median xs \<le> q3 \<and> q3 \<le> b \<and> a \<le> lo \<and> lo \<le> hi \<and> hi \<le> b)"

lemma pair_summary_ok:
  assumes "pair_summary idx xs = Ret kvs"
  shows "pair_summarises (JObj (kvs @ ext)) xs"
proof -
  have ne: "xs \<noteq> []" using assms by (auto simp: pair_summary_def split: if_splits)
  have b: "\<And>x. x \<in> set xs \<Longrightarrow> lmin xs \<le> x \<and> x \<le> lmax xs" using lmin_le lmax_ge by blast
  have "lmin xs \<le> np_percentile xs 25" "np_percentile xs 25 \<le> np_median xs" "np_median xs \<le> np_percentile xs 75" "np_percentile xs 75 \<le> lmax xs"
    using np_percentile_between [OF ne _ _ b] np_percentile_mono [OF ne] by (simp_all flip: np_percentile_50 [OF ne])
  then show ?thesis
    using assms ne bootstrap_ci_bounds [OF ne, of idx] by (auto simp: pair_summary_def Let_def pair_summarises_def)
qed

lemma pair_report_Ret:
  assumes "pair_report E (r200, s200) (r160, s160) = Ret out"
  shows "\<exists>j200 j160 p rel. jget out ''200bit'' = Ret j200 \<and> jget out ''160bit'' = Ret j160 \<and> pair_summarises j200 s200 \<and> pair_summarises j160 s160
    \<and> jpath out [''delta'', ''median_us''] = Ret (JReal (np_median s200 - np_median s160))
    \<and> jpath out [''delta'', ''pct_delta_vs_160bit_median''] = Ret (JReal rel) \<and> np_median s160 * (1 + rel / 100) = np_median s200
    \<and> jpath out [''delta'', ''mann_whitney_p_value''] = Ret (JNum p) \<and> (\<exists>u. mp_mwu E s200 s160 = Ret (u, p))
    \<and> jpath out [''framing'', ''cpu_governor''] = Ret (JStr (mp_governor E)) \<and> (\<exists>s. jget out ''key_finding'' = Ret (JStr s))"
proof -
  obtain u p k200 k160 q e200 e160 where m: "mp_mwu E s200 s160 = Ret (u, p)" and s: "pair_summary (mp_idx E) s200 = Ret k200" "pair_summary (mp_idx E) s160 = Ret k160"
    and q: "py_div (Fin (np_median s200 - np_median s160)) (Fin (np_median s160)) = Ret q"
    and out: "out = JObj [(''framing'', pair_framing (mp_governor E)), (''strategy'', JStr ''fold''),
       (''200bit'', JObj (k200 @ [(''correctness_max_abs_error'', e200)])), (''160bit'', JObj (k160 @ [(''correctness_max_abs_error'', e160)])),
       (''delta'', JObj [(''median_us'', JReal (np_median s200 - np_median s160)), (''pct_delta_vs_160bit_median'', JNum (pf_mul q (Fin 100))), (''mann_whitney_u'', JNum u),
          (''mann_whitney_p_value'', JNum p), (''significant_at_p05'', JBool (pf_lt p (Fin (5 / 100))))]),
       (''key_finding'', JStr (key_finding E (Fin (np_median s200 - np_median s160)) (pf_mul q (Fin 100)) p))]"
    using assms unfolding pair_report_def Let_def rbind_Ret_iff fst_conv snd_conv by (auto simp: rbind_Ret_iff)
  have z: "np_median s160 \<noteq> 0" and qv: "q = Fin ((np_median s200 - np_median s160) / np_median s160)"
    using q by (auto simp: py_div_def split: if_splits)
  have "np_median s160 * (1 + (np_median s200 - np_median s160) / np_median s160 * 100 / 100) = np_median s200"
    using z by (simp add: field_simps)
  then show ?thesis
    using pair_summary_ok [OF s(1), of "[(''correctness_max_abs_error'', e200)]"] pair_summary_ok [OF s(2), of "[(''correctness_max_abs_error'', e160)]"] m
    by (simp add: out qv pair_framing_def)
qed

text \<open>C22. The privacy-cost report quotes the matched measurement faithfully. When the measurement ends normally, both binaries passed
  their gates and dumped as many latencies as they reported; the report's block exists, its difference is the difference of
  the two medians, its percentage recovers the 200-bit median from the 160-bit one, p-value and governor are those of the run,
  and the text it extends is a string. Quartiles and bootstrap interval lie in order within the range of the samples, and no
  temporary file is left.\<close>

theorem matched_pair_feeds_privacy:
  assumes "matched_pair_main E rep = (Ret 0, left, rep')"
  shows "\<exists>r200 s200 r160 s160 m j200 j160 blk p rel. mp_out E ''benchmark'' = Some (Some r200) \<and> mp_dump E ''benchmark'' = Ret s200
    \<and> mp_out E ''benchmark_160'' = Some (Some r160) \<and> mp_dump E ''benchmark_160'' = Ret s160 \<and> left = 0
    \<and> (\<forall>(r, s) \<in> {(r200, s200), (r160, s160)}. (\<exists>v. jget r ''correctness_passed'' = Ret v \<and> jtruthy v) \<and> (\<exists>n. jget r ''n'' = Ret n \<and> eq_int (length s) n))
    \<and> load_matched_pair rep' = Ret (Some m) \<and> key_finding_ok (Some m) = Ret () \<and> matched_pair_block (Some m) = Ret blk
    \<and> jget blk ''delta'' = Ret (JReal (np_median s200 - np_median s160))
    \<and> jget blk ''160bit_median'' = Ret (JReal (np_median s160)) \<and> jget blk ''200bit_median'' = Ret (JReal (np_median s200))
    \<and> jget blk ''pct_delta'' = Ret (JReal rel) \<and> np_median s160 * (1 + rel / 100) = np_median s200
    \<and> jget blk ''mann_whitney_p_value'' = Ret (JNum p) \<and> (\<exists>u. mp_mwu E s200 s160 = Ret (u, p))
    \<and> jget blk ''cpu_governor'' = Ret (JStr (mp_governor E))
    \<and> jget m ''200bit'' = Ret j200 \<and> jget m ''160bit'' = Ret j160 \<and> pair_summarises j200 s200 \<and> pair_summarises j160 s160"
proof -
  obtain r200 s200 l2 r160 s160 l1 m where b: "run_pair_binary (mp_built E ''benchmark'') (mp_out E ''benchmark'') (mp_dump E ''benchmark'') = (Ret (r200, s200), l2)"
      "run_pair_binary (mp_built E ''benchmark_160'') (mp_out E ''benchmark_160'') (mp_dump E ''benchmark_160'') = (Ret (r160, s160), l1)"
    and m: "pair_report E (r200, s200) (r160, s160) = Ret m" and rep': "rep' = save_json MATCHED_OUT m rep" and left: "left = 0"
    using assms unfolding matched_pair_main_def by (auto split: sum.splits prod.splits)
  obtain j200 j160 p rel where r: "jget m ''200bit'' = Ret j200" "jget m ''160bit'' = Ret j160" "pair_summarises j200 s200" "pair_summarises j160 s160"
      "jpath m [''delta'', ''median_us''] = Ret (JReal (np_median s200 - np_median s160))"
      "jpath m [''delta'', ''pct_delta_vs_160bit_median''] = Ret (JReal rel)" "np_median s160 * (1 + rel / 100) = np_median s200"
      "jpath m [''delta'', ''mann_whitney_p_value''] = Ret (JNum p)" "\<exists>u. mp_mwu E s200 s160 = Ret (u, p)"
      "jpath m [''framing'', ''cpu_governor''] = Ret (JStr (mp_governor E))" "\<exists>s. jget m ''key_finding'' = Ret (JStr s)"
    using pair_report_Ret [OF m] by (elim exE conjE) blast
  have med: "jget j200 ''median_us'' = Ret (JReal (np_median s200))" "jget j160 ''median_us'' = Ret (JReal (np_median s160))"
    using r(3,4) by (simp_all add: pair_summarises_def)
  have p: "jpath m [''160bit'', ''median_us''] = Ret (JReal (np_median s160))" "jpath m [''200bit'', ''median_us''] = Ret (JReal (np_median s200))"
    using r(1,2) med by (simp_all add: rbind_Ret_iff)
  have load: "load_matched_pair rep' = Ret (Some m)" unfolding rep' by (simp add: load_matched_pair_def load_json_def save_json_def MATCHED_OUT_def)
  have key: "key_finding_ok (Some m) = Ret ()" using r(11) by (auto simp: key_finding_ok_def)
  obtain blk where blk: "matched_pair_block (Some m) = Ret blk" "jget blk ''delta'' = Ret (JReal (np_median s200 - np_median s160))"
      "jget blk ''160bit_median'' = Ret (JReal (np_median s160))" "jget blk ''200bit_median'' = Ret (JReal (np_median s200))"
      "jget blk ''pct_delta'' = Ret (JReal rel)" "jget blk ''mann_whitney_p_value'' = Ret (JNum p)" "jget blk ''cpu_governor'' = Ret (JStr (mp_governor E))"
    unfolding matched_pair_block_def option.case p r(5,6,8,10) by simp
  note g = run_pair_binary_Ret [OF b(1)] run_pair_binary_Ret [OF b(2)]
  have outs: "mp_out E ''benchmark'' = Some (Some r200)" "mp_dump E ''benchmark'' = Ret s200"
    "mp_out E ''benchmark_160'' = Some (Some r160)" "mp_dump E ''benchmark_160'' = Ret s160"
    using g by simp_all
  have gates: "\<forall>(r, s) \<in> {(r200, s200), (r160, s160)}. (\<exists>v. jget r ''correctness_passed'' = Ret v \<and> jtruthy v) \<and> (\<exists>n. jget r ''n'' = Ret n \<and> eq_int (length s) n)"
    using g by simp
  show ?thesis
    apply (rule exI [of _ r200], rule exI [of _ s200], rule exI [of _ r160], rule exI [of _ s160], rule exI [of _ m], rule exI [of _ j200],
        rule exI [of _ j160], rule exI [of _ blk], rule exI [of _ p], rule exI [of _ rel])
    by (intro conjI; fact load key blk left gates r outs)
qed

definition demo_mp :: mp_env where
  "demo_mp = \<lparr>mp_gov = Some ''performance'', mp_built = (\<lambda>_. True),
     mp_out = (\<lambda>_. Some (Some (JObj [(''n'', JReal 1), (''correctness_max_abs_error'', JReal 0), (''correctness_passed'', JBool True)]))),
     mp_dump = (\<lambda>b. Ret [if b = ''benchmark'' then 30 else 20]), mp_idx = (\<lambda>k i. k + i), mp_mwu = (\<lambda>_ _. Ret (Fin 1, Fin 1)),
     mp_fmt = (\<lambda>_ _. ''10.0''), mp_sci = (\<lambda>_. ''1.00e+00'')\<rparr>"

theorem matched_pair_feeds_privacy_witness:
  "\<exists>rep' m blk. matched_pair_main demo_mp Map.empty = (Ret 0, 0, rep') \<and> load_matched_pair rep' = Ret (Some m)
     \<and> matched_pair_block (Some m) = Ret blk \<and> jget blk ''delta'' = Ret (JReal 10)"
proof -
  obtain rep' where run: "matched_pair_main demo_mp Map.empty = (Ret 0, 0, rep')"
    by (simp add: matched_pair_main_def demo_mp_def run_pair_binary_def pair_report_def pair_summary_def Let_def np_median_def py_div_def)
  obtain r200 s200 r160 s160 m blk where "mp_dump demo_mp ''benchmark'' = Ret s200" "mp_dump demo_mp ''benchmark_160'' = Ret s160"
    and m: "load_matched_pair rep' = Ret (Some m)" "matched_pair_block (Some m) = Ret blk" "jget blk ''delta'' = Ret (JReal (np_median s200 - np_median s160))"
    using matched_pair_feeds_privacy [OF run] by (elim exE conjE)
  then have "s200 = [30]" "s160 = [20]" by (simp_all add: demo_mp_def)
  with m(3) have "jget blk ''delta'' = Ret (JReal 10)" by (simp add: np_median_def)
  with run m(1,2) show ?thesis by blast
qed

end
