(* ===== verification/LaptopCompare.thy ===== *)
theory LaptopCompare
  imports Json
begin

text \<open>
  The same-session comparison harness \<^verbatim>\<open>scripts/bfv_slot_baseline/run_laptop_compare.py\<close> and the replicate
  ranges computed from its runs (\<^verbatim>\<open>replicate_ranges.py\<close>): power and memory checks, the environment of an
  arm, the watchdog thread, the verdict on an arm, the session loop with its stop conditions, and the
  comparison arithmetic. The watchdog and the process run side by side; what the watchdog sees is a
  sequence of samples, of any length. The documents and files the scripts
  write are in \<open>LaptopReports\<close>; time stamps and git calls are arguments there.
\<close>

section \<open>Machine state\<close>

text \<open>A directory under \<^verbatim>\<open>/sys/class/power_supply\<close>, in sorted order: its name and the stripped contents of
  its \<^verbatim>\<open>online\<close> and \<^verbatim>\<open>status\<close> files, where present.\<close>

record psupply =
  su_name :: string
  su_online :: "string option"
  su_status :: "string option"

datatype power_source = AC | Battery | Unknown

record power =
  power_source :: power_source
  online :: "(string \<times> string) list"
  battery_status :: "(string \<times> string) list"

definition present :: "(psupply \<Rightarrow> string option) \<Rightarrow> psupply list \<Rightarrow> (string \<times> string) list" where
  "present f ds = concat (map (\<lambda>d. case f d of None \<Rightarrow> [] | Some v \<Rightarrow> [(su_name d, v)]) ds)"

definition read_power :: "psupply list \<Rightarrow> power" where
  "read_power ds =
     (let onl = present su_online ds; sts = present su_status ds
      in \<lparr>power_source =
            (if \<exists>v \<in> set (map snd onl). v = ''1'' then AC
             else if ''Discharging'' \<in> set (map snd sts) then Battery
             else Unknown),
          online = onl, battery_status = sts\<rparr>)"

definition require_ac :: "psupply list \<Rightarrow> unit res" where
  "require_ac ds = (if power_source (read_power ds) \<noteq> AC then Raise StopRun else Ret ())"

text \<open>The machine description: governor file, per-CPU frequency files in kHz (\<open>None\<close> where reading fails),
  \<^verbatim>\<open>/proc/meminfo\<close> as key and number.\<close>

record mstate =
  ms_governor :: string
  ms_power :: power
  ms_mhz_min :: "real option"
  ms_mhz_max :: "real option"
  ms_mem_total :: "int option"
  ms_mem_available :: "int option"
  ms_swap_free :: "int option"

definition machine_state :: "string option \<Rightarrow> int option list \<Rightarrow> (string \<times> int) list \<Rightarrow> psupply list \<Rightarrow> mstate" where
  "machine_state gov freqs meminfo ds =
     (let mhz = map (\<lambda>k. real_of_int k / 1000) (concat (map (\<lambda>f. case f of None \<Rightarrow> [] | Some k \<Rightarrow> [k]) freqs));
          mem = fold (\<lambda>(k, v) kvs. kv_set k v kvs) meminfo []
      in \<lparr>ms_governor = (case gov of None \<Rightarrow> ''unknown'' | Some g \<Rightarrow> g), ms_power = read_power ds,
          ms_mhz_min = (if mhz = [] then None else Some (fold min (tl mhz) (hd mhz))),
          ms_mhz_max = (if mhz = [] then None else Some (fold max (tl mhz) (hd mhz))),
          ms_mem_total = map_of mem ''MemTotal'', ms_mem_available = map_of mem ''MemAvailable'',
          ms_swap_free = map_of mem ''SwapFree''\<rparr>)"

section \<open>The environment of an arm\<close>

definition CIPHERS :: "string list" where "CIPHERS = [''hera'', ''rubato'']"
definition MAX_LOGN :: int where "MAX_LOGN = 12"
definition RSS_LIMIT_KB :: int where "RSS_LIMIT_KB = 11000000"
definition MEM_AVAILABLE_FLOOR_KB :: int where "MEM_AVAILABLE_FLOOR_KB = 1000000"
definition ARMS :: "string list" where "ARMS = [''slot'', ''cnp'', ''halfboot'', ''slot_repeat'']"

definition POPPED :: "string list" where
  "POPPED = [''CNP_ARMS'', ''CNP_STC_MODE'', ''CNP_SCALEUP'', ''SLOT_EVAL_LEVEL'', ''CNP_HEADROOM_GATE_BITS'', ''E2E_OUT'']"

text \<open>\<open>logn\<close>, \<open>reps\<close>, \<open>data\<close>, \<open>results\<close> and \<open>sha\<close> are given as the strings they are turned into.\<close>

definition arm_env ::
  "(string \<rightharpoonup> string) \<Rightarrow> string \<Rightarrow> string \<Rightarrow> string \<Rightarrow> string \<Rightarrow> string \<Rightarrow> string \<Rightarrow> string \<Rightarrow> string \<Rightarrow> (string \<rightharpoonup> string)" where
  "arm_env environ sha arm cipher logn reps data rows results =
     (let env1 = environ |` (- set POPPED);
          env2 = env1(''E2E_RUN'' \<mapsto> ''1'', ''E2E_CIPHER'' \<mapsto> cipher, ''E2E_LOGN'' \<mapsto> logn, ''E2E_REPS'' \<mapsto> reps,
                      ''CNP_DATA_DIR'' \<mapsto> data, ''CNP_ROWS'' \<mapsto> rows, ''RESULTS_DIR'' \<mapsto> results,
                      ''GOMEMLIMIT'' \<mapsto> ''11GiB'', ''PPFDAAS_REPO_SHA'' \<mapsto> sha)
      in if arm = ''cnp'' then env2(''CNP_ARMS'' \<mapsto> ''cnp'')
         else if arm = ''halfboot'' then env2(''CNP_ARMS'' \<mapsto> ''cnp baseline'', ''CNP_ROWS'' \<mapsto> ''16'')
         else env2)"

section \<open>The watchdog\<close>

datatype kill_reason = KMemory int int | KLostAC

record wstatus =
  peak_rss_kb :: int
  killed :: "kill_reason option"
  lost_ac :: bool

text \<open>One round of the watchdog: the fields of the process status, of \<^verbatim>\<open>meminfo\<close> and the power supplies; reading
  any of the three may fail with \<^verbatim>\<open>OSError\<close>, which ends the round there.\<close>

datatype sample = NoStatus | NoMem "(string \<times> int) list" | NoPower "(string \<times> int) list" "(string \<times> int) list"
  | Full "(string \<times> int) list" "(string \<times> int) list" "psupply list"

definition last_field :: "string \<Rightarrow> (string \<times> int) list \<Rightarrow> int" where
  "last_field k kvs = fold (\<lambda>(k', v) acc. if k' = k then v else acc) kvs 0"

definition peak_upd :: "(string \<times> int) list \<Rightarrow> wstatus \<Rightarrow> wstatus" where
  "peak_upd st w = fold (\<lambda>(k, v) w. if k = ''VmHWM'' then w\<lparr>peak_rss_kb := max (peak_rss_kb w) v\<rparr> else w) st w"

definition mem_check :: "(string \<times> int) list \<Rightarrow> (string \<times> int) list \<Rightarrow> wstatus \<Rightarrow> wstatus" where
  "mem_check st mem w =
     (let rss = last_field ''VmRSS'' st; avail = last_field ''MemAvailable'' mem
      in if rss \<ge> RSS_LIMIT_KB \<or> avail < MEM_AVAILABLE_FLOOR_KB then w\<lparr>killed := Some (KMemory rss avail)\<rparr> else w)"

fun watch_round :: "sample \<Rightarrow> wstatus \<Rightarrow> wstatus" where
  "watch_round NoStatus w = w"
| "watch_round (NoMem st) w = peak_upd st w"
| "watch_round (NoPower st mem) w = mem_check st mem (peak_upd st w)"
| "watch_round (Full st mem ds) w =
     (let w1 = mem_check st mem (peak_upd st w)
      in if power_source (read_power ds) \<noteq> AC then w1\<lparr>lost_ac := True, killed := Some KLostAC\<rparr> else w1)"

definition watch :: "sample list \<Rightarrow> wstatus" where
  "watch ss = fold watch_round ss \<lparr>peak_rss_kb = 0, killed = None, lost_ac = False\<rparr>"

section \<open>One arm\<close>

text \<open>What happens while an arm runs: the power supplies at its start, the watchdog's samples, the exit status.\<close>

record arm_run =
  ar_start :: "psupply list"
  ar_samples :: "sample list"
  ar_rc :: int

definition arm_test :: "string \<Rightarrow> string" where
  "arm_test arm = (if take 4 arm = ''slot'' then ''^TestSlotRun$'' else ''^TestCNPRun$'')"

definition run_arm :: "path set \<Rightarrow> path \<Rightarrow> arm_run \<Rightarrow> (wstatus \<times> int) res \<times> path set" where
  "run_arm dirs results ar =
     (if results \<in> dirs then (Raise FileExistsError, dirs)
      else
        let dirs1 = insert results dirs in
        case require_ac (ar_start ar) of
          Inl e \<Rightarrow> (Inl e, dirs1)
        | Inr _ \<Rightarrow>
          let w = watch (ar_samples ar) in
          (if lost_ac w then Raise StopRun
           else if killed w \<noteq> None then Raise MemoryError
           else if ar_rc ar \<noteq> 0 then Raise StopRun
           else Ret (w, ar_rc ar), dirs1))"

section \<open>The session\<close>

definition check_logn :: "int list \<Rightarrow> unit res" where
  "check_logn logns = (if \<exists>n \<in> set logns. n > MAX_LOGN then Raise (SystemExit 1) else Ret ())"

definition arm_order :: "int list \<Rightarrow> (int \<times> string \<times> string) list" where
  "arm_order logns = concat (map (\<lambda>n. concat (map (\<lambda>c. map (\<lambda>a. (n, c, a)) ARMS) CIPHERS)) logns)"

text \<open>Which arm's output the scorer reads after an arm, if any.\<close>

definition score_arm :: "string \<Rightarrow> string option" where
  "score_arm arm = (if arm \<in> {''slot'', ''cnp''} then Some arm else if arm = ''slot_repeat'' then Some ''slot'' else None)"

record session =
  se_dirs :: "path set"
  se_ran :: "(int \<times> string \<times> string) list"
  se_scored :: "(int \<times> string \<times> string) list"

text \<open>The three nested loops. \<open>dir\<close> names an arm's directory; \<open>runs\<close> is what happens in each arm; \<open>score\<close> is the scorer
  (a failing scorer raises \<^verbatim>\<open>CalledProcessError\<close>).\<close>

fun run_session ::
  "(int \<times> string \<times> string \<Rightarrow> path) \<Rightarrow> (int \<times> string \<times> string \<Rightarrow> arm_run) \<Rightarrow> (int \<times> string \<times> string \<Rightarrow> bool)
   \<Rightarrow> (int \<times> string \<times> string) list \<Rightarrow> session \<Rightarrow> unit res \<times> session" where
  "run_session dir runs score [] s = (Ret (), s)"
| "run_session dir runs score (k # ks) s =
     (case run_arm (se_dirs s) (dir k) (runs k) of
        (Inl e, ds) \<Rightarrow> (Inl e, s\<lparr>se_dirs := ds\<rparr>)
      | (Inr _, ds) \<Rightarrow>
        let s1 = s\<lparr>se_dirs := ds, se_ran := se_ran s @ [k]\<rparr> in
        (case score_arm (snd (snd k)) of
           None \<Rightarrow> run_session dir runs score ks s1
         | Some a \<Rightarrow>
           if score k then run_session dir runs score ks (s1\<lparr>se_scored := se_scored s1 @ [(fst k, fst (snd k), a)]\<rparr>)
           else (Raise CalledProcessError, s1)))"

text \<open>The arguments of \<^verbatim>\<open>main\<close> and what it finds before measuring.\<close>

record laptop_args =
  la_compare_only :: "path option"
  la_data :: "path option"
  la_logn :: "int list"

record laptop_host =
  lh_meta :: bool
  lh_start :: "psupply list"
  lh_dirty :: bool
  lh_patch_ok :: bool
  lh_out_exists :: bool
  lh_build_ok :: bool

datatype laptop_end = Compared | StoppedBefore | Measured session "string option"

text \<open>\<^verbatim>\<open>main\<close>: an argument error is exit status 2, as \<^verbatim>\<open>argparse\<close> does it. A run that ends by \<^verbatim>\<open>StopRun\<close> or
  \<^verbatim>\<open>MemoryError\<close> is recorded in the session and still compared.\<close>

definition laptop_main ::
  "(int \<times> string \<times> string \<Rightarrow> path) \<Rightarrow> (int \<times> string \<times> string \<Rightarrow> arm_run) \<Rightarrow> (int \<times> string \<times> string \<Rightarrow> bool)
   \<Rightarrow> laptop_host \<Rightarrow> laptop_args \<Rightarrow> (int \<times> laptop_end) res" where
  "laptop_main dir runs score h a =
     (if la_compare_only a \<noteq> None \<and> la_compare_only a \<noteq> Some [] then Ret (0, Compared)
      else if la_data a = None \<or> la_data a = Some [] then Raise (SystemExit 2)
      else rbind (check_logn (la_logn a)) (\<lambda>_.
        if \<not> lh_meta h then Raise (SystemExit 2)
        else if require_ac (lh_start h) = Raise StopRun then Ret (3, StoppedBefore)
        else if lh_dirty h then Raise (SystemExit 1)
        else if \<not> lh_patch_ok h then Raise (SystemExit 1)
        else if lh_out_exists h then Raise FileExistsError
        else if \<not> lh_build_ok h then Raise CalledProcessError
        else case run_session dir runs score (arm_order (la_logn a)) \<lparr>se_dirs = {}, se_ran = [], se_scored = []\<rparr> of
          (Inr _, s) \<Rightarrow> Ret (0, Measured s None)
        | (Inl e, s) \<Rightarrow>
          if e = StopRun then Ret (3, Measured s (Some ''stopped''))
          else if e = MemoryError then Ret (4, Measured s (Some ''memory_limit_hit''))
          else Inl e))"

section \<open>Comparison arithmetic\<close>

text \<open>\<^verbatim>\<open>ratio\<close>: infinity for a zero denominator.\<close>

definition ratio :: "pyfloat \<Rightarrow> pyfloat \<Rightarrow> pyfloat" where
  "ratio a b = (if b = Fin 0 then PInf else pf_mul a (pf_inv b))"

definition cnp_timing :: "json \<Rightarrow> (pyfloat \<times> pyfloat \<times> pyfloat \<times> pyfloat \<times> pyfloat) res" where
  "cnp_timing d =
     rbind (jget d ''cnp_stages'') (\<lambda>s.
     rbind (jnum_at s [''keystream_crypt (offline)'', ''median_ms'']) (\<lambda>crypt.
     rbind (jnum_at s [''stc_modswitch (offline)'', ''median_ms'']) (\<lambda>stc.
     rbind (jnum_at d [''outputs_per_crypt'']) (\<lambda>outs.
     rbind (jnum_at d [''lanes_per_output_ct'']) (\<lambda>lanes.
     rbind (py_div crypt outs) (\<lambda>q.
     Ret (crypt, stc, pf_add q stc, outs, lanes)))))))"

text \<open>The timing and key columns of a comparison row.\<close>

record arm_row =
  row_arm :: string
  rotation_keys :: pyfloat
  rotation_key_bytes :: pyfloat
  offline_per_ct_ms :: pyfloat
  online_per_ct_ms :: pyfloat
  offline_per_txn_ms :: pyfloat
  online_per_txn_ms :: pyfloat
  total_per_txn_ms :: pyfloat
  lanes_per_output_ct :: pyfloat
  output_cts_per_crypt :: pyfloat
  lanes_per_crypt :: pyfloat

definition slot_row :: "json \<Rightarrow> pyfloat \<Rightarrow> pyfloat \<Rightarrow> arm_row res" where
  "slot_row d each keys =
     rbind (jnum_at d [''per_keystream_ct_ms'', ''offline'']) (\<lambda>oc.
     rbind (jnum_at d [''per_keystream_ct_ms'', ''online'']) (\<lambda>nc.
     rbind (jnum_at d [''per_transaction_ms'', ''offline'']) (\<lambda>ot.
     rbind (jnum_at d [''per_transaction_ms'', ''online'']) (\<lambda>nt.
     rbind (jnum_at d [''per_transaction_ms'', ''total'']) (\<lambda>tt.
     rbind (jnum_at d [''lanes_per_output_ct_mean'']) (\<lambda>ln.
     rbind (jnum_at d [''output_cts_per_crypt'']) (\<lambda>oc2.
     rbind (jnum_at d [''lanes_per_crypt'']) (\<lambda>lc.
     rbind (jget d ''correctness'') (\<lambda>_.
     rbind (jget d ''headroom_gate'') (\<lambda>_.
     Ret \<lparr>row_arm = ''slot'', rotation_keys = keys, rotation_key_bytes = pf_mul keys each, offline_per_ct_ms = oc,
          online_per_ct_ms = nc, offline_per_txn_ms = ot, online_per_txn_ms = nt, total_per_txn_ms = tt,
          lanes_per_output_ct = ln, output_cts_per_crypt = oc2, lanes_per_crypt = lc\<rparr>))))))))))"

definition cnp_row :: "string \<Rightarrow> json \<Rightarrow> pyfloat \<Rightarrow> pyfloat \<Rightarrow> arm_row res" where
  "cnp_row arm d each keys =
     rbind (cnp_timing d) (\<lambda>(_, _, off, outs, lanes).
     rbind (jnum_at d [if arm = ''cnp'' then ''per_output_ct_ms'' else ''baseline_lower_bound_per_output_ct_ms'', ''total'']) (\<lambda>on.
     rbind (py_div off lanes) (\<lambda>ot.
     rbind (py_div on lanes) (\<lambda>nt.
     rbind (py_div (pf_add off on) lanes) (\<lambda>tt.
     rbind (if arm = ''cnp'' then rbind (jget d ''correctness'') (\<lambda>_. jget d ''headroom_gate'')
            else jpath d [''baseline_halfboot_stages'', ''_max_abs_error_check'', ''median_ms'']) (\<lambda>_.
     Ret \<lparr>row_arm = arm, rotation_keys = keys, rotation_key_bytes = pf_mul keys each, offline_per_ct_ms = off,
          online_per_ct_ms = on, offline_per_txn_ms = ot, online_per_txn_ms = nt, total_per_txn_ms = tt,
          lanes_per_output_ct = lanes, output_cts_per_crypt = outs, lanes_per_crypt = pf_mul outs lanes\<rparr>))))))"

record cell_cmp =
  cc_slot :: arm_row
  cc_cnp :: arm_row
  cc_halfboot :: arm_row
  cc_online :: pyfloat
  cc_offline :: pyfloat
  cc_total :: pyfloat
  cc_hb_slot_total :: pyfloat
  cc_hb_cnp_online :: pyfloat
  cc_hb_cnp_total :: pyfloat
  cc_drift :: pyfloat

text \<open>One cell from the four result files of a cipher at one ring size.\<close>

definition compare_cell :: "json \<Rightarrow> json \<Rightarrow> json \<Rightarrow> json \<Rightarrow> cell_cmp res" where
  "compare_cell slot cnp hb rep =
     rbind (jnum_at slot [''rotation_key_bytes_allocated'']) (\<lambda>bytes.
     rbind (jnum_at slot [''rotation_key_counts'', ''slot_rotations'']) (\<lambda>sr.
     rbind (py_div bytes sr) (\<lambda>each.
     rbind (slot_row slot each sr) (\<lambda>rs.
     rbind (jnum_at cnp [''rotation_key_counts'', ''stc_only'']) (\<lambda>ck.
     rbind (cnp_row ''cnp'' cnp each ck) (\<lambda>rc.
     rbind (jnum_at hb [''rotation_key_counts'', ''stc_only'']) (\<lambda>h1.
     rbind (jnum_at hb [''rotation_key_counts'', ''baseline_halfboot_extra'']) (\<lambda>h2.
     rbind (cnp_row ''halfboot'' hb each (pf_add h1 h2)) (\<lambda>rh.
     rbind (jnum_at rep [''per_transaction_ms'', ''total'']) (\<lambda>t1.
     rbind (jnum_at slot [''per_transaction_ms'', ''total'']) (\<lambda>t2.
     Ret \<lparr>cc_slot = rs, cc_cnp = rc, cc_halfboot = rh,
          cc_online = ratio (online_per_txn_ms rc) (online_per_txn_ms rs),
          cc_offline = ratio (offline_per_txn_ms rc) (offline_per_txn_ms rs),
          cc_total = ratio (total_per_txn_ms rc) (total_per_txn_ms rs),
          cc_hb_slot_total = ratio (total_per_txn_ms rh) (total_per_txn_ms rs),
          cc_hb_cnp_online = ratio (online_per_txn_ms rh) (online_per_txn_ms rc),
          cc_hb_cnp_total = ratio (total_per_txn_ms rh) (total_per_txn_ms rc),
          cc_drift = ratio t1 t2\<rparr>)))))))))))"

section \<open>Replicate ranges\<close>

definition METRICS :: "string list" where "METRICS = [''offline'', ''online'', ''total'']"

definition slot_times :: "json \<Rightarrow> pyfloat list res" where
  "slot_times j = rbind (jget j ''per_transaction_ms'') (\<lambda>t. rmap (\<lambda>m. rbind (jget t m) jnum) METRICS)"

definition cnp_times :: "json \<Rightarrow> pyfloat list res" where
  "cnp_times d =
     rbind (jget d ''cnp_stages'') (\<lambda>stages.
     rbind (jnum_at d [''lanes_per_output_ct'']) (\<lambda>lanes.
     rbind (jnum_at d [''outputs_per_crypt'']) (\<lambda>outs.
     rbind (jnum_at stages [''keystream_crypt (offline)'', ''median_ms'']) (\<lambda>ks.
     rbind (py_div ks outs) (\<lambda>q.
     rbind (jnum_at stages [''stc_modswitch (offline)'', ''median_ms'']) (\<lambda>stc.
     rbind (py_div (pf_add q stc) lanes) (\<lambda>offline.
     rbind (jnum_at d [''per_output_ct_ms'', ''total'']) (\<lambda>tot.
     rbind (py_div tot lanes) (\<lambda>online.
     Ret [offline, online, pf_add offline online])))))))))"

text \<open>The range of one metric over two runs per arm, for finite times.\<close>

record metric_range =
  mr_winner :: string
  mr_by :: real
  mr_lo :: real
  mr_hi :: real

definition metric_ranges :: "real \<Rightarrow> real \<Rightarrow> real \<Rightarrow> real \<Rightarrow> metric_range res" where
  "metric_ranges s0 s1 c0 c1 =
     (let (slow, fast) = (if s0 > c0 then ((s0, s1), (c0, c1)) else ((c0, c1), (s0, s1)))
      in if fst fast = 0 \<or> max (fst fast) (snd fast) = 0 \<or> min (fst fast) (snd fast) = 0 then Raise ZeroDivisionError
         else Ret \<lparr>mr_winner = (if s0 > c0 then ''cnp'' else ''slot''), mr_by = fst slow / fst fast,
                  mr_lo = min (fst slow) (snd slow) / max (fst fast) (snd fast),
                  mr_hi = max (fst slow) (snd slow) / min (fst fast) (snd fast)\<rparr>)"

section \<open>What the watchdog decides\<close>

definition over_memory :: "(string \<times> int) list \<Rightarrow> (string \<times> int) list \<Rightarrow> bool" where
  "over_memory st mem \<longleftrightarrow> last_field ''VmRSS'' st \<ge> RSS_LIMIT_KB \<or> last_field ''MemAvailable'' mem < MEM_AVAILABLE_FLOOR_KB"

definition on_ac :: "psupply list \<Rightarrow> bool" where
  "on_ac ds \<longleftrightarrow> (\<exists>d \<in> set ds. su_online d = Some ''1'')"

definition saw_battery :: "sample list \<Rightarrow> bool" where
  "saw_battery ss \<longleftrightarrow> (\<exists>st mem ds. Full st mem ds \<in> set ss \<and> \<not> on_ac ds)"

definition saw_pressure :: "sample list \<Rightarrow> bool" where
  "saw_pressure ss \<longleftrightarrow> (\<exists>st mem. over_memory st mem \<and> (NoPower st mem \<in> set ss \<or> (\<exists>ds. Full st mem ds \<in> set ss)))"

lemma read_power_AC: "power_source (read_power ds) = AC \<longleftrightarrow> on_ac ds"
proof -
  have "set (map snd (present su_online ds)) = {v. \<exists>d \<in> set ds. su_online d = Some v}"
    by (induction ds) (auto simp: present_def split: option.splits)
  then have "(\<exists>v \<in> set (map snd (present su_online ds)). v = ''1'') \<longleftrightarrow> on_ac ds"
    by (auto simp: on_ac_def)
  then show ?thesis by (simp add: read_power_def Let_def)
qed

lemma require_ac_iff: "require_ac ds = (if on_ac ds then Ret () else Raise StopRun)"
  by (simp add: require_ac_def read_power_AC)

lemma peak_upd_frame: "killed (peak_upd st w) = killed w \<and> lost_ac (peak_upd st w) = lost_ac w"
proof (induction st arbitrary: w)
  case (Cons kv st)
  show ?case using Cons [of "if fst kv = ''VmHWM'' then w\<lparr>peak_rss_kb := max (peak_rss_kb w) (snd kv)\<rparr> else w"]
    by (simp add: peak_upd_def split_beta)
qed (simp add: peak_upd_def)

lemma mem_check_frame: "lost_ac (mem_check st mem w) = lost_ac w"
  "killed (mem_check st mem w) \<noteq> None \<longleftrightarrow> killed w \<noteq> None \<or> over_memory st mem"
  by (simp_all add: mem_check_def over_memory_def Let_def)

lemma watch_round_effect:
  "lost_ac (watch_round s w) \<longleftrightarrow> lost_ac w \<or> saw_battery [s]"
  "killed (watch_round s w) \<noteq> None \<longleftrightarrow> killed w \<noteq> None \<or> saw_battery [s] \<or> saw_pressure [s]"
  by (cases s; simp add: peak_upd_frame mem_check_frame saw_battery_def saw_pressure_def read_power_AC Let_def del: not_None_eq; fail)
    (cases s; simp add: peak_upd_frame mem_check_frame saw_battery_def saw_pressure_def read_power_AC Let_def del: not_None_eq)

lemma saw_Cons: "saw_battery (s # ss) \<longleftrightarrow> saw_battery [s] \<or> saw_battery ss" "saw_pressure (s # ss) \<longleftrightarrow> saw_pressure [s] \<or> saw_pressure ss"
  unfolding saw_battery_def saw_pressure_def by auto

lemma watch_effect:
  "lost_ac (fold watch_round ss w) \<longleftrightarrow> lost_ac w \<or> saw_battery ss"
  "killed (fold watch_round ss w) \<noteq> None \<longleftrightarrow> killed w \<noteq> None \<or> saw_battery ss \<or> saw_pressure ss"
proof (induction ss arbitrary: w)
  case (Cons s ss)
  { case 1 show ?case using Cons(1) watch_round_effect(1) [of s w] saw_Cons(1) [of s ss] by auto }
  { case 2 show ?case using Cons(2) watch_round_effect(2) [of s w] saw_Cons [of s ss] by auto }
qed (simp_all add: saw_battery_def saw_pressure_def)

lemma run_arm_eq:
  "run_arm dirs results ar =
     (if results \<in> dirs then (Raise FileExistsError, dirs)
      else (if \<not> on_ac (ar_start ar) \<or> saw_battery (ar_samples ar) then Raise StopRun
            else if saw_pressure (ar_samples ar) then Raise MemoryError
            else if ar_rc ar \<noteq> 0 then Raise StopRun
            else Ret (watch (ar_samples ar), 0), insert results dirs))"
  using watch_effect [of "ar_samples ar" "\<lparr>peak_rss_kb = 0, killed = None, lost_ac = False\<rparr>"]
  by (auto simp: run_arm_def require_ac_iff watch_def Let_def simp del: not_None_eq)

definition clean_run :: "arm_run \<Rightarrow> bool" where
  "clean_run ar \<longleftrightarrow> on_ac (ar_start ar) \<and> \<not> saw_battery (ar_samples ar) \<and> \<not> saw_pressure (ar_samples ar) \<and> ar_rc ar = 0"

lemma run_session_clean:
  assumes "run_session dir runs score ks s = (r, s')" "\<forall>k \<in> set (se_ran s). clean_run (runs k)"
  shows "(\<forall>k \<in> set (se_ran s'). clean_run (runs k)) \<and> (\<exists>n. se_ran s' = se_ran s @ take n ks) \<and> (r = Ret () \<longrightarrow> se_ran s' = se_ran s @ ks)"
  using assms
proof (induction ks arbitrary: s)
  case Nil
  then show ?case by simp
next
  case (Cons k ks)
  show ?case
  proof (cases "run_arm (se_dirs s) (dir k) (runs k)")
    case (Pair q ds)
    show ?thesis
    proof (cases q)
      case (Inl e)
      then have "r = Inl e" "s' = s\<lparr>se_dirs := ds\<rparr>" using Cons.prems(1) Pair by simp_all
      then show ?thesis using Cons.prems(2) by (auto intro: exI [of _ 0])
    next
      case (Inr x)
      then have c: "clean_run (runs k)" using Pair by (auto simp: run_arm_eq clean_run_def split: if_splits)
      let ?s = "s\<lparr>se_dirs := ds, se_ran := se_ran s @ [k]\<rparr>"
      have c': "\<forall>j \<in> set (se_ran s @ [k]). clean_run (runs j)" using Cons.prems(2) c by simp
      consider (stop) "r = Raise CalledProcessError" "s' = ?s"
        | (go) t where "run_session dir runs score ks t = (r, s')" "se_ran t = se_ran s @ [k]"
        using Cons.prems(1) Pair Inr by (cases "score_arm (snd (snd k))"; cases "score k") (simp_all add: Let_def)
      then show ?thesis
      proof cases
        case stop
        then show ?thesis using c' by (auto intro: exI [of _ 1])
      next
        case (go t)
        have ih: "(\<forall>k \<in> set (se_ran s'). clean_run (runs k)) \<and> (\<exists>n. se_ran s' = se_ran t @ take n ks) \<and> (r = Ret () \<longrightarrow> se_ran s' = se_ran t @ ks)"
          using go(2) c' by (intro Cons.IH [OF go(1)]) simp
        then obtain n where "se_ran s' = se_ran t @ take n ks" by blast
        then have "se_ran s' = se_ran s @ take (Suc n) (k # ks)" using go(2) by simp
        moreover have "r = Ret () \<longrightarrow> se_ran s' = se_ran s @ k # ks" using ih go(2) by simp
        ultimately show ?thesis using ih by blast
      qed
    qed
  qed
qed

section \<open>Properties\<close>

text \<open>C30. The verdict on an arm is exact: \<^verbatim>\<open>run_arm\<close> refuses a used directory; otherwise it stops the session if the
  machine was not on AC at the start or in any sample the watchdog took, reports the memory limit if any sample
  showed the resident set at the limit or too little memory available, stops on a failing test, and returns
  exactly when none of these happened. The directory is used up in all these cases.\<close>

theorem arm_verdict_exact:
  "fst (run_arm dirs results ar) =
     (if results \<in> dirs then Raise FileExistsError
      else if \<not> on_ac (ar_start ar) \<or> saw_battery (ar_samples ar) then Raise StopRun
      else if saw_pressure (ar_samples ar) then Raise MemoryError
      else if ar_rc ar \<noteq> 0 then Raise StopRun
      else Ret (watch (ar_samples ar), 0))
   \<and> (results \<notin> dirs \<longrightarrow> snd (run_arm dirs results ar) = insert results dirs)"
  by (simp add: run_arm_eq)

theorem arm_verdict_exact_witness:
  "snd (run_arm {} ''r'' \<lparr>ar_start = [], ar_samples = [], ar_rc = 0\<rparr>) = {''r''}"
  using arm_verdict_exact [of "{}" "''r''" "\<lparr>ar_start = [], ar_samples = [], ar_rc = 0\<rparr>"] by simp


definition ac_supply :: psupply where
  "ac_supply = \<lparr>su_name = ''AC'', su_online = Some ''1'', su_status = None\<rparr>"

definition demo_runs :: "int \<times> string \<times> string \<Rightarrow> arm_run" where
  "demo_runs k = \<lparr>ar_start = (if snd (snd k) = ''cnp'' then [] else [ac_supply]), ar_samples = [], ar_rc = 0\<rparr>"


lemma pf_add_div:
  assumes "l \<noteq> 0"
  shows "py_div (pf_add (Fin a) (Fin b)) (Fin l) = Ret (Fin (a / l + b / l))"
  using assms by (simp add: add_divide_distrib)

text \<open>The two scripts that turn the same CNP result file into per-transaction times agree: whenever the stage
  times are finite, the times \<^verbatim>\<open>replicate_ranges.py\<close> computes are the offline, online and total columns of the
  comparison row of \<^verbatim>\<open>run_laptop_compare.py\<close>, in particular the row's total is the sum of its parts.\<close>

theorem replicate_times_agree:
  assumes "cnp_row ''cnp'' d each keys = Ret r" "cnp_times d = Ret ts"
    and "offline_per_ct_ms r = Fin x" "online_per_ct_ms r = Fin y" "lanes_per_output_ct r = Fin l"
  shows "ts = [offline_per_txn_ms r, online_per_txn_ms r, total_per_txn_ms r]
    \<and> total_per_txn_ms r = pf_add (offline_per_txn_ms r) (online_per_txn_ms r)"
proof -
  from assms(1) obtain crypt stc off outs lanes on ot nt tt where t: "cnp_timing d = Ret (crypt, stc, off, outs, lanes)"
    and on: "jnum_at d [''per_output_ct_ms'', ''total''] = Ret on"
    and dv: "py_div off lanes = Ret ot" "py_div on lanes = Ret nt" "py_div (pf_add off on) lanes = Ret tt"
    and r: "offline_per_ct_ms r = off" "online_per_ct_ms r = on" "lanes_per_output_ct r = lanes"
      "offline_per_txn_ms r = ot" "online_per_txn_ms r = nt" "total_per_txn_ms r = tt"
    unfolding cnp_row_def rbind_Ret_iff by (auto simp: rbind_Ret_iff)
  have l: "lanes = Fin l" "off = Fin x" "on = Fin y" "l \<noteq> 0" using r assms(3-5) dv by (auto simp: py_div_def split: if_splits)
  have tt: "tt = pf_add ot nt" using dv unfolding l(1-3) pf_add_div [OF l(4)] using l(4) by auto
  have "ts = [ot, nt, pf_add ot nt]"
    using t on dv assms(2) unfolding cnp_times_def cnp_timing_def by (auto simp: rbind_Ret_iff)
  then show ?thesis using tt r by simp
qed

definition demo_cnp :: json where
  "demo_cnp = JObj [(''cnp_stages'', JObj [(''keystream_crypt (offline)'', JObj [(''median_ms'', JReal 60)]),
       (''stc_modswitch (offline)'', JObj [(''median_ms'', JReal 4)])]),
     (''outputs_per_crypt'', JInt 6), (''lanes_per_output_ct'', JInt 2), (''per_output_ct_ms'', JObj [(''total'', JReal 2)]),
     (''correctness'', JObj []), (''headroom_gate'', JNull)]"

theorem replicate_times_agree_witness:
  "cnp_times demo_cnp = Ret [Fin 7, Fin 1, Fin 8]"
proof -
  obtain r where r: "cnp_row ''cnp'' demo_cnp (Fin 1) (Fin 1) = Ret r" "offline_per_ct_ms r = Fin 14" "online_per_ct_ms r = Fin 2"
      "lanes_per_output_ct r = Fin 2" "offline_per_txn_ms r = Fin 7" "online_per_txn_ms r = Fin 1"
    by (simp add: cnp_row_def cnp_timing_def demo_cnp_def jnum_at_def)
  obtain ts where ts: "cnp_times demo_cnp = Ret ts"
    by (simp add: cnp_times_def demo_cnp_def jnum_at_def)
  from replicate_times_agree [OF r(1) ts r(2-4)] ts r(5,6) show ?thesis by simp
qed

text \<open>The range of a metric encloses the ratio of every pair of runs and the headline ratio.\<close>

lemma metric_ranges_enclose:
  assumes "metric_ranges s0 s1 c0 c1 = Ret m" "0 < s0" "0 < s1" "0 < c0" "0 < c1"
    and "slow \<in> (if s0 > c0 then {s0, s1} else {c0, c1})" "fast \<in> (if s0 > c0 then {c0, c1} else {s0, s1})"
  shows "mr_lo m \<le> slow / fast \<and> slow / fast \<le> mr_hi m \<and> mr_lo m \<le> mr_by m \<and> mr_by m \<le> mr_hi m \<and> 1 \<le> mr_by m"
proof -
  have le: "min a b / max c d \<le> p / q" "p / q \<le> max a b / min c d"
    if "p \<in> {a, b}" "q \<in> {c, d}" "0 < a" "0 < b" "0 < c" "0 < d" for a b c d p q :: real
  proof -
    have pq: "min a b \<le> p" "p \<le> max a b" "min c d \<le> q" "q \<le> max c d" "0 < p" "0 < q" "0 < min c d" "0 < min a b"
      using that by auto
    show "min a b / max c d \<le> p / q" by (rule frac_le) (use pq in linarith)+
    show "p / q \<le> max a b / min c d" by (rule frac_le) (use pq in linarith)+
  qed
  show ?thesis
  proof (cases "s0 > c0")
    case True
    then have m: "mr_lo m = min s0 s1 / max c0 c1" "mr_hi m = max s0 s1 / min c0 c1" "mr_by m = s0 / c0"
      using assms(1) by (auto simp: metric_ranges_def split: if_splits)
    have i: "slow \<in> {s0, s1}" "fast \<in> {c0, c1}" using assms(6,7) True by simp_all
    show ?thesis unfolding m
      using le [OF i assms(2-5)] le [of s0 s0 s1 c0 c0 c1] assms(2-5) True by (simp add: pos_le_divide_eq)
  next
    case False
    then have m: "mr_lo m = min c0 c1 / max s0 s1" "mr_hi m = max c0 c1 / min s0 s1" "mr_by m = c0 / s0"
      using assms(1) by (auto simp: metric_ranges_def split: if_splits)
    have i: "slow \<in> {c0, c1}" "fast \<in> {s0, s1}" using assms(6,7) False by simp_all
    show ?thesis unfolding m
      using le [OF i assms(4,5,2,3)] le [of c0 c0 c1 s0 s0 s1] assms(2-5) False by (simp add: pos_le_divide_eq)
  qed
qed

text \<open>What a shell environment can leak into an arm: none of the variables that change a gate or a mode, and
  \<^verbatim>\<open>CNP_ARMS\<close> depends on the arm alone.\<close>

lemma arm_env_hygiene:
  assumes "k \<in> set POPPED"
  shows "arm_env environ sha arm cipher logn reps data rows results k =
     (if k = ''CNP_ARMS'' then (if arm = ''cnp'' then Some ''cnp'' else if arm = ''halfboot'' then Some ''cnp baseline'' else None) else None)"
proof -
  have "k \<notin> {''E2E_RUN'', ''E2E_CIPHER'', ''E2E_LOGN'', ''E2E_REPS'', ''CNP_DATA_DIR'', ''CNP_ROWS'', ''RESULTS_DIR'', ''GOMEMLIMIT'', ''PPFDAAS_REPO_SHA''}"
    using assms unfolding POPPED_def by (elim list_all_iff [THEN iffD1, rule_format, rotated]) simp
  then show ?thesis using assms by (auto simp: arm_env_def Let_def restrict_map_def)
qed

end
