(* ===== verification/LaptopReports.thy ===== *)
theory LaptopReports
  imports LaptopCompare PyText
begin

text \<open>
  The files of a laptop session and what is computed from them: the documents an arm leaves in its directory, the session loop
  over files, \<^verbatim>\<open>comparison.json\<close> and \<^verbatim>\<open>comparison.md\<close> (\<^verbatim>\<open>write_comparison\<close> of \<^verbatim>\<open>run_laptop_compare.py\<close>), and
  \<^verbatim>\<open>replicate_ranges.json\<close> (\<^verbatim>\<open>replicate_ranges.py\<close>). A listing gives what \<^verbatim>\<open>glob\<close> finds, already sorted; number formatting is an
  argument.
\<close>

section \<open>Rows with all their columns\<close>

definition jfield :: "json \<Rightarrow> string list \<Rightarrow> string \<Rightarrow> (string \<times> json) res" where
  "jfield d ks name = rbind (jpath d ks) (\<lambda>v. Ret (name, v))"

definition correctness_cols :: "json \<Rightarrow> (string \<times> json) list res" where
  "correctness_cols d =
     rbind (jget d ''correctness'') (\<lambda>c.
     rbind (jget_opt c ''max_abs_integer_diff'') (\<lambda>md.
     rbind (jget_opt c ''bit_exact'') (\<lambda>be.
     rbind (jget d ''headroom_gate'') (\<lambda>hg.
     Ret [(''max_abs_integer_diff'', md), (''bit_exact'', be), (''headroom_gate'', hg)]))))"

text \<open>\<open>None\<close> is the missing score of the HalfBoot arm; an empty score document counts as missing.\<close>

definition score_cols :: "json option \<Rightarrow> (string \<times> json) list res" where
  "score_cols sc =
     (case sc of
        None \<Rightarrow> Ret []
      | Some j \<Rightarrow>
        if \<not> jtruthy j then Ret []
        else rmap (\<lambda>(name, key). jfield j [key] name)
          [(''rows'', ''rows''), (''auc_encrypted'', ''roc_auc_encrypted''), (''auc_plaintext'', ''roc_auc_plaintext_float''),
           (''delta_auc'', ''delta_roc_auc''), (''max_abs_logit_error'', ''max_abs_logit_error''),
           (''bit_exact_vs_expected_i64'', ''bit_exact_vs_integer_simulation'')])"

definition slot_cols :: "json \<Rightarrow> (string \<times> json) list res" where
  "slot_cols d =
     rbind (rmap (\<lambda>(name, ks). jfield d ks name)
       [(''offline_per_ct_ms'', [''per_keystream_ct_ms'', ''offline'']), (''online_per_ct_ms'', [''per_keystream_ct_ms'', ''online'']),
        (''offline_per_txn_ms'', [''per_transaction_ms'', ''offline'']), (''online_per_txn_ms'', [''per_transaction_ms'', ''online'']),
        (''total_per_txn_ms'', [''per_transaction_ms'', ''total'']), (''lanes_per_output_ct'', [''lanes_per_output_ct_mean'']),
        (''output_cts_per_crypt'', [''output_cts_per_crypt'']), (''lanes_per_crypt'', [''lanes_per_crypt''])]) (\<lambda>cols.
     rbind (correctness_cols d) (\<lambda>cc. Ret (cols @ cc)))"

definition cnp_cols :: "string \<Rightarrow> json \<Rightarrow> (string \<times> json) list res" where
  "cnp_cols arm d =
     rbind (cnp_timing d) (\<lambda>(_, _, off, outs, lanes).
     rbind (jnum_at d [if arm = ''cnp'' then ''per_output_ct_ms'' else ''baseline_lower_bound_per_output_ct_ms'', ''total'']) (\<lambda>on.
     rbind (py_div off lanes) (\<lambda>ot.
     rbind (py_div on lanes) (\<lambda>nt.
     rbind (py_div (pf_add off on) lanes) (\<lambda>tt.
     let cols = [(''offline_per_ct_ms'', JNum off), (''online_per_ct_ms'', JNum on), (''offline_per_txn_ms'', JNum ot),
         (''online_per_txn_ms'', JNum nt), (''total_per_txn_ms'', JNum tt), (''lanes_per_output_ct'', JNum lanes),
         (''output_cts_per_crypt'', JNum outs), (''lanes_per_crypt'', JNum (pf_mul outs lanes))]
     in rbind (if arm = ''cnp'' then correctness_cols d
               else rbind (jfield d [''baseline_halfboot_stages'', ''_max_abs_error_check'', ''median_ms''] ''max_abs_error_ckks_2x_plus_1'')
                      (\<lambda>f. Ret [f])) (\<lambda>extra.
        Ret (cols @ extra)))))))"

definition arm_row_doc :: "string \<Rightarrow> json \<Rightarrow> json option \<Rightarrow> pyfloat \<Rightarrow> pyfloat \<Rightarrow> json res" where
  "arm_row_doc arm d sc each keys =
     rbind (jget_opt d ''vm_hwm_kb_end'') (\<lambda>rss.
     rbind (if arm = ''slot'' then slot_cols d else cnp_cols arm d) (\<lambda>cols.
     rbind (score_cols sc) (\<lambda>scols.
     Ret (JObj ([(''arm'', JStr arm), (''peak_rss_kb'', rss), (''rotation_keys'', JNum keys), (''rotation_key_bytes'', JNum (pf_mul keys each))]
       @ cols @ scols)))))"

section \<open>A cell\<close>

definition result_file :: "path \<Rightarrow> string \<Rightarrow> string \<Rightarrow> path" where
  "result_file cell arm name = cell @ ''/'' @ arm @ ''/'' @ name"

definition stage_medians :: "json \<Rightarrow> json res" where
  "stage_medians s =
     (case s of
        JObj kvs \<Rightarrow> rbind (rmap (\<lambda>(k, v). jfield v [''median_ms''] k) kvs) (\<lambda>r. Ret (JObj r))
      | _ \<Rightarrow> Raise AttributeError)"

text \<open>The ratios of two row columns; Python divides what the rows hold.\<close>

definition row_ratio :: "json \<Rightarrow> json \<Rightarrow> string \<Rightarrow> json res" where
  "row_ratio a b k = rbind (jnum_at a [k]) (\<lambda>x. rbind (jnum_at b [k]) (\<lambda>y. Ret (JNum (ratio x y))))"

text \<open>\<open>show_path\<close> gives a path as the document names it, relative to the repository where it lies in it.\<close>

definition compare_cell_doc :: "jfs \<Rightarrow> (path \<Rightarrow> string) \<Rightarrow> path \<Rightarrow> string \<Rightarrow> json res" where
  "compare_cell_doc fs show_path cell cipher =
     (let slot_f = ''slot_'' @ cipher @ ''.json''; cnp_f = ''cnp_'' @ cipher @ ''.json'' in
      rbind (load_json fs (result_file cell ''slot'' slot_f)) (\<lambda>slot.
      rbind (load_json fs (result_file cell ''cnp'' cnp_f)) (\<lambda>cnp.
      rbind (load_json fs (result_file cell ''halfboot'' cnp_f)) (\<lambda>hb.
      rbind (load_json fs (result_file cell ''slot_repeat'' slot_f)) (\<lambda>rep.
      rbind (jnum_at slot [''rotation_key_bytes_allocated'']) (\<lambda>bytes.
      rbind (jnum_at slot [''rotation_key_counts'', ''slot_rotations'']) (\<lambda>sr.
      rbind (py_div bytes sr) (\<lambda>each.
      rbind (load_json fs (result_file cell ''slot'' (''slot_'' @ cipher @ ''_score.json''))) (\<lambda>sc_slot.
      rbind (load_json fs (result_file cell ''cnp'' (''cnp_'' @ cipher @ ''_score.json''))) (\<lambda>sc_cnp.
      rbind (arm_row_doc ''slot'' slot (Some sc_slot) each sr) (\<lambda>b.
      rbind (jnum_at cnp [''rotation_key_counts'', ''stc_only'']) (\<lambda>ck.
      rbind (arm_row_doc ''cnp'' cnp (Some sc_cnp) each ck) (\<lambda>a.
      rbind (jnum_at hb [''rotation_key_counts'', ''stc_only'']) (\<lambda>h1.
      rbind (jnum_at hb [''rotation_key_counts'', ''baseline_halfboot_extra'']) (\<lambda>h2.
      rbind (arm_row_doc ''halfboot'' hb None each (pf_add h1 h2)) (\<lambda>h.
      rbind (jnum_at rep [''per_transaction_ms'', ''total'']) (\<lambda>t1.
      rbind (jnum_at slot [''per_transaction_ms'', ''total'']) (\<lambda>t2.
      rbind (jpath slot [''param_state'', ''log_n'']) (\<lambda>log_n.
      rbind (jget slot ''n'') (\<lambda>n.
      rbind (jget slot ''plain_modulus'') (\<lambda>t.
      rbind (rbind (jget slot ''slot_stages_per_crypt_batch'') stage_medians) (\<lambda>st_slot.
      rbind (rbind (jget cnp ''cnp_stages'') stage_medians) (\<lambda>st_cnp.
      rbind (row_ratio a b ''online_per_txn_ms'') (\<lambda>r_on.
      rbind (row_ratio a b ''offline_per_txn_ms'') (\<lambda>r_off.
      rbind (row_ratio a b ''total_per_txn_ms'') (\<lambda>r_tot.
      rbind (row_ratio h b ''total_per_txn_ms'') (\<lambda>hs_tot.
      rbind (row_ratio h a ''online_per_txn_ms'') (\<lambda>hc_on.
      rbind (row_ratio h a ''total_per_txn_ms'') (\<lambda>hc_tot.
      Ret (JObj
        [(''cipher'', JStr cipher), (''log_n'', log_n), (''n'', n), (''t'', t),
         (''arms'', JObj [(''slot'', b), (''cnp'', a), (''halfboot'', h)]),
         (''stages_slot_per_batch_median_ms'', st_slot), (''stages_cnp_median_ms'', st_cnp),
         (''ratios_cnp_over_slot_gt1_means_slot_faster'',
            JObj [(''online_per_txn'', r_on), (''offline_per_txn'', r_off), (''total_per_txn'', r_tot)]),
         (''ratios_halfboot_over_slot'', JObj [(''total_per_txn'', hs_tot)]),
         (''ratios_halfboot_over_cnp'', JObj [(''online_per_txn'', hc_on), (''total_per_txn'', hc_tot)]),
         (''session_drift_slot_repeat_over_slot_total'', JNum (ratio t1 t2)),
         (''sources'', JObj (map (\<lambda>(k, d, f). (k, JStr (show_path (result_file cell d f))))
            [(''slot'', ''slot'', slot_f), (''cnp'', ''cnp'', cnp_f), (''halfboot'', ''halfboot'', cnp_f),
             (''slot_repeat'', ''slot_repeat'', slot_f), (''slot_score'', ''slot'', ''slot_'' @ cipher @ ''_score.json''),
             (''cnp_score'', ''cnp'', ''cnp_'' @ cipher @ ''_score.json'')]))]))))))))))))))))))))))))))))))"

section \<open>The comparison of a run\<close>

text \<open>An entry of \<^verbatim>\<open>glob("logn*/*")\<close>.\<close>

record entry =
  en_path :: path
  en_parent :: string
  en_name :: string
  en_is_dir :: bool

definition complete_cell :: "jfs \<Rightarrow> entry \<Rightarrow> bool" where
  "complete_cell fs e \<longleftrightarrow> en_is_dir e \<and> en_name e \<in> set CIPHERS \<and> (\<forall>a \<in> set ARMS. fs (result_file (en_path e) a ''run_status.json'') \<noteq> None)"

text \<open>The lines of the Markdown table: \<open>fmt n v\<close> is \<^verbatim>\<open>f"{v:.nf}"\<close>, \<open>show v\<close> is \<^verbatim>\<open>str(v)\<close>, \<open>trunc v\<close> is \<^verbatim>\<open>str(int(v))\<close>.\<close>

definition get_default :: "json \<Rightarrow> string \<Rightarrow> json \<Rightarrow> json res" where
  "get_default d k v = (case d of JObj kvs \<Rightarrow> Ret (case map_of kvs k of None \<Rightarrow> v | Some w \<Rightarrow> w) | _ \<Rightarrow> Raise AttributeError)"

definition md_row :: "(nat \<Rightarrow> json \<Rightarrow> string res) \<Rightarrow> (json \<Rightarrow> string) \<Rightarrow> (json \<Rightarrow> string res) \<Rightarrow> json \<Rightarrow> string \<Rightarrow> string res" where
  "md_row fmt show trunc c a =
     rbind (jpath c [''arms'', a]) (\<lambda>r.
     rbind (rmap (\<lambda>(k, n). rbind (jget r k) (fmt n))
       [(''offline_per_ct_ms'', 3), (''online_per_ct_ms'', 3), (''offline_per_txn_ms'', 4), (''online_per_txn_ms'', 5),
        (''total_per_txn_ms'', 4), (''lanes_per_output_ct'', 1)]) (\<lambda>fs.
     rbind (jget r ''output_cts_per_crypt'') (\<lambda>oc.
     rbind (jget r ''rotation_keys'') (\<lambda>rk.
     rbind (rbind (jget r ''rotation_key_bytes'') trunc) (\<lambda>kb.
     rbind (jget r ''peak_rss_kb'') (\<lambda>rss.
     rbind (get_default r ''max_abs_integer_diff'' (JStr ''n/a'')) (\<lambda>md.
     rbind (get_default r ''delta_auc'' (JStr ''n/a'')) (\<lambda>da.
     Ret (concat (map (\<lambda>cell. ''| '' @ cell @ '' '') ([a] @ fs @ [show oc, show rk, kb, show rss, show md, show da])) @ ''|'')))))))))"

definition md_cell :: "(nat \<Rightarrow> json \<Rightarrow> string res) \<Rightarrow> (json \<Rightarrow> string) \<Rightarrow> (json \<Rightarrow> string res) \<Rightarrow> json \<Rightarrow> string list res" where
  "md_cell fmt show trunc c =
     rbind (jget c ''log_n'') (\<lambda>ln. rbind (jget c ''cipher'') (\<lambda>ci. rbind (jget c ''n'') (\<lambda>n.
     rbind (rmap (md_row fmt show trunc c) [''slot'', ''cnp'', ''halfboot'']) (\<lambda>rows.
     rbind (jget c ''ratios_cnp_over_slot_gt1_means_slot_faster'') (\<lambda>rr.
     rbind (rmap (\<lambda>k. rbind (jget rr k) (fmt 3)) [''online_per_txn'', ''offline_per_txn'', ''total_per_txn'']) (\<lambda>rs.
     rbind (rbind (jget c ''session_drift_slot_repeat_over_slot_total'') (fmt 3)) (\<lambda>dr.
     Ret ([''## LogN '' @ show ln @ '', '' @ show ci @ '' (N='' @ show n @ '')'', [],
        ''| Arm | Offline ms/ct | Online ms/ct | Offline ms/txn | Online ms/txn | Total ms/txn | Lanes/output ct | Output cts/Crypt | Galois keys | Key bytes | Peak RSS KB | Max int err | Delta AUC |'',
        ''|---|---|---|---|---|---|---|---|---|---|---|---|---|'']
        @ rows
        @ [[], ''CNP / slot (above 1 means slot is faster): online '' @ rs ! 0 @ '', offline '' @ rs ! 1 @ '', total '' @ rs ! 2
             @ ''. Slot repeat / slot total: '' @ dr @ ''.'', []]))))))))"

definition comparison_md :: "(nat \<Rightarrow> json \<Rightarrow> string res) \<Rightarrow> (json \<Rightarrow> string) \<Rightarrow> (json \<Rightarrow> string res) \<Rightarrow> json list \<Rightarrow> string list res" where
  "comparison_md fmt show trunc cells =
     rbind (rmap (md_cell fmt show trunc) cells) (\<lambda>bs.
     Ret ([''# Same-session comparison (generated by run_laptop_compare.py)'', []] @ concat bs))"

text \<open>The files after \<^verbatim>\<open>write_comparison\<close>; the Markdown file is no JSON document.\<close>

definition write_comparison ::
  "(json list \<Rightarrow> string list res) \<Rightarrow> (path \<Rightarrow> string) \<Rightarrow> path \<Rightarrow> entry list \<Rightarrow> jfs \<Rightarrow> json list res \<times> jfs" where
  "write_comparison md show_path out listing fs =
     (case rmap (\<lambda>e. compare_cell_doc fs show_path (en_path e) (en_name e)) (filter (complete_cell fs) listing) of
        Inl e \<Rightarrow> (Inl e, fs)
      | Inr cells \<Rightarrow>
        let fs1 = save_json (out @ ''/comparison.json'') (JArr cells) fs in
        (case md cells of
           Inl e \<Rightarrow> (Inl e, fs1)
         | Inr lines \<Rightarrow> (Ret cells, fs1(out @ ''/comparison.md'' \<mapsto> None))))"

section \<open>A session over files\<close>

definition killed_text :: "kill_reason option \<Rightarrow> json" where
  "killed_text k = (case k of
       None \<Rightarrow> JNull
     | Some KLostAC \<Rightarrow> JStr ''AC lost during the arm''
     | Some (KMemory rss avail) \<Rightarrow> JStr (''rss_kb='' @ py_str (nat rss) @ '' mem_available_kb='' @ py_str (nat avail)))"

definition status_doc :: "arm_run \<Rightarrow> json" where
  "status_doc ar = (let w = watch (ar_samples ar) in
     JObj [(''peak_rss_kb'', JInt (peak_rss_kb w)), (''killed'', killed_text (killed w)), (''lost_ac'', JBool (lost_ac w)),
           (''exit_code'', JInt (ar_rc ar))])"

text \<open>\<^verbatim>\<open>run_arm\<close> over files: an arm that was started leaves what its test wrote (\<open>out\<close>) and its status, whatever the verdict.\<close>

definition run_arm_files :: "path set \<Rightarrow> jfs \<Rightarrow> path \<Rightarrow> arm_run \<Rightarrow> jfs \<Rightarrow> (wstatus \<times> int) res \<times> path set \<times> jfs" where
  "run_arm_files dirs fs results ar out =
     (case run_arm dirs results ar of (r, ds) \<Rightarrow>
        (r, ds, if results \<in> dirs \<or> require_ac (ar_start ar) \<noteq> Ret () then fs
                else save_json (results @ ''/run_status.json'') (status_doc ar) (fs ++ out)))"

fun session_files ::
  "(int \<times> string \<times> string \<Rightarrow> path) \<Rightarrow> (int \<times> string \<times> string \<Rightarrow> arm_run) \<Rightarrow> (int \<times> string \<times> string \<Rightarrow> jfs)
   \<Rightarrow> (int \<times> string \<times> string \<Rightarrow> json option) \<Rightarrow> (int \<times> string \<times> string) list \<Rightarrow> path set \<Rightarrow> jfs \<Rightarrow> unit res \<times> jfs" where
  "session_files dir runs outs scores [] dirs fs = (Ret (), fs)"
| "session_files dir runs outs scores (k # ks) dirs fs =
     (case run_arm_files dirs fs (dir k) (runs k) (outs k) of
        (Inl e, ds, fs1) \<Rightarrow> (Inl e, fs1)
      | (Inr _, ds, fs1) \<Rightarrow>
        (case score_arm (snd (snd k)) of
           None \<Rightarrow> session_files dir runs outs scores ks ds fs1
         | Some a \<Rightarrow> (case scores k of
             None \<Rightarrow> (Raise CalledProcessError, fs1)
           | Some j \<Rightarrow> session_files dir runs outs scores ks ds
               (save_json (dir k @ ''/'' @ a @ ''_'' @ fst (snd k) @ ''_score.json'') j fs1))))"

text \<open>The record of a session that did not start. \<open>sha\<close> is what git answers.\<close>

definition stop_record :: "path \<Rightarrow> string \<Rightarrow> string \<Rightarrow> json \<Rightarrow> string res \<Rightarrow> jfs \<Rightarrow> path res \<times> jfs" where
  "stop_record out_root stamp reason ms sha fs =
     (let p = out_root @ ''/STOPPED_'' @ stamp @ ''.json'' in
      case sha of
        Inl e \<Rightarrow> (Inl e, fs)
      | Inr h \<Rightarrow> (Ret p, save_json p (JObj [(''stopped'', JStr reason), (''machine_state'', ms), (''repo_sha'', JStr h)]) fs))"

text \<open>What a session meets: the formatter and the path printer, its directory, time stamp, git and machine description, what a
  listing of its directory gives, and for every arm its directory, what happens in it, what its test writes and its score.\<close>

record session_world =
  sw_md :: "json list \<Rightarrow> string list res"
  sw_show :: "path \<Rightarrow> string"
  sw_out_root :: path
  sw_stamp :: string
  sw_sha :: "string res"
  sw_ms :: json
  sw_reason :: string
  sw_listing :: "jfs \<Rightarrow> entry list"
  sw_dir :: "int \<times> string \<times> string \<Rightarrow> path"
  sw_runs :: "int \<times> string \<times> string \<Rightarrow> arm_run"
  sw_outs :: "int \<times> string \<times> string \<Rightarrow> jfs"
  sw_scores :: "int \<times> string \<times> string \<Rightarrow> json option"

text \<open>\<^verbatim>\<open>main\<close> with its files: whatever ended the loop, the comparison is written, and an exception there is the outcome.\<close>

definition laptop_main_files :: "session_world \<Rightarrow> laptop_host \<Rightarrow> laptop_args \<Rightarrow> jfs \<Rightarrow> int res \<times> jfs" where
  "laptop_main_files W h a fs =
     (case laptop_main (sw_dir W) (sw_runs W) (\<lambda>k. sw_scores W k \<noteq> None) h a of
        Inl e \<Rightarrow> (Inl e, fs)
      | Inr (rc, Compared) \<Rightarrow>
          (case write_comparison (sw_md W) (sw_show W) (the (la_compare_only a)) (sw_listing W fs) fs of
             (Inl e, fs1) \<Rightarrow> (Inl e, fs1) | (Inr _, fs1) \<Rightarrow> (Ret rc, fs1))
      | Inr (rc, StoppedBefore) \<Rightarrow>
          (case stop_record (sw_out_root W) (sw_stamp W) (sw_reason W) (sw_ms W) (sw_sha W) fs of
             (Inl e, fs1) \<Rightarrow> (Inl e, fs1) | (Inr _, fs1) \<Rightarrow> (Ret rc, fs1))
      | Inr (rc, Measured s why) \<Rightarrow>
          (let fs1 = snd (session_files (sw_dir W) (sw_runs W) (sw_outs W) (sw_scores W) (arm_order (la_logn a)) {} fs)
           in case write_comparison (sw_md W) (sw_show W) (sw_out_root W @ ''/laptop_'' @ sw_stamp W) (sw_listing W fs1) fs1 of
                (Inl e, fs2) \<Rightarrow> (Inl e, fs2) | (Inr _, fs2) \<Rightarrow> (Ret rc, fs2)))"

text \<open>The loop over files is the session loop of \<open>LaptopCompare\<close>.\<close>

lemma session_files_refines:
  "fst (session_files dir runs outs scores ks dirs fs)
     = fst (run_session dir runs (\<lambda>k. scores k \<noteq> None) ks \<lparr>se_dirs = dirs, se_ran = rs, se_scored = ss\<rparr>)"
proof (induction ks arbitrary: dirs fs rs ss)
  case (Cons k ks)
  note ih = Cons.IH [where rs = "rs @ [k]"]
  obtain r ds where r: "run_arm dirs (dir k) (runs k) = (r, ds)" by fastforce
  show ?case
  proof (cases r)
    case (Inr x)
    show ?thesis
    proof (cases "score_arm (snd (snd k))")
      case None
      then show ?thesis using ih [where ss = ss] by (simp add: run_arm_files_def r Inr Let_def)
    next
      case (Some a)
      then show ?thesis using ih [where ss = "ss @ [(fst k, fst (snd k), a)]"]
        by (simp add: run_arm_files_def r Inr Let_def split: option.split)
    qed
  qed (simp add: run_arm_files_def r)
qed simp

section \<open>Which cells are compared\<close>

text \<open>A started arm leaves its status, so a cell counts as complete once its four arms were started, killed or not.\<close>

lemma started_arm_has_status:
  assumes "results \<notin> dirs" "on_ac (ar_start ar)"
  shows "snd (snd (run_arm_files dirs fs results ar out)) (results @ ''/run_status.json'') = Some (Some (status_doc ar))"
  using assms by (simp add: run_arm_files_def require_ac_iff save_json_def split: prod.splits)

lemma killed_arm_completes_cell:
  assumes "en_is_dir e" "en_name e \<in> set CIPHERS" "\<forall>a \<in> {''slot'', ''cnp'', ''halfboot''}. fs (result_file (en_path e) a ''run_status.json'') \<noteq> None"
    and "en_path e @ ''/slot_repeat'' \<notin> dirs" "on_ac (ar_start ar)" "saw_battery (ar_samples ar) \<or> saw_pressure (ar_samples ar)"
  shows "\<exists>err ds fs'. run_arm_files dirs fs (en_path e @ ''/slot_repeat'') ar Map.empty = (Raise err, ds, fs')
     \<and> complete_cell fs' e \<and> (fs (result_file (en_path e) ''slot_repeat'' (''slot_'' @ en_name e @ ''.json'')) = None \<longrightarrow>
          (\<forall>show_path. \<exists>err'. compare_cell_doc fs' show_path (en_path e) (en_name e) = Raise err'))"
proof -
  obtain err where r: "run_arm dirs (en_path e @ ''/slot_repeat'') ar = (Raise err, insert (en_path e @ ''/slot_repeat'') dirs)"
    using assms(4-6) by (cases "saw_battery (ar_samples ar)") (auto simp: run_arm_eq)
  let ?fs = "save_json (en_path e @ ''/slot_repeat/run_status.json'') (status_doc ar) fs"
  have f: "run_arm_files dirs fs (en_path e @ ''/slot_repeat'') ar Map.empty = (Raise err, insert (en_path e @ ''/slot_repeat'') dirs, ?fs)"
    using r assms(4,5) by (simp add: run_arm_files_def require_ac_iff)
  have "complete_cell ?fs e"
    using assms(1-3) by (simp add: complete_cell_def ARMS_def save_json_def result_file_def)
  moreover have "\<exists>err'. compare_cell_doc ?fs show_path (en_path e) (en_name e) = Raise err'"
    if "fs (result_file (en_path e) ''slot_repeat'' (''slot_'' @ en_name e @ ''.json'')) = None" for show_path
  proof -
    have "load_json ?fs (result_file (en_path e) ''slot_repeat'' (''slot_'' @ en_name e @ ''.json'')) = Raise FileNotFoundError"
      using that by (simp add: load_json_def save_json_def result_file_def)
    then show ?thesis unfolding compare_cell_doc_def Let_def
      by (cases "load_json ?fs (result_file (en_path e) ''slot'' (''slot_'' @ en_name e @ ''.json''))";
          cases "load_json ?fs (result_file (en_path e) ''cnp'' (''cnp_'' @ en_name e @ ''.json''))";
          cases "load_json ?fs (result_file (en_path e) ''halfboot'' (''cnp_'' @ en_name e @ ''.json''))") simp_all
  qed
  ultimately show ?thesis using f by blast
qed

section \<open>Replicate ranges\<close>

definition pick2 :: "(pyfloat \<Rightarrow> pyfloat \<Rightarrow> bool) \<Rightarrow> pyfloat \<Rightarrow> pyfloat \<Rightarrow> pyfloat" where
  "pick2 better x y = (if better y x then y else x)"

text \<open>One metric: the values of the two slot runs and of the two CNP runs. \<^verbatim>\<open>min\<close> and \<^verbatim>\<open>max\<close> of a list keep the first of equals.\<close>

definition metric_doc :: "pyfloat \<Rightarrow> pyfloat \<Rightarrow> pyfloat \<Rightarrow> pyfloat \<Rightarrow> json res" where
  "metric_doc s0 s1 c0 c1 =
     (let slot_slow = pf_lt c0 s0;
          (slow0, slow1, fast0, fast1) = (if slot_slow then (s0, s1, c0, c1) else (c0, c1, s0, s1));
          mn = pick2 pf_lt; mx = pick2 (\<lambda>a b. pf_lt b a)
      in rbind (py_div slow0 fast0) (\<lambda>by.
         rbind (py_div (mn slow0 slow1) (mx fast0 fast1)) (\<lambda>lo.
         rbind (py_div (mx slow0 slow1) (mn fast0 fast1)) (\<lambda>hi.
         Ret (JObj [(''slot_ms'', JArr [JNum s0, JNum s1]), (''cnp_ms'', JArr [JNum c0, JNum c1]),
            (''winner'', JStr (if slot_slow then ''cnp'' else ''slot'')), (''winner_faster_by'', JNum by),
            (''winner_faster_by_range'', JArr [JNum lo, JNum hi])])))))"

definition cell_ranges :: "jfs \<Rightarrow> entry \<Rightarrow> json res" where
  "cell_ranges fs e =
     (let cipher = en_name e; slot_f = ''slot_'' @ cipher @ ''.json''; cnp_f = ''cnp_'' @ cipher @ ''.json'' in
      rbind (rmap (\<lambda>arm. rbind (load_json fs (result_file (en_path e) arm slot_f)) slot_times) [''slot'', ''slot_repeat'']) (\<lambda>slot.
      rbind (rmap (\<lambda>arm. rbind (load_json fs (result_file (en_path e) arm cnp_f)) cnp_times) [''cnp'', ''halfboot'']) (\<lambda>cnp.
      rbind (py_int (removeprefix ''logn'' (en_parent e))) (\<lambda>log_n.
      rbind (rmap (\<lambda>i. metric_doc (slot ! 0 ! i) (slot ! 1 ! i) (cnp ! 0 ! i) (cnp ! 1 ! i)) [0..<3]) (\<lambda>ms.
      Ret (JObj ([(''log_n'', JInt log_n), (''cipher'', JStr cipher)] @ zip METRICS ms)))))))"

definition ranges_main :: "path \<Rightarrow> entry list \<Rightarrow> jfs \<Rightarrow> json list res \<times> jfs" where
  "ranges_main run listing fs =
     (case rmap (cell_ranges fs) (filter en_is_dir listing) of
        Inl e \<Rightarrow> (Inl e, fs)
      | Inr cells \<Rightarrow> (Ret cells, save_json (run @ ''/replicate_ranges.json'') (JArr cells) fs))"

section \<open>The two reports on one cell\<close>

lemma length_METRICS: "length METRICS = 3"
  by (simp add: METRICS_def)

lemma slot_row_times:
  assumes "arm_row_doc ''slot'' d sc each keys = Ret row" "m \<in> set METRICS"
  shows "jget row (m @ ''_per_txn_ms'') = jpath d [''per_transaction_ms'', m]"
  using assms(2) assms(1) unfolding METRICS_def
  by (auto simp: arm_row_doc_def slot_cols_def jfield_def rbind_Ret_iff)

lemma cnp_row_times:
  assumes "arm_row_doc ''cnp'' d sc each keys = Ret row"
  shows "\<exists>crypt stc off outs lanes on ot nt tt. cnp_timing d = Ret (crypt, stc, off, outs, lanes)
    \<and> jnum_at d [''per_output_ct_ms'', ''total''] = Ret on
    \<and> py_div off lanes = Ret ot \<and> py_div on lanes = Ret nt \<and> py_div (pf_add off on) lanes = Ret tt
    \<and> jget row ''offline_per_txn_ms'' = Ret (JNum ot) \<and> jget row ''online_per_txn_ms'' = Ret (JNum nt)
    \<and> jget row ''total_per_txn_ms'' = Ret (JNum tt)"
  using assms by (auto simp: arm_row_doc_def cnp_cols_def rbind_Ret_iff Let_def)

lemma pf_mul_Fin_pos:
  assumes "pf_mul x (pf_inv y) = Fin c" "0 < c"
  shows "\<exists>a b. x = Fin a \<and> y = Fin b"
  using assms by (cases x; cases y) (auto split: if_splits)

lemma cnp_times_row:
  assumes "arm_row_doc ''cnp'' d sc each keys = Ret row" "cnp_times d = Ret ts"
    and "jnum_at row [''total_per_txn_ms''] = Ret (Fin c) \<Longrightarrow> 0 < c"
    and m: "i < 3" "jnum_at row [METRICS ! i @ ''_per_txn_ms''] = Ret (Fin c)"
  shows "ts ! i = Fin c"
proof -
  obtain crypt stc off outs lanes on ot nt tt where t: "cnp_timing d = Ret (crypt, stc, off, outs, lanes)"
    "jnum_at d [''per_output_ct_ms'', ''total''] = Ret on"
    and v: "py_div off lanes = Ret ot" "py_div on lanes = Ret nt" "py_div (pf_add off on) lanes = Ret tt"
    and r: "jget row ''offline_per_txn_ms'' = Ret (JNum ot)" "jget row ''online_per_txn_ms'' = Ret (JNum nt)"
      "jget row ''total_per_txn_ms'' = Ret (JNum tt)"
    using cnp_row_times [OF assms(1)] by blast
  have ts: "ts = [ot, nt, pf_add ot nt]"
    using t v assms(2) unfolding cnp_times_def cnp_timing_def by (auto simp: rbind_Ret_iff)
  have tot: "pf_add ot nt = Fin c" if tc: "tt = Fin c" and pos: "0 < c"
  proof -
    have d: "lanes \<noteq> Fin 0" "pf_mul (pf_add off on) (pf_inv lanes) = Fin c" using v(3) tc by (auto simp: py_div_def split: if_splits)
    obtain x l where x: "pf_add off on = Fin x" "lanes = Fin l" using pf_mul_Fin_pos [OF d(2) pos] by blast
    obtain a b where ab: "off = Fin a" "on = Fin b" using x(1) by (cases off; cases on) auto
    have l: "l \<noteq> 0" using d(1) x(2) by simp
    show ?thesis using v tc unfolding ab x(2) pf_add_div [OF l] using l by auto
  qed
  consider "i = 0" | "i = 1" | "i = 2" using m(1) by linarith
  then show ?thesis
    using m(2) ts r tot assms(3) by cases (auto simp: METRICS_def jnum_at_def)
qed

lemma compare_cell_facts:
  assumes "compare_cell_doc fs show_path cell cipher = Ret j"
  shows "\<exists>slot cnp sc1 sc2 each sr ck b a r_on r_off r_tot. load_json fs (result_file cell ''slot'' (''slot_'' @ cipher @ ''.json'')) = Ret slot
    \<and> load_json fs (result_file cell ''cnp'' (''cnp_'' @ cipher @ ''.json'')) = Ret cnp
    \<and> arm_row_doc ''slot'' slot (Some sc1) each sr = Ret b \<and> arm_row_doc ''cnp'' cnp (Some sc2) each ck = Ret a
    \<and> row_ratio a b ''online_per_txn_ms'' = Ret r_on \<and> row_ratio a b ''offline_per_txn_ms'' = Ret r_off
    \<and> row_ratio a b ''total_per_txn_ms'' = Ret r_tot
    \<and> jpath j [''arms'', ''slot''] = Ret b \<and> jpath j [''arms'', ''cnp''] = Ret a
    \<and> jget j ''ratios_cnp_over_slot_gt1_means_slot_faster'' =
        Ret (JObj [(''online_per_txn'', r_on), (''offline_per_txn'', r_off), (''total_per_txn'', r_tot)])"
  using assms unfolding compare_cell_doc_def Let_def rbind_Ret_iff
  apply (elim exE conjE)
  apply (drule Inr_inject)
  apply hypsubst
  apply (intro exI conjI)
  apply (assumption | simp (no_asm))+
  done

lemma metric_doc_by:
  assumes "metric_doc (Fin s) x (Fin c) y = Ret r" "0 < s" "0 < c"
  shows "jget r ''slot_ms'' = Ret (JArr [JReal s, JNum x])" "jget r ''cnp_ms'' = Ret (JArr [JReal c, JNum y])"
    "jget r ''winner'' = Ret (JStr (if c < s then ''cnp'' else ''slot''))"
    "jget r ''winner_faster_by'' = Ret (JReal (max s c / min s c))"
  using assms by (auto simp: metric_doc_def Let_def rbind_Ret_iff max_def min_def split: if_splits)

section \<open>Properties\<close>

text \<open>C32. The two reports on a laptop run agree. For every cell both scripts accept and every metric whose per-transaction times
  in \<^verbatim>\<open>comparison.json\<close> are finite and positive (\<open>s\<close> for the slot arm, \<open>c\<close> for CNP), \<^verbatim>\<open>replicate_ranges.json\<close> starts its lists of
  runs with the same two times, although it computes them from the stage times on its own; its winner is CNP exactly when
  the ratio of the comparison is below 1, and its factor is that ratio or the inverse.\<close>

theorem comparison_ranges_agree:
  assumes "compare_cell_doc fs show_path (en_path e) (en_name e) = Ret j" "cell_ranges fs e = Ret r" "m \<in> set METRICS"
    and "jnum_at j [''arms'', ''slot'', m @ ''_per_txn_ms''] = Ret (Fin s)" "jnum_at j [''arms'', ''cnp'', m @ ''_per_txn_ms''] = Ret (Fin c)"
    and "0 < s" "0 < c"
  shows "\<exists>x y. jpath r [m, ''slot_ms''] = Ret (JArr [JReal s, x]) \<and> jpath r [m, ''cnp_ms''] = Ret (JArr [JReal c, y])
    \<and> jpath r [m, ''winner''] = Ret (JStr (if c / s < 1 then ''cnp'' else ''slot''))
    \<and> jpath r [m, ''winner_faster_by''] = Ret (JReal (if c / s < 1 then 1 / (c / s) else c / s))
    \<and> jpath j [''ratios_cnp_over_slot_gt1_means_slot_faster'', m @ ''_per_txn''] = Ret (JReal (c / s))"
proof -
  obtain slot cnp sc1 sc2 each sr ck b a r_on r_off r_tot where
      l: "load_json fs (result_file (en_path e) ''slot'' (''slot_'' @ en_name e @ ''.json'')) = Ret slot"
        "load_json fs (result_file (en_path e) ''cnp'' (''cnp_'' @ en_name e @ ''.json'')) = Ret cnp"
    and rows: "arm_row_doc ''slot'' slot (Some sc1) each sr = Ret b" "arm_row_doc ''cnp'' cnp (Some sc2) each ck = Ret a"
    and j: "jpath j [''arms'', ''slot''] = Ret b" "jpath j [''arms'', ''cnp''] = Ret a"
    and rr: "row_ratio a b ''online_per_txn_ms'' = Ret r_on" "row_ratio a b ''offline_per_txn_ms'' = Ret r_off"
        "row_ratio a b ''total_per_txn_ms'' = Ret r_tot"
        "jget j ''ratios_cnp_over_slot_gt1_means_slot_faster'' =
           Ret (JObj [(''online_per_txn'', r_on), (''offline_per_txn'', r_off), (''total_per_txn'', r_tot)])"
    using compare_cell_facts [OF assms(1)] by blast
  have ratios: "jpath j [''ratios_cnp_over_slot_gt1_means_slot_faster'', m @ ''_per_txn''] = row_ratio a b (m @ ''_per_txn_ms'')"
    using assms(3) rr by (auto simp: METRICS_def)
  have sb: "jnum_at b [m @ ''_per_txn_ms''] = Ret (Fin s)" and ca: "jnum_at a [m @ ''_per_txn_ms''] = Ret (Fin c)"
    using assms(4,5) j by (auto simp: jnum_at_def rbind_Ret_iff)
  obtain st0 st1 ct0 ct1 ln ms where t: "slot_times slot = Ret st0" "cnp_times cnp = Ret ct0"
    and ms: "rmap (\<lambda>i. metric_doc ([st0, st1] ! 0 ! i) ([st0, st1] ! 1 ! i) ([ct0, ct1] ! 0 ! i) ([ct0, ct1] ! 1 ! i)) [0..<3] = Ret ms"
    and r: "r = JObj ([(''log_n'', JInt ln), (''cipher'', JStr (en_name e))] @ zip METRICS ms)"
    using assms(2) l unfolding cell_ranges_def Let_def rbind_Ret_iff by (auto simp: rbind_Ret_iff)
  obtain i where i: "i < 3" "m = METRICS ! i" using assms(3) length_METRICS by (metis in_set_conv_nth)
  have s0: "st0 ! i = Fin s"
  proof -
    have "jnum_at slot [''per_transaction_ms'', m] = Ret (Fin s)"
      using sb slot_row_times [OF rows(1) assms(3)] by (auto simp: jnum_at_def rbind_Ret_iff)
    moreover obtain d where d: "jget slot ''per_transaction_ms'' = Ret d" "rmap (\<lambda>m. rbind (jget d m) jnum) METRICS = Ret st0"
      using t(1) by (auto simp: slot_times_def rbind_Ret_iff)
    moreover have "rbind (jget d m) jnum = Ret (st0 ! i)"
      using d(2) i by (simp add: rmap_Ret_iff list_all2_conv_all_nth length_METRICS)
    ultimately show ?thesis by (auto simp: jnum_at_def rbind_Ret_iff)
  qed
  have c0: "ct0 ! i = Fin c"
    using cnp_times_row [OF rows(2) t(2) _ i(1), of c] ca i assms(7) by simp
  have len: "length ms = 3" and md: "metric_doc (Fin s) (st1 ! i) (Fin c) (ct1 ! i) = Ret (ms ! i)"
    using ms i(1) s0 c0 by (auto simp: rmap_Ret_iff list_all2_conv_all_nth)
  have "jget r m = Ret (ms ! i)"
    using len i unfolding r METRICS_def by (auto simp: less_Suc_eq numeral_3_eq_3 length_Suc_conv)
  moreover have "jpath j [''ratios_cnp_over_slot_gt1_means_slot_faster'', m @ ''_per_txn''] = Ret (JReal (c / s))"
    using ratios assms(6) sb ca by (simp add: row_ratio_def ratio_def)
  ultimately show ?thesis
    using metric_doc_by [OF md assms(6,7)] assms(6,7) by (simp add: max_def min_def)
qed

definition demo_slot_doc :: json where
  "demo_slot_doc = JObj [(''rotation_key_bytes_allocated'', JInt 8), (''rotation_key_counts'', JObj [(''slot_rotations'', JInt 4)]),
     (''per_keystream_ct_ms'', JObj [(''offline'', JInt 10), (''online'', JInt 2)]),
     (''per_transaction_ms'', JObj [(''offline'', JInt 5), (''online'', JInt 1), (''total'', JInt 6)]),
     (''lanes_per_output_ct_mean'', JInt 2), (''output_cts_per_crypt'', JInt 3), (''lanes_per_crypt'', JInt 6), (''correctness'', JObj []),
     (''headroom_gate'', JNull), (''param_state'', JObj [(''log_n'', JInt 10)]), (''n'', JInt 1024), (''plain_modulus'', JInt 65537),
     (''slot_stages_per_crypt_batch'', JObj [])]"

definition demo_cnp_doc :: json where
  "demo_cnp_doc = JObj [(''cnp_stages'', JObj [(''keystream_crypt (offline)'', JObj [(''median_ms'', JReal 60)]),
       (''stc_modswitch (offline)'', JObj [(''median_ms'', JReal 4)])]),
     (''outputs_per_crypt'', JInt 6), (''lanes_per_output_ct'', JInt 2), (''per_output_ct_ms'', JObj [(''total'', JReal 2)]),
     (''baseline_lower_bound_per_output_ct_ms'', JObj [(''total'', JReal 2)]), (''correctness'', JObj []), (''headroom_gate'', JNull),
     (''rotation_key_counts'', JObj [(''stc_only'', JInt 2), (''baseline_halfboot_extra'', JInt 1)]),
     (''baseline_halfboot_stages'', JObj [(''_max_abs_error_check'', JObj [(''median_ms'', JReal 0)])])]"

definition demo_run_files :: jfs where
  "demo_run_files p =
     (if p \<in> {''r/slot/slot_hera.json'', ''r/slot_repeat/slot_hera.json''} then Some (Some demo_slot_doc)
      else if p \<in> {''r/cnp/cnp_hera.json'', ''r/halfboot/cnp_hera.json''} then Some (Some demo_cnp_doc)
      else if p \<in> {''r/slot/slot_hera_score.json'', ''r/cnp/cnp_hera_score.json''} then Some (Some (JObj [])) else None)"

definition demo_entry :: entry where
  "demo_entry = \<lparr>en_path = ''r'', en_parent = ''logn10'', en_name = ''hera'', en_is_dir = True\<rparr>"

lemma laptop_demo_loads:
  "load_json demo_run_files ''r/slot/slot_hera.json'' = Ret demo_slot_doc"
  "load_json demo_run_files ''r/slot_repeat/slot_hera.json'' = Ret demo_slot_doc"
  "load_json demo_run_files ''r/cnp/cnp_hera.json'' = Ret demo_cnp_doc"
  "load_json demo_run_files ''r/halfboot/cnp_hera.json'' = Ret demo_cnp_doc"
  "load_json demo_run_files ''r/slot/slot_hera_score.json'' = Ret (JObj [])"
  "load_json demo_run_files ''r/cnp/cnp_hera_score.json'' = Ret (JObj [])"
  by (simp_all add: load_json_def demo_run_files_def)

lemma demo_slot_row: "\<exists>b. arm_row_doc ''slot'' demo_slot_doc (Some (JObj [])) (Fin 2) (Fin 4) = Ret b \<and> jnum_at b [''offline_per_txn_ms''] = Ret (Fin 5)
   \<and> jnum_at b [''online_per_txn_ms''] = Ret (Fin 1) \<and> jnum_at b [''total_per_txn_ms''] = Ret (Fin 6)"
  by (simp add: arm_row_doc_def slot_cols_def correctness_cols_def score_cols_def jfield_def demo_slot_doc_def jnum_at_def)

lemma demo_cnp_row: "\<exists>a. arm_row_doc ''cnp'' demo_cnp_doc (Some (JObj [])) (Fin 2) keys = Ret a \<and> jnum_at a [''offline_per_txn_ms''] = Ret (Fin 7)
   \<and> jnum_at a [''online_per_txn_ms''] = Ret (Fin 1) \<and> jnum_at a [''total_per_txn_ms''] = Ret (Fin 8)"
  by (simp add: arm_row_doc_def cnp_cols_def cnp_timing_def correctness_cols_def score_cols_def jfield_def demo_cnp_doc_def jnum_at_def)

lemma demo_halfboot_row: "\<exists>a. arm_row_doc ''halfboot'' demo_cnp_doc None (Fin 2) keys = Ret a
   \<and> jnum_at a [''online_per_txn_ms''] = Ret (Fin 1) \<and> jnum_at a [''total_per_txn_ms''] = Ret (Fin 8)"
  by (simp add: arm_row_doc_def cnp_cols_def cnp_timing_def score_cols_def jfield_def demo_cnp_doc_def jnum_at_def)

lemma laptop_demo_cell: "\<exists>j. compare_cell_doc demo_run_files show_path ''r'' ''hera'' = Ret j
   \<and> jnum_at j [''arms'', ''slot'', ''total_per_txn_ms''] = Ret (Fin 6) \<and> jnum_at j [''arms'', ''cnp'', ''total_per_txn_ms''] = Ret (Fin 8)"
proof -
  obtain b where b: "arm_row_doc ''slot'' demo_slot_doc (Some (JObj [])) (Fin 2) (Fin 4) = Ret b" "jnum_at b [''offline_per_txn_ms''] = Ret (Fin 5)"
    "jnum_at b [''online_per_txn_ms''] = Ret (Fin 1)" "jnum_at b [''total_per_txn_ms''] = Ret (Fin 6)" using demo_slot_row by blast
  obtain a where a: "arm_row_doc ''cnp'' demo_cnp_doc (Some (JObj [])) (Fin 2) (Fin 2) = Ret a" "jnum_at a [''offline_per_txn_ms''] = Ret (Fin 7)"
    "jnum_at a [''online_per_txn_ms''] = Ret (Fin 1)" "jnum_at a [''total_per_txn_ms''] = Ret (Fin 8)" using demo_cnp_row by blast
  obtain h where h: "arm_row_doc ''halfboot'' demo_cnp_doc None (Fin 2) (Fin 3) = Ret h" "jnum_at h [''online_per_txn_ms''] = Ret (Fin 1)"
    "jnum_at h [''total_per_txn_ms''] = Ret (Fin 8)" using demo_halfboot_row by blast
  have s: "jnum_at demo_slot_doc [''rotation_key_bytes_allocated''] = Ret (Fin 8)"
    "jnum_at demo_slot_doc [''rotation_key_counts'', ''slot_rotations''] = Ret (Fin 4)"
    "jnum_at demo_slot_doc [''per_transaction_ms'', ''total''] = Ret (Fin 6)"
    "jget demo_slot_doc ''param_state'' = Ret (JObj [(''log_n'', JInt 10)])" "jget demo_slot_doc ''n'' = Ret (JInt 1024)"
    "jget demo_slot_doc ''plain_modulus'' = Ret (JInt 65537)" "jget demo_slot_doc ''slot_stages_per_crypt_batch'' = Ret (JObj [])"
    by (simp_all add: demo_slot_doc_def jnum_at_def)
  have c: "jnum_at demo_cnp_doc [''rotation_key_counts'', ''stc_only''] = Ret (Fin 2)"
    "jnum_at demo_cnp_doc [''rotation_key_counts'', ''baseline_halfboot_extra''] = Ret (Fin 1)"
    "\<exists>st. rbind (jget demo_cnp_doc ''cnp_stages'') stage_medians = Ret st"
    by (simp_all add: demo_cnp_doc_def jnum_at_def stage_medians_def jfield_def)
  then obtain st where st: "rbind (jget demo_cnp_doc ''cnp_stages'') stage_medians = Ret st" by blast
  have "\<exists>j. compare_cell_doc demo_run_files show_path ''r'' ''hera'' = Ret j"
    unfolding compare_cell_doc_def Let_def
    by (simp add: result_file_def laptop_demo_loads s c(1,2) st b a h row_ratio_def stage_medians_def)
  then obtain j where j: "compare_cell_doc demo_run_files show_path ''r'' ''hera'' = Ret j" by blast
  obtain each sr ck b a sc1 sc2 where r: "arm_row_doc ''slot'' demo_slot_doc sc1 each sr = Ret b" "arm_row_doc ''cnp'' demo_cnp_doc sc2 each ck = Ret a"
      "jpath j [''arms'', ''slot''] = Ret b" "jpath j [''arms'', ''cnp''] = Ret a"
    using compare_cell_facts [OF j] by (simp only: result_file_def append.simps laptop_demo_loads sum.inject) blast
  have "jget b ''total_per_txn_ms'' = Ret (JInt 6)"
    using slot_row_times [OF r(1), of "''total''"] by (simp add: METRICS_def demo_slot_doc_def)
  moreover have "jget a ''total_per_txn_ms'' = Ret (JReal 8)"
    using cnp_row_times [OF r(2)] by (auto simp: cnp_timing_def demo_cnp_doc_def jnum_at_def)
  ultimately show ?thesis using j r(3,4) by (auto simp: jnum_at_def rbind_Ret_iff)
qed

lemma demo_ranges: "\<exists>r. cell_ranges demo_run_files demo_entry = Ret r"
proof -
  have "slot_times demo_slot_doc = Ret [Fin 5, Fin 1, Fin 6]" by (simp add: slot_times_def METRICS_def demo_slot_doc_def)
  moreover have "cnp_times demo_cnp_doc = Ret [Fin 7, Fin 1, Fin 8]" by (simp add: cnp_times_def demo_cnp_doc_def jnum_at_def)
  moreover have "py_int ''10'' = Ret 10" by (simp add: py_int_def strip_def is_space_def starts_with_def digit_value_def Let_def)
  ultimately show ?thesis
    by (simp add: cell_ranges_def demo_entry_def result_file_def laptop_demo_loads Let_def metric_doc_def pick2_def numeral_3_eq_3
        removeprefix_def starts_with_def)
qed

theorem comparison_ranges_agree_witness:
  "\<exists>r. cell_ranges demo_run_files demo_entry = Ret r \<and> jpath r [''total'', ''winner''] = Ret (JStr ''slot'')
     \<and> jpath r [''total'', ''winner_faster_by''] = Ret (JReal (8 / 6))"
proof -
  obtain j where j: "compare_cell_doc demo_run_files (\<lambda>p. p) (en_path demo_entry) (en_name demo_entry) = Ret j"
    "jnum_at j [''arms'', ''slot'', ''total'' @ ''_per_txn_ms''] = Ret (Fin 6)" "jnum_at j [''arms'', ''cnp'', ''total'' @ ''_per_txn_ms''] = Ret (Fin 8)"
    using laptop_demo_cell [of "\<lambda>p. p"] by (auto simp: demo_entry_def)
  obtain r where r: "cell_ranges demo_run_files demo_entry = Ret r" using demo_ranges by blast
  have "''total'' \<in> set METRICS" by (simp add: METRICS_def)
  from comparison_ranges_agree [OF j(1) r this j(2,3)] r show ?thesis by auto
qed

end
