(* ===== verification/Rpc.thy ===== *)
theory Rpc
  imports BankClient
begin

text \<open>
  The remote calls between client and server: the generated Python module \<^verbatim>\<open>generated/inference_pb2_grpc.py\<close> (stub, base
  servicer, registration, static calls), the method table the vendor's generated C++ service registers
  (\<^verbatim>\<open>vendor_server/generated/inference.grpc.pb.cc\<close>), and the requests and responses of \<^verbatim>\<open>proto/inference.proto\<close> with the
  fields the programs read. Protobuf and gRPC are not part of the repository: message serialisers and the channel are
  arguments, and the locales \<open>protobuf_codec\<close>, \<open>grpc_channel\<close> and \<open>experimental_call\<close> hold what their documentation
  promises of a call that ends before its deadline.
\<close>

section \<open>Messages\<close>

datatype 'w msg =
    InferenceRequest "'w inf_request" string
  | InferenceResponse "'w inf_response" timing
  | ProvisionGaloisKeysRequest "byte list"
  | ProvisionGaloisKeysResponse prov_state
  | CanaryRequest 'w
  | CanaryResponse prov_state "'w option"
  | CanaryConfirmRequest bool
  | CanaryConfirmResponse prov_state
  | ProvisioningStatusRequest
  | ProvisioningStatusResponse prov_state packing nat
  | CanaryTranscipherRequest "byte list" "byte list"
  | CanaryTranscipherResponse prov_state bool

text \<open>The message classes; \<open>class_of\<close> is a message's own.\<close>

datatype msg_class =
    InferenceRequestC | InferenceResponseC | ProvisionGaloisKeysRequestC | ProvisionGaloisKeysResponseC
  | CanaryRequestC | CanaryResponseC | CanaryConfirmRequestC | CanaryConfirmResponseC
  | ProvisioningStatusRequestC | ProvisioningStatusResponseC | CanaryTranscipherRequestC | CanaryTranscipherResponseC

fun class_of :: "'w msg \<Rightarrow> msg_class" where
  "class_of (InferenceRequest r i) = InferenceRequestC"
| "class_of (InferenceResponse r t) = InferenceResponseC"
| "class_of (ProvisionGaloisKeysRequest k) = ProvisionGaloisKeysRequestC"
| "class_of (ProvisionGaloisKeysResponse st) = ProvisionGaloisKeysResponseC"
| "class_of (CanaryRequest c) = CanaryRequestC"
| "class_of (CanaryResponse st c) = CanaryResponseC"
| "class_of (CanaryConfirmRequest p) = CanaryConfirmRequestC"
| "class_of (CanaryConfirmResponse st) = CanaryConfirmResponseC"
| "class_of ProvisioningStatusRequest = ProvisioningStatusRequestC"
| "class_of (ProvisioningStatusResponse st m n) = ProvisioningStatusResponseC"
| "class_of (CanaryTranscipherRequest c n) = CanaryTranscipherRequestC"
| "class_of (CanaryTranscipherResponse st p) = CanaryTranscipherResponseC"

text \<open>\<^verbatim>\<open>SerializeToString\<close> and \<^verbatim>\<open>FromString\<close> of each class; \<open>'b\<close> is what travels.\<close>

record ('w, 'b) protobuf =
  SerializeToString :: "msg_class \<Rightarrow> 'w msg \<Rightarrow> 'b"
  FromString :: "msg_class \<Rightarrow> 'b \<Rightarrow> 'w msg option"

section \<open>The generated stub\<close>

type_synonym ('m, 's) callable = "'m \<Rightarrow> 's \<Rightarrow> 'm res \<times> 's"

text \<open>\<^verbatim>\<open>channel.unary_unary(path, request_serializer, response_deserializer)\<close>.\<close>

type_synonym ('w, 'b, 's) unary_unary = "string \<Rightarrow> ('w msg \<Rightarrow> 'b) \<Rightarrow> ('b \<Rightarrow> 'w msg option) \<Rightarrow> ('w msg, 's) callable"

record ('m, 's) service_stub =
  call_RunInference :: "('m, 's) callable"
  call_ProvisionGaloisKeys :: "('m, 's) callable"
  call_CanaryCheck :: "('m, 's) callable"
  call_CanaryConfirm :: "('m, 's) callable"
  call_GetProvisioningStatus :: "('m, 's) callable"

definition FraudInferenceServiceStub ::
  "('w, 'b) protobuf \<Rightarrow> ('w, 'b, 's) unary_unary \<Rightarrow> ('w msg, 's) service_stub" where
  "FraudInferenceServiceStub P unary_unary = \<lparr>
     call_RunInference = unary_unary ''/ppfdaas.FraudInferenceService/RunInference''
       (SerializeToString P InferenceRequestC) (FromString P InferenceResponseC),
     call_ProvisionGaloisKeys = unary_unary ''/ppfdaas.FraudInferenceService/ProvisionGaloisKeys''
       (SerializeToString P ProvisionGaloisKeysRequestC) (FromString P ProvisionGaloisKeysResponseC),
     call_CanaryCheck = unary_unary ''/ppfdaas.FraudInferenceService/CanaryCheck''
       (SerializeToString P CanaryRequestC) (FromString P CanaryResponseC),
     call_CanaryConfirm = unary_unary ''/ppfdaas.FraudInferenceService/CanaryConfirm''
       (SerializeToString P CanaryConfirmRequestC) (FromString P CanaryConfirmResponseC),
     call_GetProvisioningStatus = unary_unary ''/ppfdaas.FraudInferenceService/GetProvisioningStatus''
       (SerializeToString P ProvisioningStatusRequestC) (FromString P ProvisioningStatusResponseC)\<rparr>"

section \<open>Servicers\<close>

text \<open>A method answers or raises, and may set a status code on its context.\<close>

datatype status_code = UNIMPLEMENTED | Status grpc_error

record rpc_context =
  ctx_code :: "status_code option"

definition fresh_context :: rpc_context where
  "fresh_context = \<lparr>ctx_code = None\<rparr>"

type_synonym ('m, 's) rpc_method = "'m \<Rightarrow> rpc_context \<Rightarrow> 's \<Rightarrow> 'm res \<times> rpc_context \<times> 's"

record ('m, 's) servicer =
  do_RunInference :: "('m, 's) rpc_method"
  do_ProvisionGaloisKeys :: "('m, 's) rpc_method"
  do_CanaryCheck :: "('m, 's) rpc_method"
  do_CanaryConfirm :: "('m, 's) rpc_method"
  do_GetProvisioningStatus :: "('m, 's) rpc_method"

definition not_implemented :: "('m, 's) rpc_method" where
  "not_implemented request context srv = (Raise NotImplementedError, context\<lparr>ctx_code := Some UNIMPLEMENTED\<rparr>, srv)"

definition FraudInferenceServiceServicer :: "('m, 's) servicer" where
  "FraudInferenceServiceServicer = \<lparr>
     do_RunInference = not_implemented,
     do_ProvisionGaloisKeys = not_implemented,
     do_CanaryCheck = not_implemented,
     do_CanaryConfirm = not_implemented,
     do_GetProvisioningStatus = not_implemented\<rparr>"

record ('w, 'b, 's) method_handler =
  h_behaviour :: "('w msg, 's) rpc_method"
  h_deserializer :: "'b \<Rightarrow> 'w msg option"
  h_serializer :: "'w msg \<Rightarrow> 'b"

text \<open>A server's generic handlers: service names with their methods, in the order they were added.\<close>

type_synonym ('w, 'b, 's) handlers = "(string \<times> (string \<times> ('w, 'b, 's) method_handler) list) list"

definition add_FraudInferenceServiceServicer_to_server ::
  "('w, 'b) protobuf \<Rightarrow> ('w msg, 's) servicer \<Rightarrow> ('w, 'b, 's) handlers \<Rightarrow> ('w, 'b, 's) handlers" where
  "add_FraudInferenceServiceServicer_to_server P servicer server =
     (let rpc_method_handlers =
        [(''RunInference'', \<lparr>h_behaviour = do_RunInference servicer,
            h_deserializer = FromString P InferenceRequestC, h_serializer = SerializeToString P InferenceResponseC\<rparr>),
         (''ProvisionGaloisKeys'', \<lparr>h_behaviour = do_ProvisionGaloisKeys servicer,
            h_deserializer = FromString P ProvisionGaloisKeysRequestC, h_serializer = SerializeToString P ProvisionGaloisKeysResponseC\<rparr>),
         (''CanaryCheck'', \<lparr>h_behaviour = do_CanaryCheck servicer,
            h_deserializer = FromString P CanaryRequestC, h_serializer = SerializeToString P CanaryResponseC\<rparr>),
         (''CanaryConfirm'', \<lparr>h_behaviour = do_CanaryConfirm servicer,
            h_deserializer = FromString P CanaryConfirmRequestC, h_serializer = SerializeToString P CanaryConfirmResponseC\<rparr>),
         (''GetProvisioningStatus'', \<lparr>h_behaviour = do_GetProvisioningStatus servicer,
            h_deserializer = FromString P ProvisioningStatusRequestC, h_serializer = SerializeToString P ProvisioningStatusResponseC\<rparr>)]
      in server @ [(''ppfdaas.FraudInferenceService'', rpc_method_handlers)])"

text \<open>The table of full method names \<^verbatim>\<open>/service/method\<close> such handlers amount to; an earlier one takes precedence.\<close>

definition method_table :: "('w, 'b, 's) handlers \<Rightarrow> (string \<times> ('w, 'b, 's) method_handler) list" where
  "method_table gs = concat (map (\<lambda>(service, ms). map (\<lambda>(name, h). (''/'' @ service @ ''/'' @ name, h)) ms) gs)"

section \<open>The generated static calls\<close>

type_synonym ('w, 'b, 's, 'o, 'cc, 'ca, 'co, 'wr, 'to, 'md) experimental =
  "'w msg \<Rightarrow> string \<Rightarrow> string \<Rightarrow> ('w msg \<Rightarrow> 'b) \<Rightarrow> ('b \<Rightarrow> 'w msg option) \<Rightarrow> 'o \<Rightarrow> 'cc \<Rightarrow> bool \<Rightarrow> 'ca \<Rightarrow> 'co \<Rightarrow> 'wr \<Rightarrow> 'to \<Rightarrow> 'md
   \<Rightarrow> 's \<Rightarrow> 'w msg res \<times> 's"

text \<open>The five static methods differ in path and message classes only; \<^verbatim>\<open>grpc.experimental.unary_unary\<close> takes
  \<^verbatim>\<open>insecure\<close> before \<^verbatim>\<open>call_credentials\<close>, the methods the other way round.\<close>

definition FraudInferenceService_RunInference ::
  "('w, 'b) protobuf \<Rightarrow> ('w, 'b, 's, 'o, 'cc, 'ca, 'co, 'wr, 'to, 'md) experimental
   \<Rightarrow> 'w msg \<Rightarrow> string \<Rightarrow> 'o \<Rightarrow> 'cc \<Rightarrow> 'ca \<Rightarrow> bool \<Rightarrow> 'co \<Rightarrow> 'wr \<Rightarrow> 'to \<Rightarrow> 'md \<Rightarrow> 's \<Rightarrow> 'w msg res \<times> 's" where
  "FraudInferenceService_RunInference P uu request target options channel_credentials call_credentials insecure compression
      wait_for_ready timeout metadata =
     uu request target ''/ppfdaas.FraudInferenceService/RunInference''
       (SerializeToString P InferenceRequestC) (FromString P InferenceResponseC)
       options channel_credentials insecure call_credentials compression wait_for_ready timeout metadata"

definition FraudInferenceService_ProvisionGaloisKeys ::
  "('w, 'b) protobuf \<Rightarrow> ('w, 'b, 's, 'o, 'cc, 'ca, 'co, 'wr, 'to, 'md) experimental
   \<Rightarrow> 'w msg \<Rightarrow> string \<Rightarrow> 'o \<Rightarrow> 'cc \<Rightarrow> 'ca \<Rightarrow> bool \<Rightarrow> 'co \<Rightarrow> 'wr \<Rightarrow> 'to \<Rightarrow> 'md \<Rightarrow> 's \<Rightarrow> 'w msg res \<times> 's" where
  "FraudInferenceService_ProvisionGaloisKeys P uu request target options channel_credentials call_credentials insecure compression
      wait_for_ready timeout metadata =
     uu request target ''/ppfdaas.FraudInferenceService/ProvisionGaloisKeys''
       (SerializeToString P ProvisionGaloisKeysRequestC) (FromString P ProvisionGaloisKeysResponseC)
       options channel_credentials insecure call_credentials compression wait_for_ready timeout metadata"

definition FraudInferenceService_CanaryCheck ::
  "('w, 'b) protobuf \<Rightarrow> ('w, 'b, 's, 'o, 'cc, 'ca, 'co, 'wr, 'to, 'md) experimental
   \<Rightarrow> 'w msg \<Rightarrow> string \<Rightarrow> 'o \<Rightarrow> 'cc \<Rightarrow> 'ca \<Rightarrow> bool \<Rightarrow> 'co \<Rightarrow> 'wr \<Rightarrow> 'to \<Rightarrow> 'md \<Rightarrow> 's \<Rightarrow> 'w msg res \<times> 's" where
  "FraudInferenceService_CanaryCheck P uu request target options channel_credentials call_credentials insecure compression
      wait_for_ready timeout metadata =
     uu request target ''/ppfdaas.FraudInferenceService/CanaryCheck''
       (SerializeToString P CanaryRequestC) (FromString P CanaryResponseC)
       options channel_credentials insecure call_credentials compression wait_for_ready timeout metadata"

definition FraudInferenceService_CanaryConfirm ::
  "('w, 'b) protobuf \<Rightarrow> ('w, 'b, 's, 'o, 'cc, 'ca, 'co, 'wr, 'to, 'md) experimental
   \<Rightarrow> 'w msg \<Rightarrow> string \<Rightarrow> 'o \<Rightarrow> 'cc \<Rightarrow> 'ca \<Rightarrow> bool \<Rightarrow> 'co \<Rightarrow> 'wr \<Rightarrow> 'to \<Rightarrow> 'md \<Rightarrow> 's \<Rightarrow> 'w msg res \<times> 's" where
  "FraudInferenceService_CanaryConfirm P uu request target options channel_credentials call_credentials insecure compression
      wait_for_ready timeout metadata =
     uu request target ''/ppfdaas.FraudInferenceService/CanaryConfirm''
       (SerializeToString P CanaryConfirmRequestC) (FromString P CanaryConfirmResponseC)
       options channel_credentials insecure call_credentials compression wait_for_ready timeout metadata"

definition FraudInferenceService_GetProvisioningStatus ::
  "('w, 'b) protobuf \<Rightarrow> ('w, 'b, 's, 'o, 'cc, 'ca, 'co, 'wr, 'to, 'md) experimental
   \<Rightarrow> 'w msg \<Rightarrow> string \<Rightarrow> 'o \<Rightarrow> 'cc \<Rightarrow> 'ca \<Rightarrow> bool \<Rightarrow> 'co \<Rightarrow> 'wr \<Rightarrow> 'to \<Rightarrow> 'md \<Rightarrow> 's \<Rightarrow> 'w msg res \<times> 's" where
  "FraudInferenceService_GetProvisioningStatus P uu request target options channel_credentials call_credentials insecure compression
      wait_for_ready timeout metadata =
     uu request target ''/ppfdaas.FraudInferenceService/GetProvisioningStatus''
       (SerializeToString P ProvisioningStatusRequestC) (FromString P ProvisioningStatusResponseC)
       options channel_credentials insecure call_credentials compression wait_for_ready timeout metadata"

section \<open>The vendor's service\<close>

text \<open>The C++ service has one method more; its methods return a status or fill in the response.\<close>

record ('m, 's) cpp_service =
  cpp_RunInference :: "'m \<Rightarrow> 's \<Rightarrow> (status_code + 'm) \<times> 's"
  cpp_ProvisionGaloisKeys :: "'m \<Rightarrow> 's \<Rightarrow> (status_code + 'm) \<times> 's"
  cpp_CanaryCheck :: "'m \<Rightarrow> 's \<Rightarrow> (status_code + 'm) \<times> 's"
  cpp_CanaryConfirm :: "'m \<Rightarrow> 's \<Rightarrow> (status_code + 'm) \<times> 's"
  cpp_GetProvisioningStatus :: "'m \<Rightarrow> 's \<Rightarrow> (status_code + 'm) \<times> 's"
  cpp_CanaryCheckTranscipher :: "'m \<Rightarrow> 's \<Rightarrow> (status_code + 'm) \<times> 's"

definition cpp_base_service :: "('m, 's) cpp_service" where
  "cpp_base_service = \<lparr>
     cpp_RunInference = (\<lambda>request srv. (Inl UNIMPLEMENTED, srv)),
     cpp_ProvisionGaloisKeys = (\<lambda>request srv. (Inl UNIMPLEMENTED, srv)),
     cpp_CanaryCheck = (\<lambda>request srv. (Inl UNIMPLEMENTED, srv)),
     cpp_CanaryConfirm = (\<lambda>request srv. (Inl UNIMPLEMENTED, srv)),
     cpp_GetProvisioningStatus = (\<lambda>request srv. (Inl UNIMPLEMENTED, srv)),
     cpp_CanaryCheckTranscipher = (\<lambda>request srv. (Inl UNIMPLEMENTED, srv))\<rparr>"

definition cpp_method_names :: "string list" where
  "cpp_method_names =
     [''/ppfdaas.FraudInferenceService/RunInference'', ''/ppfdaas.FraudInferenceService/ProvisionGaloisKeys'',
      ''/ppfdaas.FraudInferenceService/CanaryCheck'', ''/ppfdaas.FraudInferenceService/CanaryConfirm'',
      ''/ppfdaas.FraudInferenceService/GetProvisioningStatus'', ''/ppfdaas.FraudInferenceService/CanaryCheckTranscipher'']"

text \<open>A C++ method seen as a method with a context: a status other than OK ends the call with that code.\<close>

definition of_status :: "('m \<Rightarrow> 's \<Rightarrow> (status_code + 'm) \<times> 's) \<Rightarrow> ('m, 's) rpc_method" where
  "of_status f request context srv =
     (case f request srv of
        (Inl code, srv1) \<Rightarrow> (Raise RpcError, context\<lparr>ctx_code := Some code\<rparr>, srv1)
      | (Inr response, srv1) \<Rightarrow> (Ret response, context, srv1))"

definition cpp_service_table ::
  "('w, 'b) protobuf \<Rightarrow> ('w msg, 's) cpp_service \<Rightarrow> (string \<times> ('w, 'b, 's) method_handler) list" where
  "cpp_service_table P service =
     [(cpp_method_names ! 0, \<lparr>h_behaviour = of_status (cpp_RunInference service),
         h_deserializer = FromString P InferenceRequestC, h_serializer = SerializeToString P InferenceResponseC\<rparr>),
      (cpp_method_names ! 1, \<lparr>h_behaviour = of_status (cpp_ProvisionGaloisKeys service),
         h_deserializer = FromString P ProvisionGaloisKeysRequestC, h_serializer = SerializeToString P ProvisionGaloisKeysResponseC\<rparr>),
      (cpp_method_names ! 2, \<lparr>h_behaviour = of_status (cpp_CanaryCheck service),
         h_deserializer = FromString P CanaryRequestC, h_serializer = SerializeToString P CanaryResponseC\<rparr>),
      (cpp_method_names ! 3, \<lparr>h_behaviour = of_status (cpp_CanaryConfirm service),
         h_deserializer = FromString P CanaryConfirmRequestC, h_serializer = SerializeToString P CanaryConfirmResponseC\<rparr>),
      (cpp_method_names ! 4, \<lparr>h_behaviour = of_status (cpp_GetProvisioningStatus service),
         h_deserializer = FromString P ProvisioningStatusRequestC, h_serializer = SerializeToString P ProvisioningStatusResponseC\<rparr>),
      (cpp_method_names ! 5, \<lparr>h_behaviour = of_status (cpp_CanaryCheckTranscipher service),
         h_deserializer = FromString P CanaryTranscipherRequestC, h_serializer = SerializeToString P CanaryTranscipherResponseC\<rparr>)]"

text \<open>\<^verbatim>\<open>FraudInferenceServiceImpl160\<close> overrides all six; a message of another class does not reach a method.\<close>

definition vendor_service :: "('c, 'w, 'g) seal \<Rightarrow> (nat \<Rightarrow> real) \<Rightarrow> timing \<Rightarrow> ('w msg, 'g server) cpp_service" where
  "vendor_service S rnd tm = \<lparr>
     cpp_RunInference = (\<lambda>q sv. case q of
         InferenceRequest rq inst \<Rightarrow> (case RunInference S rnd rq sv of
             (Inl e, sv1) \<Rightarrow> (Inl (Status e), sv1) | (Inr rs, sv1) \<Rightarrow> (Inr (InferenceResponse rs tm), sv1))
       | _ \<Rightarrow> (Inl UNIMPLEMENTED, sv)),
     cpp_ProvisionGaloisKeys = (\<lambda>q sv. case q of
         ProvisionGaloisKeysRequest k \<Rightarrow> (case ProvisionGaloisKeys S k sv of
             (Inl e, sv1) \<Rightarrow> (Inl (Status e), sv1) | (Inr st, sv1) \<Rightarrow> (Inr (ProvisionGaloisKeysResponse st), sv1))
       | _ \<Rightarrow> (Inl UNIMPLEMENTED, sv)),
     cpp_CanaryCheck = (\<lambda>q sv. case q of
         CanaryRequest c \<Rightarrow> (case CanaryCheck S c sv of
             (Inl e, sv1) \<Rightarrow> (Inl (Status e), sv1) | (Inr (st, ct), sv1) \<Rightarrow> (Inr (CanaryResponse st ct), sv1))
       | _ \<Rightarrow> (Inl UNIMPLEMENTED, sv)),
     cpp_CanaryConfirm = (\<lambda>q sv. case q of
         CanaryConfirmRequest p \<Rightarrow> (case CanaryConfirm p sv of (st, sv1) \<Rightarrow> (Inr (CanaryConfirmResponse st), sv1))
       | _ \<Rightarrow> (Inl UNIMPLEMENTED, sv)),
     cpp_GetProvisioningStatus = (\<lambda>q sv. case GetProvisioningStatus sv of (st, m, n) \<Rightarrow> (Inr (ProvisioningStatusResponse st m n), sv)),
     cpp_CanaryCheckTranscipher = (\<lambda>q sv. case CanaryCheckTranscipher sv of (st, p) \<Rightarrow> (Inr (CanaryTranscipherResponse st p), sv))\<rparr>"

text \<open>The same handlers as a Python servicer.\<close>

definition python_servicer :: "('m, 's) cpp_service \<Rightarrow> ('m, 's) servicer" where
  "python_servicer service = \<lparr>
     do_RunInference = of_status (cpp_RunInference service),
     do_ProvisionGaloisKeys = of_status (cpp_ProvisionGaloisKeys service),
     do_CanaryCheck = of_status (cpp_CanaryCheck service),
     do_CanaryConfirm = of_status (cpp_CanaryConfirm service),
     do_GetProvisioningStatus = of_status (cpp_GetProvisioningStatus service)\<rparr>"

section \<open>The bank's calls\<close>

text \<open>How \<^verbatim>\<open>BankClient\<close> uses the stub: the request it builds for each call and the fields of the response it reads. A
  response of another class has no such field.\<close>

definition bank_stub :: "string \<Rightarrow> ('w msg, 's) service_stub \<Rightarrow> ('s, 'w) stub" where
  "bank_stub institution_id st = \<lparr>
     stub_provision = (\<lambda>k s. case call_ProvisionGaloisKeys st (ProvisionGaloisKeysRequest k) s of
         (Inl e, s1) \<Rightarrow> (Inl e, s1)
       | (Inr r, s1) \<Rightarrow> (case r of ProvisionGaloisKeysResponse state \<Rightarrow> (Ret state, s1) | _ \<Rightarrow> (Raise AttributeError, s1))),
     stub_canary = (\<lambda>c s. case call_CanaryCheck st (CanaryRequest c) s of
         (Inl e, s1) \<Rightarrow> (Inl e, s1)
       | (Inr r, s1) \<Rightarrow> (case r of CanaryResponse state ct \<Rightarrow> (Ret (state, ct), s1) | _ \<Rightarrow> (Raise AttributeError, s1))),
     stub_confirm = (\<lambda>p s. case call_CanaryConfirm st (CanaryConfirmRequest p) s of
         (Inl e, s1) \<Rightarrow> (Inl e, s1)
       | (Inr r, s1) \<Rightarrow> (case r of CanaryConfirmResponse state \<Rightarrow> (Ret state, s1) | _ \<Rightarrow> (Raise AttributeError, s1))),
     stub_status = (\<lambda>s. case call_GetProvisioningStatus st ProvisioningStatusRequest s of
         (Inl e, s1) \<Rightarrow> (Inl e, s1)
       | (Inr r, s1) \<Rightarrow> (case r of ProvisioningStatusResponse state m n \<Rightarrow> (Ret state, s1) | _ \<Rightarrow> (Raise AttributeError, s1))),
     stub_run = (\<lambda>rq s. case call_RunInference st (InferenceRequest rq institution_id) s of
         (Inl e, s1) \<Rightarrow> (Inl e, s1)
       | (Inr r, s1) \<Rightarrow> (case r of InferenceResponse resp t \<Rightarrow> (Ret (resp, t), s1) | _ \<Rightarrow> (Raise AttributeError, s1)))\<rparr>"

section \<open>What protobuf and gRPC promise\<close>

text \<open>Parsing what a class wrote gives the message back. A call over a channel to a server with method table \<open>T\<close> runs the
  behaviour of the method of that name on the parsed request with a fresh context; the client gets the response, or
  \<^verbatim>\<open>RpcError\<close> when the method raised, set a code, or does not exist.\<close>

locale protobuf_codec =
  fixes P :: "('w, 'b) protobuf"
  assumes parse_serialise: "FromString P (class_of m) (SerializeToString P (class_of m) m) = Some m"

locale grpc_channel = protobuf_codec P for P :: "('w, 'b) protobuf" +
  fixes T :: "(string \<times> ('w, 'b, 's) method_handler) list" and uu :: "('w, 'b, 's) unary_unary"
  assumes served: "map_of T path = Some h \<Longrightarrow> h_deserializer h (ser q) = Some q' \<Longrightarrow>
        h_behaviour h q' fresh_context s = (Ret r, ctx, s') \<Longrightarrow> ctx_code ctx = None \<Longrightarrow> deser (h_serializer h r) = Some r' \<Longrightarrow>
        uu path ser deser q s = (Ret r', s')"
    and failed: "map_of T path = Some h \<Longrightarrow> h_deserializer h (ser q) = Some q' \<Longrightarrow>
        h_behaviour h q' fresh_context s = (out, ctx, s') \<Longrightarrow> ctx_code ctx \<noteq> None \<or> \<not> is_ret out \<Longrightarrow>
        uu path ser deser q s = (Raise RpcError, s')"
    and unknown: "map_of T path = None \<Longrightarrow> uu path ser deser q s = (Raise RpcError, s)"
begin

text \<open>A method registered with the classes the caller uses is called as if it were local.\<close>

lemma call:
  assumes "map_of T path = Some \<lparr>h_behaviour = of_status f, h_deserializer = FromString P C, h_serializer = SerializeToString P D\<rparr>"
    and "class_of q = C" "\<And>r s'. f q s = (Inr r, s') \<Longrightarrow> class_of r = D"
  shows "uu path (SerializeToString P C) (FromString P D) q s =
    (case f q s of (Inl c, s') \<Rightarrow> (Raise RpcError, s') | (Inr r, s') \<Rightarrow> (Ret r, s'))"
proof (cases "f q s")
  case (Pair out s')
  have q: "FromString P C (SerializeToString P C q) = Some q" using parse_serialise [of q] assms(2) by simp
  show ?thesis
  proof (cases out)
    case (Inl c)
    then show ?thesis
      using failed [OF assms(1), of "SerializeToString P C" q q s] q Pair
      by (simp add: of_status_def fresh_context_def)
  next
    case (Inr r)
    then show ?thesis
      using served [OF assms(1), of "SerializeToString P C" q q s r fresh_context s' "FromString P D" r]
        parse_serialise [of r] assms(3) q Pair
      by (simp add: of_status_def fresh_context_def)
  qed
qed

end

text \<open>A service whose responses are of the class each method declares.\<close>

definition well_typed :: "('w msg, 's) cpp_service \<Rightarrow> bool" where
  "well_typed service \<longleftrightarrow> (\<forall>q s r s'.
     (cpp_RunInference service q s = (Inr r, s') \<longrightarrow> class_of r = InferenceResponseC)
   \<and> (cpp_ProvisionGaloisKeys service q s = (Inr r, s') \<longrightarrow> class_of r = ProvisionGaloisKeysResponseC)
   \<and> (cpp_CanaryCheck service q s = (Inr r, s') \<longrightarrow> class_of r = CanaryResponseC)
   \<and> (cpp_CanaryConfirm service q s = (Inr r, s') \<longrightarrow> class_of r = CanaryConfirmResponseC)
   \<and> (cpp_GetProvisioningStatus service q s = (Inr r, s') \<longrightarrow> class_of r = ProvisioningStatusResponseC))"

lemma vendor_service_well_typed: "well_typed (vendor_service S rnd tm)"
  unfolding well_typed_def by (auto simp: vendor_service_def split: msg.splits prod.splits sum.splits)

text \<open>Both registrations hold the five common methods.\<close>

definition serves :: "('w, 'b) protobuf \<Rightarrow> ('w msg, 's) cpp_service \<Rightarrow> (string \<times> ('w, 'b, 's) method_handler) list \<Rightarrow> bool" where
  "serves P service T \<longleftrightarrow> (\<forall>e \<in> set (take 5 (cpp_service_table P service)). map_of T (fst e) = Some (snd e))"

lemma cpp_serves: "serves P service (cpp_service_table P service)"
  by (simp add: serves_def cpp_service_table_def cpp_method_names_def)

lemma python_serves:
  "serves P service (method_table (add_FraudInferenceServiceServicer_to_server P (python_servicer service) []))"
  by (simp add: serves_def cpp_service_table_def cpp_method_names_def method_table_def
      add_FraudInferenceServiceServicer_to_server_def python_servicer_def)

text \<open>What a local call of a service gives a client.\<close>

definition local_call :: "('m \<Rightarrow> 's \<Rightarrow> (status_code + 'm) \<times> 's) \<Rightarrow> ('m, 's) callable" where
  "local_call f q s = (case f q s of (Inl c, s') \<Rightarrow> (Raise RpcError, s') | (Inr r, s') \<Rightarrow> (Ret r, s'))"

context grpc_channel
begin

lemma stub_calls:
  assumes "serves P service T" "well_typed service"
  shows "class_of q = InferenceRequestC \<Longrightarrow>
      call_RunInference (FraudInferenceServiceStub P uu) q s = local_call (cpp_RunInference service) q s"
    and "class_of q = ProvisionGaloisKeysRequestC \<Longrightarrow>
      call_ProvisionGaloisKeys (FraudInferenceServiceStub P uu) q s = local_call (cpp_ProvisionGaloisKeys service) q s"
    and "class_of q = CanaryRequestC \<Longrightarrow>
      call_CanaryCheck (FraudInferenceServiceStub P uu) q s = local_call (cpp_CanaryCheck service) q s"
    and "class_of q = CanaryConfirmRequestC \<Longrightarrow>
      call_CanaryConfirm (FraudInferenceServiceStub P uu) q s = local_call (cpp_CanaryConfirm service) q s"
    and "class_of q = ProvisioningStatusRequestC \<Longrightarrow>
      call_GetProvisioningStatus (FraudInferenceServiceStub P uu) q s = local_call (cpp_GetProvisioningStatus service) q s"
  using assms unfolding serves_def cpp_service_table_def cpp_method_names_def well_typed_def
  by (simp_all add: FraudInferenceServiceStub_def local_call_def call)

end

lemma stub_is_vendor:
  assumes "grpc_channel P T uu" "serves P (vendor_service S rnd tm) T"
  shows "bank_stub inst (FraudInferenceServiceStub P uu) = vendor_stub S rnd tm"
proof -
  note calls = grpc_channel.stub_calls [OF assms vendor_service_well_typed]
  show ?thesis
    unfolding bank_stub_def vendor_stub_def
    by (simp add: fun_eq_iff calls local_call_def vendor_service_def GetProvisioningStatus_def split: prod.splits sum.splits)
qed

section \<open>The static calls\<close>

text \<open>\<^verbatim>\<open>grpc.experimental.unary_unary\<close> opens a channel to its target and makes one call over it.\<close>

locale experimental_call = grpc_channel P T uu
  for P :: "('w, 'b) protobuf" and T :: "(string \<times> ('w, 'b, 's) method_handler) list" and uu :: "('w, 'b, 's) unary_unary" +
  fixes xuu :: "('w, 'b, 's, 'o, 'cc, 'ca, 'co, 'wr, 'to, 'md) experimental"
  assumes one_call: "xuu q target path ser deser opts cc ins ca co wr tmo md s = uu path ser deser q s"
begin

lemma static_calls:
  "FraudInferenceService_RunInference P xuu q target opts cc ca ins co wr tmo md = call_RunInference (FraudInferenceServiceStub P uu) q"
  "FraudInferenceService_ProvisionGaloisKeys P xuu q target opts cc ca ins co wr tmo md
     = call_ProvisionGaloisKeys (FraudInferenceServiceStub P uu) q"
  "FraudInferenceService_CanaryCheck P xuu q target opts cc ca ins co wr tmo md = call_CanaryCheck (FraudInferenceServiceStub P uu) q"
  "FraudInferenceService_CanaryConfirm P xuu q target opts cc ca ins co wr tmo md
     = call_CanaryConfirm (FraudInferenceServiceStub P uu) q"
  "FraudInferenceService_GetProvisioningStatus P xuu q target opts cc ca ins co wr tmo md
     = call_GetProvisioningStatus (FraudInferenceServiceStub P uu) q"
  by (simp_all add: fun_eq_iff one_call FraudInferenceServiceStub_def FraudInferenceService_RunInference_def
      FraudInferenceService_ProvisionGaloisKeys_def FraudInferenceService_CanaryCheck_def
      FraudInferenceService_CanaryConfirm_def FraudInferenceService_GetProvisioningStatus_def)

end

section \<open>Servers that lack a method\<close>

text \<open>A server whose servicer overrides nothing refuses every call and keeps its state.\<close>

definition base_table :: "('w, 'b) protobuf \<Rightarrow> (string \<times> ('w, 'b, 's) method_handler) list" where
  "base_table P = method_table (add_FraudInferenceServiceServicer_to_server P FraudInferenceServiceServicer [])"

context grpc_channel
begin

lemma refused:
  assumes "map_of T path = Some \<lparr>h_behaviour = not_implemented, h_deserializer = FromString P C, h_serializer = SerializeToString P D\<rparr>"
    and "class_of q = C"
  shows "uu path (SerializeToString P C) deser q s = (Raise RpcError, s)"
  using failed [OF assms(1), of "SerializeToString P C" q q s "Raise NotImplementedError"] parse_serialise [of q] assms(2)
  by (simp add: not_implemented_def)

lemma base_servicer_refuses:
  assumes "T = base_table P"
  shows "class_of q = InferenceRequestC \<Longrightarrow> call_RunInference (FraudInferenceServiceStub P uu) q s = (Raise RpcError, s)"
    and "class_of q = ProvisionGaloisKeysRequestC \<Longrightarrow>
      call_ProvisionGaloisKeys (FraudInferenceServiceStub P uu) q s = (Raise RpcError, s)"
    and "class_of q = CanaryRequestC \<Longrightarrow> call_CanaryCheck (FraudInferenceServiceStub P uu) q s = (Raise RpcError, s)"
    and "class_of q = CanaryConfirmRequestC \<Longrightarrow> call_CanaryConfirm (FraudInferenceServiceStub P uu) q s = (Raise RpcError, s)"
    and "class_of q = ProvisioningStatusRequestC \<Longrightarrow>
      call_GetProvisioningStatus (FraudInferenceServiceStub P uu) q s = (Raise RpcError, s)"
  using assms
  by (simp_all add: FraudInferenceServiceStub_def refused base_table_def method_table_def
      add_FraudInferenceServiceServicer_to_server_def FraudInferenceServiceServicer_def)

end

lemma base_servicer_refuses_bank:
  assumes "grpc_channel P (base_table P) uu"
  shows "run_inference S expit (bank_stub inst (FraudInferenceServiceStub P uu)) clk u X cl srv = (r, cl', srv') \<Longrightarrow> srv' = srv"
    and "fst (provision_and_validate S (bank_stub inst (FraudInferenceServiceStub P uu)) fs p srv) \<noteq> Ret st"
  using grpc_channel.base_servicer_refuses [OF assms refl]
  by (auto simp: run_inference_def provision_and_validate_def bank_stub_def Let_def split: list.splits if_splits sum.splits)

section \<open>The method the generated module lacks\<close>

text \<open>\<^verbatim>\<open>inference.proto\<close> and the C++ service have \<^verbatim>\<open>CanaryCheckTranscipher\<close>; the Python module has no caller for it and a
  Python server does not know it.\<close>

lemma transcipher_missing_in_python:
  "map_of (method_table (add_FraudInferenceServiceServicer_to_server P servicer []))
     ''/ppfdaas.FraudInferenceService/CanaryCheckTranscipher'' = None"
  "map_of (cpp_service_table P service) ''/ppfdaas.FraudInferenceService/CanaryCheckTranscipher'' \<noteq> None"
  by (simp_all add: method_table_def add_FraudInferenceServiceServicer_to_server_def cpp_service_table_def cpp_method_names_def)

section \<open>A channel within the process\<close>

definition tagged :: "('w, msg_class \<times> 'w msg) protobuf" where
  "tagged = \<lparr>SerializeToString = (\<lambda>c m. (c, m)), FromString = (\<lambda>c (d, m). if c = d then Some m else None)\<rparr>"

definition inproc :: "(string \<times> ('w, 'b, 's) method_handler) list \<Rightarrow> ('w, 'b, 's) unary_unary" where
  "inproc T path ser deser q s =
     (case map_of T path of
        None \<Rightarrow> (Raise RpcError, s)
      | Some h \<Rightarrow> (case h_deserializer h (ser q) of
          None \<Rightarrow> (Raise RpcError, s)
        | Some q' \<Rightarrow> (case h_behaviour h q' fresh_context s of
            (Inl e, ctx, s') \<Rightarrow> (Raise RpcError, s')
          | (Inr r, ctx, s') \<Rightarrow>
              if ctx_code ctx \<noteq> None then (Raise RpcError, s')
              else (case deser (h_serializer h r) of None \<Rightarrow> (Raise RpcError, s') | Some r' \<Rightarrow> (Ret r', s')))))"

interpretation tagged: protobuf_codec tagged
  by standard (simp add: tagged_def)

interpretation inproc: grpc_channel tagged T "inproc T" for T
  by standard (auto simp: inproc_def res_simps split: sum.splits)

interpretation inproc_static: experimental_call tagged T "inproc T"
    "\<lambda>q target path ser deser opts cc ins ca co wr tmo md. inproc T path ser deser q" for T
  by standard simp

section \<open>Properties\<close>

text \<open>C7. The deployed calls are local calls. For every protobuf and gRPC that keep their promises, the generated Python stub,
  used the way the bank's client uses it and connected to a server that registers the vendor's handlers (the generated C++
  service, or a Python servicer under the generated registration), is the vendor's handlers themselves: each call reaches
  the handler of its name with the request the bank built, and the answer, a refusal included, comes back unchanged. All
  end-to-end theorems over \<open>vendor_stub\<close> therefore hold over the wire.\<close>

theorem wire_refines_vendor:
  assumes "grpc_channel P T uu"
    and "T = cpp_service_table P (vendor_service S rnd tm)
       \<or> T = method_table (add_FraudInferenceServiceServicer_to_server P (python_servicer (vendor_service S rnd tm)) [])"
  shows "bank_stub institution_id (FraudInferenceServiceStub P uu) = vendor_stub S rnd tm"
  using stub_is_vendor [OF assms(1)] assms(2) cpp_serves python_serves by metis

theorem wire_refines_vendor_witness:
  "bank_stub ''BANK_001'' (FraudInferenceServiceStub tagged (inproc (cpp_service_table tagged (vendor_service plain_seal (\<lambda>_. 0) demo_timing))))
     = vendor_stub plain_seal (\<lambda>_. 0) demo_timing
   \<and> fst (stub_status (bank_stub ''BANK_001'' (FraudInferenceServiceStub tagged
        (inproc (cpp_service_table tagged (vendor_service plain_seal (\<lambda>_. 0) demo_timing))))) (demo_server SLOT)) = Ret PROV_READY"
  using wire_refines_vendor [OF inproc.grpc_channel_axioms disjI1 [OF refl], where S = plain_seal and tm = demo_timing]
  by (simp add: vendor_stub_def GetProvisioningStatus_def)

end
