(* ===== verification/BenchHost.thy ===== *)
theory BenchHost
  imports CnpBench
begin

text \<open>
  What \<^verbatim>\<open>scripts/cnp_bench.py\<close> knows about its host: the core lists of its command line, the machine description in its
  report, the time of a key generation, and the one-time import of the wrapper module (\<^verbatim>\<open>get_wrapper\<close> of
  \<^verbatim>\<open>scripts/cnp_common.py\<close>). Files of \<^verbatim>\<open>/sys\<close> and \<^verbatim>\<open>/proc\<close>, the environment, git, the clock and the importer are arguments.
\<close>

section \<open>Core lists\<close>

definition parse_part :: "string \<Rightarrow> int list res" where
  "parse_part part =
     (if CHR ''-'' \<in> set part then
        (case split_on CHR ''-'' part of
           [lo, hi] \<Rightarrow> rbind (py_int lo) (\<lambda>l. rbind (py_int hi) (\<lambda>h. Ret [l..h]))
         | _ \<Rightarrow> Raise ValueError)
      else rbind (py_int part) (\<lambda>n. Ret [n]))"

definition parse_cores :: "string option \<Rightarrow> int set option res" where
  "parse_cores spec =
     (case spec of
        None \<Rightarrow> Ret None
      | Some s \<Rightarrow>
        if s = [] then Ret None
        else rbind (rmap parse_part (split_on CHR '','' s)) (\<lambda>ps. Ret (Some (set (concat ps)))))"

text \<open>No core number is negative, since a minus sign is always taken as a range.\<close>

lemma parse_part_nonneg:
  assumes "parse_part p = Ret xs" "x \<in> set xs"
  shows "0 \<le> x"
proof (cases "CHR ''-'' \<in> set p")
  case True
  then obtain lo hi l h where s: "split_on CHR ''-'' p = [lo, hi]" and v: "py_int lo = Ret l" "py_int hi = Ret h" "xs = [l..h]"
    using assms(1) by (auto simp: parse_part_def res_simps split: list.splits)
  have "CHR ''-'' \<notin> set lo" using split_on_chars [of lo "CHR ''-''" p] s by simp
  then have "0 \<le> l" using py_int_nonneg [OF v(1)] by simp
  then show ?thesis using assms(2) v(3) by simp
next
  case False
  then show ?thesis using assms py_int_nonneg [of p] by (auto simp: parse_part_def res_simps)
qed

lemma parse_cores_nonneg:
  assumes "parse_cores spec = Ret (Some cs)"
  shows "finite cs \<and> (\<forall>c \<in> cs. 0 \<le> c)"
proof -
  obtain s ps where ps: "rmap parse_part (split_on CHR '','' s) = Ret ps" and cs: "cs = set (concat ps)"
    using assms by (auto simp: parse_cores_def res_simps split: option.splits if_splits)
  have "\<exists>p. parse_part p = Ret xs" if "xs \<in> set ps" for xs
    using that ps by (auto simp: rmap_Ret_iff list_all2_conv_all_nth in_set_conv_nth)
  then show ?thesis unfolding cs using parse_part_nonneg by fastforce
qed

section \<open>What a core list denotes\<close>

text \<open>A list of ranges, written as the option's help does.\<close>

definition show_range :: "nat \<times> nat \<Rightarrow> string" where
  "show_range r = (case r of (a, b) \<Rightarrow> if a = b then py_str a else py_str a @ ''-'' @ py_str b)"

definition show_cores :: "(nat \<times> nat) list \<Rightarrow> string" where
  "show_cores rs = join_with '','' (map show_range rs)"

lemma parse_show_range: "parse_part (show_range (a, b)) = Ret [int a..int b]"
proof (cases "a = b")
  case False
  have "split_on CHR ''-'' (py_str a @ CHR ''-'' # py_str b) = [py_str a, py_str b]"
    by (simp add: split_on_append split_on_id py_str_plain)
  then show ?thesis using False by (simp add: parse_part_def show_range_def)
qed (simp add: parse_part_def show_range_def py_str_plain)

lemma split_join:
  assumes "xs \<noteq> []" "\<And>x. x \<in> set xs \<Longrightarrow> CHR '','' \<notin> set x"
  shows "split_on CHR '','' (join_with '','' xs) = xs"
  using assms
proof (induction "'','' :: string" xs rule: join_with.induct)
  case (3 x y xs)
  then show ?case using split_on_append [of "CHR '',''" x "join_with '','' (y # xs)"] by simp
qed (simp_all add: split_on_id)

lemma show_range_plain: "CHR '','' \<notin> set (show_range r) \<and> show_range r \<noteq> []"
  by (cases r) (simp add: show_range_def py_str_plain)

lemma parse_show_cores:
  assumes "rs \<noteq> []"
  shows "parse_cores (Some (show_cores rs)) = Ret (Some (\<Union>(a, b) \<in> set rs. {int a..int b}))"
proof -
  have s: "split_on CHR '','' (show_cores rs) = map show_range rs"
    unfolding show_cores_def using assms show_range_plain by (intro split_join) auto
  have "rmap parse_part (map show_range rs) = Ret (map (\<lambda>(a, b). [int a..int b]) rs)" for rs
    by (induction rs) (auto simp: parse_show_range)
  moreover have "show_cores rs \<noteq> []"
  proof
    assume "show_cores rs = []"
    then have "[] \<in> set (map show_range rs)" unfolding s [symmetric] by simp
    then obtain r where "show_range r = []" by (metis imageE set_map)
    then show False using show_range_plain by blast
  qed
  ultimately show ?thesis unfolding parse_cores_def using s by (auto split: prod.splits)
qed

section \<open>The machine description\<close>

text \<open>\<open>bh_gov i\<close> and \<open>bh_no_turbo\<close> are contents after \<^verbatim>\<open>strip\<close>, \<open>None\<close> where reading fails; \<open>bh_git\<close> is what git printed, \<open>None\<close>
  where it cannot be run.\<close>

record bench_host =
  bh_cpu_count :: "nat option"
  bh_gov :: "nat \<Rightarrow> string option"
  bh_no_turbo :: "string option"
  bh_cpuinfo :: "string list res"
  bh_env :: "string \<rightharpoonup> string"
  bh_git :: "string option"
  bh_kernel :: string
  bh_affinity :: "int list"
  bh_now :: string

definition cpu_model :: "string list \<Rightarrow> string res" where
  "cpu_model lines =
     (case find (starts_with ''model name'') lines of
        None \<Rightarrow> Ret ''unknown''
      | Some l \<Rightarrow> (case split_on CHR '':'' l of
            _ # v # vs \<Rightarrow> Ret (strip (join_with '':'' (v # vs)))
          | _ \<Rightarrow> Raise IndexError))"

definition bench_governors :: "bench_host \<Rightarrow> string list" where
  "bench_governors H =
     (let n = (case bh_cpu_count H of None \<Rightarrow> 1 | Some k \<Rightarrow> if k = 0 then 1 else k)
      in sort (remdups (map (\<lambda>i. case bh_gov H i of None \<Rightarrow> ''unknown'' | Some g \<Rightarrow> if g = [] then ''unknown'' else g) [0..<n])))"

definition bench_commit :: "bench_host \<Rightarrow> string" where
  "bench_commit H =
     (let commit = take 7 (case bh_env H ''PPFDAAS_REPO_SHA'' of None \<Rightarrow> [] | Some s \<Rightarrow> s)
      in if commit = [] \<or> commit = ''unknown'' then
           (case bh_git H of None \<Rightarrow> ''unknown'' | Some out \<Rightarrow> if strip out = [] then ''unknown'' else strip out)
         else commit)"

definition pinned :: "int set option \<Rightarrow> json" where
  "pinned cores = (case cores of None \<Rightarrow> JStr ''unpinned''
     | Some cs \<Rightarrow> if cs = {} then JStr ''unpinned'' else JArr (map JInt (sorted_list_of_set cs)))"

definition opt_str :: "string option \<Rightarrow> json" where
  "opt_str v = (case v of None \<Rightarrow> JNull | Some s \<Rightarrow> JStr s)"

definition bench_machine_state :: "bench_host \<Rightarrow> int set option \<Rightarrow> int set option \<Rightarrow> nat option \<Rightarrow> json res" where
  "bench_machine_state H server_cores client_cores omp_threads =
     (let govs = bench_governors H in
      rbind (bh_cpuinfo H) (\<lambda>lines.
      rbind (cpu_model lines) (\<lambda>cpu.
      Ret (JObj
        [(''cpu_governor'', if length govs = 1 then JStr (hd govs) else JArr (map JStr govs)),
         (''intel_no_turbo'', opt_str (bh_no_turbo H)),
         (''cpu_model'', JStr cpu),
         (''logical_cores'', case bh_cpu_count H of None \<Rightarrow> JNull | Some n \<Rightarrow> JInt (int n)),
         (''kernel'', JStr (bh_kernel H)),
         (''omp_num_threads'', JStr (case omp_threads of Some n \<Rightarrow> py_str n
            | None \<Rightarrow> (case bh_env H ''OMP_NUM_THREADS'' of None \<Rightarrow> ''unset'' | Some s \<Rightarrow> s))),
         (''server_cores_pinned'', pinned server_cores),
         (''client_cores_pinned'', pinned client_cores),
         (''client_affinity_now'', JArr (map JInt (sort (bh_affinity H)))),
         (''git_commit'', JStr (bench_commit H)), (''seal_version'', JStr ''4.1.2''),
         (''timestamp_utc'', JStr (bh_now H))]))))"

text \<open>The written document; the machine is described after the rows are measured. Prose is shortened.\<close>

definition matrix_document :: "bench_host \<Rightarrow> bench_args \<Rightarrow> int set option \<Rightarrow> nat \<Rightarrow> nat \<Rightarrow> row list \<Rightarrow> json res" where
  "matrix_document H a client_cores n_requests warm rows =
     rbind (bench_machine_state H (map_option (image int) (ba_server_cores a)) client_cores (ba_omp a)) (\<lambda>ms.
     Ret (JObj [(''framing'', JObj
         [(''description'', JStr ''every row is parity-gated before timing''),
          (''scope_legend'', JObj [(''server_compute_only'', JStr ''benchmark_160, all four strategies''),
             (''e2e_grpc'', JStr ''fold and cnp only'')]),
          (''server_port'', JInt (int (ba_port a))),
          (''machine_state'', ms),
          (''requests_per_config'', JInt (int n_requests)), (''warmup_per_config'', JInt (int warm)),
          (''percentile_caveat'', JStr ''p99 over few requests is an order statistic'')]),
        (''rows'', JArr (map JObj rows))]))"

text \<open>The report names a governor only if every CPU runs under it, and it never names the empty commit.\<close>

lemma single_governor:
  assumes "bench_governors H = [g]"
  shows "\<forall>i < (case bh_cpu_count H of None \<Rightarrow> 1 | Some k \<Rightarrow> max k 1).
     (case bh_gov H i of None \<Rightarrow> ''unknown'' | Some s \<Rightarrow> if s = [] then ''unknown'' else s) = g"
proof -
  let ?n = "case bh_cpu_count H of None \<Rightarrow> 1 | Some k \<Rightarrow> if k = 0 then 1 else k"
  let ?f = "\<lambda>i. case bh_gov H i of None \<Rightarrow> ''unknown'' | Some s \<Rightarrow> if s = [] then ''unknown'' else s"
  have "set (bench_governors H) = ?f ` {..<?n}" by (simp add: bench_governors_def Let_def lessThan_atLeast0)
  then have "\<forall>i < ?n. ?f i = g" using assms by auto
  moreover have "?n = (case bh_cpu_count H of None \<Rightarrow> 1 | Some k \<Rightarrow> max k 1)" by (simp add: max_def split: option.splits)
  ultimately show ?thesis by simp
qed

lemma bench_commit_nonempty: "bench_commit H \<noteq> []"
  by (simp add: bench_commit_def Let_def split: option.splits)

section \<open>Key generation\<close>

definition keygen_time_us :: "(string \<Rightarrow> unit res) \<Rightarrow> (nat \<Rightarrow> real) \<Rightarrow> string \<Rightarrow> real res" where
  "keygen_time_us wrapper clk strategy =
     rbind (wrapper (if strategy = ''cnp'' then ''generate_keys_160_no_galois'' else ''generate_keys_160'')) (\<lambda>_.
     Ret ((clk 1 - clk 0) * 1000000))"

section \<open>One wrapper module\<close>

text \<open>The interpreter's search path and the modules it has loaded, oldest first. \<open>find_module name path\<close> runs the module's
  initialisation if the path leads to one.\<close>

record interpreter =
  sys_path :: "path list"
  loaded :: "string list"

definition import_module :: "(string \<Rightarrow> path list \<Rightarrow> unit res) \<Rightarrow> string \<Rightarrow> interpreter \<Rightarrow> unit res \<times> interpreter" where
  "import_module find_module name I =
     (if name \<in> set (loaded I) then (Ret (), I)
      else case find_module name (sys_path I) of
        Inl e \<Rightarrow> (Inl e, I)
      | Inr _ \<Rightarrow> (Ret (), I\<lparr>loaded := loaded I @ [name]\<rparr>))"

definition get_wrapper :: "(string \<Rightarrow> path list \<Rightarrow> unit res) \<Rightarrow> interpreter \<Rightarrow> unit res \<times> interpreter" where
  "get_wrapper find_module I =
     (case import_module find_module ''seal_wrapper_160'' I of
        (Inr _, I1) \<Rightarrow> (Ret (), I1)
      | (Inl e, I1) \<Rightarrow>
        if e \<noteq> ImportError then (Inl e, I1)
        else (case import_module find_module ''bank_client'' I1 of
            (Inl e, I2) \<Rightarrow> (Inl e, I2)
          | (Inr _, I2) \<Rightarrow>
            let I3 = (if ''bank_client'' \<in> set (sys_path I2) then I2 else I2\<lparr>sys_path := sys_path I2 @ [''bank_client'']\<rparr>)
            in import_module find_module ''seal_wrapper_160'' I3))"

lemma import_module_loaded: "n \<in> set (loaded I) \<Longrightarrow> import_module f n I = (Ret (), I)"
  by (simp add: import_module_def)

lemma import_module_ok:
  assumes "import_module f n I = (Ret (), I')"
  shows "n \<in> set (loaded I')" "sys_path I' = sys_path I" "set (loaded I) \<subseteq> set (loaded I')"
    "distinct (loaded I) \<Longrightarrow> distinct (loaded I')"
  using assms by (auto simp: import_module_def split: if_splits sum.splits)

lemma import_module_fail: "import_module f n I = (Inl e, I') \<Longrightarrow> I' = I"
  by (auto simp: import_module_def split: if_splits sum.splits)

text \<open>The wrapper is loaded once: a second call changes nothing. The search path only grows at its end, and by the
  package's directory only after the package itself is loaded, so that \<^verbatim>\<open>bank_client.py\<close> in it cannot take its name.\<close>

lemma get_wrapper_once:
  assumes "get_wrapper f I = (Ret (), I')"
  shows "get_wrapper g I' = (Ret (), I') \<and> set (loaded I) \<subseteq> set (loaded I') \<and> (distinct (loaded I) \<longrightarrow> distinct (loaded I'))
    \<and> (\<exists>k. sys_path I' = sys_path I @ k \<and> (k \<noteq> [] \<longrightarrow> ''bank_client'' \<in> set (loaded I')))"
proof -
  have again: "get_wrapper g I' = (Ret (), I')" if "''seal_wrapper_160'' \<in> set (loaded I')"
    using import_module_loaded [OF that, of g] by (simp add: get_wrapper_def)
  show ?thesis
  proof (cases "import_module f ''seal_wrapper_160'' I")
    case (Pair r I1)
    show ?thesis
    proof (cases r)
      case (Inr u)
      then have r1: "import_module f ''seal_wrapper_160'' I = (Ret (), I')" using assms Pair by (simp add: get_wrapper_def)
      show ?thesis using again import_module_ok [OF r1] by simp
    next
      case (Inl e)
      then have I1: "I1 = I" using Pair import_module_fail by simp
      then obtain I2 where I2: "import_module f ''bank_client'' I = (Ret (), I2)"
        and I': "import_module f ''seal_wrapper_160'' (if ''bank_client'' \<in> set (sys_path I2) then I2
             else I2\<lparr>sys_path := sys_path I2 @ [''bank_client'']\<rparr>) = (Ret (), I')"
        using assms Pair Inl by (auto simp: get_wrapper_def Let_def split: prod.splits sum.splits if_splits)
      note a = import_module_ok [OF I2] and b = import_module_ok [OF I']
      have "set (loaded I2) \<subseteq> set (loaded I')" using b(3) by (simp split: if_splits)
      moreover have "distinct (loaded I2) \<longrightarrow> distinct (loaded I')" using b(4) by (simp split: if_splits)
      moreover have "sys_path I' = sys_path I @ (if ''bank_client'' \<in> set (sys_path I) then [] else [''bank_client''])"
        using a(2) b(2) by (simp split: if_splits)
      ultimately show ?thesis using again [OF b(1)] a(1,3,4) by auto
    qed
  qed
qed

end
