(* ===== verification/StubServers.thy ===== *)
theory StubServers
  imports PyText
begin

text \<open>
  The two stand-ins for the vendor server: \<^verbatim>\<open>lab/mock_server.py\<close>, a process that binds the port, prints heartbeats and reacts
  to signals as its environment variables say, and \<^verbatim>\<open>server_stub.py\<close>, which answers every connection with a fixed line.
  Heartbeats, signals and connections are sequences of events; printed lines are left out.
\<close>

section \<open>Configuration\<close>

record mock_config =
  mc_handle :: bool
  mc_port :: int
  mc_exit_after :: int
  mc_exit_code :: int

definition getenv :: "(string \<rightharpoonup> string) \<Rightarrow> string \<Rightarrow> string \<Rightarrow> string" where
  "getenv env k d = (case env k of None \<Rightarrow> d | Some v \<Rightarrow> v)"

definition read_mock_config :: "(string \<rightharpoonup> string) \<Rightarrow> mock_config res" where
  "read_mock_config env =
     rbind (py_int (getenv env ''PORT'' ''50052'')) (\<lambda>port.
     rbind (py_int (getenv env ''EXIT_AFTER'' ''0'')) (\<lambda>after.
     rbind (py_int (getenv env ''EXIT_CODE'' ''1'')) (\<lambda>code.
     Ret \<lparr>mc_handle = (getenv env ''HANDLE_SIGTERM'' ''1'' = ''1''), mc_port = port, mc_exit_after = after, mc_exit_code = code\<rparr>)))"

section \<open>The heartbeat loop\<close>

text \<open>Without a handler \<^verbatim>\<open>SIGINT\<close> is Python's \<^verbatim>\<open>KeyboardInterrupt\<close>, and \<^verbatim>\<open>SIGTERM\<close> has its default effect, which the first process of
  a container does not have: \<open>fatal\<close> tells whether it ends the process.\<close>

datatype mock_event = Beat | SigTerm | SigInt

datatype mock_state = Beating int | Exited int | Killed

fun mock_step :: "bool \<Rightarrow> mock_config \<Rightarrow> mock_state \<Rightarrow> mock_event \<Rightarrow> mock_state" where
  "mock_step fatal c (Beating beat) Beat =
     (if mc_exit_after c \<noteq> 0 \<and> beat + 1 \<ge> mc_exit_after c then Exited (mc_exit_code c) else Beating (beat + 1))"
| "mock_step fatal c (Beating beat) SigTerm = (if mc_handle c then Exited 0 else if fatal then Killed else Beating beat)"
| "mock_step fatal c (Beating beat) SigInt = (if mc_handle c then Exited 0 else Killed)"
| "mock_step fatal c s ev = s"

definition mock_run :: "bool \<Rightarrow> mock_config \<Rightarrow> mock_event list \<Rightarrow> mock_state" where
  "mock_run fatal c evs = foldl (mock_step fatal c) (Beating 0) evs"

text \<open>\<^verbatim>\<open>bind\<close> fails for a port in use or out of range.\<close>

definition mock_main :: "(int \<Rightarrow> unit res) \<Rightarrow> (string \<rightharpoonup> string) \<Rightarrow> bool \<Rightarrow> mock_event list \<Rightarrow> mock_state res" where
  "mock_main bind_port env fatal evs =
     rbind (read_mock_config env) (\<lambda>c. rbind (bind_port (mc_port c)) (\<lambda>_. Ret (mock_run fatal c evs)))"

section \<open>The fixed answer\<close>

definition STUB_REPLY :: string where
  "STUB_REPLY = ''PPFDaaS-stub: HE inference would happen here'' @ [CHR 0x0A]"

text \<open>\<open>send c\<close> tells whether sending to a connection succeeds; an exception ends the process.\<close>

fun stub_serve :: "('c \<Rightarrow> unit res) \<Rightarrow> 'c list \<Rightarrow> ('c \<times> string) list \<times> pyexc option" where
  "stub_serve send [] = ([], None)"
| "stub_serve send (c # cs) =
     (case send c of
        Inl e \<Rightarrow> ([], Some e)
      | Inr _ \<Rightarrow> (case stub_serve send cs of (out, r) \<Rightarrow> ((c, STUB_REPLY) # out, r)))"

section \<open>When the mock ends\<close>

lemma mock_absorbing: "foldl (mock_step fatal c) (Exited r) evs = Exited r" "foldl (mock_step fatal c) Killed evs = Killed"
  by (induction evs) simp_all

text \<open>Heartbeats alone end it exactly at the configured count, with the configured status; count 0 never.\<close>

lemma mock_beats:
  "mock_run fatal c (replicate n Beat) =
     (if mc_exit_after c = 0 \<or> n = 0 \<or> int n < mc_exit_after c then Beating (int n) else Exited (mc_exit_code c))"
proof (induction n)
  case (Suc n)
  have "mock_run fatal c (replicate (Suc n) Beat) = mock_step fatal c (mock_run fatal c (replicate n Beat)) Beat"
    unfolding mock_run_def replicate_Suc replicate_append_same [symmetric] by simp
  then show ?case using Suc by auto
qed (simp add: mock_run_def)

text \<open>With a handler the first signal that finds it running is a clean exit, whatever follows.\<close>

lemma mock_handled_signal:
  assumes "mc_handle c" "mock_run fatal c evs = Beating b" "sig \<in> {SigTerm, SigInt}"
  shows "mock_run fatal c (evs @ sig # rest) = Exited 0"
  using assms mock_absorbing(1) [of fatal c 0 rest] by (auto simp: mock_run_def)

text \<open>Without one, as the first process of a container, it ignores every \<^verbatim>\<open>SIGTERM\<close>.\<close>

lemma mock_pid1_trap:
  assumes "\<not> mc_handle c"
  shows "mock_run False c evs = mock_run False c (filter (\<lambda>e. e \<noteq> SigTerm) evs)"
proof -
  have "mock_step False c s SigTerm = s" for s using assms by (cases s) simp_all
  then have "foldl (mock_step False c) s evs = foldl (mock_step False c) s (filter (\<lambda>e. e \<noteq> SigTerm) evs)" for s
    by (induction evs arbitrary: s) auto
  then show ?thesis by (simp add: mock_run_def)
qed

lemma stub_serves_prefix:
  "fst (stub_serve send cs) = map (\<lambda>c. (c, STUB_REPLY)) (takeWhile (\<lambda>c. is_ret (send c)) cs)"
  by (induction cs) (auto split: sum.splits prod.splits)

end
