(* ===== verification/Spec2Isabelle.thy ===== *)
theory Spec2Isabelle
  imports MaskCheck CnpB Tables RotationKeys Quantise DemoScripts Precision SummaryScripts MatchedPair LaptopReports Governor Rpc BenchHost StubServers
begin

text \<open>
  \<^bold>\<open>Verification of PPFDaaS, a privacy-preserving fraud-detection service.\<close>

  \<^bold>\<open>The program.\<close> A bank holds transactions, a vendor holds a linear fraud model. The bank encrypts up to sixteen
  transactions of 256 features into one CKKS ciphertext (\<^emph>\<open>slot\<close> packing, one lane of 256 slots per transaction) or
  up to thirty-two into the coefficients of one polynomial (\<^emph>\<open>CNP\<close> packing); the vendor multiplies by the weights,
  adds up each lane (rotations under Galois keys the bank uploaded, or the negacyclic product itself), adds the bias and,
  for CNP, a mask over everything that is not an output; the bank decrypts and applies the sigmoid. Around this core are
  an offline compiler that trains the model and writes the weight file, gates that stop every measurement whose encrypted
  logits are not the plaintext ones, and harnesses that run, stamp and compare measurements.

  \<^bold>\<open>Theories, in the order of dependence.\<close>

  \<^item> \<open>Prelude\<close>: exceptions as values, the result monad (\<open>rbind\<close>, \<open>rmap\<close>), lists, little-endian encodings, binary64 bit
    patterns, numpy arrays with a shape, Python floats with NaN and infinities, decimal rendering of numbers.
  \<^item> \<open>PyText\<close>: the Python string operations the scripts use (\<^verbatim>\<open>split\<close>, \<^verbatim>\<open>strip\<close>, prefixes, \<^verbatim>\<open>int\<close>). Shown: \<^verbatim>\<open>int\<close> reads back what
    \<^verbatim>\<open>str\<close> printed.
  \<^item> \<open>WeightFile\<close>: \<^verbatim>\<open>artifacts/model_weights.bin\<close> as bytes, its writers (\<^verbatim>\<open>compiler/serialize_weights.py\<close>,
    \<^verbatim>\<open>serialize_degree2_weights.py\<close>) and all its readers. The locales \<open>weight_reader\<close> and \<open>strict_weight_reader\<close> state what a
    reader promises; every reader of the code interprets one of them. Shown: write then read gives the weights back, the
    strict readers accept exactly the well-formed files, the lax one accepts truncated files.
  \<^item> \<open>SlotFold\<close>: the rotate-and-add reductions of \<^verbatim>\<open>tests/numeric_oracle.py\<close> and \<^verbatim>\<open>vendor_server/src/rotation_hoisting.cpp\<close>, in
    the locale \<open>slot_backend\<close> over any rotation and addition with bounded error. Shown: the three routines agree with the
    dot product of each lane, up to the error bound.
  \<^item> \<open>Negacyclic\<close>, \<open>CnpGate\<close>, \<open>MaskCheck\<close>: \<^verbatim>\<open>scripts/cnp_gate.py\<close>. Shown: the big-integer product is the naive negacyclic
    product, the layout trials pass for the layout used, a quantisation cell called safe is exact modulo \<open>t\<close>, the CKKS cell
    has the stated error bound, the unmasked product reveals the weights and the masked one is what the check accepts, and
    what the recommendation rests on.
  \<^item> \<open>Provisioning\<close>, \<open>Vendor\<close>: \<^verbatim>\<open>vendor_server/include/provisioning_state.h\<close> (four transitions, as an event-driven machine
    with reachable states) and the service \<^verbatim>\<open>vendor_server/src/inference_service_160.cpp\<close> (record \<open>server\<close>, one definition per
    RPC). SEAL is the record \<open>seal\<close> of functions; the locales \<open>ckks_slots\<close> and \<open>ckks_coeffs\<close> hold its documented approximate
    arithmetic and are interpreted on the plaintext backend \<open>plain_seal\<close>. Shown: FAULT is terminal, an answer OK is given only
    by a ready server on a valid ciphertext, the server trips at the third failure in total.
  \<^item> \<open>BankClient\<close>: \<^verbatim>\<open>bank_client/bank_client.py\<close> and the wrapper calls it makes (record \<open>client\<close>, \<open>run_inference\<close>,
    \<open>provision_and_validate\<close>, \<open>client_init\<close>); the gRPC channel is the record \<open>stub\<close>, instantiated with the vendor's handlers by
    \<open>vendor_stub\<close>. Shown: client and server together compute \<open>sigmoid (x . w + b)\<close> per transaction within the error bound,
    for both packings; the handshake ends READY exactly for keys whose canary is within tolerance; the reused padding
    buffer leaks nothing between requests.
  \<^item> \<open>Rpc\<close>: the generated gRPC modules \<^verbatim>\<open>generated/inference_pb2_grpc.py\<close> and \<^verbatim>\<open>inference.grpc.pb.h\<close>: messages, stub, servicer, method
    tables and static calls, over the locales \<open>protobuf_codec\<close>, \<open>grpc_channel\<close> and \<open>experimental_call\<close>, interpreted on an
    in-process channel. Shown: a call over the wire gives the client what the vendor's handler returned, so the record
    \<open>stub\<close> of the bank client is what the generated code provides; the Python module lacks one method of the service.
  \<^item> \<open>StubServers\<close>: \<^verbatim>\<open>mock_server.py\<close> and \<^verbatim>\<open>server_stub.py\<close>, the heartbeat loop as a machine over events, and the fixed answers.
  \<^item> \<open>Compiler\<close>: training scripts, degree-2 expansion, AUC dispatch and key generation of \<^verbatim>\<open>compiler/\<close>. Shown: features stay in
    \<open>[-1, 1]\<close>, weights and metadata agree, the degree-2 path cannot complete.
  \<^item> \<open>Harness\<close>: server processes, batched logits and error reports (\<^verbatim>\<open>scripts/cnp_common.py\<close>, \<^verbatim>\<open>cnp_parity.py\<close>) and the parity
    gate (\<^verbatim>\<open>scripts/parity_gate.py\<close>), with the locale \<open>batch_service\<close> for what a batch of logits needs from a server.
    Shown: the parity run measures the error bound of the circuit, the gate passes exactly within tolerance, no server
    process outlives the run.
  \<^item> \<open>Json\<close>: documents, subscripts and report files, for the theories below.
  \<^item> \<open>Pipeline\<close>: \<^verbatim>\<open>scripts/reproduce_all.py\<close>, thirteen steps with servers, prerequisites and declared outputs. Shown: commands
    that need a server run only while it lives and no server is left behind, success means every declared output exists, the
    polling loop ends.
  \<^item> \<open>PrivacyCost\<close>: \<^verbatim>\<open>scripts/privacy_cost_analysis.py\<close>. Shown: the report is assembled only from chains that passed the gate,
    and the pipeline step that runs it cannot pass its own port check.
  \<^item> \<open>LaptopCompare\<close>: \<^verbatim>\<open>scripts/bfv_slot_baseline/run_laptop_compare.py\<close> and \<^verbatim>\<open>replicate_ranges.py\<close>. Shown: an arm counts
    exactly when machine, memory and test were in order; both scripts read the same times out of a result.
  \<^item> \<open>LaptopReports\<close>: the rows, documents, Markdown tables and files of the same two scripts. Shown: the files of a session
    are those of the abstract session loop, both reports take the same figures from a cell, and the comparison
    treats a cell as complete even when one of its arms was killed.
  \<^item> \<open>Governor\<close>: \<^verbatim>\<open>scripts/governor_harness/\<close> and \<^verbatim>\<open>scripts/c3_client_server_comparison.py\<close>. Shown: no measurement is stamped
    or accepted under a governor that was not read, the comparison of two snapshots flags exactly the moved fields.
  \<^item> \<open>RotationKeys\<close>: \<^verbatim>\<open>scripts/bfv_slot_baseline/stc_rotation_keys.py\<close>, the rotation keys a slots-to-coefficients transform needs. Shown:
    the diagonals of the transform, and that the keys counted cover its baby-step giant-step split.
  \<^item> \<open>Quantise\<close>, \<open>Percentiles\<close>: \<^verbatim>\<open>scripts/quantisation_sweep.py\<close> and the order facts of means, medians and
    percentiles that every report with statistics uses. Shown: the logit error bound of a scale, the verdict of the sweep.
  \<^item> \<open>CnpB\<close>, \<open>CnpBench\<close>: \<^verbatim>\<open>scripts/cnp_b/prepare_inputs.py\<close>, \<^verbatim>\<open>score.py\<close>, and the driver \<^verbatim>\<open>scripts/cnp_bench.py\<close>. Shown: the prepared
    integers are exact and within the plaintext modulus, the scoring is sound, no time is recorded before its gate passed.
  \<^item> \<open>BenchHost\<close>: the machine description, core lists, matrix document, key times and wrapper import of the driver. Shown: a core
    list is read back from its text, and one governor is reported only when every core has it.
  \<^item> \<open>Reports\<close>, \<open>Breakeven\<close>: \<^verbatim>\<open>scripts/hhe_breakeven.py\<close>. Shown: its gate, the thirty-six cells, that the headroom of a cell is the
    time left to the server, the heat map.
  \<^item> \<open>Workers\<close>, \<open>ExecMatrix\<close>: \<^verbatim>\<open>scripts/build_execution_matrix.py\<close>. The client threads are a step relation over any
    schedule, in the locale \<open>worker_pool\<close>, interpreted on the vendor's service. Shown: every client is served under every schedule, and
    every cell of the matrix carries the provenance of the value it shows.
  \<^item> \<open>ReportGen\<close>: \<^verbatim>\<open>scripts/rotation_strategy_comparison.py\<close>, \<^verbatim>\<open>generate_ablation.py\<close>, \<^verbatim>\<open>measure_wire_size.py\<close>,
    \<^verbatim>\<open>generate_amortization_table.py\<close> and \<^verbatim>\<open>bandwidth_ladder.py\<close>. Shown: what they write is what the matrix reads; the ladder's factors are the
    inverse of what their names say.
  \<^item> \<open>Tables\<close>: what four of the scripts print, as lines, with the rendering of single values as an argument. Shown: the tables are
    aligned, every table the scripts build can be printed (the driver's when the benchmark binary reported numbers), the summary of the
    break-even map and the labels of its picture show the cells of depth 1.
  \<^item> \<open>LatencyReport\<close>, \<open>MatchedPair\<close>: \<^verbatim>\<open>scripts/e2e_latency_breakdown.py\<close> and \<^verbatim>\<open>scripts/privacy_cost_matched_pair.py\<close>. Shown: a latency
    report exists only after the gate and on the full number of responses, which server the script can leave running, and that the
    privacy report quotes the matched pair's figures.
  \<^item> \<open>DemoScripts\<close>, \<open>Precision\<close>, \<open>SummaryScripts\<close>: the demonstration, artefact and set-up scripts, \<^verbatim>\<open>scripts/precision_analysis.py\<close>,
    and \<^verbatim>\<open>benchmark_multirun.py\<close>, \<^verbatim>\<open>show_accuracy_check.py\<close>, \<^verbatim>\<open>generate_roc.py\<close>. Shown: the demo flags exactly the transactions
    whose score passes the threshold, stage maxima bound every lane's error, the runs that count in a multi-run summary, and
    the ROC and accuracy scripts report the same areas.

  \<^bold>\<open>State and effects.\<close> Stateful code passes its record explicitly and returns it updated; raised exceptions, exit statuses
  and gRPC errors are values. Files are maps from paths to bytes (\<open>fs\<close>) or documents (\<open>jfs\<close>). What the environment decides
  (random draws, clocks, processes, connection attempts, commands run, readings of \<^verbatim>\<open>/sys\<close>) is an argument, indexed by the
  number of the reading where the code reads it repeatedly.

  \<^bold>\<open>Idealisations.\<close> Finite Python and numpy floats are exact reals (NaN and infinities are kept); weight files and integer
  arrays are kept at their widths, numpy \<^verbatim>\<open>int64\<close> wraps, counters of the vendor are 64-bit words. SEAL, gRPC, scikit-learn, XGBoost,
  scipy and the operating system are arguments, with documented behaviour as named hypotheses; witnesses instantiate them.
  Message texts, progress lines and prose fields of reports are left out.

  \<^bold>\<open>Fuel.\<close> The polling loop of the pipeline takes \<open>POLL_FUEL = 152\<close> rounds: each round sleeps, so a deadline of that many sleeps has
  passed before; that the loop returns is a theorem. Waiting for a port in the harness makes at most 80 attempts because
  the code does.

  \<^bold>\<open>Not modelled.\<close> The C++ internals below the service (NTT, RNS and key generation inside SEAL) and the 200-bit chain's
  server, whose answers are arguments; the Go tools; the protobuf and gRPC libraries with the serialised descriptor of
  \<^verbatim>\<open>inference_pb2.py\<close> and the asynchronous C++ stubs; tests and shell scripts; plotting; prose fields, command-line help and
  the printed lines that are not tables, which no other code reads.
\<close>

end
